(* ===== verification/Prelude.thy ===== *)
theory Prelude
  imports Main "HOL-Library.Word" "HOL-Library.Char_ord" "HOL-Library.List_Lexorder"
    "HOL-Library.Product_Lexorder" "HOL-Library.Sublist"
begin

text \<open>
  What every component of the development shares: Go's instants and durations, the
  state-and-error programs in which the stateful code is written, a weakest-precondition
  calculus and an invariant calculus for them, the contract of an invariant-preserving
  machine, and generic facts on lists of rows.

  Go's \<open>time.Time\<close> is an \<open>int\<close> that counts nanoseconds from Go's zero instant
  (1 January of year 1, UTC), so that \<open>IsZero\<close> is \<open>= 0\<close>; a \<open>time.Duration\<close>
  is an \<open>int\<close> of nanoseconds. A Go string is a \<open>string\<close> whose characters are its
  bytes. A call that returns \<open>(T, error)\<close> and may change state is a program of type
  \<open>('s, 'e, 'a) prog\<close>.
\<close>

named_theorems prog_simps \<open>running a program on a state\<close>
named_theorems wp_simps \<open>weakest preconditions of programs\<close>
named_theorems keeps_intros \<open>programs that keep an invariant whatever they return\<close>
named_theorems error_intros \<open>programs that keep an invariant when they fail\<close>
named_theorems raises_intros \<open>errors a program fails with\<close>

section \<open>Instants and durations\<close>

type_synonym time = int
type_synonym duration = int
type_synonym byte = "8 word"

abbreviation second :: duration where "second \<equiv> 1000000000"
abbreviation minute :: duration where "minute \<equiv> 60000000000"
abbreviation hour :: duration where "hour \<equiv> 3600000000000"

text \<open>\<open>t.IsZero()\<close>, \<open>a.Before(b)\<close> and \<open>a.After(b)\<close> of package time.\<close>

definition is_zero :: "time \<Rightarrow> bool" where
  "is_zero t \<longleftrightarrow> t = 0"

definition before :: "time \<Rightarrow> time \<Rightarrow> bool" where
  "before a b \<longleftrightarrow> a < b"

definition after :: "time \<Rightarrow> time \<Rightarrow> bool" where
  "after a b \<longleftrightarrow> b < a"

text \<open>
  \<open>t.Sub(u)\<close> saturates at the ends of the 64-bit duration range, and \<open>d.Round(m)\<close>
  rounds half away from zero to a multiple of \<open>m\<close>.
\<close>

definition max_duration :: duration where "max_duration = 2 ^ 63 - 1"
definition min_duration :: duration where "min_duration = - (2 ^ 63)"

definition time_sub :: "time \<Rightarrow> time \<Rightarrow> duration" where
  "time_sub t u = max min_duration (min max_duration (t - u))"

definition dur_round :: "duration \<Rightarrow> duration \<Rightarrow> duration" where
  "dur_round d m =
     (if m \<le> 0 then d
      else let r = \<bar>d\<bar> mod m; a = (if r + r < m then \<bar>d\<bar> - r else \<bar>d\<bar> + m - r)
           in if d < 0 then max min_duration (- a) else min max_duration a)"

lemma time_sub_in_range: "min_duration \<le> time_sub t u \<and> time_sub t u \<le> max_duration"
  by (simp add: time_sub_def min_duration_def max_duration_def)

lemma time_sub_exact:
  "min_duration \<le> t - u \<Longrightarrow> t - u \<le> max_duration \<Longrightarrow> time_sub t u = t - u"
  by (simp add: time_sub_def)

lemma time_sub_pos: "u < t \<Longrightarrow> 0 < time_sub t u"
  by (simp add: time_sub_def min_duration_def max_duration_def min_def max_def)

section \<open>Programs: state passing with errors as values\<close>

text \<open>
  A program maps a state to an error (\<open>Inl\<close>) or a result (\<open>Inr\<close>) and the state after
  it: the state is kept on errors too, since Go code that returns an error has already
  done whatever it did before.
\<close>

type_synonym ('s, 'e, 'a) prog = "'s \<Rightarrow> ('e + 'a) \<times> 's"

definition returnE :: "'a \<Rightarrow> ('s, 'e, 'a) prog" where
  "returnE x = (\<lambda>s. (Inr x, s))"

definition throwE :: "'e \<Rightarrow> ('s, 'e, 'a) prog" where
  "throwE e = (\<lambda>s. (Inl e, s))"

text \<open>\<open>x, err := m; if err != nil { return err }; f(x)\<close>\<close>

definition bindE :: "('s, 'e, 'a) prog \<Rightarrow> ('a \<Rightarrow> ('s, 'e, 'b) prog) \<Rightarrow> ('s, 'e, 'b) prog" where
  "bindE m f = (\<lambda>s. case m s of (Inl e, s') \<Rightarrow> (Inl e, s') | (Inr x, s') \<Rightarrow> f x s')"

text \<open>\<open>x, err := m\<close> followed by code that looks at both.\<close>

definition attemptE :: "('s, 'e, 'a) prog \<Rightarrow> ('e + 'a \<Rightarrow> ('s, 'e, 'b) prog) \<Rightarrow> ('s, 'e, 'b) prog" where
  "attemptE m f = (\<lambda>s. case m s of (r, s') \<Rightarrow> f r s')"

definition thenE :: "('s, 'e, unit) prog \<Rightarrow> ('s, 'e, 'b) prog \<Rightarrow> ('s, 'e, 'b) prog" where
  "thenE m k = bindE m (\<lambda>_. k)"

definition whenE :: "bool \<Rightarrow> ('s, 'e, unit) prog \<Rightarrow> ('s, 'e, unit) prog" where
  "whenE b m = (if b then m else returnE ())"

definition readE :: "('s \<Rightarrow> 'a) \<Rightarrow> ('s, 'e, 'a) prog" where
  "readE f = (\<lambda>s. (Inr (f s), s))"

definition modifyE :: "('s \<Rightarrow> 's) \<Rightarrow> ('s, 'e, unit) prog" where
  "modifyE f = (\<lambda>s. (Inr (), f s))"

text \<open>\<open>_ = m\<close>: the call is made and its error dropped.\<close>

definition ignoreE :: "('s, 'e, 'a) prog \<Rightarrow> ('s, 'e, unit) prog" where
  "ignoreE m = attemptE m (\<lambda>_. returnE ())"

lemma returnE_run [prog_simps]: "returnE x s = (Inr x, s)"
  by (simp add: returnE_def)

lemma throwE_run [prog_simps]: "throwE e s = (Inl e, s)"
  by (simp add: throwE_def)

lemma readE_run [prog_simps]: "readE f s = (Inr (f s), s)"
  by (simp add: readE_def)

lemma modifyE_run [prog_simps]: "modifyE f s = (Inr (), f s)"
  by (simp add: modifyE_def)

lemma bindE_run [prog_simps]:
  "bindE m f s = (case m s of (Inl e, s') \<Rightarrow> (Inl e, s') | (Inr x, s') \<Rightarrow> f x s')"
  by (simp add: bindE_def)

lemma attemptE_run [prog_simps]: "attemptE m f s = (case m s of (r, s') \<Rightarrow> f r s')"
  by (simp add: attemptE_def)

lemma thenE_run [prog_simps]:
  "thenE m k s = (case m s of (Inl e, s') \<Rightarrow> (Inl e, s') | (Inr x, s') \<Rightarrow> k s')"
  by (simp add: thenE_def bindE_def)

lemma whenE_run [prog_simps]: "whenE b m s = (if b then m s else (Inr (), s))"
  by (simp add: whenE_def returnE_def)

lemma ignoreE_run [prog_simps]: "ignoreE m s = (Inr (), snd (m s))"
  by (simp add: ignoreE_def attemptE_def returnE_def split: prod.splits)

lemma bindE_Inr:
  "bindE m f s = (Inr y, t) \<longleftrightarrow> (\<exists>x s'. m s = (Inr x, s') \<and> f x s' = (Inr y, t))"
  by (auto simp: bindE_def split: prod.splits sum.splits)

lemma bindE_InrE:
  assumes "bindE m f s = (Inr y, t)"
  obtains x s' where "m s = (Inr x, s')" and "f x s' = (Inr y, t)"
  using assms by (auto simp: bindE_Inr)

lemma bindE_assoc: "bindE (bindE m f) g = bindE m (\<lambda>x. bindE (f x) g)"
  by (rule ext) (auto simp: bindE_def split: prod.splits sum.splits)

lemma bindE_returnE [simp]: "bindE (returnE x) f = f x"
  by (rule ext) (simp add: bindE_def returnE_def)

subsection \<open>Weakest preconditions\<close>

text \<open>
  \<open>wp m Q E s\<close>: from \<open>s\<close> the program ends with a result that satisfies \<open>Q\<close> in its
  final state, or with an error that satisfies \<open>E\<close>. Programs are total, so this is
  total correctness.
\<close>

definition wp :: "('s, 'e, 'a) prog \<Rightarrow> ('a \<Rightarrow> 's \<Rightarrow> bool) \<Rightarrow> ('e \<Rightarrow> 's \<Rightarrow> bool) \<Rightarrow> 's \<Rightarrow> bool" where
  "wp m Q E s = (case m s of (Inl e, s') \<Rightarrow> E e s' | (Inr x, s') \<Rightarrow> Q x s')"

lemma wp_returnE [wp_simps]: "wp (returnE x) Q E s = Q x s"
  by (simp add: wp_def returnE_def)

lemma wp_throwE [wp_simps]: "wp (throwE e) Q E s = E e s"
  by (simp add: wp_def throwE_def)

lemma wp_readE [wp_simps]: "wp (readE f) Q E s = Q (f s) s"
  by (simp add: wp_def readE_def)

lemma wp_modifyE [wp_simps]: "wp (modifyE f) Q E s = Q () (f s)"
  by (simp add: wp_def modifyE_def)

lemma wp_bindE [wp_simps]: "wp (bindE m f) Q E s = wp m (\<lambda>x. wp (f x) Q E) E s"
  by (simp add: wp_def bindE_def split: prod.splits sum.splits)

lemma wp_attemptE [wp_simps]:
  "wp (attemptE m f) Q E s = wp m (\<lambda>x. wp (f (Inr x)) Q E) (\<lambda>e. wp (f (Inl e)) Q E) s"
  by (simp add: wp_def attemptE_def split: prod.splits sum.splits)

lemma wp_thenE [wp_simps]: "wp (thenE m k) Q E s = wp m (\<lambda>_. wp k Q E) E s"
  by (simp add: thenE_def wp_bindE)

lemma wp_whenE [wp_simps]: "wp (whenE b m) Q E s = (if b then wp m Q E s else Q () s)"
  by (simp add: whenE_def wp_returnE)

lemma wp_if [wp_simps]: "wp (if b then m else n) Q E s = (if b then wp m Q E s else wp n Q E s)"
  by simp

lemma wp_ignoreE [wp_simps]: "wp (ignoreE m) Q E s = wp m (\<lambda>_. Q ()) (\<lambda>_. Q ()) s"
  by (simp add: ignoreE_def wp_def attemptE_def returnE_def split: prod.splits sum.splits)

lemma wp_mono:
  "wp m Q E s \<Longrightarrow> (\<And>x t. Q x t \<Longrightarrow> Q' x t) \<Longrightarrow> (\<And>e t. E e t \<Longrightarrow> E' e t) \<Longrightarrow> wp m Q' E' s"
  by (auto simp: wp_def split: prod.splits sum.splits)

lemma wp_conj: "wp m Q E s \<Longrightarrow> wp m Q' E' s \<Longrightarrow> wp m (\<lambda>x t. Q x t \<and> Q' x t) (\<lambda>e t. E e t \<and> E' e t) s"
  by (auto simp: wp_def split: prod.splits sum.splits)

lemma wp_result: "wp m Q E s \<Longrightarrow> m s = (Inr x, t) \<Longrightarrow> Q x t"
  by (simp add: wp_def)

lemma wp_error: "wp m Q E s \<Longrightarrow> m s = (Inl e, t) \<Longrightarrow> E e t"
  by (simp add: wp_def)

lemma wpI_result: "(\<And>x t. m s = (Inr x, t) \<Longrightarrow> Q x t) \<Longrightarrow> wp m Q (\<lambda>_ _. True) s"
  by (auto simp: wp_def split: prod.splits sum.splits)

subsection \<open>Programs that keep a state predicate\<close>

text \<open>
  \<open>keeps I m\<close>: whatever \<open>m\<close> returns, a state that satisfies \<open>I\<close> is left as one that
  does. Unlike a weakest precondition this does not look at results, so the rules below
  decompose a whole handler without duplicating its continuations.
\<close>

definition keeps :: "('s \<Rightarrow> bool) \<Rightarrow> ('s, 'e, 'a) prog \<Rightarrow> bool" where
  "keeps I m \<longleftrightarrow> (\<forall>s. I s \<longrightarrow> I (snd (m s)))"

lemma keepsI: "(\<And>s. I s \<Longrightarrow> I (snd (m s))) \<Longrightarrow> keeps I m"
  by (simp add: keeps_def)

lemma keepsD: "keeps I m \<Longrightarrow> I s \<Longrightarrow> I (snd (m s))"
  by (simp add: keeps_def)

lemma keeps_run: "keeps I m \<Longrightarrow> I s \<Longrightarrow> m s = (r, t) \<Longrightarrow> I t"
  by (metis keepsD snd_conv)

lemma keeps_returnE [keeps_intros]: "keeps I (returnE x)"
  by (simp add: keeps_def returnE_def)

lemma keeps_throwE [keeps_intros]: "keeps I (throwE e)"
  by (simp add: keeps_def throwE_def)

lemma keeps_readE [keeps_intros]: "keeps I (readE f)"
  by (simp add: keeps_def readE_def)

lemma keeps_modifyE [keeps_intros]: "(\<And>s. I s \<Longrightarrow> I (f s)) \<Longrightarrow> keeps I (modifyE f)"
  by (simp add: keeps_def modifyE_def)

lemma keeps_bindE [keeps_intros]: "keeps I m \<Longrightarrow> (\<And>x. keeps I (f x)) \<Longrightarrow> keeps I (bindE m f)"
  unfolding keeps_def bindE_def by (fastforce split: prod.splits sum.splits)

lemma keeps_attemptE [keeps_intros]:
  "keeps I m \<Longrightarrow> (\<And>r. keeps I (f r)) \<Longrightarrow> keeps I (attemptE m f)"
  unfolding keeps_def attemptE_def by (fastforce split: prod.splits)

lemma keeps_thenE [keeps_intros]: "keeps I m \<Longrightarrow> keeps I k \<Longrightarrow> keeps I (thenE m k)"
  unfolding thenE_def by (rule keeps_bindE)

lemma keeps_whenE [keeps_intros]: "(b \<Longrightarrow> keeps I m) \<Longrightarrow> keeps I (whenE b m)"
  by (simp add: whenE_def keeps_returnE)

lemma keeps_ignoreE [keeps_intros]: "keeps I m \<Longrightarrow> keeps I (ignoreE m)"
  unfolding ignoreE_def by (intro keeps_attemptE keeps_returnE)

lemma keeps_if [keeps_intros]:
  "(b \<Longrightarrow> keeps I m) \<Longrightarrow> (\<not> b \<Longrightarrow> keeps I n) \<Longrightarrow> keeps I (if b then m else n)"
  by simp

lemma keeps_case_option [keeps_intros]:
  "(x = None \<Longrightarrow> keeps I m) \<Longrightarrow> (\<And>a. x = Some a \<Longrightarrow> keeps I (f a))
    \<Longrightarrow> keeps I (case x of None \<Rightarrow> m | Some a \<Rightarrow> f a)"
  by (cases x) simp_all

lemma keeps_case_sum [keeps_intros]:
  "(\<And>e. x = Inl e \<Longrightarrow> keeps I (f e)) \<Longrightarrow> (\<And>a. x = Inr a \<Longrightarrow> keeps I (g a))
    \<Longrightarrow> keeps I (case x of Inl e \<Rightarrow> f e | Inr a \<Rightarrow> g a)"
  by (cases x) simp_all

lemma keeps_case_prod [keeps_intros]:
  "(\<And>a b. x = (a, b) \<Longrightarrow> keeps I (f a b)) \<Longrightarrow> keeps I (case x of (a, b) \<Rightarrow> f a b)"
  by (cases x) simp

lemma keeps_conj: "keeps I m \<Longrightarrow> keeps J m \<Longrightarrow> keeps (\<lambda>s. I s \<and> J s) m"
  by (simp add: keeps_def)

lemmas keeps_core = keeps_returnE keeps_throwE keeps_readE keeps_bindE keeps_attemptE keeps_thenE
  keeps_whenE keeps_ignoreE keeps_if keeps_case_option keeps_case_sum keeps_case_prod

text \<open>A frame: the program leaves a projection of the state as it was.\<close>

definition frames :: "('s \<Rightarrow> 'f) \<Rightarrow> ('s, 'e, 'a) prog \<Rightarrow> bool" where
  "frames f m \<longleftrightarrow> (\<forall>s. f (snd (m s)) = f s)"

lemma frames_iff_keeps: "frames f m \<longleftrightarrow> (\<forall>v. keeps (\<lambda>s. f s = v) m)"
  by (auto simp: frames_def keeps_def)

lemma framesI: "(\<And>v. keeps (\<lambda>s. f s = v) m) \<Longrightarrow> frames f m"
  by (simp add: frames_iff_keeps)

lemma framesD: "frames f m \<Longrightarrow> m s = (r, t) \<Longrightarrow> f t = f s"
  by (metis frames_def snd_conv)

subsection \<open>What holds after an error, and which errors there are\<close>

text \<open>
  \<open>on_error I m\<close>: when \<open>m\<close> fails, a state that satisfied \<open>I\<close> still does, although a
  success may break it. \<open>succeeds m\<close>: \<open>m\<close> never fails. \<open>raises E m\<close>: it fails with errors
  of \<open>E\<close> only.
\<close>

definition on_error :: "('s \<Rightarrow> bool) \<Rightarrow> ('s, 'e, 'a) prog \<Rightarrow> bool" where
  "on_error I m \<longleftrightarrow> (\<forall>s e t. I s \<longrightarrow> m s = (Inl e, t) \<longrightarrow> I t)"

definition succeeds :: "('s, 'e, 'a) prog \<Rightarrow> bool" where
  "succeeds m \<longleftrightarrow> (\<forall>s e t. m s \<noteq> (Inl e, t))"

definition raises :: "'e set \<Rightarrow> ('s, 'e, 'a) prog \<Rightarrow> bool" where
  "raises E m \<longleftrightarrow> (\<forall>s e t. m s = (Inl e, t) \<longrightarrow> e \<in> E)"

lemma on_errorD: "on_error I m \<Longrightarrow> I s \<Longrightarrow> m s = (Inl e, t) \<Longrightarrow> I t"
  unfolding on_error_def by blast

lemma raisesD: "raises E m \<Longrightarrow> m s = (Inl e, t) \<Longrightarrow> e \<in> E"
  unfolding raises_def by blast

lemma raises_mono: "raises E m \<Longrightarrow> E \<subseteq> F \<Longrightarrow> raises F m"
  by (auto simp: raises_def)

lemma on_error_keeps: "keeps I m \<Longrightarrow> on_error I m"
  unfolding on_error_def keeps_def by (metis snd_conv)

lemma on_error_bindE [error_intros]:
  "keeps I m \<Longrightarrow> (\<And>x. on_error I (f x)) \<Longrightarrow> on_error I (bindE m f)"
  unfolding on_error_def keeps_def bindE_def by (fastforce split: prod.splits sum.splits)

lemma on_error_thenE [error_intros]: "keeps I m \<Longrightarrow> on_error I k \<Longrightarrow> on_error I (thenE m k)"
  unfolding thenE_def by (rule on_error_bindE)

lemma on_error_attemptE [error_intros]:
  "keeps I m \<Longrightarrow> (\<And>r. on_error I (f r)) \<Longrightarrow> on_error I (attemptE m f)"
  unfolding on_error_def keeps_def attemptE_def by (fastforce split: prod.splits)

lemma on_error_bindE_last: "on_error I m \<Longrightarrow> (\<And>x. succeeds (f x)) \<Longrightarrow> on_error I (bindE m f)"
  unfolding on_error_def succeeds_def bindE_def by (fastforce split: prod.splits sum.splits)

lemma on_error_if [error_intros]:
  "(b \<Longrightarrow> on_error I m) \<Longrightarrow> (\<not> b \<Longrightarrow> on_error I n) \<Longrightarrow> on_error I (if b then m else n)"
  by simp

lemma on_error_case_option [error_intros]:
  "(x = None \<Longrightarrow> on_error I m) \<Longrightarrow> (\<And>a. x = Some a \<Longrightarrow> on_error I (f a))
    \<Longrightarrow> on_error I (case x of None \<Rightarrow> m | Some a \<Rightarrow> f a)"
  by (cases x) simp_all

lemma on_error_case_sum [error_intros]:
  "(\<And>e. x = Inl e \<Longrightarrow> on_error I (f e)) \<Longrightarrow> (\<And>a. x = Inr a \<Longrightarrow> on_error I (g a))
    \<Longrightarrow> on_error I (case x of Inl e \<Rightarrow> f e | Inr a \<Rightarrow> g a)"
  by (cases x) simp_all

lemma on_error_case_prod [error_intros]:
  "(\<And>a b. x = (a, b) \<Longrightarrow> on_error I (f a b)) \<Longrightarrow> on_error I (case x of (a, b) \<Rightarrow> f a b)"
  by (cases x) simp

lemma succeeds_thenE_returnE: "succeeds m \<Longrightarrow> succeeds (thenE m (returnE x))"
  by (fastforce simp: succeeds_def thenE_def bindE_def returnE_def split: prod.splits sum.splits)

lemma raises_returnE [raises_intros]: "raises E (returnE x)"
  by (simp add: raises_def returnE_def)

lemma raises_throwE [raises_intros]: "e \<in> E \<Longrightarrow> raises E (throwE e)"
  by (simp add: raises_def throwE_def)

lemma raises_readE [raises_intros]: "raises E (readE f)"
  by (simp add: raises_def readE_def)

lemma raises_modifyE [raises_intros]: "raises E (modifyE f)"
  by (simp add: raises_def modifyE_def)

lemma raises_bindE [raises_intros]:
  "raises E m \<Longrightarrow> (\<And>x. raises E (f x)) \<Longrightarrow> raises E (bindE m f)"
  unfolding raises_def bindE_def by (fastforce split: prod.splits sum.splits)

lemma raises_thenE [raises_intros]: "raises E m \<Longrightarrow> raises E k \<Longrightarrow> raises E (thenE m k)"
  unfolding thenE_def by (rule raises_bindE)

lemma raises_whenE [raises_intros]: "raises E m \<Longrightarrow> raises E (whenE b m)"
  by (simp add: whenE_def raises_returnE)

lemma raises_ignoreE [raises_intros]: "raises E (ignoreE m)"
  by (simp add: raises_def ignoreE_run)

lemma raises_attemptE [raises_intros]: "(\<And>r. raises E (f r)) \<Longrightarrow> raises E (attemptE m f)"
  by (fastforce simp: raises_def attemptE_run split: prod.splits)

lemma raises_if [raises_intros]: "(b \<Longrightarrow> raises E m) \<Longrightarrow> (\<not> b \<Longrightarrow> raises E n) \<Longrightarrow> raises E (if b then m else n)"
  by simp

lemma raises_case_option [raises_intros]:
  "(x = None \<Longrightarrow> raises E m) \<Longrightarrow> (\<And>a. x = Some a \<Longrightarrow> raises E (f a))
    \<Longrightarrow> raises E (case x of None \<Rightarrow> m | Some a \<Rightarrow> f a)"
  by (cases x) simp_all

lemma raises_case_sum [raises_intros]:
  "(\<And>e. x = Inl e \<Longrightarrow> raises E (f e)) \<Longrightarrow> (\<And>a. x = Inr a \<Longrightarrow> raises E (g a))
    \<Longrightarrow> raises E (case x of Inl e \<Rightarrow> f e | Inr a \<Rightarrow> g a)"
  by (cases x) simp_all

lemma raises_case_prod [raises_intros]:
  "(\<And>a b. x = (a, b) \<Longrightarrow> raises E (f a b)) \<Longrightarrow> raises E (case x of (a, b) \<Rightarrow> f a b)"
  by (cases x) simp

section \<open>Machines and their invariants\<close>

text \<open>
  Several components are machines: a state, requests that may be served in any order and a
  predicate that every request keeps. The contract is stated once; a component interprets
  it on its own step function and gets the invariant of every run.
\<close>

fun run_steps :: "('s \<Rightarrow> 'op \<Rightarrow> 's) \<Rightarrow> 's \<Rightarrow> 'op list \<Rightarrow> 's" where
  "run_steps step s [] = s"
| "run_steps step s (x # xs) = run_steps step (step s x) xs"

lemma run_steps_append: "run_steps step s (xs @ ys) = run_steps step (run_steps step s xs) ys"
  by (induction xs arbitrary: s) auto

locale machine =
  fixes step :: "'s \<Rightarrow> 'op \<Rightarrow> 's"
    and inv :: "'s \<Rightarrow> bool"
  assumes step_inv: "inv s \<Longrightarrow> inv (step s x)"
begin

lemma run_inv: "inv s \<Longrightarrow> inv (run_steps step s xs)"
  by (induction xs arbitrary: s) (auto intro: step_inv)

lemma run_prefix_inv: "inv s \<Longrightarrow> prefix ys xs \<Longrightarrow> inv (run_steps step s ys)"
  by (rule run_inv)

end

section \<open>Lists of rows\<close>

text \<open>
  A table is the list of its rows in insertion order. \<open>update_where\<close> is
  \<open>UPDATE ... WHERE\<close>: it changes the rows that match and leaves their order.
\<close>

definition update_where :: "('r \<Rightarrow> bool) \<Rightarrow> ('r \<Rightarrow> 'r) \<Rightarrow> 'r list \<Rightarrow> 'r list" where
  "update_where p f = map (\<lambda>r. if p r then f r else r)"

definition delete_where :: "('r \<Rightarrow> bool) \<Rightarrow> 'r list \<Rightarrow> 'r list" where
  "delete_where p = filter (\<lambda>r. \<not> p r)"

lemma set_delete_where [simp]: "set (delete_where p rs) = {r \<in> set rs. \<not> p r}"
  by (auto simp: delete_where_def)

lemma set_update_where [simp]: "set (update_where p f rs) = (\<lambda>r. if p r then f r else r) ` set rs"
  by (simp add: update_where_def)

lemma length_update_where [simp]: "length (update_where p f rs) = length rs"
  by (simp add: update_where_def)

lemma map_update_where:
  "(\<And>r. p r \<Longrightarrow> g (f r) = g r) \<Longrightarrow> map g (update_where p f rs) = map g rs"
  by (simp add: update_where_def)

lemma find_SomeD: "find p rs = Some r \<Longrightarrow> r \<in> set rs \<and> p r"
  by (induction rs) (auto split: if_splits)

lemma find_distinct:
  "distinct (map key rs) \<Longrightarrow> r \<in> set rs \<Longrightarrow> find (\<lambda>x. key x = key r) rs = Some r"
  by (induction rs) (auto simp: rev_image_eqI)

lemma find_eq_None: "find p rs = None \<longleftrightarrow> (\<forall>r\<in>set rs. \<not> p r)"
  by (auto simp: find_None_iff)

lemma distinct_map_delete_where: "distinct (map g rs) \<Longrightarrow> distinct (map g (delete_where p rs))"
  by (induction rs) (auto simp: delete_where_def)

lemma length_filter_mono:
  "(\<And>r. r \<in> set rs \<Longrightarrow> p r \<Longrightarrow> q r) \<Longrightarrow> length (filter p rs) \<le> length (filter q rs)"
  by (induction rs) (auto intro: le_SucI)

lemma filter_delete_where:
  "(\<And>r. r \<in> set rs \<Longrightarrow> p r \<Longrightarrow> \<not> q r) \<Longrightarrow> filter p (delete_where q rs) = filter p rs"
  by (auto simp: delete_where_def intro!: filter_cong)

text \<open>
  The contract a repository relies on from its table: rows with a primary key and one
  further unique column, stored in some field of the state.
\<close>

locale table =
  fixes rows :: "'w \<Rightarrow> 'r list"
    and put :: "'r list \<Rightarrow> 'w \<Rightarrow> 'w"
    and pk :: "'r \<Rightarrow> 'k"
    and uk :: "'r \<Rightarrow> 'u"
  assumes rows_put: "rows (put rs w) = rs"
begin

definition unique :: "'w \<Rightarrow> bool" where
  "unique w \<longleftrightarrow> distinct (map pk (rows w)) \<and> distinct (map uk (rows w))"

lemma unique_insert:
  "unique w \<Longrightarrow> pk r \<notin> pk ` set (rows w) \<Longrightarrow> uk r \<notin> uk ` set (rows w)
    \<Longrightarrow> unique (put (rows w @ [r]) w)"
  by (simp add: unique_def rows_put)

lemma unique_delete: "unique w \<Longrightarrow> unique (put (delete_where p (rows w)) w)"
  by (simp add: unique_def rows_put distinct_map_delete_where)

lemma unique_update:
  "unique w \<Longrightarrow> (\<And>r. p r \<Longrightarrow> pk (f r) = pk r) \<Longrightarrow> (\<And>r. p r \<Longrightarrow> uk (f r) = uk r)
    \<Longrightarrow> unique (put (update_where p f (rows w)) w)"
  by (simp add: unique_def rows_put map_update_where)

lemma by_pk: "unique w \<Longrightarrow> r \<in> set (rows w) \<Longrightarrow> find (\<lambda>x. pk x = pk r) (rows w) = Some r"
  by (simp add: unique_def find_distinct)

lemma by_uk: "unique w \<Longrightarrow> r \<in> set (rows w) \<Longrightarrow> find (\<lambda>x. uk x = uk r) (rows w) = Some r"
  by (simp add: unique_def find_distinct)

lemma same_pk:
  "unique w \<Longrightarrow> r \<in> set (rows w) \<Longrightarrow> r' \<in> set (rows w) \<Longrightarrow> pk r = pk r' \<Longrightarrow> r = r'"
  by (metis by_pk option.inject)

lemma same_uk:
  "unique w \<Longrightarrow> r \<in> set (rows w) \<Longrightarrow> r' \<in> set (rows w) \<Longrightarrow> uk r = uk r' \<Longrightarrow> r = r'"
  by (metis by_uk option.inject)

end

end
