(* ===== verification/Floats.thy ===== *)
theory Floats
  imports Prelude "HOL-Library.Log_Nat"
begin

text \<open>
  Go's \<open>float64\<close> arithmetic, as the rate limiter uses it: a value is a rational, and each
  operation rounds its exact result to the nearest number with a 53-bit significand, ties
  to even. Exponent overflow and subnormal numbers do not occur at the magnitudes of a
  token bucket and are not modelled; a product and a sum are rounded separately, as on
  amd64 (Go allows an architecture with a fused multiply-add to round once).
\<close>

section \<open>Rounding\<close>

definition round_even :: "rat \<Rightarrow> int" where
  "round_even y =
     (let n = \<lfloor>y\<rfloor>; f = y - of_int n
      in if f < 1 / 2 then n else if 1 / 2 < f then n + 1 else if even n then n else n + 1)"

text \<open>The exponent \<open>e\<close> of a positive rational: \<open>2^e \<le> x < 2^(e + 1)\<close>.\<close>

definition binade :: "rat \<Rightarrow> int" where
  "binade x =
     (case quotient_of x of (a, b) \<Rightarrow>
        let e = int (floorlog 2 (nat a)) - int (floorlog 2 (nat b))
        in if x < power_int 2 e then e - 1 else e)"

definition fl :: "rat \<Rightarrow> rat" where
  "fl x =
     (if x = 0 then 0
      else let q = power_int 2 (binade \<bar>x\<bar> - 52)
           in sgn x * of_int (round_even (\<bar>x\<bar> / q)) * q)"

text \<open>The unit roundoff.\<close>

definition eps :: rat where "eps = 1 / 2 ^ 53"

lemma eps_pos: "0 < eps" and eps_small: "eps < 1 / 1000000000000"
  and eps_factors: "0 \<le> 1 - eps" "0 \<le> 1 + eps" "1 - eps \<le> 1" "1 \<le> 1 + eps"
  by (simp_all add: eps_def)

lemma round_even_close: "\<bar>of_int (round_even y) - y\<bar> \<le> 1 / 2"
proof -
  have "of_int \<lfloor>y\<rfloor> \<le> y" "y < of_int \<lfloor>y\<rfloor> + 1" by linarith+
  then show ?thesis by (auto simp: round_even_def Let_def abs_le_iff)
qed

lemma round_even_nonneg: "0 \<le> y \<Longrightarrow> 0 \<le> round_even y"
  by (auto simp: round_even_def Let_def)

lemma binade_le:
  assumes "0 < x"
  shows "power_int 2 (binade x) \<le> x"
proof -
  obtain a b where q: "quotient_of x = (a, b)" by (cases "quotient_of x")
  have b: "0 < b" using quotient_of_denom_pos [OF q] .
  have x: "x = of_int a / of_int b" using quotient_of_div [OF q] .
  have a: "0 < a" using assms b x by (simp add: zero_less_divide_iff)
  define la lb where "la = floorlog 2 (nat a)" and "lb = floorlog 2 (nat b)"
  have la: "2 ^ (la - 1) \<le> nat a" "0 < la"
    using a floorlog_bounds [of "nat a" 2] by (auto simp: la_def floorlog_def)
  have lb: "nat b < 2 ^ lb"
    using b floorlog_bounds [of "nat b" 2] by (simp add: lb_def)
  have a_ge: "(2 :: rat) ^ (la - 1) \<le> of_int a"
  proof -
    have "of_nat (2 ^ (la - 1)) \<le> (of_nat (nat a) :: rat)" using la(1) by (simp only: of_nat_le_iff)
    then show ?thesis using a by simp
  qed
  have b_le: "of_int b \<le> (2 :: rat) ^ lb"
  proof -
    have "of_nat (nat b) \<le> (of_nat (2 ^ lb) :: rat)" using lb by (simp only: of_nat_le_iff less_imp_le)
    then show ?thesis using b by simp
  qed
  have "power_int (2 :: rat) (int la - int lb - 1) = 2 ^ (la - 1) / 2 ^ lb"
  proof -
    have "power_int (2 :: rat) (int (la - 1) - int lb) = 2 ^ (la - 1) / 2 ^ lb" by (simp add: power_int_diff)
    moreover have "int la - int lb - 1 = int (la - 1) - int lb" using la(2) by simp
    ultimately show ?thesis by (simp only:)
  qed
  also have "\<dots> \<le> of_int a / of_int b" using a_ge b_le a b by (intro frac_le) auto
  finally have low: "power_int 2 (int la - int lb - 1) \<le> x" using x by simp
  then show ?thesis by (auto simp: binade_def q Let_def la_def lb_def)
qed

lemma fl_zero [simp]: "fl 0 = 0" by (simp add: fl_def)

lemma fl_close:
  assumes "0 \<le> x"
  shows "\<bar>fl x - x\<bar> \<le> x * eps"
proof (cases "x = 0")
  case False
  with assms have x: "0 < x" by simp
  let ?q = "power_int (2 :: rat) (binade x - 52)"
  have q: "0 < ?q" by simp
  have "fl x - x = (of_int (round_even (x / ?q)) - x / ?q) * ?q"
    using x q by (simp add: fl_def Let_def left_diff_distrib)
  then have "\<bar>fl x - x\<bar> = \<bar>of_int (round_even (x / ?q)) - x / ?q\<bar> * ?q"
    using q by (simp only: abs_mult abs_of_pos)
  also have "\<dots> \<le> 1 / 2 * ?q" using round_even_close q by (intro mult_right_mono) auto
  also have "\<dots> = power_int 2 (binade x) * eps" by (simp add: power_int_diff eps_def)
  also have "\<dots> \<le> x * eps" using binade_le [OF x] eps_pos by (intro mult_right_mono) auto
  finally show ?thesis .
qed simp

lemma fl_le: "0 \<le> x \<Longrightarrow> fl x \<le> x * (1 + eps)"
  using fl_close [of x] by (simp add: abs_le_iff algebra_simps)

lemma fl_ge: "0 \<le> x \<Longrightarrow> x * (1 - eps) \<le> fl x"
  using fl_close [of x] by (simp add: abs_le_iff algebra_simps)

lemma fl_nonneg: "0 \<le> x \<Longrightarrow> 0 \<le> fl x"
  by (rule order_trans [OF mult_nonneg_nonneg [OF _ eps_factors(1)] fl_ge])

text \<open>\<open>float64(n)\<close> of a non-negative integer, and the bounds in the form the proofs chain.\<close>

lemma fl_upper: "0 \<le> x \<Longrightarrow> x \<le> y \<Longrightarrow> fl x \<le> y * (1 + eps)"
  by (rule order_trans [OF fl_le mult_right_mono [OF _ eps_factors(2)]])

lemma fl_lower: "0 \<le> y \<Longrightarrow> y \<le> x \<Longrightarrow> y * (1 - eps) \<le> fl x"
  by (rule order_trans [OF mult_right_mono [OF _ eps_factors(1)] fl_ge]) auto

section \<open>\<open>Duration.Seconds\<close> and conversion to an integer\<close>

text \<open>\<open>float64(sec) + float64(nsec)/1e9\<close> with Go's truncated division.\<close>

definition dur_seconds :: "duration \<Rightarrow> rat" where
  "dur_seconds d =
     (let a = (if d < 0 then - d else d);
          s = fl (fl (of_int (a div second)) + fl (fl (of_int (a mod second)) / 1000000000))
      in if d < 0 then - s else s)"

text \<open>\<open>time.Duration(f)\<close> drops the fraction.\<close>

definition float_to_int :: "rat \<Rightarrow> int" where
  "float_to_int f = (if f < 0 then - \<lfloor>- f\<rfloor> else \<lfloor>f\<rfloor>)"

lemma split_seconds: "of_int (d div second) + of_int (d mod second) / 1000000000 = (of_int d / 1000000000 :: rat)"
proof -
  have "(of_int d :: rat) = of_int (second * (d div second) + d mod second)" by simp
  also have "\<dots> = 1000000000 * of_int (d div second) + of_int (d mod second)"
    by (simp only: of_int_add of_int_mult of_int_numeral)
  finally show ?thesis by simp
qed

lemma dur_seconds_zero [simp]: "dur_seconds 0 = 0"
  by (simp add: dur_seconds_def)

lemma dur_seconds_nonneg: "0 \<le> d \<Longrightarrow> 0 \<le> dur_seconds d"
  by (auto simp: dur_seconds_def Let_def intro!: fl_nonneg add_nonneg_nonneg divide_nonneg_nonneg)

lemma dur_seconds_le:
  assumes "0 \<le> d"
  shows "dur_seconds d \<le> of_int d / 1000000000 * (1 + eps) ^ 3"
proof -
  let ?s = "of_int (d div second) :: rat" and ?n = "of_int (d mod second) :: rat"
  have s: "0 \<le> ?s" and n: "0 \<le> ?n" using assms by (simp_all add: pos_imp_zdiv_nonneg_iff)
  have one: "1 \<le> 1 + eps" using eps_pos by simp
  have "fl ?s \<le> ?s * (1 + eps) * (1 + eps)"
    using fl_le [OF s] mult_left_mono [OF one, of "?s * (1 + eps)"] s eps_pos by simp
  moreover have "fl (fl ?n / 1000000000) \<le> ?n / 1000000000 * (1 + eps) * (1 + eps)"
    using fl_le [OF n] fl_nonneg [OF n] by (intro fl_upper) auto
  ultimately have "fl ?s + fl (fl ?n / 1000000000) \<le> (?s + ?n / 1000000000) * (1 + eps) * (1 + eps)"
    unfolding distrib_right [of ?s] distrib_right [of "?s * (1 + eps)"] by (rule add_mono)
  then have "fl (fl ?s + fl (fl ?n / 1000000000)) \<le> (?s + ?n / 1000000000) * (1 + eps) * (1 + eps) * (1 + eps)"
    using s n by (intro fl_upper) (auto intro!: fl_nonneg add_nonneg_nonneg divide_nonneg_nonneg)
  then show ?thesis using assms by (simp add: dur_seconds_def Let_def split_seconds power3_eq_cube mult.assoc)
qed

lemma dur_seconds_ge:
  assumes "0 \<le> d"
  shows "of_int d / 1000000000 * (1 - eps) ^ 3 \<le> dur_seconds d"
proof -
  let ?s = "of_int (d div second) :: rat" and ?n = "of_int (d mod second) :: rat"
  have s: "0 \<le> ?s" and n: "0 \<le> ?n" using assms by (simp_all add: pos_imp_zdiv_nonneg_iff)
  have one: "1 - eps \<le> 1" "0 \<le> 1 - eps" using eps_pos eps_small by simp_all
  have "?s * (1 - eps) * (1 - eps) \<le> fl ?s"
    using fl_ge [OF s] mult_left_mono [OF one(1), of "?s * (1 - eps)"] s one(2) by simp
  moreover have "?n / 1000000000 * (1 - eps) * (1 - eps) \<le> fl (fl ?n / 1000000000)"
    using fl_ge [OF n] n one(2) by (intro fl_lower) auto
  ultimately have "(?s + ?n / 1000000000) * (1 - eps) * (1 - eps) \<le> fl ?s + fl (fl ?n / 1000000000)"
    unfolding distrib_right [of ?s] distrib_right [of "?s * (1 - eps)"] by (rule add_mono)
  then have "(?s + ?n / 1000000000) * (1 - eps) * (1 - eps) * (1 - eps) \<le> fl (fl ?s + fl (fl ?n / 1000000000))"
    using s n one(2) by (intro fl_lower) auto
  then show ?thesis using assms by (simp add: dur_seconds_def Let_def split_seconds power3_eq_cube mult.assoc)
qed

lemma dur_seconds_pos:
  assumes "0 < d"
  shows "0 < dur_seconds d"
proof -
  have "0 < 1 - eps" using eps_small by simp
  then have "0 < of_int d / 1000000000 * (1 - eps) ^ 3" using assms by simp
  also have "\<dots> \<le> dur_seconds d" using assms by (intro dur_seconds_ge) simp
  finally show ?thesis .
qed

end
