(* ===== verification/Rate_Limit.thy ===== *)
theory Rate_Limit
  imports Floats
begin

text \<open>
  The per-client token bucket of the HTTP layer, internal/server/middleware/ratelimit.go.
  The map of buckets is an association list with one entry per key; the mutex makes
  \<open>Allow\<close> and \<open>Cleanup\<close> atomic, so each is one function of the limiter and the
  instant it reads from the clock. Tokens are \<open>float64\<close> values (theory Floats).
\<close>

section \<open>The limiter\<close>

definition GeneralRate :: int where "GeneralRate = 120"
definition GeneralBurst :: int where "GeneralBurst = 240"
definition LoginRate :: int where "LoginRate = 5"
definition LoginBurst :: int where "LoginBurst = 5"

record bucket =
  tokens :: rat
  lastSeen :: time

record rate_limiter =
  rlBuckets :: "(string \<times> bucket) list"
  rlRate :: rat
  rlBurst :: rat

definition NewRateLimiter :: "int \<Rightarrow> int \<Rightarrow> rate_limiter" where
  "NewRateLimiter ratePerMinute burst =
     (let r = (if ratePerMinute \<le> 0 then GeneralRate else ratePerMinute);
          b = (if burst \<le> 0 then r else burst)
      in \<lparr>rlBuckets = [], rlRate = fl (fl (of_int r) / 60), rlBurst = fl (of_int b)\<rparr>)"

definition put_bucket :: "string \<Rightarrow> bucket \<Rightarrow> rate_limiter \<Rightarrow> rate_limiter" where
  "put_bucket key b l = l\<lparr>rlBuckets := (key, b) # filter (\<lambda>e. fst e \<noteq> key) (rlBuckets l)\<rparr>"

definition bucket_of :: "string \<Rightarrow> time \<Rightarrow> rate_limiter \<Rightarrow> bucket" where
  "bucket_of key t l =
     (case map_of (rlBuckets l) key of None \<Rightarrow> \<lparr>tokens = rlBurst l, lastSeen = t\<rparr> | Some b \<Rightarrow> b)"

definition refill :: "rate_limiter \<Rightarrow> time \<Rightarrow> bucket \<Rightarrow> bucket" where
  "refill l t b =
     (let elapsed = dur_seconds (time_sub t (lastSeen b))
      in \<lparr>tokens = (if 0 < elapsed then min (rlBurst l) (fl (tokens b + fl (elapsed * rlRate l))) else tokens b),
          lastSeen = t\<rparr>)"

text \<open>\<open>(1-b.tokens)/l.rate*float64(time.Second)\<close>, and the wait made of it.\<close>

definition missing_nanos :: "rate_limiter \<Rightarrow> bucket \<Rightarrow> rat" where
  "missing_nanos l b = fl (fl (fl (1 - tokens b) / rlRate l) * fl (of_int second))"

definition wait_for :: "rate_limiter \<Rightarrow> bucket \<Rightarrow> duration" where
  "wait_for l b = dur_round (float_to_int (missing_nanos l b) + second) second"

definition Allow :: "string \<Rightarrow> time \<Rightarrow> rate_limiter \<Rightarrow> (bool \<times> duration) \<times> rate_limiter" where
  "Allow key t l =
     (let b = refill l t (bucket_of key t l)
      in if 1 \<le> tokens b
         then ((True, 0), put_bucket key (b\<lparr>tokens := fl (tokens b - 1)\<rparr>) l)
         else ((False, wait_for l b), put_bucket key b l))"

definition Cleanup :: "duration \<Rightarrow> time \<Rightarrow> rate_limiter \<Rightarrow> nat \<times> rate_limiter" where
  "Cleanup idle t l =
     (length (filter (\<lambda>e. before (lastSeen (snd e)) (t - idle)) (rlBuckets l)),
      l\<lparr>rlBuckets := filter (\<lambda>e. \<not> before (lastSeen (snd e)) (t - idle)) (rlBuckets l)\<rparr>)"

definition Size :: "rate_limiter \<Rightarrow> nat" where
  "Size l = length (rlBuckets l)"

section \<open>Buckets stay within their bounds\<close>

definition rate_ok :: "rate_limiter \<Rightarrow> bool" where
  "rate_ok l \<longleftrightarrow> 1 / 61 \<le> rlRate l \<and> 1 \<le> rlBurst l \<and> rlBurst l \<le> 2 ^ 53
     \<and> (\<forall>e\<in>set (rlBuckets l). 0 \<le> tokens (snd e) \<and> tokens (snd e) \<le> rlBurst l)
     \<and> distinct (map fst (rlBuckets l))"

lemma rate_okD:
  assumes "rate_ok l"
  shows "1 / 61 \<le> rlRate l" and "0 < rlRate l" and "1 \<le> rlBurst l" and "rlBurst l \<le> 2 ^ 53"
  using assms by (auto simp: rate_ok_def)

lemma fl_one [simp]: "fl 1 = 1"
  by code_simp

lemma bucket_of_ok:
  assumes "rate_ok l"
  shows "0 \<le> tokens (bucket_of key t l)" and "tokens (bucket_of key t l) \<le> rlBurst l"
  using assms by (auto simp: rate_ok_def bucket_of_def split: option.splits dest!: map_of_SomeD)

lemma refill_ok:
  assumes "rate_ok l" and "0 \<le> tokens b" and "tokens b \<le> rlBurst l"
  shows "0 \<le> tokens (refill l t b)" and "tokens (refill l t b) \<le> rlBurst l" and "lastSeen (refill l t b) = t"
  using assms rate_okD [OF assms(1)]
  by (auto simp: refill_def Let_def intro!: fl_nonneg add_nonneg_nonneg mult_nonneg_nonneg)

lemma put_bucket_ok:
  assumes "rate_ok l" and "0 \<le> tokens b" and "tokens b \<le> rlBurst l"
  shows "rate_ok (put_bucket key b l)"
  using assms by (auto simp: rate_ok_def put_bucket_def distinct_map_filter)

lemma put_bucket_simps [simp]:
  "rlRate (put_bucket key b l) = rlRate l" "rlBurst (put_bucket key b l) = rlBurst l"
  "bucket_of key t (put_bucket key b l) = b"
  "key' \<noteq> key \<Longrightarrow> bucket_of key' t (put_bucket key b l) = bucket_of key' t l"
proof -
  have "map_of (filter (\<lambda>e. fst e \<noteq> key) es) key' = map_of es key'" if "key' \<noteq> key" for es :: "(string \<times> bucket) list" and key'
    using that by (induction es) auto
  then show "key' \<noteq> key \<Longrightarrow> bucket_of key' t (put_bucket key b l) = bucket_of key' t l"
    by (simp add: put_bucket_def bucket_of_def split: option.split)
qed (simp_all add: put_bucket_def bucket_of_def)

lemma dec_ok:
  assumes "1 \<le> x" and "x \<le> B" and "B \<le> 2 ^ 53"
  shows "0 \<le> fl (x - 1)" and "fl (x - 1) \<le> B"
proof -
  show "0 \<le> fl (x - 1)" using assms(1) by (intro fl_nonneg) simp
  have "x * eps \<le> 1" using assms by (simp add: eps_def)
  then have "(x - 1) * (1 + eps) \<le> x" using eps_pos by (simp add: algebra_simps)
  then show "fl (x - 1) \<le> B" using fl_le [of "x - 1"] assms by linarith
qed

lemma Allow_ok:
  assumes "rate_ok l"
  shows "rate_ok (snd (Allow key t l))"
proof -
  let ?b = "refill l t (bucket_of key t l)"
  have b: "0 \<le> tokens ?b" "tokens ?b \<le> rlBurst l"
    using refill_ok [OF assms bucket_of_ok [OF assms]] by auto
  have "1 \<le> tokens ?b \<Longrightarrow> rate_ok (put_bucket key (?b\<lparr>tokens := fl (tokens ?b - 1)\<rparr>) l)"
    using dec_ok [OF _ b(2) rate_okD(4) [OF assms]] assms by (intro put_bucket_ok) auto
  then show ?thesis using put_bucket_ok [OF assms b] by (simp add: Allow_def Let_def)
qed

lemma Allow_simps [simp]:
  "rlRate (snd (Allow key t l)) = rlRate l" "rlBurst (snd (Allow key t l)) = rlBurst l"
  by (simp_all add: Allow_def Let_def)

lemma Allow_other: "key' \<noteq> key \<Longrightarrow> bucket_of key' s (snd (Allow key t l)) = bucket_of key' s l"
  by (simp add: Allow_def Let_def)

lemma NewRateLimiter_ok:
  assumes "r \<le> 2 ^ 52" and "b \<le> 2 ^ 52"
  shows "rate_ok (NewRateLimiter r b)"
proof -
  define r' where "r' = (if r \<le> 0 then GeneralRate else r)"
  define b' where "b' = (if b \<le> 0 then r' else b)"
  have r': "1 \<le> r'" "r' \<le> 2 ^ 52" using assms(1) by (auto simp: r'_def GeneralRate_def)
  have b': "1 \<le> b'" "b' \<le> 2 ^ 52" using assms(2) r' by (auto simp: b'_def)
  have rr: "1 \<le> (of_int r' :: rat)" using r'(1) by (simp only: of_int_1_le_iff)
  have bb: "1 \<le> (of_int b' :: rat)" "of_int b' \<le> (2 ^ 52 :: rat)"
    using b' by (simp_all only: of_int_1_le_iff) (metis of_int_le_iff of_int_numeral of_int_power)
  have "1 / 60 * (1 - eps) * (1 - eps) \<le> fl (fl (of_int r') / 60)"
    using fl_lower [OF _ rr] eps_factors by (intro fl_lower) auto
  moreover have "1 / 61 \<le> 1 / 60 * (1 - eps) * (1 - eps)" by (simp add: eps_def)
  ultimately have rate: "1 / 61 \<le> fl (fl (of_int r') / 60)" by (rule order_trans [rotated])
  have "fl (of_int b') \<le> 2 ^ 52 * (1 + eps)" using bb by (intro fl_upper) auto
  then have up: "fl (of_int b') \<le> 2 ^ 53" by (rule order_trans) (simp add: eps_def)
  have low: "1 \<le> fl (of_int b' :: rat)"
  proof (cases "b' = 1")
    case False
    then have "2 \<le> b'" using b'(1) by simp
    then have "2 \<le> (of_int b' :: rat)" by (metis of_int_le_iff of_int_numeral)
    then have "2 * (1 - eps) \<le> fl (of_int b' :: rat)" by (intro fl_lower) auto
    then show ?thesis by (rule order_trans [rotated]) (simp add: eps_def)
  qed simp
  show ?thesis
    using rate up low by (simp add: rate_ok_def NewRateLimiter_def Let_def flip: r'_def b'_def)
qed

section \<open>The bound on a client's requests\<close>

text \<open>
  Requests of all clients, each with its instant. \<open>granted key l reqs\<close> counts those of one
  client that pass.
\<close>

fun granted :: "string \<Rightarrow> rate_limiter \<Rightarrow> (string \<times> time) list \<Rightarrow> nat" where
  "granted key l [] = 0"
| "granted key l ((k, t) # rs) =
     (case Allow k t l of ((ok, w), l') \<Rightarrow> (if k = key \<and> ok then 1 else 0) + granted key l' rs)"

fun in_order :: "time \<Rightarrow> (string \<times> time) list \<Rightarrow> bool" where
  "in_order t0 [] \<longleftrightarrow> True"
| "in_order t0 ((k, t) # rs) \<longleftrightarrow> t0 \<le> t \<and> in_order t rs"

definition last_at :: "time \<Rightarrow> (string \<times> time) list \<Rightarrow> time" where
  "last_at t0 rs = last (t0 # map snd rs)"

lemma last_at_simps [simp]: "last_at t0 [] = t0" "last_at t0 ((k, t) # rs) = last_at t rs"
  by (simp_all add: last_at_def)

lemma last_at_mono: "in_order t0 rs \<Longrightarrow> t0 \<le> last_at t0 rs"
  by (induction t0 rs rule: in_order.induct) auto

text \<open>The tokens a refill leaves, in terms of those that were there and the seconds elapsed.\<close>

lemma refill_upper:
  assumes "rate_ok l" and "0 \<le> tokens b" and "lastSeen b \<le> t" and "t - lastSeen b \<le> max_duration"
  shows "tokens (refill l t b) \<le> (tokens b + of_int (t - lastSeen b) / 1000000000 * rlRate l) * (1 + eps) ^ 5"
proof -
  let ?d = "t - lastSeen b" and ?r = "rlRate l" and ?f = "1 + eps"
  have d: "time_sub t (lastSeen b) = ?d" "0 \<le> ?d"
    using assms(3,4) by (simp_all add: time_sub_exact min_duration_def)
  have r: "0 < ?r" using rate_okD(2) [OF assms(1)] .
  have pow: "1 \<le> ?f ^ n" for n :: nat using eps_pos by (intro one_le_power) simp
  define s where "s = dur_seconds ?d"
  have s: "0 \<le> s" "s \<le> of_int ?d / 1000000000 * ?f ^ 3"
    using dur_seconds_nonneg [OF d(2)] dur_seconds_le [OF d(2)] by (simp_all add: s_def)
  have "s * ?r \<le> of_int ?d / 1000000000 * ?f ^ 3 * ?r" using s(2) r by (intro mult_right_mono) auto
  then have "fl (s * ?r) \<le> of_int ?d / 1000000000 * ?f ^ 3 * ?r * ?f" using s(1) r by (intro fl_upper) auto
  then have m: "fl (s * ?r) \<le> of_int ?d / 1000000000 * ?r * ?f ^ 4" by (simp add: eval_nat_numeral ac_simps)
  have tok: "tokens b \<le> tokens b * ?f ^ 4" using mult_left_mono [OF pow assms(2)] by simp
  have "tokens b + fl (s * ?r) \<le> (tokens b + of_int ?d / 1000000000 * ?r) * ?f ^ 4"
    unfolding distrib_right using tok m by (rule add_mono)
  then have "fl (tokens b + fl (s * ?r)) \<le> (tokens b + of_int ?d / 1000000000 * ?r) * ?f ^ 4 * ?f"
    using assms(2) s(1) r by (intro fl_upper) (auto intro!: add_nonneg_nonneg fl_nonneg)
  also have "\<dots> = (tokens b + of_int ?d / 1000000000 * ?r) * ?f ^ 5" by (simp add: eval_nat_numeral)
  finally have full: "fl (tokens b + fl (s * ?r)) \<le> (tokens b + of_int ?d / 1000000000 * ?r) * ?f ^ 5" .
  show ?thesis
  proof (cases "0 < s")
    case True
    then show ?thesis using full by (simp add: refill_def d(1) Let_def flip: s_def)
  next
    case False
    have "0 \<le> tokens b + of_int ?d / 1000000000 * ?r" using assms(2) d(2) r by simp
    from mult_left_mono [OF pow this, of 5]
    have "tokens b + of_int ?d / 1000000000 * ?r \<le> (tokens b + of_int ?d / 1000000000 * ?r) * ?f ^ 5" by simp
    moreover have "tokens b \<le> tokens b + of_int ?d / 1000000000 * ?r" using d(2) r by simp
    ultimately show ?thesis using False by (simp add: refill_def d(1) Let_def flip: s_def)
  qed
qed

text \<open>One request of the client: what its tokens and grant are worth against the budget.\<close>

lemma budget_step:
  fixes f :: rat
  assumes f: "1 \<le> f" and G: "G \<le> (x + er) * f ^ n" and x: "x + g \<le> T * f" and g: "0 \<le> g"
    and T: "0 \<le> T" "T \<le> B * f ^ 5" and er: "0 \<le> er"
  shows "g + G \<le> (B + er) * f ^ (n + 6)"
proof -
  have pow: "1 \<le> f ^ m" for m :: nat using f by (rule one_le_power)
  have "g \<le> g * f ^ n" using mult_left_mono [OF pow g] by simp
  then have "g + G \<le> (x + g + er) * f ^ n" using G by (simp add: algebra_simps)
  also have "\<dots> \<le> (T * f + er) * f ^ n" using x pow [of n] by (intro mult_right_mono) auto
  also have "\<dots> \<le> (B * f ^ 6 + er * f ^ 6) * f ^ n"
  proof (intro mult_right_mono add_mono)
    have "T * f \<le> B * f ^ 5 * f" using T(2) f by (intro mult_right_mono) auto
    then show "T * f \<le> B * f ^ 6" by (simp add: eval_nat_numeral ac_simps)
    show "er \<le> er * f ^ 6" using mult_left_mono [OF pow er] by simp
    show "0 \<le> f ^ n" using pow [of n] by simp
  qed
  finally show ?thesis by (simp add: power_add algebra_simps)
qed

lemma granted_own_request:
  assumes ok: "rate_ok l" and b: "0 \<le> tokens b" "tokens b \<le> rlBurst l"
    and own: "bucket_of key t l = b" and T: "tokens (refill l t b) \<le> B * (1 + eps) ^ 5" and e: "0 \<le> e"
    and rest: "\<And>b'. 0 \<le> tokens b' \<Longrightarrow> tokens b' \<le> rlBurst l \<Longrightarrow> lastSeen b' = t
      \<Longrightarrow> of_nat (granted key (put_bucket key b' l) rs) \<le> (tokens b' + e) * (1 + eps) ^ n"
  shows "of_nat (granted key l ((key, t) # rs)) \<le> (B + e) * (1 + eps) ^ (n + 6)"
proof -
  let ?b = "refill l t b" and ?f = "1 + eps"
  have f: "1 \<le> ?f" using eps_factors by simp
  have b1: "0 \<le> tokens ?b" "tokens ?b \<le> rlBurst l" "lastSeen ?b = t" using refill_ok [OF ok b(1,2)] by auto
  show ?thesis
  proof (cases "1 \<le> tokens ?b")
    case True
    let ?b' = "?b\<lparr>tokens := fl (tokens ?b - 1)\<rparr>"
    have "fl (tokens ?b - 1) + 1 \<le> tokens ?b * ?f"
      using fl_le [of "tokens ?b - 1"] True eps_pos by (simp add: algebra_simps)
    moreover have "of_nat (granted key (put_bucket key ?b' l) rs) \<le> (fl (tokens ?b - 1) + e) * ?f ^ n"
      using rest [of ?b'] dec_ok [OF True b1(2) rate_okD(4) [OF ok]] b1(3) by simp
    ultimately have "1 + of_nat (granted key (put_bucket key ?b' l) rs) \<le> (B + e) * ?f ^ (n + 6)"
      by (intro budget_step [OF f _ _ _ b1(1) T e]) simp_all
    then show ?thesis using True own by (simp add: Allow_def Let_def)
  next
    case False
    have "tokens ?b + 0 \<le> tokens ?b * ?f" using b1(1) eps_pos by (simp add: algebra_simps)
    then have "0 + of_nat (granted key (put_bucket key ?b l) rs) \<le> (B + e) * ?f ^ (n + 6)"
      using rest [OF b1] by (intro budget_step [OF f _ _ _ b1(1) T e]) simp_all
    then show ?thesis using False own by (simp add: Allow_def Let_def)
  qed
qed

text \<open>
  From a bucket last seen at some instant, the grants of any sequence of requests are
  bounded by its tokens and the refill since then, up to the rounding of six operations
  per request.
\<close>

lemma granted_from_bucket:
  assumes "rate_ok l" and "in_order t0 rs" and "lastSeen b \<le> t0" and "last_at t0 rs - lastSeen b \<le> max_duration"
    and "0 \<le> tokens b" and "tokens b \<le> rlBurst l" and "\<And>t. bucket_of key t l = b"
  shows "of_nat (granted key l rs)
    \<le> (tokens b + of_int (last_at t0 rs - lastSeen b) / 1000000000 * rlRate l) * (1 + eps) ^ (6 * length rs)"
  using assms
proof (induction rs arbitrary: l b t0)
  case Nil
  then show ?case using rate_okD(2) [of l] by simp
next
  case (Cons req rs)
  obtain k t where req: "req = (k, t)" by force
  let ?f = "1 + eps" and ?r = "rlRate l" and ?l' = "snd (Allow k t l)"
  let ?e = "of_int (last_at t rs - t) / 1000000000 * ?r" and ?d = "of_int (t - lastSeen b) / 1000000000 * ?r"
  have order: "t0 \<le> t" "in_order t rs" using Cons.prems(2) req by simp_all
  have seen: "lastSeen b \<le> t" using order Cons.prems(3) by simp
  have last: "t \<le> last_at t rs" using last_at_mono [OF order(2)] .
  have span: "last_at t rs - lastSeen b \<le> max_duration" using Cons.prems(4) req by simp
  have r: "0 < ?r" using rate_okD(2) [OF Cons.prems(1)] .
  have e: "0 \<le> ?e" "0 \<le> ?d" using last seen r by simp_all
  have sum: "of_int (last_at t rs - lastSeen b) / 1000000000 * ?r = ?d + ?e"
    by (simp add: algebra_simps add_divide_distrib diff_divide_distrib)
  show ?case
  proof (cases "k = key")
    case False
    have "of_nat (granted key ?l' rs)
      \<le> (tokens b + of_int (last_at t rs - lastSeen b) / 1000000000 * rlRate ?l') * ?f ^ (6 * length rs)"
      using Cons.prems(5-7) False by (intro Cons.IH [OF Allow_ok [OF Cons.prems(1)] order(2) seen span]) (auto simp: Allow_other)
    also have "\<dots> \<le> (tokens b + of_int (last_at t rs - lastSeen b) / 1000000000 * ?r) * ?f ^ (6 * length rs + 6)"
      unfolding sum Allow_simps
      using eps_factors e Cons.prems(5) by (intro mult_left_mono power_increasing) auto
    finally show ?thesis using False req by (simp add: case_prod_beta add.commute)
  next
    case True
    have "of_nat (granted key (put_bucket key b' l) rs) \<le> (tokens b' + ?e) * ?f ^ (6 * length rs)"
      if "0 \<le> tokens b'" "tokens b' \<le> rlBurst l" "lastSeen b' = t" for b'
      using Cons.IH [OF put_bucket_ok [OF Cons.prems(1) that(1,2)] order(2), of b' key] that span seen by simp
    then have "of_nat (granted key l ((key, t) # rs)) \<le> (tokens b + ?d + ?e) * ?f ^ (6 * length rs + 6)"
      using span last refill_upper [OF Cons.prems(1,5) seen]
      by (intro granted_own_request [OF Cons.prems(1,5,6,7) _ e(1)]) auto
    then show ?thesis unfolding req True last_at_simps sum by (simp add: add.assoc add.commute [of 6])
  qed
qed


text \<open>The same for a window that begins at any instant, whatever the bucket held before it.\<close>

lemma granted_in_window:
  assumes "rate_ok l" and "in_order t0 rs" and "last_at t0 rs - t0 \<le> max_duration"
  shows "of_nat (granted key l rs)
    \<le> (rlBurst l + of_int (last_at t0 rs - t0) / 1000000000 * rlRate l) * (1 + eps) ^ (6 * length rs)"
  using assms
proof (induction rs arbitrary: l t0)
  case Nil
  then show ?case using rate_okD [of l] by simp
next
  case (Cons req rs)
  obtain k t where req: "req = (k, t)" by force
  let ?f = "1 + eps" and ?r = "rlRate l" and ?l' = "snd (Allow k t l)"
  let ?e = "of_int (last_at t rs - t) / 1000000000 * ?r"
  have order: "t0 \<le> t" "in_order t rs" and span: "last_at t rs - t \<le> max_duration" using Cons.prems(2,3) req by simp_all
  have last: "t \<le> last_at t rs" using last_at_mono [OF order(2)] .
  have r: "0 < ?r" "1 \<le> rlBurst l" using rate_okD [OF Cons.prems(1)] by simp_all
  have e: "0 \<le> ?e" using last r by simp
  have "of_nat (granted key l ((k, t) # rs)) \<le> (rlBurst l + ?e) * ?f ^ (6 * length rs + 6)"
  proof (cases "k = key")
    case False
    have "of_nat (granted key ?l' rs) \<le> (rlBurst l + ?e) * ?f ^ (6 * length rs)"
      using Cons.IH [OF Allow_ok [OF Cons.prems(1)] order(2) span] by simp
    also have "\<dots> \<le> (rlBurst l + ?e) * ?f ^ (6 * length rs + 6)"
      using eps_factors e r by (intro mult_left_mono power_increasing) auto
    finally show ?thesis using False by (simp add: case_prod_beta)
  next
    case True
    let ?b = "bucket_of key t l"
    have b: "0 \<le> tokens ?b" "tokens ?b \<le> rlBurst l" using bucket_of_ok [OF Cons.prems(1)] .
    have "of_nat (granted key (put_bucket key b' l) rs) \<le> (tokens b' + ?e) * ?f ^ (6 * length rs)"
      if "0 \<le> tokens b'" "tokens b' \<le> rlBurst l" "lastSeen b' = t" for b'
      using granted_from_bucket [OF put_bucket_ok [OF Cons.prems(1) that(1,2)] order(2), of b' key] that span by simp
    moreover have "tokens (refill l t ?b) \<le> rlBurst l * ?f ^ 5"
      using order_trans [OF refill_ok(2) [OF Cons.prems(1) b, of t]] mult_left_mono [OF one_le_power [OF eps_factors(4)], of "rlBurst l"] r
      by (metis less_eq_rat_def mult.right_neutral order_trans zero_less_one)
    ultimately show ?thesis unfolding True
      by (intro granted_own_request [OF Cons.prems(1) b _ _ e]) auto
  qed
  moreover have "?e \<le> of_int (last_at t rs - t0) / 1000000000 * ?r"
    using order(1) r by (intro mult_right_mono divide_right_mono) auto
  then have "(rlBurst l + ?e) * ?f ^ (6 * length rs + 6)
      \<le> (rlBurst l + of_int (last_at t rs - t0) / 1000000000 * ?r) * ?f ^ (6 * length rs + 6)"
    by (intro mult_right_mono [OF add_left_mono] zero_le_power eps_factors(2))
  ultimately show ?case unfolding req last_at_simps by (simp add: add.commute [of 6])
qed

section \<open>Reachable limiters\<close>

definition rate_step :: "rate_limiter \<Rightarrow> string \<times> time \<Rightarrow> rate_limiter" where
  "rate_step l req = snd (Allow (fst req) (snd req) l)"

interpretation rate: machine rate_step rate_ok
  by unfold_locales (simp add: rate_step_def Allow_ok)

lemma rate_run_simps [simp]:
  "rlRate (run_steps rate_step l rs) = rlRate l" "rlBurst (run_steps rate_step l rs) = rlBurst l"
  by (induction rs arbitrary: l) (simp_all add: rate_step_def)

text \<open>
  C39: after any history of requests, a client gets at most the burst plus the sustained
  rate times the length of the window through in any window, however its requests and
  those of others are spaced; \<open>eps\<close> is the rounding of one \<open>float64\<close> operation, of which
  a request takes six.
\<close>

theorem requests_bounded:
  assumes "r \<le> 2 ^ 52" and "b \<le> 2 ^ 52"
    and "l = run_steps rate_step (NewRateLimiter r b) past"
    and "in_order t0 rs" and "last_at t0 rs - t0 \<le> max_duration"
  shows "of_nat (granted key l rs)
    \<le> (rlBurst l + of_int (last_at t0 rs - t0) / 1000000000 * rlRate l) * (1 + eps) ^ (6 * length rs)"
  unfolding assms(3) by (rule granted_in_window [OF rate.run_inv [OF NewRateLimiter_ok [OF assms(1,2)]] assms(4,5)])

text \<open>Two requests at one instant against a burst of one.\<close>

theorem requests_bounded_witness:
  "granted ''a'' (NewRateLimiter LoginRate 1) [(''a'', hour), (''b'', hour), (''a'', hour)] = 1
   \<and> of_nat (granted ''a'' (NewRateLimiter LoginRate 1) [(''a'', hour), (''b'', hour), (''a'', hour)]) \<le> (1 + eps) ^ 18"
proof -
  have "granted ''a'' (NewRateLimiter LoginRate 1) [(''a'', hour), (''b'', hour), (''a'', hour)] = 1"
    by (simp add: NewRateLimiter_def Allow_def bucket_of_def refill_def put_bucket_def time_sub_def
        min_duration_def max_duration_def Let_def)
  moreover have "rlBurst (NewRateLimiter LoginRate 1) = 1" by (simp add: NewRateLimiter_def)
  ultimately show ?thesis
    using requests_bounded [of LoginRate 1 _ "[]" hour "[(''a'', hour), (''b'', hour), (''a'', hour)]" "''a''"]
    by (simp add: LoginRate_def max_duration_def)
qed


section \<open>The advertised wait\<close>

lemma dur_round_ge:
  assumes "0 \<le> d" and "0 < m" and "d + m \<le> max_duration"
  shows "2 * d - m \<le> 2 * dur_round d m" and "dur_round d m \<le> d + m"
proof -
  define q where "q = d mod m"
  have "0 \<le> q" "q < m" using assms(2) by (simp_all add: q_def)
  then show "2 * d - m \<le> 2 * dur_round d m" "dur_round d m \<le> d + m"
    using assms by (auto simp: dur_round_def Let_def min_def simp flip: q_def)
qed

lemma pow_minus_eps: "999 / 1000 \<le> (1 - eps) ^ 9"
  by (simp add: eps_def power_divide)

lemma four_factors:
  fixes u c r k :: rat
  shows "u * c / r * c * (k * c) * c = u * c ^ 4 / r * k"
  by (simp add: eval_nat_numeral)

lemma spread_factors:
  fixes a u v c :: rat
  shows "(u * c ^ 4 + v) * c ^ 3 * c = u * c ^ 8 + v * c ^ 4"
    and "(a + (u * c ^ 8 + v * c ^ 4)) * c = a * c ^ 1 + u * c ^ 9 + v * c ^ 5"
  by (simp_all add: distrib_right eval_nat_numeral)

lemma missing_nanos_bounds:
  assumes ok: "rate_ok l" and tok: "0 \<le> tokens b" "tokens b < 1"
  shows "(1 - tokens b) * (1 - eps) ^ 4 / rlRate l * 1000000000 \<le> missing_nanos l b"
    and "missing_nanos l b \<le> 62000000000" and "0 \<le> missing_nanos l b"
proof -
  let ?r = "rlRate l" and ?u = "1 - tokens b" and ?c = "1 - eps" and ?x = "missing_nanos l b"
  have r: "1 / 61 \<le> ?r" "0 < ?r" using rate_okD [OF ok] by simp_all
  have u: "0 \<le> ?u" "?u \<le> 1" using tok by simp_all
  have u1: "?u * ?c \<le> fl ?u" "fl ?u \<le> 1 + eps" using fl_ge [OF u(1)] fl_upper [OF u] by simp_all
  have u1n: "0 \<le> fl ?u" using fl_nonneg [OF u(1)] .
  have u2: "?u * ?c / ?r * ?c \<le> fl (fl ?u / ?r)" "fl (fl ?u / ?r) \<le> (1 + eps) * 61 * (1 + eps)"
  proof -
    show "?u * ?c / ?r * ?c \<le> fl (fl ?u / ?r)"
      using u1(1) u eps_factors r by (intro fl_lower divide_right_mono) auto
    have "1 / ?r \<le> 61" using r by (simp add: field_simps)
    then have "fl ?u * (1 / ?r) \<le> (1 + eps) * 61" using u1(2) u1n r by (intro mult_mono) auto
    then show "fl (fl ?u / ?r) \<le> (1 + eps) * 61 * (1 + eps)" using u1n r by (intro fl_upper) auto
  qed
  have k: "1000000000 * ?c \<le> fl (of_int second)" "fl (of_int second) \<le> 1000000000 * (1 + eps)"
    using fl_ge [of "of_int second"] fl_le [of "of_int second"] by simp_all
  have "?u * ?c / ?r * ?c * (1000000000 * ?c) \<le> fl (fl ?u / ?r) * fl (of_int second)"
    using u2(1) k(1) u eps_factors r by (intro mult_mono) (auto intro!: fl_nonneg u1n divide_nonneg_nonneg)
  then have "?u * ?c / ?r * ?c * (1000000000 * ?c) * ?c \<le> ?x"
    unfolding missing_nanos_def using u eps_factors r by (intro fl_lower) auto
  then show "?u * ?c ^ 4 / ?r * 1000000000 \<le> ?x" unfolding four_factors .
  have "fl (fl ?u / ?r) * fl (of_int second) \<le> (1 + eps) * 61 * (1 + eps) * (1000000000 * (1 + eps))"
    using u2(2) k(2) eps_factors u1n r by (intro mult_mono) (auto intro!: fl_nonneg)
  then have "?x \<le> (1 + eps) * 61 * (1 + eps) * (1000000000 * (1 + eps)) * (1 + eps)"
    unfolding missing_nanos_def using u1n r by (intro fl_upper) (auto intro!: fl_nonneg mult_nonneg_nonneg)
  also have "\<dots> \<le> 62000000000" by (simp add: eps_def)
  finally show "?x \<le> 62000000000" .
  show "0 \<le> ?x" unfolding missing_nanos_def using u1n r by (auto intro!: fl_nonneg mult_nonneg_nonneg)
qed

text \<open>The wait is at least the refill time of the missing fraction, plus nearly half a second.\<close>

lemma wait_for_ge:
  assumes ok: "rate_ok l" and tok: "0 \<le> tokens b" "tokens b < 1"
  shows "(1 - tokens b) * (1 - eps) ^ 4 + 2 / 5 * rlRate l \<le> of_int (wait_for l b) / 1000000000 * rlRate l"
    and "0 < wait_for l b" and "wait_for l b \<le> 65 * second"
proof -
  let ?r = "rlRate l" and ?u = "1 - tokens b" and ?c = "1 - eps"
  define x where "x = missing_nanos l b"
  have low: "?u * ?c ^ 4 / ?r * 1000000000 \<le> x" and high: "x \<le> 62000000000" and x: "0 \<le> x"
    unfolding x_def using missing_nanos_bounds [OF assms] by auto
  have r: "0 < ?r" using rate_okD(2) [OF ok] .
  define d where "d = \<lfloor>x\<rfloor> + second"
  have "\<lfloor>x\<rfloor> \<le> 62000000000" using high by linarith
  then have d: "0 \<le> d" "d + second \<le> max_duration" "second \<le> d" using x by (simp_all add: d_def max_duration_def)
  have w: "wait_for l b = dur_round d second"
    using x by (simp add: wait_for_def d_def float_to_int_def flip: x_def)
  have "2 * d - second \<le> 2 * wait_for l b" unfolding w using d by (intro dur_round_ge) auto
  then have "d - 500000000 \<le> wait_for l b" by simp
  then have pos: "0 < wait_for l b" and ge: "\<lfloor>x\<rfloor> + 500000000 \<le> wait_for l b" using d(3) by (simp, simp add: d_def)
  from ge have "x - 1 + 500000000 \<le> of_int (wait_for l b)" by linarith
  then have "x / 1000000000 + 2 / 5 \<le> of_int (wait_for l b) / 1000000000" by simp
  moreover have "?u * ?c ^ 4 / ?r \<le> x / 1000000000" using low by simp
  ultimately have "?u * ?c ^ 4 / ?r + 2 / 5 \<le> of_int (wait_for l b) / 1000000000" by linarith
  then have "(?u * ?c ^ 4 / ?r + 2 / 5) * ?r \<le> of_int (wait_for l b) / 1000000000 * ?r" using r by (intro mult_right_mono) auto
  then show "?u * ?c ^ 4 + 2 / 5 * ?r \<le> of_int (wait_for l b) / 1000000000 * ?r" using r by (simp add: distrib_right)
  show "0 < wait_for l b" by (rule pos)
  have "wait_for l b \<le> d + second" unfolding w using d by (intro dur_round_ge) auto
  moreover have "d \<le> 63 * second" unfolding d_def using \<open>\<lfloor>x\<rfloor> \<le> 62000000000\<close> by linarith
  ultimately show "wait_for l b \<le> 65 * second" by simp
qed


lemma refilled_enough:
  assumes ok: "rate_ok l" and tok: "0 \<le> tokens b" "tokens b < 1"
    and later: "lastSeen b + wait_for l b \<le> t" "t - lastSeen b \<le> max_duration"
  shows "1 \<le> tokens (refill l t b)"
proof -
  let ?r = "rlRate l" and ?u = "1 - tokens b" and ?c = "1 - eps" and ?d = "t - lastSeen b"
  note wait = wait_for_ge [OF ok tok]
  have r: "1 / 61 \<le> ?r" "0 < ?r" "1 \<le> rlBurst l" using rate_okD [OF ok] by simp_all
  have c: "0 \<le> ?c" "?c \<le> 1" using eps_factors by simp_all
  have pow: "?c ^ 9 \<le> ?c ^ n" if "n \<le> 9" for n using power_decreasing [OF that c] .
  have d: "0 < ?d" "time_sub t (lastSeen b) = ?d"
    using later wait(2) by (simp_all add: time_sub_exact min_duration_def)
  define s where "s = dur_seconds ?d"
  have pos: "0 < s" unfolding s_def using d(1) by (rule dur_seconds_pos)
  have "of_int (wait_for l b) / 1000000000 * ?r \<le> of_int ?d / 1000000000 * ?r"
    using later(1) r by (intro mult_right_mono divide_right_mono) auto
  then have "?u * ?c ^ 4 + 2 / 5 * ?r \<le> of_int ?d / 1000000000 * ?r" using wait(1) by linarith
  then have "(?u * ?c ^ 4 + 2 / 5 * ?r) * ?c ^ 3 \<le> of_int ?d / 1000000000 * ?r * ?c ^ 3"
    using c by (intro mult_right_mono) auto
  also have "\<dots> \<le> s * ?r"
    using mult_right_mono [OF dur_seconds_ge [of ?d], of ?r] d r by (simp add: s_def ac_simps)
  finally have "(?u * ?c ^ 4 + 2 / 5 * ?r) * ?c ^ 3 * ?c \<le> fl (s * ?r)"
    using tok r c by (intro fl_lower) auto
  then have "?u * ?c ^ 8 + 2 / 5 * ?r * ?c ^ 4 \<le> fl (s * ?r)" unfolding spread_factors(1) .
  then have "(tokens b + (?u * ?c ^ 8 + 2 / 5 * ?r * ?c ^ 4)) * ?c \<le> fl (tokens b + fl (s * ?r))"
    using tok r c by (intro fl_lower) (auto intro!: add_nonneg_nonneg mult_nonneg_nonneg)
  moreover have "1 \<le> (tokens b + (?u * ?c ^ 8 + 2 / 5 * ?r * ?c ^ 4)) * ?c"
  proof -
    have "tokens b * ?c ^ 9 + ?u * ?c ^ 9 + 1 / 200 * ?c ^ 9
        \<le> tokens b * ?c ^ 1 + ?u * ?c ^ 9 + 2 / 5 * ?r * ?c ^ 5"
      using tok r pow [of 1] pow [of 5] c by (intro add_mono mult_mono) auto
    moreover have "tokens b * ?c ^ 9 + ?u * ?c ^ 9 + 1 / 200 * ?c ^ 9 = (1 + 1 / 200) * ?c ^ 9" by (simp add: algebra_simps)
    moreover have "1 \<le> (1 + 1 / 200) * ?c ^ 9" using pow_minus_eps by simp
    ultimately show ?thesis unfolding spread_factors(2) by linarith
  qed
  ultimately have "1 \<le> fl (tokens b + fl (s * ?r))" by linarith
  then show ?thesis using pos r by (simp add: refill_def d(2) Let_def flip: s_def)
qed

lemma Allow_refused:
  assumes ok: "rate_ok l" and run: "Allow key t l = ((False, wait), l')"
  obtains b where "0 \<le> tokens b" "tokens b < 1" "tokens b \<le> rlBurst l" "lastSeen b = t" "wait = wait_for l b"
    "l' = put_bucket key b l"
proof -
  have b: "0 \<le> tokens (refill l t (bucket_of key t l))" "tokens (refill l t (bucket_of key t l)) \<le> rlBurst l"
    "lastSeen (refill l t (bucket_of key t l)) = t" using refill_ok [OF ok bucket_of_ok [OF ok]] by auto
  show thesis using run b by (intro that [of "refill l t (bucket_of key t l)"]) (auto simp: Allow_def Let_def split: if_splits)
qed

lemma Allow_refused_wait:
  assumes "rate_ok l" and "Allow key t l = ((False, wait), l')"
  shows "0 < wait" and "wait \<le> 65 * second"
  using Allow_refused [OF assms] wait_for_ge [OF assms(1)] by metis+

text \<open>
  C40: a client that is refused and comes back after the wait it was told (and has not been
  seen in between) is let in, after any history of the limiter.
\<close>

theorem retry_after_honoured:
  assumes "r \<le> 2 ^ 52" and "b \<le> 2 ^ 52" and "l = run_steps rate_step (NewRateLimiter r b) past"
    and "Allow key t l = ((False, wait), l')" and "t + wait \<le> t'" and "t' - t \<le> max_duration"
  shows "fst (Allow key t' l') = (True, 0)"
proof -
  have ok: "rate_ok l" unfolding assms(3) by (rule rate.run_inv [OF NewRateLimiter_ok [OF assms(1,2)]])
  obtain c where c: "0 \<le> tokens c" "tokens c < 1" "tokens c \<le> rlBurst l" "lastSeen c = t" "wait = wait_for l c"
    and l': "l' = put_bucket key c l" using Allow_refused [OF ok assms(4)] .
  have "rate_ok l'" unfolding l' using ok c(1,3) by (rule put_bucket_ok)
  moreover have "wait_for l' c = wait" by (simp add: c(5) l' wait_for_def missing_nanos_def)
  ultimately have "1 \<le> tokens (refill l' t' c)" using c assms(5,6) by (intro refilled_enough) auto
  then show ?thesis by (simp add: Allow_def Let_def l')
qed

theorem retry_after_honoured_witness:
  "\<exists>wait l'. Allow ''a'' hour (snd (Allow ''a'' hour (NewRateLimiter LoginRate 1))) = ((False, wait), l')
     \<and> fst (Allow ''a'' (hour + wait) l') = (True, 0)"
proof -
  let ?l = "run_steps rate_step (NewRateLimiter LoginRate 1) [(''a'', hour)]"
  have l: "snd (Allow ''a'' hour (NewRateLimiter LoginRate 1)) = ?l" by (simp add: rate_step_def)
  obtain wait l' where run: "Allow ''a'' hour ?l = ((False, wait), l')"
    by (simp add: rate_step_def NewRateLimiter_def Allow_def bucket_of_def refill_def put_bucket_def time_sub_def
        min_duration_def max_duration_def Let_def)
  have "rate_ok ?l" by (rule rate.run_inv [OF NewRateLimiter_ok]) (simp_all add: LoginRate_def)
  from Allow_refused_wait [OF this run]
  have "fst (Allow ''a'' (hour + wait) l') = (True, 0)"
    by (intro retry_after_honoured [OF _ _ refl run]) (simp_all add: LoginRate_def max_duration_def)
  with run show ?thesis unfolding l by blast
qed

end
