(* ===== verification/Timestamps.thy ===== *)
theory Timestamps
  imports GoStrings
begin

text \<open>
  The timestamps of the database (\<open>nowString\<close>, \<open>parseTime\<close> and \<open>formatOptional\<close> of
  internal/store): an instant is written in the format RFC3339Nano in UTC, and SQLite
  compares the texts byte by byte. The text of an instant of the years 0 to 9999 is a
  fixed-width rendering of its second followed by the fraction, written without trailing
  zeros, and the letter Z. The fixed-width part orders as the seconds do, so a text is
  represented by its second and the rest of it, and pairs compare lexicographically.
\<close>

section \<open>The text of a fraction of a second\<close>

definition is_zero_char :: "char \<Rightarrow> bool" where
  "is_zero_char c \<longleftrightarrow> c = CHR ''0''"

definition frac_digits :: "nat \<Rightarrow> string" where
  "frac_digits n = trim_right is_zero_char (pad_zeros 9 (show_nat n))"

definition frac_text :: "nat \<Rightarrow> string" where
  "frac_text n = (if n = 0 then ''Z'' else ''.'' @ frac_digits n @ ''Z'')"

definition nanos :: "time \<Rightarrow> nat" where
  "nanos t = nat (t mod second)"

type_synonym stamp = "int \<times> string"

definition stamp :: "time \<Rightarrow> stamp" where
  "stamp t = (t div second, frac_text (nanos t))"

text \<open>
  A column that holds an optional timestamp has the empty text for the zero instant, which
  no rendering of an instant equals: the model keeps the instant and asks \<open>is_zero\<close>.
\<close>

definition format_optional :: "time \<Rightarrow> stamp option" where
  "format_optional t = (if is_zero t then None else Some (stamp t))"

section \<open>Digit strings compare as numbers\<close>

lemma digits_val_Cons: "digits_val (c # s) = digit_val c * 10 ^ length s + digits_val s"
proof (induction s rule: rev_induct)
  case Nil
  then show ?case by (simp add: digits_val_def)
next
  case (snoc x s)
  have "digits_val (c # s @ [x]) = 10 * digits_val (c # s) + digit_val x"
    using digits_val_snoc [of "c # s" x] by simp
  then show ?case using snoc by (simp add: digits_val_snoc algebra_simps)
qed

lemma digits_val_bound: "list_all is_digit s \<Longrightarrow> digits_val s < 10 ^ length s"
proof (induction s)
  case Nil
  then show ?case by (simp add: digits_val_def)
next
  case (Cons c s)
  then have "digit_val c \<le> 9" and "digits_val s < 10 ^ length s"
    by (auto simp: is_digit_def digit_val_def)
  moreover from this(1) have "digit_val c * 10 ^ length s \<le> 9 * 10 ^ length s"
    by (rule mult_le_mono1)
  ultimately have "digit_val c * 10 ^ length s + digits_val s < 10 * 10 ^ length s" by linarith
  then show ?case by (simp add: digits_val_Cons)
qed

lemma digit_less_iff: "is_digit c \<Longrightarrow> is_digit d \<Longrightarrow> c < d \<longleftrightarrow> digit_val c < digit_val d"
  by (auto simp: is_digit_def digit_val_def less_char_def)

lemma digit_eq_iff: "is_digit c \<Longrightarrow> is_digit d \<Longrightarrow> digit_val c = digit_val d \<longleftrightarrow> c = d"
proof
  assume "is_digit c" "is_digit d" "digit_val c = digit_val d"
  then have "code c = code d" unfolding is_digit_def digit_val_def by linarith
  then show "c = d" by simp
qed simp

lemma is_digit_0 [simp]: "is_digit (CHR ''0'')"
  by (simp add: is_digit_def)

lemma digits_less_iff:
  "length s = length t \<Longrightarrow> list_all is_digit s \<Longrightarrow> list_all is_digit t
    \<Longrightarrow> s < t \<longleftrightarrow> digits_val s < digits_val t"
proof (induction s t rule: list_induct2)
  case Nil
  then show ?case by simp
next
  case (Cons c s d t)
  have len: "length s = length t" by fact
  have st: "digits_val s < 10 ^ length t" "digits_val t < 10 ^ length t"
    using Cons.prems len digits_val_bound [of s] digits_val_bound [of t] by auto
  consider "c = d" | "digit_val c < digit_val d" | "digit_val d < digit_val c"
    using digit_eq_iff [of c d] Cons.prems by force
  then show ?case
  proof cases
    case 1
    with Cons show ?thesis by (simp add: digits_val_Cons)
  next
    case 2
    then have "c < d" using Cons.prems digit_less_iff by simp
    moreover have "Suc (digit_val c) * 10 ^ length t \<le> digit_val d * 10 ^ length t"
      using 2 by (intro mult_le_mono1) simp
    ultimately show ?thesis using st len by (simp add: digits_val_Cons)
  next
    case 3
    then have "d < c" using Cons.prems digit_less_iff by simp
    moreover have "Suc (digit_val d) * 10 ^ length t \<le> digit_val c * 10 ^ length t"
      using 3 by (intro mult_le_mono1) simp
    ultimately show ?thesis using st len by (auto simp: digits_val_Cons)
  qed
qed

section \<open>The digits of a fraction\<close>

lemma nanos_bound: "nanos t < 1000000000"
  unfolding nanos_def by (simp add: nat_less_iff)

lemma pad_frac:
  assumes "n < 1000000000"
  shows "length (pad_zeros 9 (show_nat n)) = 9"
    and "list_all is_digit (pad_zeros 9 (show_nat n))"
  using assms length_show_nat [of 9 n]
  by (auto simp: length_pad_zeros pad_zeros_def list_all_iff show_nat_digits)

lemma frac_digits_zeros:
  assumes "n < 1000000000"
  obtains k where "pad_zeros 9 (show_nat n) = frac_digits n @ replicate k (CHR ''0'')"
proof -
  obtain suf where suf: "pad_zeros 9 (show_nat n) = frac_digits n @ suf" "\<forall>c\<in>set suf. is_zero_char c"
    unfolding frac_digits_def by (metis trim_right_append)
  then have "suf = replicate (length suf) (CHR ''0'')"
    by (intro replicate_eqI) (auto simp: is_zero_char_def)
  with suf(1) show thesis using that by metis
qed

lemma frac_digits_digits: "n < 1000000000 \<Longrightarrow> list_all is_digit (frac_digits n)"
  using frac_digits_zeros [of n] pad_frac(2) [of n] by (metis list_all_append)

lemma digits_val_zeros: "digits_val (replicate k (CHR ''0'')) = 0"
  using digits_val_pad [of k "[]"] by (simp add: digits_val_def)

lemma frac_digits_Nil: "n < 1000000000 \<Longrightarrow> frac_digits n = [] \<longleftrightarrow> n = 0"
proof
  assume n: "n < 1000000000" and "frac_digits n = []"
  then obtain k where "pad_zeros 9 (show_nat n) = replicate k (CHR ''0'')"
    using frac_digits_zeros [of n] by (metis append_Nil)
  then have "digits_val (pad_zeros 9 (show_nat n)) = 0" by (simp only: digits_val_zeros)
  then show "n = 0" by simp
next
  assume "n = 0"
  moreover have "show_nat 0 = [CHR ''0'']"
    by code_simp
  ultimately show "frac_digits n = []"
    by (simp add: frac_digits_def trim_right_def is_zero_char_def pad_zeros_def
        dropWhile_eq_Nil_conv)
qed

lemma frac_digits_inject:
  assumes "m < 1000000000" "n < 1000000000" "frac_digits m = frac_digits n"
  shows "m = n"
proof -
  obtain j where j: "pad_zeros 9 (show_nat m) = frac_digits m @ replicate j (CHR ''0'')"
    using frac_digits_zeros [OF assms(1)] .
  obtain k where k: "pad_zeros 9 (show_nat n) = frac_digits n @ replicate k (CHR ''0'')"
    using frac_digits_zeros [OF assms(2)] .
  have "length (pad_zeros 9 (show_nat m)) = length (pad_zeros 9 (show_nat n))"
    using assms by (simp add: pad_frac)
  with j k assms(3) have "j = k" by simp
  with j k assms(3) have "pad_zeros 9 (show_nat m) = pad_zeros 9 (show_nat n)" by simp
  then show ?thesis by (metis digits_val_pad_zeros digits_val_show_nat)
qed

lemma frac_text_eq:
  assumes "n < 1000000000"
  shows "frac_text n = (if frac_digits n = [] then [] else ''.'') @ frac_digits n @ ''Z''"
  using assms by (simp add: frac_text_def frac_digits_Nil)

lemma stamp_inject: "stamp a = stamp b \<longleftrightarrow> a = b"
proof
  assume eq: "stamp a = stamp b"
  then have sec: "a div second = b div second"
    and "frac_text (nanos a) = frac_text (nanos b)" by (simp_all add: stamp_def)
  then have "frac_digits (nanos a) = frac_digits (nanos b)"
    by (auto simp: frac_text_eq nanos_bound split: if_splits)
  then have "nanos a = nanos b"
    by (intro frac_digits_inject nanos_bound)
  then have "a mod second = b mod second" by (simp add: nanos_def)
  with sec show "a = b" by (metis div_mult_mod_eq)
qed simp

section \<open>Text order against time order\<close>

lemma append_less_append:
  "\<not> prefix u v \<Longrightarrow> \<not> prefix v u \<Longrightarrow> (u @ x < v @ y) = (u < (v :: 'a :: linorder list))"
  by (induction u arbitrary: v) (case_tac v; auto)+

lemma stamp_less_seconds: "a div second < b div second \<Longrightarrow> stamp a < stamp b"
  by (simp add: stamp_def less_prod_def)

lemma stamp_less_same_second:
  assumes "a div second = b div second"
  shows "stamp a < stamp b \<longleftrightarrow> frac_text (nanos a) < frac_text (nanos b)"
  using assms by (simp add: stamp_def less_prod_def)

lemma nanos_less_iff: "a div second = b div second \<Longrightarrow> a < b \<longleftrightarrow> nanos a < nanos b"
proof -
  assume sec: "a div second = b div second"
  have "a < b \<longleftrightarrow> a mod second < b mod second"
    using sec div_mult_mod_eq [of a second] div_mult_mod_eq [of b second] by linarith
  also have "\<dots> \<longleftrightarrow> nanos a < nanos b"
    unfolding nanos_def by (rule nat_less_eq_zless [symmetric]) simp
  finally show ?thesis .
qed

lemma frac_digits_less:
  assumes "m < 1000000000" "n < 1000000000"
    and "\<not> prefix (frac_digits m) (frac_digits n)" "\<not> prefix (frac_digits n) (frac_digits m)"
  shows "frac_digits m < frac_digits n \<longleftrightarrow> m < n"
proof -
  obtain j where j: "pad_zeros 9 (show_nat m) = frac_digits m @ replicate j (CHR ''0'')"
    using frac_digits_zeros [OF assms(1)] .
  obtain k where k: "pad_zeros 9 (show_nat n) = frac_digits n @ replicate k (CHR ''0'')"
    using frac_digits_zeros [OF assms(2)] .
  have "frac_digits m < frac_digits n \<longleftrightarrow> pad_zeros 9 (show_nat m) < pad_zeros 9 (show_nat n)"
    unfolding j k using assms(3,4) by (simp add: append_less_append)
  also have "\<dots> \<longleftrightarrow> digits_val (pad_zeros 9 (show_nat m)) < digits_val (pad_zeros 9 (show_nat n))"
    using assms(1,2) by (intro digits_less_iff) (simp_all add: pad_frac)
  finally show ?thesis by simp
qed

lemma frac_digits_prefix_le:
  assumes "m < 1000000000" "n < 1000000000" "prefix (frac_digits m) (frac_digits n)"
  shows "m \<le> n"
proof -
  obtain j where j: "pad_zeros 9 (show_nat m) = frac_digits m @ replicate j (CHR ''0'')"
    using frac_digits_zeros [OF assms(1)] .
  obtain z where z: "pad_zeros 9 (show_nat n) = frac_digits m @ z"
    using frac_digits_zeros [OF assms(2)] assms(3) by (metis append_assoc prefixE)
  have len: "length z = j"
    using j z pad_frac(1) [OF assms(1)] pad_frac(1) [OF assms(2)] by simp
  have "\<not> pad_zeros 9 (show_nat n) < pad_zeros 9 (show_nat m)"
  proof -
    have "list_all is_digit z" using z pad_frac(2) [OF assms(2)] by simp
    then have "\<not> z < replicate j (CHR ''0'')"
      using len digits_less_iff [of z "replicate j (CHR ''0'')"]
      by (simp add: digits_val_zeros list_all_iff)
    moreover have "(u @ x < u @ y) = (x < y)" for u x y :: string by (induction u) auto
    ultimately show ?thesis unfolding j z by simp
  qed
  then have "\<not> digits_val (pad_zeros 9 (show_nat n)) < digits_val (pad_zeros 9 (show_nat m))"
    using assms(1,2) by (subst digits_less_iff [symmetric]) (simp_all add: pad_frac)
  then show ?thesis by simp
qed

lemma strict_prefix_Z_greater:
  assumes "strict_prefix u v" "list_all is_digit v"
  shows "v @ ''Z'' < u @ ''Z''"
proof -
  obtain d w where v: "v = u @ d # w" using assms(1) by (auto elim: strict_prefixE')
  with assms(2) have "is_digit d" by simp
  then have "d < CHR ''Z''" by (simp add: is_digit_def less_char_def)
  then have "d # w @ ''Z'' < ''Z''" by simp
  moreover have "(u @ x < u @ y) = (x < y)" for x y :: string by (induction u) auto
  ultimately show ?thesis by (simp add: v)
qed

lemma frac_text_prefix:
  assumes "m < 1000000000" "n < 1000000000" "strict_prefix (frac_digits m) (frac_digits n)"
  shows "frac_text n < frac_text m"
proof (cases "frac_digits m = []")
  case True
  moreover have "frac_digits n \<noteq> []" using assms(3) by auto
  ultimately show ?thesis using assms(1,2) by (simp add: frac_text_eq)
next
  case False
  moreover have "frac_digits n \<noteq> []" using assms(3) by auto
  ultimately show ?thesis
    using assms strict_prefix_Z_greater [OF assms(3)] frac_digits_digits [OF assms(2)]
    by (simp add: frac_text_eq)
qed

lemma frac_text_less:
  assumes "m < 1000000000" "n < 1000000000"
    and "\<not> prefix (frac_digits m) (frac_digits n)" "\<not> prefix (frac_digits n) (frac_digits m)"
  shows "frac_text m < frac_text n \<longleftrightarrow> m < n"
proof -
  have "frac_digits m \<noteq> []" "frac_digits n \<noteq> []" using assms(3,4) by auto
  then have "frac_text m < frac_text n \<longleftrightarrow> frac_digits m @ ''Z'' < frac_digits n @ ''Z''"
    using assms(1,2) by (simp add: frac_text_eq)
  also have "\<dots> \<longleftrightarrow> frac_digits m < frac_digits n"
    using assms(3,4) by (rule append_less_append)
  finally show ?thesis using assms by (simp add: frac_digits_less)
qed

text \<open>
  For two instants in time order, the text order used by every SQL comparison agrees
  with time order exactly unless both fall in the same second and the fraction digits of
  the earlier one are a prefix of those of the later one; in that case the text order is
  reversed.
\<close>

theorem text_order_characterised:
  assumes "a < b"
  shows "stamp a < stamp b \<longleftrightarrow>
    \<not> (a div second = b div second \<and> prefix (frac_digits (nanos a)) (frac_digits (nanos b)))"
proof (cases "a div second = b div second")
  case False
  moreover have "a div second \<le> b div second" using assms by (intro zdiv_mono1) simp_all
  ultimately show ?thesis by (simp add: stamp_less_seconds)
next
  case True
  let ?u = "frac_digits (nanos a)" and ?v = "frac_digits (nanos b)"
  have lt: "nanos a < nanos b" using assms nanos_less_iff [OF True] by simp
  have nb: "nanos a < 1000000000" "nanos b < 1000000000" by (rule nanos_bound)+
  have np: "\<not> prefix ?v ?u" using frac_digits_prefix_le [OF nb(2,1)] lt by fastforce
  show ?thesis
  proof (cases "prefix ?u ?v")
    case True
    then have "strict_prefix ?u ?v" using np by (auto simp: strict_prefix_def)
    then have "frac_text (nanos b) < frac_text (nanos a)" using nb by (intro frac_text_prefix)
    with True \<open>a div second = b div second\<close> show ?thesis
      by (auto simp: stamp_less_same_second)
  next
    case False
    with np nb lt show ?thesis
      by (simp add: stamp_less_same_second [OF True] frac_text_less)
  qed
qed

theorem text_order_characterised_witness:
  "(0 :: time) < 500000000 \<and> \<not> stamp 0 < stamp 500000000"
proof -
  have "(0 :: time) < 500000000" by simp
  moreover have "frac_digits (nanos 0) = []" by (simp add: nanos_def frac_digits_Nil)
  ultimately show ?thesis
    using text_order_characterised [of 0 500000000] by simp
qed

text \<open>Text order is a total order that is reflected by equality and by whole seconds.\<close>

lemma stamp_le_seconds: "stamp a \<le> stamp b \<Longrightarrow> a div second \<le> b div second"
  by (metis linorder_not_less stamp_less_seconds)

lemma stamp_less_second_apart: "a + second \<le> b \<Longrightarrow> stamp a < stamp b"
proof (rule stamp_less_seconds)
  assume "a + second \<le> b"
  then have "(a + second) div second \<le> b div second" by (intro zdiv_mono1) simp_all
  then show "a div second < b div second" by simp
qed

lemma stamp_mono_whole:
  assumes "second dvd a" "second dvd b"
  shows "stamp a < stamp b \<longleftrightarrow> a < b" and "stamp a \<le> stamp b \<longleftrightarrow> a \<le> b"
proof -
  have sec: "a div second < b div second \<longleftrightarrow> a < b"
    if "second dvd a" "second dvd b" for a b :: int
    using that by (auto elim!: dvdE)
  have "stamp a < stamp b" if "second dvd a" "second dvd b" "a < b" for a b
    using that sec stamp_less_seconds by blast
  then show "stamp a < stamp b \<longleftrightarrow> a < b"
    using assms by (metis linorder_neqE not_less_iff_gr_or_eq order_less_asym)
  then show "stamp a \<le> stamp b \<longleftrightarrow> a \<le> b"
    by (metis order_le_less stamp_inject)
qed

end
