(* ===== verification/Audit_Mask.thy ===== *)
theory Audit_Mask
  imports GoStrings
begin

text \<open>
  internal/audit/mask.go: which keys name secrets, and the walk that masks their values in
  an audit record. The dynamic values the walk distinguishes are the constructors of
  \<open>any\<close>; a Go map is an association list, whose order the code never uses, and
  \<open>AOther\<close> stands for every dynamic type the walk passes through unchanged.
\<close>

datatype any =
    ANull
  | AString string
  | AOther string
  | AStrings "string list"
  | AStringMap "(string \<times> string) list"
  | AList "any list"
  | AMap "(string \<times> any) list"

definition Masked :: string where
  "Masked = ''***''"

section \<open>The masking functions\<close>

text \<open>
  \<open>secretKeyPattern\<close>, a case-insensitive alternation: every alternative but two is a
  substring test; \<open>_key$\<close> is a suffix and \<open>^key$\<close> the whole key.
\<close>

definition secret_words :: "string list" where
  "secret_words =
     [''pass'', ''passwd'', ''password'', ''token'', ''secret'', ''apikey'', ''api_key'',
      ''credential'', ''auth'', ''private'', ''salt'', ''signature'', ''session'']"

definition has_suffix :: "string \<Rightarrow> string \<Rightarrow> bool" where
  "has_suffix s p = has_prefix (rev s) (rev p)"

definition IsSecretKey :: "string \<Rightarrow> bool" where
  "IsSecretKey key =
     (let k = to_lower key in
      list_ex (contains k) secret_words \<or> has_suffix k ''_key'' \<or> k = ''key'')"

definition MaskValue :: "string \<Rightarrow> string" where
  "MaskValue value = (if value = '''' then '''' else Masked)"

definition MaskMap :: "(string \<times> string) list \<Rightarrow> (string \<times> string) list" where
  "MaskMap m = map (\<lambda>(k, v). (k, if IsSecretKey k then MaskValue v else v)) m"

definition mask_entry :: "string \<Rightarrow> string" where
  "mask_entry entry =
     (case str_cut (CHR ''='') entry of
        (key, value, found) \<Rightarrow>
          if \<not> found then entry
          else if IsSecretKey key then key @ ''='' @ MaskValue value
          else entry)"

definition MaskEnv :: "string list \<Rightarrow> string list" where
  "MaskEnv env = map mask_entry env"

definition maskLeaf :: "any \<Rightarrow> any" where
  "maskLeaf value =
     (case value of
        AString s \<Rightarrow> AString (MaskValue s)
      | ANull \<Rightarrow> ANull
      | AList vs \<Rightarrow> AList (map (\<lambda>_. AString Masked) vs)
      | _ \<Rightarrow> AString Masked)"

fun MaskAny :: "any \<Rightarrow> any" where
  "MaskAny (AMap m) = AMap (map (\<lambda>(k, item). (k, if IsSecretKey k then maskLeaf item else MaskAny item)) m)"
| "MaskAny (AStringMap m) = AStringMap (MaskMap m)"
| "MaskAny (AStrings env) = AStrings (MaskEnv env)"
| "MaskAny (AList vs) = AList (map MaskAny vs)"
| "MaskAny v = v"

section \<open>What a masked record may show\<close>

text \<open>
  The specification: under a secret key a record shows at most whether the value was set;
  this holds at every depth of maps and lists, in string maps and in environment entries.
\<close>

definition masked_text :: "string \<Rightarrow> bool" where
  "masked_text v \<longleftrightarrow> v = '''' \<or> v = Masked"

fun masked_leaf :: "any \<Rightarrow> bool" where
  "masked_leaf ANull = True"
| "masked_leaf (AString s) = masked_text s"
| "masked_leaf (AList vs) = list_all (\<lambda>v. v = AString Masked) vs"
| "masked_leaf _ = False"

definition clean_entry :: "string \<Rightarrow> bool" where
  "clean_entry entry =
     (case str_cut (CHR ''='') entry of
        (key, value, found) \<Rightarrow> found \<and> IsSecretKey key \<longrightarrow> masked_text value)"

fun clean :: "any \<Rightarrow> bool" where
  "clean (AMap m) = list_all (\<lambda>(k, item). if IsSecretKey k then masked_leaf item else clean item) m"
| "clean (AStringMap m) = list_all (\<lambda>(k, v). IsSecretKey k \<longrightarrow> masked_text v) m"
| "clean (AStrings env) = list_all clean_entry env"
| "clean (AList vs) = list_all clean vs"
| "clean _ = True"

lemma masked_text_MaskValue [simp]: "masked_text (MaskValue v)"
  by (simp add: masked_text_def MaskValue_def)

lemma MaskValue_idem [simp]: "MaskValue (MaskValue v) = MaskValue v"
  by (simp add: MaskValue_def Masked_def)

lemma masked_leaf_maskLeaf [simp]: "masked_leaf (maskLeaf v)"
  by (cases v) (auto simp: maskLeaf_def list_all_iff masked_text_def MaskValue_def)

lemma maskLeaf_idem [simp]: "maskLeaf (maskLeaf v) = maskLeaf v"
  by (cases v) (auto simp: maskLeaf_def MaskValue_def Masked_def)

lemma mask_entry_cut:
  assumes "str_cut (CHR ''='') entry = (key, value, found)"
  shows "str_cut (CHR ''='') (mask_entry entry) =
    (key, if found \<and> IsSecretKey key then MaskValue value else value, found)"
proof (cases "found \<and> IsSecretKey key")
  case True
  with assms have "CHR ''='' \<notin> set key" using str_cut_found [of "CHR ''=''" entry key "value"] by simp
  with assms True show ?thesis
    by (simp add: mask_entry_def str_cut_append)
next
  case False
  with assms show ?thesis by (auto simp: mask_entry_def)
qed

lemma clean_mask_entry: "clean_entry (mask_entry entry)"
proof -
  obtain key "value" found where c: "str_cut (CHR ''='') entry = (key, value, found)"
    by (metis prod_cases3)
  show ?thesis by (simp add: clean_entry_def mask_entry_cut [OF c])
qed

lemma mask_entry_idem: "mask_entry (mask_entry entry) = mask_entry entry"
proof -
  obtain key "value" found where c: "str_cut (CHR ''='') entry = (key, value, found)"
    by (metis prod_cases3)
  show ?thesis
  proof (cases "found \<and> IsSecretKey key")
    case True
    then show ?thesis
      using c mask_entry_cut [OF c] by (simp add: mask_entry_def [of "mask_entry entry"])
        (simp add: mask_entry_def)
  next
    case False
    then have "mask_entry entry = entry" using c by (auto simp: mask_entry_def)
    then show ?thesis by simp
  qed
qed

lemma clean_MaskAny: "clean (MaskAny v)"
  by (induction v rule: MaskAny.induct)
     (auto simp: list_all_iff MaskMap_def MaskEnv_def clean_mask_entry)

text \<open>
  Whatever value an audit event carries, its masked form shows nothing but
  set or unset under a secret key, at any depth, in maps, string maps and environments.
\<close>

theorem MaskAny_clean: "clean (MaskAny v)"
  by (rule clean_MaskAny)

text \<open>
  Masking a record twice is masking it once: a value that went through the recorder
  and comes back in a later detail is recorded unchanged.
\<close>

theorem MaskAny_idempotent: "MaskAny (MaskAny v) = MaskAny v"
  by (induction v rule: MaskAny.induct)
     (auto simp: MaskMap_def MaskEnv_def mask_entry_idem)

lemma MaskAny_keys: "v = AMap m \<Longrightarrow> \<exists>m'. MaskAny v = AMap m' \<and> map fst m' = map fst m"
  by (auto simp: case_prod_beta comp_def)

lemma MaskMap_keys: "map fst (MaskMap m) = map fst m"
  by (simp add: MaskMap_def case_prod_beta comp_def)

end
