(* ===== verification/Store.thy ===== *)
theory Store
  imports Timestamps Audit_Mask
begin

text \<open>
  The identity half of internal/store: the tables of migrations/0001_init.sql and every
  statement the repositories run on them (models.go, users.go, sessions.go, tokens.go,
  logins.go, audit.go). A table is the list of its rows in insertion order and a query a
  function on that list, with the constraints of the schema: primary keys, unique columns,
  the CHECK on roles, the foreign keys and their ON DELETE CASCADE.

  The world a request runs in also holds the clock, the entropy source and the faults of
  the database: each statement takes the next entry of \<open>wFaults\<close> and fails without
  effect where it is \<open>True\<close>, so a theorem about a program covers every pattern of
  failing statements. The clock stands still during one request. Column values are kept
  typed: what is written through \<open>Format(time.RFC3339Nano)\<close> is the instant, and the
  comparisons SQLite makes on the texts are made on \<open>stamp\<close>.
\<close>

named_theorems store_simps \<open>the repositories' statements, unfolded\<close>

section \<open>Errors\<close>

text \<open>
  A Go error is represented by the sentinel that \<open>errors.Is\<close> finds in it; the wrapping
  texts are not kept. \<open>DriverError\<close> is any other failure of a statement,
  \<open>EntropyError\<close> one of \<open>crypto/rand\<close>.
\<close>

datatype go_error =
    ErrNotFound | ErrConflict | DriverError | EntropyError
  | ErrPasswordTooShort | ErrPasswordTooLong | ErrPasswordTooWeak | ErrInvalidHash
  | ErrTokenInvalid | ErrTokenExpired | SignError | ErrTicketInvalid
  | ErrInvalidTOTPSecret | ErrInvalidTOTPCode
  | ErrNotInitialized | ErrAlreadyInitialized | ErrInvalidCredentials | ErrAccountDisabled
  | ErrSessionInvalid | ErrUsernameRequired | ErrUsernameUnavailable | ErrTOTPRequired
  | LockedOutError duration
  | ErrUserNotFound | ErrLastAdmin | ErrSelfDelete | ErrOwnTOTPReset | ErrInvalidRole
  | ErrTOTPUnavailable | ErrTOTPNotPending | ErrTOTPEnabled | SecretBoxError

section \<open>Models\<close>

type_synonym role = string

definition RoleAdmin :: role where "RoleAdmin = ''admin''"
definition RoleOperator :: role where "RoleOperator = ''operator''"
definition RoleViewer :: role where "RoleViewer = ''viewer''"

definition ValidRole :: "role \<Rightarrow> bool" where
  "ValidRole r \<longleftrightarrow> r = RoleAdmin \<or> r = RoleOperator \<or> r = RoleViewer"

record user =
  uID :: string
  uUsername :: string
  uRole :: role
  uTOTPEnabled :: bool
  uDisabled :: bool
  uCreatedAt :: time
  uUpdatedAt :: time
  uLastLoginAt :: time
  uPasswordHash :: string
  uTOTPSecretEnc :: string

record session =
  sID :: string
  sUserID :: string
  sRefreshHash :: string
  sIP :: string
  sUserAgent :: string
  sCreatedAt :: time
  sExpiresAt :: time
  sRevokedAt :: time
  sLastUsedAt :: time

definition session_Active :: "session \<Rightarrow> time \<Rightarrow> bool" where
  "session_Active s now \<longleftrightarrow> is_zero (sRevokedAt s) \<and> before now (sExpiresAt s)"

record api_token =
  tID :: string
  tUserID :: string
  tName :: string
  tPrefix :: string
  tTokenHash :: string
  tScopes :: "string list"
  tCreatedAt :: time
  tExpiresAt :: time
  tLastUsedAt :: time
  tRevokedAt :: time

definition token_Active :: "api_token \<Rightarrow> time \<Rightarrow> bool" where
  "token_Active t now =
     (if \<not> is_zero (tRevokedAt t) then False
      else if \<not> is_zero (tExpiresAt t) \<and> after now (tExpiresAt t) then False
      else True)"

definition ResultOK :: string where "ResultOK = ''ok''"
definition ResultError :: string where "ResultError = ''error''"

record audit_entry =
  aID :: nat
  aUserID :: string
  aUsername :: string
  aAction :: string
  aResourceType :: string
  aResourceID :: string
  aResult :: string
  aDetail :: any
  aIP :: string
  aUserAgent :: string
  aCreatedAt :: time

record login_attempt =
  laIP :: string
  laUsername :: string
  laSuccess :: bool
  laCreatedAt :: time

record world =
  wUsers :: "user list"
  wSessions :: "session list"
  wTokens :: "api_token list"
  wAttempts :: "login_attempt list"
  wAudit :: "audit_entry list"
  wAuditSeq :: nat
  wNow :: time
  wEntropy :: "byte list"
  wFaults :: "bool list"

type_synonym 'a io = "(world, go_error, 'a) prog"

section \<open>Statements, clock and entropy\<close>

text \<open>One call of the driver: it may fail, and then has no effect.\<close>

definition db :: "'a io \<Rightarrow> 'a io" where
  "db m = (\<lambda>w. case wFaults w of
       [] \<Rightarrow> m w
     | f # fs \<Rightarrow> (if f then throwE DriverError else m) (w\<lparr>wFaults := fs\<rparr>))"

definition now :: "time io" where
  "now = readE wNow"

text \<open>\<open>rand.Read(buf)\<close> with a buffer of \<open>n\<close> bytes.\<close>

definition rand_read :: "nat \<Rightarrow> byte list io" where
  "rand_read n = (\<lambda>w.
     if length (wEntropy w) < n then (Inl EntropyError, w)
     else (Inr (take n (wEntropy w)), w\<lparr>wEntropy := drop n (wEntropy w)\<rparr>))"

text \<open>\<open>res.RowsAffected()\<close>: a second call that may fail, after the statement took effect.\<close>

definition rows_affected :: "nat \<Rightarrow> nat io" where
  "rows_affected n = db (returnE n)"

section \<open>Users\<close>

definition username_lower :: "user \<Rightarrow> string" where
  "username_lower u = to_lower (uUsername u)"

definition Users_Count :: "nat io" where
  "Users_Count = db (readE (\<lambda>w. length (wUsers w)))"

text \<open>
  The INSERT of \<open>UserRepo.Create\<close>: a duplicate id or lowercased name is a uniqueness
  violation, a role outside the CHECK any other constraint failure.
\<close>

definition insert_user :: "user \<Rightarrow> unit io" where
  "insert_user u = (\<lambda>w.
     if uID u \<in> uID ` set (wUsers w) \<or> username_lower u \<in> username_lower ` set (wUsers w)
     then (Inl ErrConflict, w)
     else if \<not> ValidRole (uRole u) then (Inl DriverError, w)
     else (Inr (), w\<lparr>wUsers := wUsers w @ [u]\<rparr>))"

definition Users_Create :: "user \<Rightarrow> unit io" where
  "Users_Create u =
     bindE now (\<lambda>t.
     let u1 = (if is_zero (uCreatedAt u) then u\<lparr>uCreatedAt := t\<rparr> else u);
         u2 = u1\<lparr>uUpdatedAt := t\<rparr>
     in db (insert_user u2))"

definition Users_scanOne :: "(user \<Rightarrow> bool) \<Rightarrow> user io" where
  "Users_scanOne p = db (\<lambda>w. case find p (wUsers w) of
       None \<Rightarrow> (Inl ErrNotFound, w) | Some u \<Rightarrow> (Inr u, w))"

definition Users_ByID :: "string \<Rightarrow> user io" where
  "Users_ByID i = Users_scanOne (\<lambda>u. uID u = i)"

definition Users_ByUsername :: "string \<Rightarrow> user io" where
  "Users_ByUsername name = Users_scanOne (\<lambda>u. username_lower u = to_lower (trim_space name))"

definition Users_List :: "user list io" where
  "Users_List = db (readE (\<lambda>w. sort_key (\<lambda>u. stamp (uCreatedAt u)) (wUsers w)))"

text \<open>\<open>UserRepo.exec\<close>: run the statement, then turn no rows affected into ErrNotFound.\<close>

definition Users_exec :: "(user \<Rightarrow> bool) \<Rightarrow> unit io \<Rightarrow> unit io" where
  "Users_exec p stmt =
     bindE (db (bindE (readE (\<lambda>w. length (filter p (wUsers w)))) (\<lambda>n. thenE stmt (returnE n)))) (\<lambda>n.
     bindE (rows_affected n) (\<lambda>n.
     if n = 0 then throwE ErrNotFound else returnE ()))"

definition Users_update :: "string \<Rightarrow> (user \<Rightarrow> user) \<Rightarrow> unit io" where
  "Users_update i f =
     Users_exec (\<lambda>u. uID u = i) (modifyE (\<lambda>w. w\<lparr>wUsers := update_where (\<lambda>u. uID u = i) f (wUsers w)\<rparr>))"

definition Users_UpdatePassword :: "string \<Rightarrow> string \<Rightarrow> unit io" where
  "Users_UpdatePassword i hash =
     bindE now (\<lambda>t. Users_update i (\<lambda>u. u\<lparr>uPasswordHash := hash, uUpdatedAt := t\<rparr>))"

text \<open>An UPDATE to a role the CHECK forbids fails when it touches a row.\<close>

definition Users_UpdateRole :: "string \<Rightarrow> role \<Rightarrow> unit io" where
  "Users_UpdateRole i r =
     bindE now (\<lambda>t.
     Users_exec (\<lambda>u. uID u = i) (\<lambda>w.
       if \<not> ValidRole r \<and> i \<in> uID ` set (wUsers w) then (Inl DriverError, w)
       else (Inr (), w\<lparr>wUsers := update_where (\<lambda>u. uID u = i) (\<lambda>u. u\<lparr>uRole := r, uUpdatedAt := t\<rparr>) (wUsers w)\<rparr>)))"

definition Users_SetDisabled :: "string \<Rightarrow> bool \<Rightarrow> unit io" where
  "Users_SetDisabled i d =
     bindE now (\<lambda>t. Users_update i (\<lambda>u. u\<lparr>uDisabled := d, uUpdatedAt := t\<rparr>))"

definition Users_SetTOTP :: "string \<Rightarrow> string \<Rightarrow> bool \<Rightarrow> unit io" where
  "Users_SetTOTP i enc enabled =
     bindE now (\<lambda>t. Users_update i (\<lambda>u. u\<lparr>uTOTPSecretEnc := enc, uTOTPEnabled := enabled, uUpdatedAt := t\<rparr>))"

definition Users_TouchLogin :: "string \<Rightarrow> time \<Rightarrow> unit io" where
  "Users_TouchLogin i t = Users_update i (\<lambda>u. u\<lparr>uLastLoginAt := t\<rparr>)"

text \<open>Deleting a user cascades to its sessions and API tokens.\<close>

definition delete_user :: "string \<Rightarrow> world \<Rightarrow> world" where
  "delete_user i w =
     w\<lparr>wUsers := delete_where (\<lambda>u. uID u = i) (wUsers w),
       wSessions := (if i \<in> uID ` set (wUsers w) then delete_where (\<lambda>s. sUserID s = i) (wSessions w) else wSessions w),
       wTokens := (if i \<in> uID ` set (wUsers w) then delete_where (\<lambda>t. tUserID t = i) (wTokens w) else wTokens w)\<rparr>"

definition Users_Delete :: "string \<Rightarrow> unit io" where
  "Users_Delete i = Users_exec (\<lambda>u. uID u = i) (modifyE (delete_user i))"

section \<open>Sessions\<close>

definition insert_session :: "session \<Rightarrow> unit io" where
  "insert_session s = (\<lambda>w.
     if sID s \<in> sID ` set (wSessions w) \<or> sRefreshHash s \<in> sRefreshHash ` set (wSessions w)
     then (Inl ErrConflict, w)
     else if sUserID s \<notin> uID ` set (wUsers w) then (Inl DriverError, w)
     else (Inr (), w\<lparr>wSessions := wSessions w @ [s]\<rparr>))"

definition Sessions_Create :: "session \<Rightarrow> unit io" where
  "Sessions_Create s =
     bindE now (\<lambda>t. db (insert_session (if is_zero (sCreatedAt s) then s\<lparr>sCreatedAt := t\<rparr> else s)))"

definition Sessions_ByRefreshHash :: "string \<Rightarrow> session io" where
  "Sessions_ByRefreshHash h = db (\<lambda>w. case find (\<lambda>s. sRefreshHash s = h) (wSessions w) of
       None \<Rightarrow> (Inl ErrNotFound, w) | Some s \<Rightarrow> (Inr s, w))"

definition revoke_where :: "(session \<Rightarrow> bool) \<Rightarrow> time \<Rightarrow> world \<Rightarrow> world" where
  "revoke_where p t w =
     w\<lparr>wSessions := update_where (\<lambda>s. p s \<and> is_zero (sRevokedAt s)) (\<lambda>s. s\<lparr>sRevokedAt := t\<rparr>) (wSessions w)\<rparr>"

definition Sessions_Revoke :: "string \<Rightarrow> unit io" where
  "Sessions_Revoke i = bindE now (\<lambda>t. db (modifyE (revoke_where (\<lambda>s. sID s = i) t)))"

definition Sessions_RevokeAllForUser :: "string \<Rightarrow> unit io" where
  "Sessions_RevokeAllForUser i = bindE now (\<lambda>t. db (modifyE (revoke_where (\<lambda>s. sUserID s = i) t)))"

definition Sessions_Touch :: "string \<Rightarrow> time \<Rightarrow> unit io" where
  "Sessions_Touch i t =
     db (modifyE (\<lambda>w. w\<lparr>wSessions := update_where (\<lambda>s. sID s = i) (\<lambda>s. s\<lparr>sLastUsedAt := t\<rparr>) (wSessions w)\<rparr>))"

definition Sessions_ListForUser :: "string \<Rightarrow> session list io" where
  "Sessions_ListForUser i =
     db (readE (\<lambda>w. rev (sort_key (\<lambda>s. stamp (sCreatedAt s)) (filter (\<lambda>s. sUserID s = i) (wSessions w)))))"

definition expired_before :: "time \<Rightarrow> session \<Rightarrow> bool" where
  "expired_before cutoff s \<longleftrightarrow>
     stamp (sExpiresAt s) < stamp cutoff
     \<or> \<not> is_zero (sRevokedAt s) \<and> stamp (sRevokedAt s) < stamp cutoff"

definition Sessions_DeleteExpired :: "time \<Rightarrow> nat io" where
  "Sessions_DeleteExpired cutoff =
     bindE (db (\<lambda>w. (Inr (length (filter (expired_before cutoff) (wSessions w))),
                     w\<lparr>wSessions := delete_where (expired_before cutoff) (wSessions w)\<rparr>))) rows_affected"

section \<open>API tokens\<close>

definition splitScopes :: "string \<Rightarrow> string list" where
  "splitScopes s =
     (if trim_space s = '''' then []
      else filter (\<lambda>p. p \<noteq> '''') (map trim_space (split_on (CHR '','') s)))"

text \<open>
  The scopes column holds the scopes joined by commas and is split again by
  \<open>scanToken\<close>; the row carries the scopes as they will be read back.
\<close>

definition insert_token :: "api_token \<Rightarrow> unit io" where
  "insert_token t = (\<lambda>w.
     if tID t \<in> tID ` set (wTokens w) \<or> tPrefix t \<in> tPrefix ` set (wTokens w)
        \<or> tTokenHash t \<in> tTokenHash ` set (wTokens w)
     then (Inl ErrConflict, w)
     else if tUserID t \<notin> uID ` set (wUsers w) then (Inl DriverError, w)
     else (Inr (), w\<lparr>wTokens := wTokens w @ [t\<lparr>tScopes := splitScopes (join '','' (tScopes t))\<rparr>]\<rparr>))"

definition Tokens_Create :: "api_token \<Rightarrow> unit io" where
  "Tokens_Create t =
     bindE now (\<lambda>at. db (insert_token (if is_zero (tCreatedAt t) then t\<lparr>tCreatedAt := at\<rparr> else t)))"

definition Tokens_find :: "(api_token \<Rightarrow> bool) \<Rightarrow> api_token io" where
  "Tokens_find p = db (\<lambda>w. case find p (wTokens w) of
       None \<Rightarrow> (Inl ErrNotFound, w) | Some t \<Rightarrow> (Inr t, w))"

definition Tokens_ByHash :: "string \<Rightarrow> api_token io" where
  "Tokens_ByHash h = Tokens_find (\<lambda>t. tTokenHash t = h)"

definition Tokens_ByID :: "string \<Rightarrow> api_token io" where
  "Tokens_ByID i = Tokens_find (\<lambda>t. tID t = i)"

definition Tokens_ListForUser :: "string \<Rightarrow> api_token list io" where
  "Tokens_ListForUser i =
     db (readE (\<lambda>w. rev (sort_key (\<lambda>t. stamp (tCreatedAt t)) (filter (\<lambda>t. tUserID t = i) (wTokens w)))))"

definition Tokens_Revoke :: "string \<Rightarrow> unit io" where
  "Tokens_Revoke i =
     bindE now (\<lambda>at.
     bindE (db (\<lambda>w.
        let p = (\<lambda>t. tID t = i \<and> is_zero (tRevokedAt t)) in
        (Inr (length (filter p (wTokens w))),
         w\<lparr>wTokens := update_where p (\<lambda>t. t\<lparr>tRevokedAt := at\<rparr>) (wTokens w)\<rparr>))) (\<lambda>n.
     bindE (rows_affected n) (\<lambda>n.
     if n = 0 then throwE ErrNotFound else returnE ())))"

definition Tokens_Touch :: "string \<Rightarrow> time \<Rightarrow> unit io" where
  "Tokens_Touch i at =
     db (modifyE (\<lambda>w. w\<lparr>wTokens := update_where (\<lambda>t. tID t = i) (\<lambda>t. t\<lparr>tLastUsedAt := at\<rparr>) (wTokens w)\<rparr>))"

section \<open>Login attempts\<close>

definition Logins_Record :: "string \<Rightarrow> string \<Rightarrow> bool \<Rightarrow> unit io" where
  "Logins_Record ip username success =
     bindE now (\<lambda>t. db (modifyE (\<lambda>w. w\<lparr>wAttempts := wAttempts w @
        [\<lparr>laIP = ip, laUsername = to_lower (trim_space username), laSuccess = success, laCreatedAt = t\<rparr>]\<rparr>)))"

text \<open>\<open>SELECT MAX(created_at) ... WHERE\<close>: the greatest text, NULL when no row matches.\<close>

definition max_created :: "(login_attempt \<Rightarrow> bool) \<Rightarrow> login_attempt list \<Rightarrow> time option" where
  "max_created p rs =
     (case sort_key (\<lambda>t. stamp t) (map laCreatedAt (filter p rs)) of [] \<Rightarrow> None | ts \<Rightarrow> Some (last ts))"

definition Logins_FailuresSince :: "string \<Rightarrow> time \<Rightarrow> nat io" where
  "Logins_FailuresSince ip since =
     bindE (db (readE (\<lambda>w. max_created (\<lambda>r. laIP r = ip \<and> laSuccess r \<and> stamp since \<le> stamp (laCreatedAt r)) (wAttempts w)))) (\<lambda>lastSuccess.
     let from = (case lastSuccess of
          Some t \<Rightarrow> if stamp since < stamp t then t else since
        | None \<Rightarrow> since)
     in db (readE (\<lambda>w. length (filter (\<lambda>r. laIP r = ip \<and> \<not> laSuccess r \<and> stamp from < stamp (laCreatedAt r)) (wAttempts w)))))"

definition Logins_LastFailureAt :: "string \<Rightarrow> time io" where
  "Logins_LastFailureAt ip =
     bindE (db (readE (\<lambda>w. max_created (\<lambda>r. laIP r = ip \<and> \<not> laSuccess r) (wAttempts w)))) (\<lambda>at.
     case at of None \<Rightarrow> returnE 0 | Some t \<Rightarrow> returnE t)"

definition Logins_DeleteBefore :: "time \<Rightarrow> nat io" where
  "Logins_DeleteBefore cutoff =
     bindE (db (\<lambda>w.
        let p = (\<lambda>r. stamp (laCreatedAt r) < stamp cutoff) in
        (Inr (length (filter p (wAttempts w))), w\<lparr>wAttempts := delete_where p (wAttempts w)\<rparr>))) rows_affected"

section \<open>The audit trail\<close>

text \<open>The detail column holds JSON text in the database and the encoded value here.\<close>

definition Audit_Append :: "audit_entry \<Rightarrow> nat io" where
  "Audit_Append e =
     bindE now (\<lambda>t.
     let e1 = (if is_zero (aCreatedAt e) then e\<lparr>aCreatedAt := t\<rparr> else e);
         e2 = (if aResult e1 = '''' then e1\<lparr>aResult := ResultOK\<rparr> else e1)
     in bindE (db (\<lambda>w.
          if aResult e2 \<noteq> ResultOK \<and> aResult e2 \<noteq> ResultError then (Inl DriverError, w)
          else (Inr (wAuditSeq w + 1),
                w\<lparr>wAudit := wAudit w @ [e2\<lparr>aID := wAuditSeq w + 1\<rparr>], wAuditSeq := wAuditSeq w + 1\<rparr>))) (\<lambda>i.
        db (returnE i)))"

record audit_filter =
  fUserID :: string
  fAction :: string
  fResourceType :: string
  fResourceID :: string
  fResult :: string
  fFrom :: time
  fTo :: time
  fLimit :: int
  fOffset :: int

definition auditWhere :: "audit_filter \<Rightarrow> audit_entry \<Rightarrow> bool" where
  "auditWhere f e \<longleftrightarrow>
     (fUserID f \<noteq> '''' \<longrightarrow> aUserID e = fUserID f)
     \<and> (fAction f \<noteq> '''' \<longrightarrow> aAction e = fAction f)
     \<and> (fResourceType f \<noteq> '''' \<longrightarrow> aResourceType e = fResourceType f)
     \<and> (fResourceID f \<noteq> '''' \<longrightarrow> aResourceID e = fResourceID f)
     \<and> (fResult f \<noteq> '''' \<longrightarrow> aResult e = fResult f)
     \<and> (\<not> is_zero (fFrom f) \<longrightarrow> stamp (fFrom f) \<le> stamp (aCreatedAt e))
     \<and> (\<not> is_zero (fTo f) \<longrightarrow> stamp (aCreatedAt e) \<le> stamp (fTo f))"

definition defaultAuditLimit :: int where "defaultAuditLimit = 200"
definition maxAuditLimit :: int where "maxAuditLimit = 1000"

definition audit_limit :: "audit_filter \<Rightarrow> int" where
  "audit_limit f =
     (if fLimit f \<le> 0 then defaultAuditLimit
      else if fLimit f > maxAuditLimit then maxAuditLimit
      else fLimit f)"

definition Audit_List :: "audit_filter \<Rightarrow> audit_entry list io" where
  "Audit_List f =
     db (readE (\<lambda>w. take (nat (audit_limit f)) (drop (nat (fOffset f))
          (rev (sort_key aID (filter (auditWhere f) (wAudit w)))))))"

definition Audit_Count :: "audit_filter \<Rightarrow> nat io" where
  "Audit_Count f = db (readE (\<lambda>w. length (filter (auditWhere f) (wAudit w))))"

definition Audit_DeleteBefore :: "time \<Rightarrow> nat io" where
  "Audit_DeleteBefore cutoff =
     bindE (db (\<lambda>w.
        let p = (\<lambda>e. stamp (aCreatedAt e) < stamp cutoff) in
        (Inr (length (filter p (wAudit w))), w\<lparr>wAudit := delete_where p (wAudit w)\<rparr>))) rows_affected"

end
