(* ===== verification/Store_Laws.thy ===== *)
theory Store_Laws
  imports Store
begin

text \<open>
  What the repositories promise: a failed statement has no effect, reads change nothing,
  writes change the rows they name and no others, and every statement keeps the
  constraints of the schema (\<open>db_ok\<close>).
\<close>

section \<open>Statements and faults\<close>

lemma db_no_faults [prog_simps]: "wFaults w = [] \<Longrightarrow> db m w = m w"
  by (simp add: db_def)

lemma same_faults [simp]: "w\<lparr>wFaults := wFaults w\<rparr> = w"
  by simp

lemma db_Inr:
  assumes "db m w = (Inr x, w')"
  obtains fs where "m (w\<lparr>wFaults := fs\<rparr>) = (Inr x, w')"
proof (cases "wFaults w")
  case Nil
  then have "m w = (Inr x, w')" using assms by (simp add: db_def)
  then show thesis using that [of "wFaults w"] by simp
next
  case (Cons f fs)
  then have "m (w\<lparr>wFaults := fs\<rparr>) = (Inr x, w')"
    using assms by (auto simp: db_def throwE_def split: if_splits)
  then show thesis by (rule that)
qed

lemma db_cases:
  obtains (fault) fs where "db m w = (Inl DriverError, w\<lparr>wFaults := fs\<rparr>)"
  | (run) fs where "db m w = m (w\<lparr>wFaults := fs\<rparr>)"
proof (cases "wFaults w")
  case Nil
  then have "db m w = m w" by (simp add: db_def)
  then show thesis using run [of "wFaults w"] by simp
next
  case (Cons f fs)
  then show thesis using fault [of fs] run [of fs] by (cases f) (auto simp: db_def throwE_def)
qed

text \<open>A predicate that does not look at the pending faults.\<close>

definition fault_blind :: "(world \<Rightarrow> bool) \<Rightarrow> bool" where
  "fault_blind I \<longleftrightarrow> (\<forall>w fs. I (w\<lparr>wFaults := fs\<rparr>) = I w)"

lemma keeps_db [keeps_intros]: "fault_blind I \<Longrightarrow> keeps I m \<Longrightarrow> keeps I (db m)"
proof (rule keepsI)
  fix w assume I: "fault_blind I" "keeps I m" "I w"
  show "I (snd (db m w))"
    by (rule db_cases [of m w]) (use I in \<open>auto simp: fault_blind_def keeps_def\<close>)
qed

lemma wp_db:
  assumes "\<And>fs. wp m Q E (w\<lparr>wFaults := fs\<rparr>)" and "\<And>fs. E DriverError (w\<lparr>wFaults := fs\<rparr>)"
  shows "wp (db m) Q E w"
  by (rule db_cases [of m w]) (use assms in \<open>auto simp: wp_def\<close>)

lemma wp_db_no_faults [wp_simps]: "wFaults w = [] \<Longrightarrow> wp (db m) Q E w = wp m Q E w"
  by (simp add: wp_def db_def)

lemma keeps_now [keeps_intros]: "keeps I now"
  by (simp add: now_def keeps_readE)

lemma now_run [prog_simps]: "now w = (Inr (wNow w), w)"
  by (simp add: now_def readE_def)

lemma wp_now [wp_simps]: "wp now Q E w = Q (wNow w) w"
  by (simp add: now_def wp_readE)

lemma keeps_rows_affected [keeps_intros]: "fault_blind I \<Longrightarrow> keeps I (rows_affected n)"
  unfolding rows_affected_def by (intro keeps_intros)

lemma keeps_rand_read:
  "(\<And>w bs. I (w\<lparr>wEntropy := bs\<rparr>) = I w) \<Longrightarrow> keeps I (rand_read n)"
  by (simp add: keeps_def rand_read_def)

lemma rand_read_Inr:
  "rand_read n w = (Inr bs, w') \<longleftrightarrow>
     n \<le> length (wEntropy w) \<and> bs = take n (wEntropy w) \<and> w' = w\<lparr>wEntropy := drop n (wEntropy w)\<rparr>"
  by (auto simp: rand_read_def)

section \<open>The tables and the schema\<close>

interpretation users_tbl: table wUsers "\<lambda>rs w. w\<lparr>wUsers := rs\<rparr>" uID username_lower
  by unfold_locales simp

interpretation sess_tbl: table wSessions "\<lambda>rs w. w\<lparr>wSessions := rs\<rparr>" sID sRefreshHash
  by unfold_locales simp

interpretation tok_tbl: table wTokens "\<lambda>rs w. w\<lparr>wTokens := rs\<rparr>" tID tTokenHash
  by unfold_locales simp

text \<open>The constraints of the schema: keys, unique columns, role CHECK and foreign keys.\<close>

definition roles_ok :: "world \<Rightarrow> bool" where
  "roles_ok w \<longleftrightarrow> (\<forall>u\<in>set (wUsers w). ValidRole (uRole u))"

definition refs_ok :: "world \<Rightarrow> bool" where
  "refs_ok w \<longleftrightarrow>
     (\<forall>s\<in>set (wSessions w). sUserID s \<in> uID ` set (wUsers w))
     \<and> (\<forall>t\<in>set (wTokens w). tUserID t \<in> uID ` set (wUsers w))"

definition db_ok :: "world \<Rightarrow> bool" where
  "db_ok w \<longleftrightarrow> users_tbl.unique w \<and> sess_tbl.unique w \<and> tok_tbl.unique w \<and> roles_ok w \<and> refs_ok w"

lemmas unique_defs = users_tbl.unique_def sess_tbl.unique_def tok_tbl.unique_def

lemma fault_blind_db_ok [simp]: "fault_blind db_ok"
  by (simp add: fault_blind_def db_ok_def unique_defs roles_ok_def refs_ok_def)

lemma db_ok_frame [simp]:
  "db_ok (w\<lparr>wFaults := fs\<rparr>) = db_ok w"
  "db_ok (w\<lparr>wEntropy := bs\<rparr>) = db_ok w"
  "db_ok (w\<lparr>wAttempts := rs\<rparr>) = db_ok w"
  "db_ok (w\<lparr>wAudit := es\<rparr>) = db_ok w"
  "db_ok (w\<lparr>wAuditSeq := n\<rparr>) = db_ok w"
  "db_ok (w\<lparr>wNow := t\<rparr>) = db_ok w"
  by (simp_all add: db_ok_def unique_defs roles_ok_def refs_ok_def)

lemma keeps_rand_read_db_ok [keeps_intros]: "keeps db_ok (rand_read n)"
  by (rule keeps_rand_read) simp

subsection \<open>Users\<close>

lemma keeps_Users_Count [keeps_intros]: "fault_blind I \<Longrightarrow> keeps I Users_Count"
  unfolding Users_Count_def by (intro keeps_intros)

lemma keeps_Users_scanOne [keeps_intros]: "fault_blind I \<Longrightarrow> keeps I (Users_scanOne p)"
  unfolding Users_scanOne_def
  by (intro keeps_db) (auto intro!: keepsI split: option.splits)

lemma keeps_Users_ByID [keeps_intros]: "fault_blind I \<Longrightarrow> keeps I (Users_ByID i)"
  unfolding Users_ByID_def by (rule keeps_Users_scanOne)

lemma keeps_Users_ByUsername [keeps_intros]: "fault_blind I \<Longrightarrow> keeps I (Users_ByUsername n)"
  unfolding Users_ByUsername_def by (rule keeps_Users_scanOne)

lemma keeps_Users_List [keeps_intros]: "fault_blind I \<Longrightarrow> keeps I Users_List"
  unfolding Users_List_def by (intro keeps_intros)

lemma keeps_Users_exec [keeps_intros]:
  "fault_blind I \<Longrightarrow> keeps I stmt \<Longrightarrow> keeps I (Users_exec p stmt)"
  unfolding Users_exec_def by (intro keeps_intros)

lemma Users_ByID_Inr:
  assumes "Users_ByID i w = (Inr u, w')"
  shows "u \<in> set (wUsers w) \<and> uID u = i \<and> (\<exists>fs. w' = w\<lparr>wFaults := fs\<rparr>)"
  using assms unfolding Users_ByID_def Users_scanOne_def
  by (elim db_Inr) (auto split: option.splits dest: find_SomeD)

lemma Users_ByUsername_Inr:
  assumes "Users_ByUsername n w = (Inr u, w')"
  shows "u \<in> set (wUsers w) \<and> username_lower u = to_lower (trim_space n) \<and> (\<exists>fs. w' = w\<lparr>wFaults := fs\<rparr>)"
  using assms unfolding Users_ByUsername_def Users_scanOne_def
  by (elim db_Inr) (auto split: option.splits dest: find_SomeD)

lemma Users_ByID_present:
  assumes "db_ok w" "u \<in> set (wUsers w)" "wFaults w = []"
  shows "Users_ByID (uID u) w = (Inr u, w)"
  using assms users_tbl.by_pk [of w u]
  by (simp add: Users_ByID_def Users_scanOne_def db_no_faults db_ok_def)

lemma Users_ByUsername_present:
  assumes "db_ok w" "u \<in> set (wUsers w)" "wFaults w = []"
    and "to_lower (trim_space n) = username_lower u"
  shows "Users_ByUsername n w = (Inr u, w)"
  using assms users_tbl.by_uk [of w u]
  by (simp add: Users_ByUsername_def Users_scanOne_def db_no_faults db_ok_def)

lemma Users_scanOne_absent:
  assumes "\<forall>u\<in>set (wUsers w). \<not> p u" "wFaults w = []"
  shows "Users_scanOne p w = (Inl ErrNotFound, w)"
  using assms find_eq_None [of p "wUsers w"]
  by (simp add: Users_scanOne_def db_no_faults)

lemma set_Users_List: "Users_List w = (Inr us, w') \<Longrightarrow> set us = set (wUsers w)"
  unfolding Users_List_def by (elim db_Inr) (auto simp: readE_def)

text \<open>An update of one account that keeps its id, name and role.\<close>

definition account_update :: "(user \<Rightarrow> user) \<Rightarrow> bool" where
  "account_update f \<longleftrightarrow>
     (\<forall>u. uID (f u) = uID u \<and> uUsername (f u) = uUsername u \<and> (ValidRole (uRole u) \<longrightarrow> ValidRole (uRole (f u))))"

lemma db_ok_update_users:
  assumes "account_update f" "db_ok w"
  shows "db_ok (w\<lparr>wUsers := update_where p f (wUsers w)\<rparr>)"
proof -
  have ids: "uID ` set (update_where p f (wUsers w)) = uID ` set (wUsers w)"
    using assms(1) map_update_where [of p uID f "wUsers w"]
    by (metis account_update_def list.set_map)
  have "users_tbl.unique (w\<lparr>wUsers := update_where p f (wUsers w)\<rparr>)"
    using assms by (intro users_tbl.unique_update)
      (simp_all add: db_ok_def account_update_def username_lower_def)
  moreover have "roles_ok (w\<lparr>wUsers := update_where p f (wUsers w)\<rparr>)"
    using assms by (auto simp: db_ok_def roles_ok_def account_update_def)
  moreover have "refs_ok (w\<lparr>wUsers := update_where p f (wUsers w)\<rparr>)"
    using assms(2) ids by (simp add: db_ok_def refs_ok_def)
  ultimately show ?thesis
    using assms(2) by (simp add: db_ok_def sess_tbl.unique_def tok_tbl.unique_def)
qed

lemma keeps_Users_update [keeps_intros]: "account_update f \<Longrightarrow> keeps db_ok (Users_update i f)"
  unfolding Users_update_def by (intro keeps_intros) (simp_all add: db_ok_update_users)

lemma keeps_UpdatePassword [keeps_intros]: "keeps db_ok (Users_UpdatePassword i h)"
  unfolding Users_UpdatePassword_def by (intro keeps_intros) (simp add: account_update_def)

lemma keeps_SetDisabled [keeps_intros]: "keeps db_ok (Users_SetDisabled i d)"
  unfolding Users_SetDisabled_def by (intro keeps_intros) (simp add: account_update_def)

lemma keeps_SetTOTP [keeps_intros]: "keeps db_ok (Users_SetTOTP i s e)"
  unfolding Users_SetTOTP_def by (intro keeps_intros) (simp add: account_update_def)

lemma keeps_TouchLogin [keeps_intros]: "keeps db_ok (Users_TouchLogin i t)"
  unfolding Users_TouchLogin_def by (intro keeps_intros) (simp add: account_update_def)

lemma update_role_invalid:
  "i \<notin> uID ` set rs \<Longrightarrow> update_where (\<lambda>u. uID u = i) f rs = rs"
  by (auto simp: update_where_def intro!: map_idI)

lemma keeps_UpdateRole [keeps_intros]: "keeps db_ok (Users_UpdateRole i r)"
  unfolding Users_UpdateRole_def
proof (intro keeps_intros)
  fix t
  show "keeps db_ok (\<lambda>w. if \<not> ValidRole r \<and> i \<in> uID ` set (wUsers w) then (Inl DriverError, w)
       else (Inr (), w\<lparr>wUsers := update_where (\<lambda>u. uID u = i) (\<lambda>u. u\<lparr>uRole := r, uUpdatedAt := t\<rparr>) (wUsers w)\<rparr>))"
    by (rule keepsI)
       (auto simp: update_role_invalid account_update_def intro!: db_ok_update_users)
qed simp

lemma keeps_Users_Create [keeps_intros]: "keeps db_ok (Users_Create u)"
proof -
  have "keeps db_ok (insert_user v)" for v
  proof (rule keepsI)
    fix w assume ok: "db_ok w"
    show "db_ok (snd (insert_user v w))"
    proof (cases "uID v \<in> uID ` set (wUsers w) \<or> username_lower v \<in> username_lower ` set (wUsers w) \<or> \<not> ValidRole (uRole v)")
      case True
      with ok show ?thesis by (auto simp: insert_user_def)
    next
      case False
      with ok show ?thesis
        by (auto simp: insert_user_def db_ok_def roles_ok_def refs_ok_def unique_defs)
    qed
  qed
  then show ?thesis
    unfolding Users_Create_def Let_def by (intro keeps_intros) simp_all
qed

lemma db_ok_delete_user:
  assumes "db_ok w"
  shows "db_ok (delete_user i w)"
proof -
  have "users_tbl.unique (delete_user i w)" "sess_tbl.unique (delete_user i w)"
    "tok_tbl.unique (delete_user i w)"
    using assms by (auto simp: db_ok_def unique_defs delete_user_def distinct_map_delete_where)
  moreover have "roles_ok (delete_user i w)"
    using assms by (auto simp: db_ok_def roles_ok_def delete_user_def)
  moreover have "refs_ok (delete_user i w)"
  proof -
    have "uID ` {u \<in> set (wUsers w). uID u \<noteq> i} = uID ` set (wUsers w) - {i}" by auto
    with assms show ?thesis by (auto simp: db_ok_def refs_ok_def delete_user_def)
  qed
  ultimately show ?thesis by (simp add: db_ok_def)
qed

lemma keeps_Users_Delete [keeps_intros]: "keeps db_ok (Users_Delete i)"
  unfolding Users_Delete_def by (intro keeps_intros) (simp_all add: db_ok_delete_user)

subsection \<open>Sessions\<close>

lemma keeps_ByRefreshHash [keeps_intros]: "fault_blind I \<Longrightarrow> keeps I (Sessions_ByRefreshHash h)"
  unfolding Sessions_ByRefreshHash_def
  by (intro keeps_db) (auto intro!: keepsI split: option.splits)

lemma Sessions_ByRefreshHash_Inr:
  assumes "Sessions_ByRefreshHash h w = (Inr s, w')"
  shows "s \<in> set (wSessions w) \<and> sRefreshHash s = h \<and> (\<exists>fs. w' = w\<lparr>wFaults := fs\<rparr>)"
  using assms unfolding Sessions_ByRefreshHash_def
  by (elim db_Inr) (auto split: option.splits dest: find_SomeD)

lemma db_ok_update_sessions:
  assumes "\<And>s. sID (f s) = sID s" "\<And>s. sRefreshHash (f s) = sRefreshHash s"
    "\<And>s. sUserID (f s) = sUserID s" "db_ok w"
  shows "db_ok (w\<lparr>wSessions := update_where p f (wSessions w)\<rparr>)"
proof -
  have "sess_tbl.unique (w\<lparr>wSessions := update_where p f (wSessions w)\<rparr>)"
    using assms by (intro sess_tbl.unique_update) (simp_all add: db_ok_def)
  moreover have "refs_ok (w\<lparr>wSessions := update_where p f (wSessions w)\<rparr>)"
    using assms by (auto simp: db_ok_def refs_ok_def)
  ultimately show ?thesis
    using assms(4) by (simp add: db_ok_def users_tbl.unique_def tok_tbl.unique_def roles_ok_def)
qed

lemma db_ok_revoke_where: "db_ok w \<Longrightarrow> db_ok (revoke_where p t w)"
  unfolding revoke_where_def by (rule db_ok_update_sessions) simp_all

lemma keeps_Revoke [keeps_intros]: "keeps db_ok (Sessions_Revoke i)"
  unfolding Sessions_Revoke_def by (intro keeps_intros) (simp_all add: db_ok_revoke_where)

lemma keeps_RevokeAll [keeps_intros]: "keeps db_ok (Sessions_RevokeAllForUser i)"
  unfolding Sessions_RevokeAllForUser_def by (intro keeps_intros) (simp_all add: db_ok_revoke_where)

lemma keeps_Sessions_Touch [keeps_intros]: "keeps db_ok (Sessions_Touch i t)"
  unfolding Sessions_Touch_def by (intro keeps_intros) (simp_all add: db_ok_update_sessions)

lemma keeps_Sessions_Create [keeps_intros]: "keeps db_ok (Sessions_Create s)"
proof -
  have "keeps db_ok (insert_session v)" for v
    by (rule keepsI) (auto simp: insert_session_def db_ok_def roles_ok_def refs_ok_def unique_defs)
  then show ?thesis unfolding Sessions_Create_def by (intro keeps_intros) simp_all
qed

lemma Sessions_Create_Inr:
  assumes "Sessions_Create s w = (Inr x, w')"
  shows "\<exists>fs. w' = w\<lparr>wFaults := fs, wSessions := wSessions w @ [if is_zero (sCreatedAt s) then s\<lparr>sCreatedAt := wNow w\<rparr> else s]\<rparr>
    \<and> sUserID s \<in> uID ` set (wUsers w) \<and> sRefreshHash s \<notin> sRefreshHash ` set (wSessions w) \<and> sID s \<notin> sID ` set (wSessions w)"
  using assms unfolding Sessions_Create_def
  by (elim bindE_InrE db_Inr) (auto simp: now_run insert_session_def split: if_splits)

lemma Sessions_Create_Inl:
  assumes "Sessions_Create s w = (Inl e, w')"
  shows "\<exists>fs. w' = w\<lparr>wFaults := fs\<rparr>"
proof -
  let ?s = "if is_zero (sCreatedAt s) then s\<lparr>sCreatedAt := wNow w\<rparr> else s"
  from assms have run: "db (insert_session ?s) w = (Inl e, w')"
    by (simp add: Sessions_Create_def bindE_run now_run)
  show ?thesis
    by (rule db_cases [of "insert_session ?s" w])
       (use run in \<open>auto simp: insert_session_def split: if_splits\<close>)
qed

lemma keeps_DeleteExpired [keeps_intros]: "keeps db_ok (Sessions_DeleteExpired c)"
  unfolding Sessions_DeleteExpired_def
proof (intro keeps_intros)
  show "keeps db_ok (\<lambda>w. (Inr (length (filter (expired_before c) (wSessions w))),
                     w\<lparr>wSessions := delete_where (expired_before c) (wSessions w)\<rparr>))"
    by (rule keepsI)
       (auto simp: db_ok_def roles_ok_def refs_ok_def unique_defs distinct_map_delete_where)
qed simp_all

subsection \<open>Tokens, attempts and audit\<close>

lemma keeps_Tokens_find [keeps_intros]: "fault_blind I \<Longrightarrow> keeps I (Tokens_find p)"
  unfolding Tokens_find_def by (intro keeps_db) (auto intro!: keepsI split: option.splits)

lemma keeps_Tokens_ByHash [keeps_intros]: "fault_blind I \<Longrightarrow> keeps I (Tokens_ByHash h)"
  unfolding Tokens_ByHash_def by (rule keeps_Tokens_find)

lemma Tokens_ByHash_Inr:
  assumes "Tokens_ByHash h w = (Inr t, w')"
  shows "t \<in> set (wTokens w) \<and> tTokenHash t = h \<and> (\<exists>fs. w' = w\<lparr>wFaults := fs\<rparr>)"
  using assms unfolding Tokens_ByHash_def Tokens_find_def
  by (elim db_Inr) (auto split: option.splits dest: find_SomeD)

lemma keeps_Tokens_Touch [keeps_intros]: "keeps db_ok (Tokens_Touch i t)"
proof -
  have "db_ok (w\<lparr>wTokens := update_where (\<lambda>t. tID t = i) (\<lambda>r. r\<lparr>tLastUsedAt := t\<rparr>) (wTokens w)\<rparr>)"
    if "db_ok w" for w
  proof -
    have "tok_tbl.unique (w\<lparr>wTokens := update_where (\<lambda>t. tID t = i) (\<lambda>r. r\<lparr>tLastUsedAt := t\<rparr>) (wTokens w)\<rparr>)"
      using that by (intro tok_tbl.unique_update) (simp_all add: db_ok_def)
    then show ?thesis
      using that by (auto simp: db_ok_def roles_ok_def refs_ok_def users_tbl.unique_def sess_tbl.unique_def)
  qed
  then show ?thesis unfolding Tokens_Touch_def by (intro keeps_intros) simp_all
qed

lemma keeps_Logins_Record [keeps_intros]: "keeps db_ok (Logins_Record ip u b)"
  unfolding Logins_Record_def by (intro keeps_intros) simp_all

lemma keeps_FailuresSince [keeps_intros]: "fault_blind I \<Longrightarrow> keeps I (Logins_FailuresSince ip t)"
  unfolding Logins_FailuresSince_def Let_def by (intro keeps_intros)

lemma keeps_LastFailureAt [keeps_intros]: "fault_blind I \<Longrightarrow> keeps I (Logins_LastFailureAt ip)"
  unfolding Logins_LastFailureAt_def by (intro keeps_intros)

lemma keeps_Audit_Append:
  assumes "fault_blind I" "\<And>w es n. I (w\<lparr>wAudit := es, wAuditSeq := n\<rparr>) = I w"
  shows "keeps I (Audit_Append e)"
  unfolding Audit_Append_def Let_def
proof (intro keeps_intros)
  fix t
  let ?e1 = "if is_zero (aCreatedAt e) then e\<lparr>aCreatedAt := t\<rparr> else e"
  let ?e2 = "if aResult ?e1 = '''' then ?e1\<lparr>aResult := ResultOK\<rparr> else ?e1"
  show "keeps I (\<lambda>w. if aResult ?e2 \<noteq> ResultOK \<and> aResult ?e2 \<noteq> ResultError then (Inl DriverError, w)
          else (Inr (wAuditSeq w + 1),
                w\<lparr>wAudit := wAudit w @ [?e2\<lparr>aID := wAuditSeq w + 1\<rparr>], wAuditSeq := wAuditSeq w + 1\<rparr>))"
    by (rule keepsI) (simp add: assms(2))
qed (use assms(1) in simp_all)

lemma keeps_Audit_Append_db_ok [keeps_intros]: "keeps db_ok (Audit_Append e)"
  by (rule keeps_Audit_Append) simp_all

end
