(* ===== verification/Codec.thy ===== *)
theory Codec
  imports GoStrings
begin

text \<open>
  The text encodings of bytes that the credentials use, as Go's encoding/base64,
  encoding/base32 and encoding/hex implement them without padding: bytes as bits, most
  significant first, cut into groups of the digit width, the last one filled with zeros.
  Decoders skip carriage returns and newlines. The contract of an encoding (decoding
  inverts encoding, and a separator never occurs) is a locale, interpreted on both
  encodings.
\<close>

unbundle bit_operations_syntax

section \<open>Bits\<close>

definition bits_of :: "nat \<Rightarrow> 'a :: semiring_bits \<Rightarrow> bool list" where
  "bits_of k a = map (bit a) (rev [0..<k])"

definition of_bits :: "bool list \<Rightarrow> 'a :: semiring_bit_operations" where
  "of_bits bs = horner_sum of_bool 2 (rev bs)"

definition byte_bits :: "byte list \<Rightarrow> bool list" where
  "byte_bits bs = concat (map (bits_of 8) bs)"

fun bytes_of :: "bool list \<Rightarrow> byte list" where
  "bytes_of xs = (if length xs < 8 then [] else of_bits (take 8 xs) # bytes_of (drop 8 xs))"

declare bytes_of.simps [simp del]

definition pad_to :: "nat \<Rightarrow> bool list \<Rightarrow> bool list" where
  "pad_to k xs = xs @ replicate (k - length xs) False"

fun groups :: "nat \<Rightarrow> bool list \<Rightarrow> bool list list" where
  "groups k xs = (if k = 0 \<or> xs = [] then [] else pad_to k (take k xs) # groups k (drop k xs))"

declare groups.simps [simp del]

lemma length_bits_of [simp]: "length (bits_of k a) = k"
  by (simp add: bits_of_def)

lemma of_bits_bits_of: "of_bits (bits_of k a) = take_bit k a"
  by (simp add: of_bits_def bits_of_def rev_map horner_sum_bit_eq_take_bit)

lemma bits_of_of_bits:
  "bits_of (length bs) (of_bits bs :: nat) = bs"
proof (rule nth_equalityI)
  fix i assume "i < length (bits_of (length bs) (of_bits bs :: nat))"
  then show "bits_of (length bs) (of_bits bs :: nat) ! i = bs ! i"
    by (auto simp: bits_of_def of_bits_def rev_nth bit_horner_sum_bit_iff)
qed simp

lemma of_bits_bound: "(of_bits bs :: nat) < 2 ^ length bs"
proof -
  have "of_bits bs = take_bit (length bs) (of_bits bs :: nat)"
    by (metis bits_of_of_bits of_bits_bits_of)
  then show ?thesis by (metis take_bit_nat_less_exp)
qed

lemma length_byte_bits [simp]: "length (byte_bits bs) = 8 * length bs"
  by (induction bs) (simp_all add: byte_bits_def)

lemma bytes_of_byte_bits: "length zs < 8 \<Longrightarrow> bytes_of (byte_bits bs @ zs) = bs"
proof (induction bs)
  case Nil
  then show ?case by (simp add: byte_bits_def bytes_of.simps)
next
  case (Cons b bs)
  have "take_bit 8 b = b" by (rule take_bit_word_eq_self) simp
  with Cons show ?case
    by (subst bytes_of.simps) (simp add: byte_bits_def of_bits_bits_of)
qed

lemma length_groups_elem: "g \<in> set (groups k xs) \<Longrightarrow> length g = k"
proof (induction k xs rule: groups.induct)
  case (1 k xs)
  then show ?case
    by (cases "k = 0 \<or> xs = []") (auto simp: pad_to_def groups.simps [of k xs])
qed

lemma length_groups: "0 < k \<Longrightarrow> length (groups k xs) = (length xs + (k - 1)) div k"
proof (induction k xs rule: groups.induct)
  case (1 k xs)
  show ?case
  proof (cases "xs = []")
    case True
    with 1 show ?thesis by (simp add: groups.simps)
  next
    case False
    have IH: "length (groups k (drop k xs)) = (length xs - k + (k - 1)) div k"
      using 1 False by simp
    have "Suc ((length xs - k + (k - 1)) div k) = (length xs + (k - 1)) div k"
    proof (cases "length xs \<le> k")
      case True
      moreover have "0 < length xs" using False by simp
      ultimately have "(length xs + (k - 1)) div k = 1"
        using "1.prems" by (intro div_nat_eqI) (linarith, simp)
      with True "1.prems" show ?thesis by simp
    next
      case False
      then have eq: "length xs + (k - 1) = (length xs - k + (k - 1)) + k" using "1.prems" by simp
      show ?thesis unfolding eq using "1.prems" by (subst div_add_self2) auto
    qed
    with IH False "1.prems" show ?thesis by (subst groups.simps) simp
  qed
qed

lemma concat_groups: "0 < k \<Longrightarrow> \<exists>r<k. concat (groups k xs) = xs @ replicate r False"
proof (induction k xs rule: groups.induct)
  case (1 k xs)
  show ?case
  proof (cases "xs = []")
    case True
    with 1 show ?thesis by (simp add: groups.simps)
  next
    case False
    with "1.IH" "1.prems" obtain r where r: "r < k" "concat (groups k (drop k xs)) = drop k xs @ replicate r False"
      by auto
    show ?thesis
    proof (cases "length xs \<le> k")
      case True
      with False have "concat (groups k xs) = xs @ replicate (k - length xs) False"
        using "1.prems" by (subst groups.simps) (simp add: pad_to_def groups.simps)
      moreover have "k - length xs < k" using False "1.prems" by (cases xs) auto
      ultimately show ?thesis by blast
    next
      case False2: False
      with False "1.prems" r have "concat (groups k xs) = xs @ replicate r False"
        by (subst groups.simps) (simp add: pad_to_def)
      with r(1) show ?thesis by blast
    qed
  qed
qed

section \<open>Alphabets\<close>

fun index_of :: "string \<Rightarrow> char \<Rightarrow> nat option" where
  "index_of [] c = None"
| "index_of (a # as) c = (if a = c then Some 0 else map_option Suc (index_of as c))"

fun digits_of :: "string \<Rightarrow> string \<Rightarrow> nat list option" where
  "digits_of alpha [] = Some []"
| "digits_of alpha (c # s) =
     (case index_of alpha c of
        None \<Rightarrow> None
      | Some d \<Rightarrow> map_option ((#) d) (digits_of alpha s))"

lemma index_of_nth: "distinct alpha \<Longrightarrow> i < length alpha \<Longrightarrow> index_of alpha (alpha ! i) = Some i"
proof (induction alpha arbitrary: i)
  case Nil
  then show ?case by simp
next
  case (Cons a as)
  then show ?case by (cases i) auto
qed

lemma digits_of_map:
  "distinct alpha \<Longrightarrow> (\<forall>d\<in>set ds. d < length alpha) \<Longrightarrow> digits_of alpha (map ((!) alpha) ds) = Some ds"
  by (induction ds) (auto simp: index_of_nth)

definition is_newline :: "char \<Rightarrow> bool" where
  "is_newline c \<longleftrightarrow> c = CHR 0x0A \<or> c = CHR 0x0D"

definition encode_bits :: "nat \<Rightarrow> string \<Rightarrow> byte list \<Rightarrow> string" where
  "encode_bits k alpha bs = map (\<lambda>g. alpha ! of_bits g) (groups k (byte_bits bs))"

lemma set_encode_bits:
  "length alpha = 2 ^ k \<Longrightarrow> set (encode_bits k alpha bs) \<subseteq> set alpha"
  using of_bits_bound length_groups_elem
  by (auto simp: encode_bits_def) (metis nth_mem)

lemma length_encode_bits: "0 < k \<Longrightarrow> length (encode_bits k alpha bs) = (8 * length bs + (k - 1)) div k"
  by (simp add: encode_bits_def length_groups)

lemma digits_encode_bits:
  assumes "distinct alpha" "length alpha = 2 ^ k"
  shows "digits_of alpha (encode_bits k alpha bs) = Some (map of_bits (groups k (byte_bits bs)))"
proof -
  have "encode_bits k alpha bs = map ((!) alpha) (map of_bits (groups k (byte_bits bs)))"
    by (simp add: encode_bits_def)
  moreover have "\<forall>d\<in>set (map of_bits (groups k (byte_bits bs))). d < length alpha"
    using assms(2) of_bits_bound length_groups_elem by (metis (no_types, lifting) imageE list.set_map)
  ultimately show ?thesis using assms(1) by (metis digits_of_map)
qed

lemma bits_of_groups:
  "concat (map (bits_of k) (map of_bits (groups k xs) :: nat list)) = concat (groups k xs)"
proof -
  have "map (\<lambda>g. bits_of k (of_bits g :: nat)) (groups k xs) = groups k xs"
    using bits_of_of_bits length_groups_elem by (metis (no_types, lifting) map_idI)
  then show ?thesis by (simp add: comp_def)
qed

section \<open>Base 64 and base 32\<close>

definition base64_std :: string where
  "base64_std = ''ABCDEFGHIJKLMNOPQRSTUVWXYZabcdefghijklmnopqrstuvwxyz0123456789+/''"

definition base64_url :: string where
  "base64_url = ''ABCDEFGHIJKLMNOPQRSTUVWXYZabcdefghijklmnopqrstuvwxyz0123456789-_''"

definition base32_std :: string where
  "base32_std = ''ABCDEFGHIJKLMNOPQRSTUVWXYZ234567''"

text \<open>\<open>base64.RawStdEncoding\<close>, and its strict decoder.\<close>

definition b64_encode :: "string \<Rightarrow> byte list \<Rightarrow> string" where
  "b64_encode alpha = encode_bits 6 alpha"

definition b64_decode_strict :: "string \<Rightarrow> string \<Rightarrow> byte list option" where
  "b64_decode_strict alpha s =
     (case digits_of alpha (filter (\<lambda>c. \<not> is_newline c) s) of
        None \<Rightarrow> None
      | Some ds \<Rightarrow>
          if length ds mod 4 = 1 then None
          else let bits = concat (map (bits_of 6) ds); n = 8 * (length bits div 8)
               in if True \<in> set (drop n bits) then None else Some (bytes_of (take n bits)))"

text \<open>
  \<open>base32.StdEncoding.WithPadding(NoPadding)\<close>: a last group of one, three or six digits
  decodes to no bytes at all, without an error.
\<close>

definition b32_encode :: "byte list \<Rightarrow> string" where
  "b32_encode = encode_bits 5 base32_std"

definition b32_decode :: "string \<Rightarrow> byte list option" where
  "b32_decode s =
     (case digits_of base32_std (filter (\<lambda>c. \<not> is_newline c) s) of
        None \<Rightarrow> None
      | Some ds \<Rightarrow>
          let ds' = (if length ds mod 8 \<in> {1, 3, 6} then take (8 * (length ds div 8)) ds else ds)
          in Some (bytes_of (concat (map (bits_of 5) ds'))))"

lemma alphabets:
  "length base64_std = 64" "length base64_url = 64" "length base32_std = 32"
  "distinct base64_std" "distinct base64_url" "distinct base32_std"
  by (simp_all add: base64_std_def base64_url_def base32_std_def)

lemma no_newlines: "(\<forall>c\<in>set alpha. \<not> is_newline c) \<Longrightarrow> set s \<subseteq> set alpha \<Longrightarrow> filter (\<lambda>c. \<not> is_newline c) s = s"
  by (auto simp: filter_id_conv)

lemma b64_round_trip:
  assumes "distinct alpha" "length alpha = 64" "\<forall>c\<in>set alpha. \<not> is_newline c"
  shows "b64_decode_strict alpha (b64_encode alpha bs) = Some bs"
proof -
  let ?ds = "map of_bits (groups 6 (byte_bits bs)) :: nat list"
  have "filter (\<lambda>c. \<not> is_newline c) (b64_encode alpha bs) = b64_encode alpha bs"
    using assms(2,3) set_encode_bits [of alpha 6 bs] by (intro no_newlines) (auto simp: b64_encode_def)
  then have ds: "digits_of alpha (filter (\<lambda>c. \<not> is_newline c) (b64_encode alpha bs)) = Some ?ds"
    using assms(1,2) by (simp add: b64_encode_def digits_encode_bits)
  have "(8 * length bs + 5) div 6 mod 4 \<noteq> 1" by presburger
  then have len: "length ?ds mod 4 \<noteq> 1" by (simp add: length_groups)
  obtain r where r: "r < 6" "concat (map (bits_of 6) ?ds) = byte_bits bs @ replicate r False"
    using concat_groups [of 6 "byte_bits bs"] bits_of_groups [of 6 "byte_bits bs"] by auto
  have n: "8 * (length (byte_bits bs @ replicate r False) div 8) = 8 * length bs" using r(1) by simp
  have "bytes_of (byte_bits bs) = bs" using bytes_of_byte_bits [of "[]"] by simp
  then show ?thesis
    unfolding b64_decode_strict_def ds using len r n by (simp add: Let_def)
qed

lemma b32_round_trip: "b32_decode (b32_encode bs) = Some bs"
proof -
  let ?ds = "map of_bits (groups 5 (byte_bits bs)) :: nat list"
  have "filter (\<lambda>c. \<not> is_newline c) (b32_encode bs) = b32_encode bs"
    using set_encode_bits [of base32_std 5 bs]
    by (intro no_newlines [of base32_std]) (auto simp: b32_encode_def base32_std_def is_newline_def)
  then have ds: "digits_of base32_std (filter (\<lambda>c. \<not> is_newline c) (b32_encode bs)) = Some ?ds"
    by (simp add: b32_encode_def digits_encode_bits alphabets)
  have "(8 * length bs + 4) div 5 mod 8 \<notin> {1, 3, 6}" by (simp, presburger)
  then have len: "length ?ds mod 8 \<notin> {1, 3, 6}" by (simp add: length_groups)
  obtain r where r: "r < 5" "concat (map (bits_of 5) ?ds) = byte_bits bs @ replicate r False"
    using concat_groups [of 5 "byte_bits bs"] bits_of_groups [of 5 "byte_bits bs"] by auto
  have "bytes_of (byte_bits bs @ replicate r False) = bs" using r(1) by (intro bytes_of_byte_bits) simp
  then show ?thesis
    unfolding b32_decode_def ds using len r by (simp add: Let_def)
qed

text \<open>
  \<open>base64.StdEncoding\<close>: the last group is filled with equals signs. The decoder needs
  them, and nothing may follow; unlike the strict one it does not look at the bits after
  the last byte.
\<close>

definition b64_pad_encode :: "byte list \<Rightarrow> string" where
  "b64_pad_encode bs =
     (let s = b64_encode base64_std bs in s @ replicate ((4 - length s mod 4) mod 4) (CHR ''=''))"

definition strip_padding :: "string \<Rightarrow> string" where
  "strip_padding s =
     (case rev s of
        a # b # r \<Rightarrow> if a = CHR ''='' then (if b = CHR ''='' then rev r else rev (b # r)) else s
      | _ \<Rightarrow> s)"

definition b64_pad_decode :: "string \<Rightarrow> byte list option" where
  "b64_pad_decode text =
     (let s = filter (\<lambda>c. \<not> is_newline c) text in
      if length s mod 4 \<noteq> 0 then None
      else map_option (\<lambda>ds. bytes_of (concat (map (bits_of 6) ds))) (digits_of base64_std (strip_padding s)))"

lemma quad_padding:
  fixes n :: nat
  assumes "n mod 4 \<noteq> 1"
  shows "(4 - n mod 4) mod 4 = 0 \<or> (4 - n mod 4) mod 4 = 1 \<or> (4 - n mod 4) mod 4 = 2"
    and "(n + (4 - n mod 4) mod 4) mod 4 = 0"
proof -
  consider "n mod 4 = 0" | "n mod 4 = 2" | "n mod 4 = 3" using assms by linarith
  note c = this
  show "(4 - n mod 4) mod 4 = 0 \<or> (4 - n mod 4) mod 4 = 1 \<or> (4 - n mod 4) mod 4 = 2"
    by (cases rule: c) simp_all
  have "(n mod 4 + (4 - n mod 4) mod 4) mod 4 = 0" by (cases rule: c) simp_all
  then show "(n + (4 - n mod 4) mod 4) mod 4 = 0" by (simp add: mod_add_left_eq)
qed

lemma b64_pad_round_trip: "b64_pad_decode (b64_pad_encode bs) = Some bs"
proof -
  let ?s = "b64_encode base64_std bs" and ?ds = "map of_bits (groups 6 (byte_bits bs)) :: nat list"
  let ?k = "(4 - length ?s mod 4) mod 4"
  have chars: "set ?s \<subseteq> set base64_std"
    unfolding b64_encode_def by (rule set_encode_bits) (simp add: alphabets)
  have plain: "\<not> is_newline c \<and> c \<noteq> CHR ''=''" if "c \<in> set ?s" for c
    using subsetD [OF chars that] by (auto simp: base64_std_def is_newline_def)
  have "length ?s = (8 * length bs + 5) div 6" by (simp add: b64_encode_def length_encode_bits)
  then have "length ?s mod 4 \<noteq> 1" by presburger
  then have k: "?k = 0 \<or> ?k = 1 \<or> ?k = 2" and m: "(length ?s + ?k) mod 4 = 0"
    using quad_padding by blast+
  have nl: "filter (\<lambda>c. \<not> is_newline c) (b64_pad_encode bs) = b64_pad_encode bs"
    using plain by (auto simp: b64_pad_encode_def Let_def filter_id_conv is_newline_def)
  have strip: "strip_padding (?s @ replicate ?k (CHR ''='')) = ?s"
  proof (cases ?s rule: rev_cases)
    case Nil
    then show ?thesis by (simp add: strip_padding_def)
  next
    case (snoc xs x)
    then have "x \<noteq> CHR ''=''" using plain by simp
    with k snoc show ?thesis
      by (auto simp: strip_padding_def numeral_2_eq_2 split: list.split)
  qed
  have ds: "digits_of base64_std ?s = Some ?ds"
    by (simp add: b64_encode_def digits_encode_bits alphabets)
  obtain r where r: "r < 6" "concat (map (bits_of 6) ?ds) = byte_bits bs @ replicate r False"
    using concat_groups [of 6 "byte_bits bs"] bits_of_groups [of 6 "byte_bits bs"] by auto
  from r(1) have bs: "bytes_of (byte_bits bs @ replicate r False) = bs"
    by (intro bytes_of_byte_bits) simp
  have "length (b64_pad_encode bs) mod 4 = 0" using m by (simp add: b64_pad_encode_def Let_def)
  moreover have "digits_of base64_std (strip_padding (b64_pad_encode bs)) = Some ?ds"
    unfolding b64_pad_encode_def Let_def strip ds ..
  ultimately show ?thesis
    unfolding b64_pad_decode_def nl Let_def by (simp only: option.map r(2) bs) simp
qed

section \<open>The contract of an encoding\<close>

locale text_codec =
  fixes enc :: "byte list \<Rightarrow> string"
    and dec :: "string \<Rightarrow> byte list option"
    and alpha :: string
  assumes dec_enc: "dec (enc bs) = Some bs"
    and enc_alpha: "set (enc bs) \<subseteq> set alpha"
begin

lemma enc_inject: "enc a = enc b \<longleftrightarrow> a = b"
  by (metis dec_enc option.inject)

lemma enc_avoids: "c \<notin> set alpha \<Longrightarrow> c \<notin> set (enc bs)"
  using enc_alpha by blast

lemma split_two:
  "c \<notin> set alpha \<Longrightarrow> split_on c (enc a @ c # enc b) = [enc a, enc b]"
  by (simp add: enc_avoids split_on_append split_on_none)

lemma trim_enc: "(\<forall>c\<in>set alpha. \<not> p c) \<Longrightarrow> trim p (enc bs) = enc bs"
  using enc_alpha by (intro trim_no_space) blast

end

interpretation b64: text_codec "b64_encode base64_std" "b64_decode_strict base64_std" base64_std
proof unfold_locales
  have "\<forall>c\<in>set base64_std. \<not> is_newline c" by (simp add: base64_std_def is_newline_def)
  then show "b64_decode_strict base64_std (b64_encode base64_std bs) = Some bs" for bs
    by (intro b64_round_trip) (simp_all add: alphabets)
  show "set (b64_encode base64_std bs) \<subseteq> set base64_std" for bs
    unfolding b64_encode_def by (rule set_encode_bits) (simp add: alphabets)
qed

interpretation b64url: text_codec "b64_encode base64_url" "b64_decode_strict base64_url" base64_url
proof unfold_locales
  have "\<forall>c\<in>set base64_url. \<not> is_newline c" by (simp add: base64_url_def is_newline_def)
  then show "b64_decode_strict base64_url (b64_encode base64_url bs) = Some bs" for bs
    by (intro b64_round_trip) (simp_all add: alphabets)
  show "set (b64_encode base64_url bs) \<subseteq> set base64_url" for bs
    unfolding b64_encode_def by (rule set_encode_bits) (simp add: alphabets)
qed

interpretation b32: text_codec b32_encode b32_decode base32_std
proof unfold_locales
  show "b32_decode (b32_encode bs) = Some bs" for bs by (rule b32_round_trip)
  show "set (b32_encode bs) \<subseteq> set base32_std" for bs
    unfolding b32_encode_def by (rule set_encode_bits) (simp add: alphabets)
qed

interpretation b64pad: text_codec b64_pad_encode b64_pad_decode "base64_std @ ''=''"
proof unfold_locales
  show "b64_pad_decode (b64_pad_encode bs) = Some bs" for bs by (rule b64_pad_round_trip)
  show "set (b64_pad_encode bs) \<subseteq> set (base64_std @ ''='')" for bs
    using b64.enc_alpha [of bs] by (auto simp: b64_pad_encode_def Let_def)
qed

section \<open>Hexadecimal\<close>

definition hex_digits :: string where
  "hex_digits = ''0123456789abcdef''"

definition hex_encode :: "byte list \<Rightarrow> string" where
  "hex_encode bs = concat (map (\<lambda>b. [hex_digits ! (unat b div 16), hex_digits ! (unat b mod 16)]) bs)"

lemma hex_encode_inject: "hex_encode a = hex_encode b \<Longrightarrow> a = b"
proof (induction a arbitrary: b)
  case Nil
  then show ?case by (cases b) (auto simp: hex_encode_def)
next
  case (Cons x a)
  then obtain y c where b: "b = y # c" by (cases b) (auto simp: hex_encode_def)
  have nib: "i < 16 \<Longrightarrow> j < 16 \<Longrightarrow> hex_digits ! i = hex_digits ! j \<Longrightarrow> i = j" for i j
    using nth_eq_iff_index_eq [of hex_digits i j] by (simp add: hex_digits_def)
  have ub: "unat z div 16 < 16" for z :: byte
    using unsigned_less [where w = z and ?'a = nat] by (simp add: less_mult_imp_div_less)
  have "unat x div 16 = unat y div 16" "unat x mod 16 = unat y mod 16"
    using Cons.prems b by (auto simp: hex_encode_def intro!: nib ub)
  then have "unat x = unat y" by (metis div_mult_mod_eq)
  then have "x = y" by (rule unsigned_word_eqI)
  with Cons b show ?case by (simp add: hex_encode_def)
qed

end
