(* ===== verification/Externals.thy ===== *)
theory Externals
  imports Store_Laws Codec Digests
begin

text \<open>
  The code outside the repository that the credentials call, as one record of functions
  that the model takes as an argument: argon2 (golang.org/x/crypto), the JWT library
  (golang-jwt), the AES-256-GCM cipher and the Unicode category tables. What the modelled
  code relies on from them is stated as the named predicates \<open>argon_ok\<close>, \<open>jwt_ok\<close> and
  \<open>aead_ok\<close>; \<open>sample_ext\<close> is an instance that satisfies all three.
\<close>

text \<open>The payload of an access token, auth.Claims with its registered claims.\<close>

record claims =
  cUserID :: string
  cUsername :: string
  cRole :: role
  cIssuer :: string
  cID :: string
  cIssuedAt :: time
  cNotBefore :: time
  cExpiresAt :: time

datatype jwt_error = JwtExpired | JwtMalformed

datatype rune_class = RuneLower | RuneUpper | RuneDigit | RuneOther

text \<open>
  \<open>jwt_sign key c\<close> is \<open>NewWithClaims(HS256, c).SignedString(key)\<close>; \<open>jwt_parse key iss now s\<close>
  is \<open>ParseWithClaims\<close> with the key function, \<open>WithValidMethods(HS256)\<close>,
  \<open>WithIssuer(iss)\<close> and the time function of \<open>Parse\<close>.
\<close>

record ext =
  argon2_Version :: nat
  IDKey :: "byte list \<Rightarrow> byte list \<Rightarrow> 32 word \<Rightarrow> 32 word \<Rightarrow> 8 word \<Rightarrow> 32 word \<Rightarrow> byte list"
  rune_class :: "nat \<Rightarrow> rune_class"
  jwt_sign :: "byte list \<Rightarrow> claims \<Rightarrow> string option"
  jwt_parse :: "byte list \<Rightarrow> string \<Rightarrow> time \<Rightarrow> string \<Rightarrow> jwt_error + claims"
  gcm_seal :: "byte list \<Rightarrow> byte list \<Rightarrow> byte list \<Rightarrow> byte list"
  gcm_open :: "byte list \<Rightarrow> byte list \<Rightarrow> byte list \<Rightarrow> byte list option"

text \<open>
  Documented behaviour of argon2: the version is 0x13 and \<open>IDKey\<close> returns a key of
  \<open>keyLen\<close> bytes.
\<close>

definition argon_ok :: "ext \<Rightarrow> bool" where
  "argon_ok X \<longleftrightarrow> argon2_Version X = 0x13 \<and> (\<forall>pw salt t m p n. length (IDKey X pw salt t m p n) = unat n)"

text \<open>
  Documented behaviour of the JWT library: numeric dates are kept to the second; a parsed
  token carries the expected issuer and is inside its validity, and parsing what was
  signed with the same key gives the claims back while they are valid.
\<close>

definition whole_seconds :: "time \<Rightarrow> time" where
  "whole_seconds t = t div second * second"

definition truncate_claims :: "claims \<Rightarrow> claims" where
  "truncate_claims c = c\<lparr>cIssuedAt := whole_seconds (cIssuedAt c),
     cNotBefore := whole_seconds (cNotBefore c), cExpiresAt := whole_seconds (cExpiresAt c)\<rparr>"

definition jwt_ok :: "ext \<Rightarrow> bool" where
  "jwt_ok X \<longleftrightarrow>
     (\<forall>key iss t s c. jwt_parse X key iss t s = Inr c \<longrightarrow> cIssuer c = iss \<and> t < cExpiresAt c)
     \<and> (\<forall>key c s t. jwt_sign X key c = Some s \<longrightarrow>
          cNotBefore (truncate_claims c) \<le> t \<longrightarrow>
          jwt_parse X key (cIssuer c) t s =
            (if t < cExpiresAt (truncate_claims c) then Inr (truncate_claims c) else Inl JwtExpired))"

lemma jwt_ok_sign:
  "jwt_ok X \<Longrightarrow> jwt_sign X key c = Some s \<Longrightarrow> cNotBefore (truncate_claims c) \<le> t
    \<Longrightarrow> jwt_parse X key (cIssuer c) t s =
          (if t < cExpiresAt (truncate_claims c) then Inr (truncate_claims c) else Inl JwtExpired)"
  unfolding jwt_ok_def by blast

definition aead_ok :: "ext \<Rightarrow> bool" where
  "aead_ok X \<longleftrightarrow> (\<forall>key nonce pt. gcm_open X key nonce (gcm_seal X key nonce pt) = Some pt)"

section \<open>A sample instance\<close>

text \<open>
  A toy library that meets the documented behaviour: the password and salt padded as the
  key, claims printed field by field with a trailing byte per character, no encryption.
\<close>

definition pad_field :: "string \<Rightarrow> string" where
  "pad_field s = concat (map (\<lambda>c. [CHR ''.'', c]) s) @ '';''"

fun read_field :: "string \<Rightarrow> string \<times> string" where
  "read_field (d # c # s) = (if d = CHR ''.'' then (let (a, b) = read_field s in (c # a, b)) else ([], c # s))"
| "read_field s = ([], drop 1 s)"

definition show_claims :: "claims \<Rightarrow> string" where
  "show_claims c = concat (map pad_field
     [cUserID c, cUsername c, cRole c, cIssuer c, cID c,
      itoa (cIssuedAt c), itoa (cNotBefore c), itoa (cExpiresAt c)])"

lemma read_field_pad: "read_field (pad_field s @ rest) = (s, rest)"
proof (induction s)
  case Nil
  show ?case by (cases rest) (simp_all add: pad_field_def)
next
  case (Cons c s)
  then show ?case by (simp add: pad_field_def)
qed

fun read_fields :: "nat \<Rightarrow> string \<Rightarrow> string list" where
  "read_fields 0 s = []"
| "read_fields (Suc n) s = (let (a, b) = read_field s in a # read_fields n b)"

lemma read_fields_pad: "read_fields (length fs) (concat (map pad_field fs)) = fs"
  by (induction fs) (simp_all add: read_field_pad)

definition sample_sign :: "byte list \<Rightarrow> claims \<Rightarrow> string option" where
  "sample_sign key c =
     (let d = truncate_claims c in
      if in_int64 (cIssuedAt d) \<and> in_int64 (cNotBefore d) \<and> in_int64 (cExpiresAt d)
      then Some (show_claims d) else None)"

definition read_claims :: "string \<Rightarrow> claims option" where
  "read_claims s =
     (case read_fields 8 s of
        [u, n, r, i, d, a, b, e] \<Rightarrow>
          (case (atoi a, atoi b, atoi e) of
             (Some a, Some b, Some e) \<Rightarrow>
               Some \<lparr>cUserID = u, cUsername = n, cRole = r, cIssuer = i, cID = d,
                     cIssuedAt = a, cNotBefore = b, cExpiresAt = e\<rparr>
           | _ \<Rightarrow> None)
      | _ \<Rightarrow> None)"

definition sample_parse :: "byte list \<Rightarrow> string \<Rightarrow> time \<Rightarrow> string \<Rightarrow> jwt_error + claims" where
  "sample_parse key iss t s =
     (case read_claims s of
        None \<Rightarrow> Inl JwtMalformed
      | Some c \<Rightarrow>
          if cIssuer c \<noteq> iss \<or> t < cNotBefore c then Inl JwtMalformed
          else if t < cExpiresAt c then Inr c else Inl JwtExpired)"

definition sample_ext :: ext where
  "sample_ext = \<lparr>
     argon2_Version = 0x13,
     IDKey = (\<lambda>pw salt t m p n. take (unat n) (pw @ salt @ replicate (unat n) 0)),
     rune_class = (\<lambda>_. RuneOther),
     jwt_sign = sample_sign,
     jwt_parse = sample_parse,
     gcm_seal = (\<lambda>key nonce pt. pt),
     gcm_open = (\<lambda>key nonce ct. Some ct)\<rparr>"

lemma read_claims_show:
  assumes "in_int64 (cIssuedAt c)" "in_int64 (cNotBefore c)" "in_int64 (cExpiresAt c)"
  shows "read_claims (show_claims c) = Some c"
proof -
  let ?fs = "[cUserID c, cUsername c, cRole c, cIssuer c, cID c,
              itoa (cIssuedAt c), itoa (cNotBefore c), itoa (cExpiresAt c)]"
  have "8 = length ?fs" by simp
  moreover have "read_fields (length ?fs) (show_claims c) = ?fs"
    unfolding show_claims_def by (rule read_fields_pad)
  ultimately have "read_fields 8 (show_claims c) = ?fs" by (simp only:)
  with assms show ?thesis by (simp add: read_claims_def atoi_itoa)
qed

lemma sample_ext_ok: "argon_ok sample_ext" "jwt_ok sample_ext" "aead_ok sample_ext"
proof -
  show "argon_ok sample_ext" by (auto simp: argon_ok_def sample_ext_def min_def)
  show "aead_ok sample_ext" by (simp add: aead_ok_def sample_ext_def)
  have "cIssuer (truncate_claims c) = cIssuer c" for c by (simp add: truncate_claims_def)
  then show "jwt_ok sample_ext"
    by (auto simp: jwt_ok_def sample_ext_def sample_sign_def sample_parse_def read_claims_show Let_def
             split: option.splits if_splits)
qed

end
