(* ===== verification/Runes.thy ===== *)
theory Runes
  imports GoStrings
begin

text \<open>
  Ranging over a Go string: the runes of its bytes with their byte offsets, as
  unicode/utf8 decodes them (an invalid or truncated sequence is one byte of U+FFFD), and
  the encoder of \<open>strings.Builder.WriteRune\<close>.
\<close>

type_synonym rune = nat

definition rune_error :: rune where "rune_error = 0xFFFD"

text \<open>Length of the sequence a first byte announces and the range of its second byte.\<close>

definition lead :: "nat \<Rightarrow> (nat \<times> nat \<times> nat) option" where
  "lead b =
     (if 0xC2 \<le> b \<and> b \<le> 0xDF then Some (2, 0x80, 0xBF)
      else if b = 0xE0 then Some (3, 0xA0, 0xBF)
      else if b = 0xED then Some (3, 0x80, 0x9F)
      else if 0xE1 \<le> b \<and> b \<le> 0xEF then Some (3, 0x80, 0xBF)
      else if b = 0xF0 then Some (4, 0x90, 0xBF)
      else if 0xF1 \<le> b \<and> b \<le> 0xF3 then Some (4, 0x80, 0xBF)
      else if b = 0xF4 then Some (4, 0x80, 0x8F)
      else None)"

definition is_cont :: "nat \<Rightarrow> bool" where
  "is_cont b \<longleftrightarrow> 0x80 \<le> b \<and> b \<le> 0xBF"

text \<open>\<open>utf8.DecodeRune\<close> on a non-empty sequence.\<close>

definition decode_rune :: "nat list \<Rightarrow> rune \<times> nat" where
  "decode_rune bs =
     (let b = hd bs in
      if b < 0x80 then (b, 1)
      else case lead b of
        None \<Rightarrow> (rune_error, 1)
      | Some (n, lo, hi) \<Rightarrow>
          if length bs < n \<or> \<not> (lo \<le> bs ! 1 \<and> bs ! 1 \<le> hi) then (rune_error, 1)
          else if n = 2 then (b mod 32 * 64 + bs ! 1 mod 64, 2)
          else if \<not> is_cont (bs ! 2) then (rune_error, 1)
          else if n = 3 then ((b mod 16 * 64 + bs ! 1 mod 64) * 64 + bs ! 2 mod 64, 3)
          else if \<not> is_cont (bs ! 3) then (rune_error, 1)
          else (((b mod 8 * 64 + bs ! 1 mod 64) * 64 + bs ! 2 mod 64) * 64 + bs ! 3 mod 64, 4))"

lemma decode_rune_size: "1 \<le> snd (decode_rune bs)"
  by (simp add: decode_rune_def Let_def lead_def split: option.split)

lemma decode_rune_pos: "(r, n) = decode_rune bs \<Longrightarrow> 0 < n"
  using decode_rune_size [of bs] by (cases "decode_rune bs") simp

function runes_from :: "nat \<Rightarrow> nat list \<Rightarrow> (nat \<times> rune) list" where
  "runes_from i [] = []"
| "runes_from i (b # bs) =
     (case decode_rune (b # bs) of (r, n) \<Rightarrow> (i, r) # runes_from (i + n) (drop n (b # bs)))"
  by pat_completeness auto
termination
  by (relation "measure (\<lambda>(i, bs). length bs)")
     (auto dest!: decode_rune_pos)

text \<open>\<open>for i, r := range s\<close>\<close>

definition range_string :: "string \<Rightarrow> (nat \<times> rune) list" where
  "range_string s = runes_from 0 (map of_char s)"

definition encode_rune :: "rune \<Rightarrow> string" where
  "encode_rune r =
     map char_of
      (if r < 0x80 then [r]
       else if r < 0x800 then [0xC0 + r div 64, 0x80 + r mod 64]
       else if 0xD800 \<le> r \<and> r \<le> 0xDFFF \<or> 0x10FFFF < r then [0xEF, 0xBF, 0xBD]
       else if r < 0x10000 then [0xE0 + r div 4096, 0x80 + r div 64 mod 64, 0x80 + r mod 64]
       else [0xF0 + r div 262144, 0x80 + r div 4096 mod 64, 0x80 + r div 64 mod 64, 0x80 + r mod 64])"

definition ascii :: "string \<Rightarrow> bool" where
  "ascii s \<longleftrightarrow> (\<forall>c\<in>set s. code c < 128)"

lemma runes_from_ascii: "ascii s \<Longrightarrow> runes_from i (map of_char s) = zip [i..<i + length s] (map of_char s)"
proof (induction s arbitrary: i)
  case (Cons c s)
  then have "decode_rune (map of_char (c # s)) = (code c, 1)"
    by (simp add: decode_rune_def ascii_def)
  moreover have "[i..<i + length (c # s)] = i # [Suc i..<Suc i + length s]"
    by (simp add: upt_conv_Cons del: upt_Suc)
  ultimately show ?case using Cons by (simp add: ascii_def)
qed simp

lemma encode_rune_ascii: "code c < 128 \<Longrightarrow> encode_rune (code c) = [c]"
  by (simp add: encode_rune_def)

end
