(* ===== verification/Secrets.thy ===== *)
theory Secrets
  imports Externals Runes
begin

text \<open>
  Random credentials and second factors: internal/auth/token.go and internal/auth/totp.go.
  Bytes of entropy come from \<open>rand_read\<close>; the digests are those of Digests.
\<close>

unbundle bit_operations_syntax

section \<open>Tokens and identifiers (token.go)\<close>

definition refreshTokenBytes :: nat where "refreshTokenBytes = 32"
definition apiTokenSecretBytes :: nat where "apiTokenSecretBytes = 32"
definition apiTokenPrefixBytes :: nat where "apiTokenPrefixBytes = 6"
definition APITokenPrefix :: string where "APITokenPrefix = ''isk''"

definition bytes :: "string \<Rightarrow> byte list" where
  "bytes s = map of_char s"

definition randomToken :: "nat \<Rightarrow> string io" where
  "randomToken n = bindE (rand_read n) (\<lambda>buf. returnE (b64_encode base64_url buf))"

definition randomID :: "string io" where
  "randomID = bindE (rand_read 16) (\<lambda>buf. returnE (hex_encode buf))"

definition NewID :: "string io" where
  "NewID = randomID"

definition HashToken :: "string \<Rightarrow> string" where
  "HashToken token = hex_encode (sha256 (bytes token))"

definition NewRefreshToken :: "(string \<times> string) io" where
  "NewRefreshToken = bindE (randomToken refreshTokenBytes) (\<lambda>token. returnE (token, HashToken token))"

definition NewAPIToken :: "(string \<times> string \<times> string) io" where
  "NewAPIToken =
     bindE (randomToken apiTokenPrefixBytes) (\<lambda>prefixPart.
     bindE (randomToken apiTokenSecretBytes) (\<lambda>secret.
     let pfx = APITokenPrefix @ ''_'' @ prefixPart;
         token = pfx @ ''_'' @ secret
     in returnE (token, pfx, HashToken token)))"

definition IsAPIToken :: "string \<Rightarrow> bool" where
  "IsAPIToken value \<longleftrightarrow>
     length value > length APITokenPrefix + 1
     \<and> take (length APITokenPrefix + 1) value = APITokenPrefix @ ''_''"

section \<open>Time-based one-time passwords (totp.go)\<close>

definition totpDigits :: nat where "totpDigits = 6"
definition totpPeriod :: duration where "totpPeriod = 30 * second"
definition totpSecretBytes :: nat where "totpSecretBytes = 20"
definition totpSkew :: int where "totpSkew = 1"

text \<open>\<open>t.Unix()\<close>: the Unix epoch is 62135596800 seconds after Go's zero instant.\<close>

definition unix :: "time \<Rightarrow> int" where
  "unix t = t div second - 62135596800"

definition NewTOTPSecret :: "string io" where
  "NewTOTPSecret = bindE (rand_read totpSecretBytes) (\<lambda>raw. returnE (b32_encode raw))"

definition counterFor :: "time \<Rightarrow> 64 word" where
  "counterFor at =
     (let seconds = unix at in
      if seconds < 0 then 0 else of_int (seconds div (totpPeriod div second)))"

fun pow10 :: "nat \<Rightarrow> 32 word" where
  "pow10 0 = 1"
| "pow10 (Suc n) = pow10 n * 10"

definition codeAt :: "byte list \<Rightarrow> 64 word \<Rightarrow> string" where
  "codeAt key counter =
     (let buf = be_bytes 8 counter;
          sum = hmac_sha1 key buf;
          offset = unat (sum ! (length sum - 1) AND 0x0f);
          v = be_word (take 4 (drop offset sum)) AND 0x7fffffff
      in pad_zeros totpDigits (show_nat (unat (v mod pow10 totpDigits))))"

definition remove_char :: "char \<Rightarrow> string \<Rightarrow> string" where
  "remove_char c = filter (\<lambda>x. x \<noteq> c)"

definition decodeTOTPSecret :: "string \<Rightarrow> go_error + byte list" where
  "decodeTOTPSecret secret =
     (let cleaned = to_upper (remove_char (CHR '' '') (trim_space secret));
          cleaned = trim_right (\<lambda>c. c = CHR ''='') cleaned
      in if cleaned = '''' then Inl ErrInvalidTOTPSecret
         else case b32_decode cleaned of
                None \<Rightarrow> Inl ErrInvalidTOTPSecret
              | Some key \<Rightarrow> if key = [] then Inl ErrInvalidTOTPSecret else Inr key)"

definition TOTPCode :: "string \<Rightarrow> time \<Rightarrow> go_error + string" where
  "TOTPCode secret at =
     (case decodeTOTPSecret secret of
        Inl e \<Rightarrow> Inl e
      | Inr key \<Rightarrow> Inr (codeAt key (counterFor at)))"

definition totp_steps :: "int list" where
  "totp_steps = [- totpSkew..totpSkew]"

definition VerifyTOTP :: "string \<Rightarrow> string \<Rightarrow> time \<Rightarrow> go_error + unit" where
  "VerifyTOTP secret passcode t =
     (case decodeTOTPSecret secret of
        Inl e \<Rightarrow> Inl e
      | Inr key \<Rightarrow>
          let entered = remove_char (CHR '' '') (trim_space passcode) in
          if length entered \<noteq> totpDigits then Inl ErrInvalidTOTPCode
          else let counter = counterFor t;
                   ok = foldl (\<lambda>ok step. if codeAt key (counter + of_int step) = entered then True else ok)
                          False totp_steps
               in if \<not> ok then Inl ErrInvalidTOTPCode else Inr ())"

definition FormatTOTPSecret :: "string \<Rightarrow> string" where
  "FormatTOTPSecret secret =
     concat (map (\<lambda>(i, r). (if i > 0 \<and> i mod 4 = 0 then '' '' else '''') @ encode_rune r)
       (range_string secret))"

section \<open>The enrolment URI\<close>

text \<open>
  \<open>url.PathEscape\<close> and \<open>url.QueryEscape\<close> on bytes, and the URI of \<open>TOTPURI\<close>, whose
  query \<open>Values.Encode\<close> sorts by key.
\<close>

definition hex_upper :: string where
  "hex_upper = ''0123456789ABCDEF''"

definition percent :: "char \<Rightarrow> string" where
  "percent c = [CHR ''%'', hex_upper ! (code c div 16), hex_upper ! (code c mod 16)]"

definition unreserved :: "char \<Rightarrow> bool" where
  "unreserved c \<longleftrightarrow> is_lower c \<or> is_upper c \<or> is_digit c \<or> c \<in> {CHR ''-'', CHR ''_'', CHR ''.'', CHR ''~''}"

definition path_escape :: "string \<Rightarrow> string" where
  "path_escape s = concat (map (\<lambda>c.
     if unreserved c \<or> c \<in> {CHR ''$'', CHR ''&'', CHR ''+'', CHR '':'', CHR ''='', CHR ''@''} then [c] else percent c) s)"

definition query_escape :: "string \<Rightarrow> string" where
  "query_escape s = concat (map (\<lambda>c.
     if unreserved c then [c] else if c = CHR '' '' then ''+'' else percent c) s)"

definition TOTPURI :: "string \<Rightarrow> string \<Rightarrow> string \<Rightarrow> string" where
  "TOTPURI iss account secret =
     ''otpauth://totp/'' @ path_escape (iss @ '':'' @ account)
     @ ''?algorithm=SHA1&digits='' @ show_nat totpDigits @ ''&issuer='' @ query_escape iss
     @ ''&period='' @ show_nat (nat (totpPeriod div second)) @ ''&secret='' @ query_escape secret"

section \<open>Facts on tokens\<close>

lemma randomToken_run:
  "randomToken n w =
     (if length (wEntropy w) < n then (Inl EntropyError, w)
      else (Inr (b64_encode base64_url (take n (wEntropy w))), w\<lparr>wEntropy := drop n (wEntropy w)\<rparr>))"
  by (simp add: randomToken_def prog_simps rand_read_def)

lemma length_b64: "length (b64_encode alpha bs) = (8 * length bs + 5) div 6"
  by (simp add: b64_encode_def length_encode_bits)

lemma length_hex_encode: "length (hex_encode bs) = 2 * length bs"
  by (induction bs) (simp_all add: hex_encode_def)

lemma length_HashToken: "length (HashToken t) = 64"
  by (simp add: HashToken_def length_hex_encode)

lemma NewAPIToken_run:
  "NewAPIToken w =
     (let p = b64_encode base64_url (take 6 (wEntropy w));
          s = b64_encode base64_url (take 32 (drop 6 (wEntropy w)))
      in if length (wEntropy w) < 6 then (Inl EntropyError, w)
         else if length (wEntropy w) < 38 then (Inl EntropyError, w\<lparr>wEntropy := drop 6 (wEntropy w)\<rparr>)
         else (Inr (''isk_'' @ p @ ''_'' @ s, ''isk_'' @ p, HashToken (''isk_'' @ p @ ''_'' @ s)),
               w\<lparr>wEntropy := drop 38 (wEntropy w)\<rparr>))"
  by (auto simp: NewAPIToken_def prog_simps randomToken_run apiTokenPrefixBytes_def
        apiTokenSecretBytes_def APITokenPrefix_def Let_def)


definition entropy_world :: "byte list \<Rightarrow> world" where
  "entropy_world bs = \<lparr>wUsers = [], wSessions = [], wTokens = [], wAttempts = [], wAudit = [],
     wAuditSeq = 0, wNow = 0, wEntropy = bs, wFaults = []\<rparr>"


section \<open>Facts on one-time passwords\<close>

lemma pow10_6: "pow10 totpDigits = 1000000"
  by (simp add: totpDigits_def eval_nat_numeral)

lemma length_codeAt [simp]: "length (codeAt key c) = totpDigits"
proof -
  have "unat (v mod pow10 totpDigits) < 10 ^ totpDigits" for v :: "32 word"
    unfolding pow10_6 by (simp add: unat_mod totpDigits_def)
  then show ?thesis
    unfolding codeAt_def Let_def
    by (intro length_pad_zeros length_show_nat) (simp_all add: totpDigits_def)
qed

lemma codeAt_digits: "c \<in> set (codeAt key n) \<Longrightarrow> is_digit c"
  by (auto simp: codeAt_def Let_def pad_zeros_def is_digit_def dest: show_nat_digits)

lemma entered_codeAt: "remove_char (CHR '' '') (trim_space (codeAt key n)) = codeAt key n"
proof -
  have "\<not> is_space c" "c \<noteq> CHR '' ''" if "c \<in> set (codeAt key n)" for c
    using codeAt_digits [OF that] by (auto simp: is_digit_def is_space_def)
  then show ?thesis
    by (simp add: remove_char_def trim_space_def trim_no_space filter_id_conv)
qed

definition time_step :: "time \<Rightarrow> int" where
  "time_step t = max 0 (unix t) div 30"

lemma counterFor_step: "counterFor t = of_int (time_step t)"
  by (simp add: counterFor_def time_step_def totpPeriod_def Let_def max_def)

lemma div_30_close:
  fixes a b :: int
  shows "\<bar>a - b\<bar> \<le> 30 \<Longrightarrow> \<bar>a div 30 - b div 30\<bar> \<le> 1"
  by linarith

lemma time_step_close:
  assumes "\<bar>t - t'\<bar> \<le> totpPeriod"
  shows "\<bar>time_step t - time_step t'\<bar> \<le> 1"
proof -
  have "\<bar>unix t - unix t'\<bar> \<le> 30" using assms by (simp add: unix_def totpPeriod_def)
  then have "\<bar>max 0 (unix t) - max 0 (unix t')\<bar> \<le> 30" by simp
  then show ?thesis unfolding time_step_def by (rule div_30_close)
qed

lemma totp_steps_eq: "totp_steps = [-1, 0, 1]"
  by (simp add: totp_steps_def totpSkew_def upto_rec1)

lemma VerifyTOTP_decoded:
  assumes "decodeTOTPSecret secret = Inr key"
  shows "VerifyTOTP secret c t = Inr () \<longleftrightarrow>
     (\<exists>step\<in>{-1, 0, 1}. remove_char (CHR '' '') (trim_space c) = codeAt key (counterFor t + of_int step))"
proof -
  have len: "length e = totpDigits" if "codeAt key n = e" for e n using that by (metis length_codeAt)
  show ?thesis
    unfolding VerifyTOTP_def assms sum.case Let_def totp_steps_eq by (auto split: if_splits dest: len)
qed

text \<open>
  A code is accepted exactly when the secret decodes and the code, spaces removed, is
  the one of the current 30-second step, the step before or the step after.
\<close>

theorem VerifyTOTP_iff:
  "VerifyTOTP secret c t = Inr () \<longleftrightarrow>
     (\<exists>key. decodeTOTPSecret secret = Inr key \<and>
        remove_char (CHR '' '') (trim_space c) \<in>
          {codeAt key (counterFor t - 1), codeAt key (counterFor t), codeAt key (counterFor t + 1)})"
proof (cases "decodeTOTPSecret secret")
  case (Inl e)
  then show ?thesis by (simp add: VerifyTOTP_def)
next
  case (Inr key)
  then show ?thesis using VerifyTOTP_decoded [OF Inr] by auto
qed

lemma verify_skew:
  assumes "TOTPCode secret t = Inr passcode" and "\<bar>t - t'\<bar> \<le> totpPeriod"
  shows "VerifyTOTP secret passcode t' = Inr ()"
proof -
  obtain key where key: "decodeTOTPSecret secret = Inr key"
    and c: "passcode = codeAt key (counterFor t)"
    using assms(1) by (auto simp: TOTPCode_def split: sum.splits)
  have "\<bar>time_step t - time_step t'\<bar> \<le> 1" using assms(2) by (rule time_step_close)
  then have "time_step t - time_step t' \<in> {-1, 0, 1}" by (simp add: abs_le_iff) linarith
  moreover have "counterFor t = counterFor t' + of_int (time_step t - time_step t')"
    by (simp add: counterFor_step)
  ultimately show ?thesis
    unfolding VerifyTOTP_decoded [OF key] c entered_codeAt by metis
qed

text \<open>
  The code an authenticator computes is accepted by a server whose clock is at most 30
  seconds away in either direction.
\<close>

theorem VerifyTOTP_tolerates_skew:
  assumes "TOTPCode secret t = Inr passcode" and "\<bar>t - t'\<bar> \<le> totpPeriod"
  shows "VerifyTOTP secret passcode t' = Inr ()"
  using assms by (rule verify_skew)

theorem VerifyTOTP_tolerates_skew_witness:
  "\<exists>passcode. TOTPCode ''JBSWY3DP'' (63000000000 * second) = Inr passcode
     \<and> VerifyTOTP ''JBSWY3DP'' passcode (63000000030 * second) = Inr ()"
proof -
  have "decodeTOTPSecret ''JBSWY3DP'' = Inr [72, 101, 108, 108, 111]" by code_simp
  then obtain passcode where "TOTPCode ''JBSWY3DP'' (63000000000 * second) = Inr passcode"
    by (auto simp: TOTPCode_def)
  then show ?thesis
    using VerifyTOTP_tolerates_skew [of _ "63000000000 * second" _ "63000000030 * second"]
    by (auto simp: totpPeriod_def)
qed

section \<open>Enrolment\<close>

lemma dropWhile_filter:
  "(\<And>c. \<not> q c \<Longrightarrow> p c) \<Longrightarrow> filter q (dropWhile p s) = dropWhile p (filter q s)"
  by (induction s) auto

lemma filter_trim: "(\<And>c. \<not> q c \<Longrightarrow> p c) \<Longrightarrow> filter q (trim p s) = trim p (filter q s)"
  by (simp add: trim_def trim_left_def trim_right_def rev_filter [symmetric] dropWhile_filter)

lemma entered_trim: "remove_char (CHR '' '') (trim_space s) = trim_space (remove_char (CHR '' '') s)"
  unfolding remove_char_def trim_space_def by (rule filter_trim) (simp add: is_space_def)

lemma remove_Format:
  assumes "ascii s"
  shows "remove_char (CHR '' '') (FormatTOTPSecret s) = remove_char (CHR '' '') s"
proof -
  have "remove_char (CHR '' '') (concat (map (\<lambda>(i, r). (if i > 0 \<and> i mod 4 = 0 then '' '' else '''') @ encode_rune r)
          (zip [k..<k + length s] (map of_char s)))) = remove_char (CHR '' '') s" for k
    using assms
  proof (induction s arbitrary: k)
    case (Cons c s)
    moreover have "[k..<k + length (c # s)] = k # [Suc k..<Suc k + length s]"
      by (simp add: upt_conv_Cons del: upt_Suc)
    ultimately show ?case
      using Cons.IH [of "Suc k"] by (simp add: remove_char_def ascii_def encode_rune_ascii del: upt_Suc)
  qed (simp add: remove_char_def)
  from this [of 0] show ?thesis
    using assms by (simp add: FormatTOTPSecret_def range_string_def runes_from_ascii)
qed

lemma decode_Format: "ascii s \<Longrightarrow> decodeTOTPSecret (FormatTOTPSecret s) = decodeTOTPSecret s"
  by (simp add: decodeTOTPSecret_def entered_trim remove_Format)

lemma base32_chars:
  "c \<in> set base32_std \<Longrightarrow> \<not> is_space c \<and> c \<noteq> CHR '' '' \<and> c \<noteq> CHR ''='' \<and> upper_char c = c \<and> code c < 128"
  unfolding base32_std_def is_space_def upper_char_def is_lower_def by auto

lemma decode_b32_encode:
  assumes "raw \<noteq> []"
  shows "decodeTOTPSecret (b32_encode raw) = Inr raw"
proof -
  let ?s = "b32_encode raw"
  have chars: "\<not> is_space c \<and> c \<noteq> CHR '' '' \<and> c \<noteq> CHR ''='' \<and> upper_char c = c" if "c \<in> set ?s" for c
    using b32.enc_alpha that base32_chars by blast
  have "remove_char (CHR '' '') (trim_space ?s) = ?s"
    unfolding trim_space_def using chars by (simp add: trim_no_space remove_char_def filter_id_conv)
  moreover have "to_upper ?s = ?s" using chars by (simp add: to_upper_def map_idI)
  moreover have "trim_right (\<lambda>c. c = CHR ''='') ?s = ?s"
    using chars by (cases ?s rule: rev_cases) (auto simp: trim_right_def)
  moreover have "?s \<noteq> []"
    using assms b32.enc_inject [of raw "[]"] by (simp add: b32_encode_def encode_bits_def byte_bits_def groups.simps)
  ultimately show ?thesis using assms by (simp add: decodeTOTPSecret_def b32.dec_enc)
qed

lemma new_secret_decodes:
  assumes "NewTOTPSecret w = (Inr secret, w')"
  shows "decodeTOTPSecret secret = Inr (take totpSecretBytes (wEntropy w))
    \<and> decodeTOTPSecret (FormatTOTPSecret secret) = Inr (take totpSecretBytes (wEntropy w))"
proof -
  let ?raw = "take totpSecretBytes (wEntropy w)"
  have len: "20 \<le> length (wEntropy w)" and s: "secret = b32_encode ?raw"
    using assms by (auto simp: NewTOTPSecret_def prog_simps rand_read_def totpSecretBytes_def split: if_splits)
  then have "?raw \<noteq> []" by (auto simp: totpSecretBytes_def)
  moreover have "ascii secret"
    unfolding ascii_def s using b32.enc_alpha base32_chars by blast
  ultimately show ?thesis by (simp add: decode_Format) (simp add: s decode_b32_encode)
qed

text \<open>
  The secret shown at enrolment, grouped in fours for typing, decodes to the very bytes
  drawn from the entropy source, as the stored form does.
\<close>

theorem TOTP_enrolment_round_trip:
  assumes "NewTOTPSecret w = (Inr secret, w')"
  shows "decodeTOTPSecret secret = Inr (take totpSecretBytes (wEntropy w))
    \<and> decodeTOTPSecret (FormatTOTPSecret secret) = Inr (take totpSecretBytes (wEntropy w))"
  using assms by (rule new_secret_decodes)

theorem TOTP_enrolment_round_trip_witness:
  "\<exists>secret w'. NewTOTPSecret (entropy_world (replicate 20 7)) = (Inr secret, w')
     \<and> decodeTOTPSecret (FormatTOTPSecret secret) = Inr (replicate 20 7)"
proof -
  obtain secret w' where run: "NewTOTPSecret (entropy_world (replicate 20 7)) = (Inr secret, w')"
    by (simp add: NewTOTPSecret_def prog_simps rand_read_def entropy_world_def totpSecretBytes_def)
  then show ?thesis
    using TOTP_enrolment_round_trip [OF run] by (simp add: entropy_world_def totpSecretBytes_def)
qed

end
