(* ===== verification/Tickets.thy ===== *)
theory Tickets
  imports Secrets
begin

text \<open>
  The single-use tickets of streaming connections, internal/auth/ticket.go. The store's map
  is an association list with one entry per key; the mutex makes each operation one step.
  \<open>ticket_step\<close> runs requests against the store and keeps a history of what was issued
  and redeemed, and the invariant of that machine is what makes tickets single-use.
\<close>

section \<open>The store\<close>

record ticket =
  tkUserID :: string
  tkUsername :: string
  tkRole :: role
  tkTokenID :: string
  tkScopes :: "string list"
  tkExpiresAt :: time

record ticket_store =
  tsTickets :: "(string \<times> ticket) list"
  tsTTL :: duration

definition TicketTTL :: duration where "TicketTTL = 60 * second"

definition NewTicketStore :: "duration \<Rightarrow> ticket_store" where
  "NewTicketStore ttl = \<lparr>tsTickets = [], tsTTL = (if ttl \<le> 0 then TicketTTL else ttl)\<rparr>"

type_synonym 'a tio = "(world \<times> ticket_store, go_error, 'a) prog"

definition on_world :: "'a io \<Rightarrow> 'a tio" where
  "on_world m = (\<lambda>(w, s). case m w of (r, w') \<Rightarrow> (r, (w', s)))"

definition put_ticket :: "string \<Rightarrow> ticket \<Rightarrow> ticket_store \<Rightarrow> ticket_store" where
  "put_ticket v t s = s\<lparr>tsTickets := (v, t) # filter (\<lambda>e. fst e \<noteq> v) (tsTickets s)\<rparr>"

definition drop_ticket :: "string \<Rightarrow> ticket_store \<Rightarrow> ticket_store" where
  "drop_ticket v s = s\<lparr>tsTickets := filter (\<lambda>e. fst e \<noteq> v) (tsTickets s)\<rparr>"

definition pruneLocked :: "unit tio" where
  "pruneLocked =
     bindE (on_world now) (\<lambda>n.
     modifyE (\<lambda>(w, s). (w, s\<lparr>tsTickets := filter (\<lambda>e. \<not> after n (tkExpiresAt (snd e))) (tsTickets s)\<rparr>)))"

definition Ticket_Issue :: "ticket \<Rightarrow> string tio" where
  "Ticket_Issue t =
     bindE (on_world (randomToken 32)) (\<lambda>v.
     bindE (on_world now) (\<lambda>n.
     thenE (modifyE (\<lambda>(w, s). (w, put_ticket v (t\<lparr>tkExpiresAt := n + tsTTL s\<rparr>) s)))
     (thenE pruneLocked
     (returnE v))))"

definition Ticket_Redeem :: "string \<Rightarrow> ticket tio" where
  "Ticket_Redeem v =
     (if v = '''' then throwE ErrTicketInvalid
      else bindE (readE (\<lambda>(w, s). map_of (tsTickets s) v)) (\<lambda>found.
        case found of
          None \<Rightarrow> throwE ErrTicketInvalid
        | Some t \<Rightarrow>
            thenE (modifyE (\<lambda>(w, s). (w, drop_ticket v s)))
            (bindE (on_world now) (\<lambda>n.
             if after n (tkExpiresAt t) then throwE ErrTicketInvalid else returnE t))))"

definition Ticket_Len :: "nat tio" where
  "Ticket_Len = readE (\<lambda>(w, s). length (tsTickets s))"

section \<open>What the operations do\<close>

lemma on_world_run [prog_simps]: "on_world m (w, s) = (fst (m w), (snd (m w), s))"
  by (simp add: on_world_def split: prod.split)

definition issued_tickets :: "string \<Rightarrow> ticket \<Rightarrow> time \<Rightarrow> ticket_store \<Rightarrow> ticket_store" where
  "issued_tickets v t n s =
     (let s' = put_ticket v (t\<lparr>tkExpiresAt := n + tsTTL s\<rparr>) s
      in s'\<lparr>tsTickets := filter (\<lambda>e. \<not> after n (tkExpiresAt (snd e))) (tsTickets s')\<rparr>)"

lemma Ticket_Issue_run:
  "Ticket_Issue t (w, s) =
     (if length (wEntropy w) < 32 then (Inl EntropyError, (w, s))
      else let v = b64_encode base64_url (take 32 (wEntropy w))
           in (Inr v, (w\<lparr>wEntropy := drop 32 (wEntropy w)\<rparr>, issued_tickets v t (wNow w) s)))"
  by (simp add: Ticket_Issue_def pruneLocked_def prog_simps randomToken_run issued_tickets_def Let_def)

lemma Ticket_Redeem_run:
  "Ticket_Redeem v (w, s) =
     (case (if v = '''' then None else map_of (tsTickets s) v) of
        None \<Rightarrow> (Inl ErrTicketInvalid, (w, s))
      | Some t \<Rightarrow>
          ((if after (wNow w) (tkExpiresAt t) then Inl ErrTicketInvalid else Inr t), (w, drop_ticket v s)))"
  by (auto simp: Ticket_Redeem_def prog_simps split: option.split)

lemma drop_ticket_gone: "map_of (tsTickets (drop_ticket v s)) v = None"
  by (auto simp: drop_ticket_def map_of_eq_None_iff)

lemma issued_ticket_present:
  "0 \<le> tsTTL s \<Longrightarrow> map_of (tsTickets (issued_tickets v t n s)) v = Some (t\<lparr>tkExpiresAt := n + tsTTL s\<rparr>)"
  by (simp add: issued_tickets_def put_ticket_def after_def Let_def)

lemma issued_redeem:
  assumes "Ticket_Issue t (w, s) = (Inr v, (w', s'))" and "0 \<le> tsTTL s"
    and "wNow u \<le> wNow w + tsTTL s"
  shows "\<exists>s''. Ticket_Redeem v (u, s') = (Inr (t\<lparr>tkExpiresAt := wNow w + tsTTL s\<rparr>), (u, s''))
    \<and> (\<forall>u'. Ticket_Redeem v (u', s'') = (Inl ErrTicketInvalid, (u', s'')))"
proof -
  have s': "s' = issued_tickets v t (wNow w) s" and v: "v = b64_encode base64_url (take 32 (wEntropy w))"
    and n: "32 \<le> length (wEntropy w)"
    using assms(1) by (auto simp: Ticket_Issue_run Let_def split: if_splits)
  have "length v = 43" using n by (simp add: v length_b64)
  then have "v \<noteq> ''''" by auto
  then show ?thesis
    using assms(2,3)
    by (simp add: Ticket_Redeem_run s' issued_ticket_present drop_ticket_gone after_def)
qed

text \<open>
  An issued ticket can be redeemed until its lifetime ends, gives back the identity it
  was issued for, and a second redemption is refused whatever the time.
\<close>

theorem Issue_then_Redeem:
  assumes "Ticket_Issue t (w, s) = (Inr v, (w', s'))" and "0 \<le> tsTTL s"
    and "wNow u \<le> wNow w + tsTTL s"
  shows "\<exists>s''. Ticket_Redeem v (u, s') = (Inr (t\<lparr>tkExpiresAt := wNow w + tsTTL s\<rparr>), (u, s''))
    \<and> (\<forall>u'. Ticket_Redeem v (u', s'') = (Inl ErrTicketInvalid, (u', s'')))"
  using assms by (rule issued_redeem)

definition sample_ticket :: ticket where
  "sample_ticket = \<lparr>tkUserID = ''u1'', tkUsername = ''ada'', tkRole = ''admin'', tkTokenID = '''',
     tkScopes = [], tkExpiresAt = 0\<rparr>"

theorem Issue_then_Redeem_witness:
  "\<exists>v w' s' t. Ticket_Issue sample_ticket (entropy_world (replicate 32 7), NewTicketStore 0) = (Inr v, (w', s'))
     \<and> Ticket_Redeem v ((entropy_world [])\<lparr>wNow := 60 * second\<rparr>, s')
        = (Inr (sample_ticket\<lparr>tkExpiresAt := 60 * second\<rparr>), t)"
proof -
  let ?w = "entropy_world (replicate 32 7)" and ?u = "(entropy_world [])\<lparr>wNow := 60 * second\<rparr>"
  obtain v w' s' where run: "Ticket_Issue sample_ticket (?w, NewTicketStore 0) = (Inr v, (w', s'))"
    by (simp add: Ticket_Issue_run entropy_world_def Let_def)
  have ttl: "tsTTL (NewTicketStore 0) = 60 * second" by (simp add: NewTicketStore_def TicketTTL_def)
  then show ?thesis
    using run Issue_then_Redeem [OF run, of ?u] by (auto simp: entropy_world_def)
qed

section \<open>Every run of the store\<close>

datatype ticket_req = ReqIssue ticket | ReqRedeem string | ReqWait nat | ReqEntropy "byte list"

datatype ticket_event = Issued string ticket time | Redeemed string ticket time

type_synonym ticket_run = "(world \<times> ticket_store) \<times> ticket_event list"

fun ticket_step :: "ticket_run \<Rightarrow> ticket_req \<Rightarrow> ticket_run" where
  "ticket_step ((w, s), h) (ReqIssue t) =
     (case Ticket_Issue t (w, s) of
        (Inl e, st) \<Rightarrow> (st, h)
      | (Inr v, st) \<Rightarrow> (st, Issued v (t\<lparr>tkExpiresAt := wNow w + tsTTL s\<rparr>) (wNow w) # h))"
| "ticket_step ((w, s), h) (ReqRedeem v) =
     (case Ticket_Redeem v (w, s) of
        (Inl e, st) \<Rightarrow> (st, h)
      | (Inr t, st) \<Rightarrow> (st, Redeemed v t (wNow w) # h))"
| "ticket_step ((w, s), h) (ReqWait d) = ((w\<lparr>wNow := wNow w + int d\<rparr>, s), h)"
| "ticket_step ((w, s), h) (ReqEntropy bs) = ((w\<lparr>wEntropy := bs\<rparr>, s), h)"

fun is_issue :: "string \<Rightarrow> ticket_event \<Rightarrow> bool" where
  "is_issue v (Issued u t n) \<longleftrightarrow> u = v"
| "is_issue v (Redeemed u t n) \<longleftrightarrow> False"

fun is_redeem :: "string \<Rightarrow> ticket_event \<Rightarrow> bool" where
  "is_redeem v (Redeemed u t n) \<longleftrightarrow> u = v"
| "is_redeem v (Issued u t n) \<longleftrightarrow> False"

definition issues :: "string \<Rightarrow> ticket_event list \<Rightarrow> nat" where
  "issues v h = length (filter (is_issue v) h)"

definition redemptions :: "string \<Rightarrow> ticket_event list \<Rightarrow> nat" where
  "redemptions v h = length (filter (is_redeem v) h)"

definition outstanding :: "string \<Rightarrow> ticket_store \<Rightarrow> nat" where
  "outstanding v s = (if v \<in> fst ` set (tsTickets s) then 1 else 0)"

definition backed :: "duration \<Rightarrow> ticket_event list \<Rightarrow> time \<Rightarrow> ticket_event \<Rightarrow> bool" where
  "backed ttl h n e \<longleftrightarrow>
     (case e of
        Issued v t a \<Rightarrow> a \<le> n \<and> tkExpiresAt t = a + ttl
      | Redeemed v t r \<Rightarrow> \<exists>a. Issued v t a \<in> set h \<and> a \<le> r \<and> r \<le> a + ttl)"

definition ticket_inv :: "duration \<Rightarrow> ticket_run \<Rightarrow> bool" where
  "ticket_inv ttl st \<longleftrightarrow>
     (case st of ((w, s), h) \<Rightarrow>
        tsTTL s = ttl
        \<and> (\<forall>e\<in>set (tsTickets s). \<exists>a. Issued (fst e) (snd e) a \<in> set h)
        \<and> (\<forall>v. redemptions v h + outstanding v s \<le> issues v h)
        \<and> (\<forall>e\<in>set h. backed ttl h (wNow w) e))"

lemma ticket_invI:
  assumes "tsTTL s = ttl"
    and "\<And>v t. (v, t) \<in> set (tsTickets s) \<Longrightarrow> \<exists>a. Issued v t a \<in> set h"
    and "\<And>v. redemptions v h + outstanding v s \<le> issues v h"
    and "\<And>e. e \<in> set h \<Longrightarrow> backed ttl h (wNow w) e"
  shows "ticket_inv ttl ((w, s), h)"
  using assms by (auto simp: ticket_inv_def)

lemma ticket_invD:
  assumes "ticket_inv ttl ((w, s), h)"
  shows "tsTTL s = ttl" and "(v, t) \<in> set (tsTickets s) \<Longrightarrow> \<exists>a. Issued v t a \<in> set h"
    and "redemptions v h + outstanding v s \<le> issues v h"
    and "e \<in> set h \<Longrightarrow> backed ttl h (wNow w) e"
  using assms by (fastforce simp: ticket_inv_def)+

lemma backed_mono:
  "backed ttl h n e \<Longrightarrow> set h \<subseteq> set h' \<Longrightarrow> n \<le> n' \<Longrightarrow> backed ttl h' n' e"
  by (auto simp: backed_def split: ticket_event.splits)

lemma tsTTL_issued [simp]: "tsTTL (issued_tickets v t n s) = tsTTL s"
  by (simp add: issued_tickets_def put_ticket_def Let_def)

lemma issued_tickets_sub:
  "set (tsTickets (issued_tickets v t n s)) \<subseteq> insert (v, t\<lparr>tkExpiresAt := n + tsTTL s\<rparr>) (set (tsTickets s))"
  by (auto simp: issued_tickets_def put_ticket_def Let_def)

lemma outstanding_issued: "outstanding u (issued_tickets v t n s) \<le> outstanding u s + (if u = v then 1 else 0)"
  using issued_tickets_sub [of v t n s] by (force simp: outstanding_def)

lemma step_issue: "ticket_inv ttl ((w, s), h) \<Longrightarrow> ticket_inv ttl (ticket_step ((w, s), h) (ReqIssue t))"
proof (cases "length (wEntropy w) < 32")
  case False
  assume inv: "ticket_inv ttl ((w, s), h)"
  define v where "v = b64_encode base64_url (take 32 (wEntropy w))"
  let ?t = "t\<lparr>tkExpiresAt := wNow w + tsTTL s\<rparr>" and ?s = "issued_tickets v t (wNow w) s"
  let ?h = "Issued v (t\<lparr>tkExpiresAt := wNow w + tsTTL s\<rparr>) (wNow w) # h"
  have "ticket_inv ttl ((w\<lparr>wEntropy := drop 32 (wEntropy w)\<rparr>, ?s), ?h)"
  proof (rule ticket_invI)
    show "tsTTL ?s = ttl" using ticket_invD(1) [OF inv] by simp
    show "\<exists>a. Issued u x a \<in> set ?h" if "(u, x) \<in> set (tsTickets ?s)" for u x
      using subsetD [OF issued_tickets_sub that] ticket_invD(2) [OF inv] by auto
    show "redemptions u ?h + outstanding u ?s \<le> issues u ?h" for u
      using ticket_invD(3) [OF inv, of u] outstanding_issued [of u v t "wNow w" s]
      by (simp add: redemptions_def issues_def split: if_splits)
    show "backed ttl ?h (wNow (w\<lparr>wEntropy := drop 32 (wEntropy w)\<rparr>)) e" if "e \<in> set ?h" for e
    proof (cases "e \<in> set h")
      case True
      show ?thesis by (rule backed_mono [OF ticket_invD(4) [OF inv True]]) auto
    next
      case False
      then show ?thesis using that ticket_invD(1) [OF inv] by (simp add: backed_def)
    qed
  qed
  with False show ?thesis by (simp add: Ticket_Issue_run v_def Let_def)
qed (simp add: Ticket_Issue_run)

lemma step_redeem: "ticket_inv ttl ((w, s), h) \<Longrightarrow> ticket_inv ttl (ticket_step ((w, s), h) (ReqRedeem v))"
proof (cases "if v = '''' then None else map_of (tsTickets s) v")
  case (Some t)
  assume inv: "ticket_inv ttl ((w, s), h)"
  have found: "(v, t) \<in> set (tsTickets s)" using Some by (auto split: if_splits dest: map_of_SomeD)
  obtain a where a: "Issued v t a \<in> set h" using ticket_invD(2) [OF inv found] by blast
  then have exp: "a \<le> wNow w" "tkExpiresAt t = a + ttl"
    using ticket_invD(4) [OF inv a] by (simp_all add: backed_def)
  have out: "outstanding v s = 1" using found by (force simp: outstanding_def)
  have drop: "outstanding u (drop_ticket v s) = (if u = v then 0 else outstanding u s)" for u
    by (auto simp: outstanding_def drop_ticket_def)
  have sub: "(u, x) \<in> set (tsTickets s)" if "(u, x) \<in> set (tsTickets (drop_ticket v s))" for u x
    using that by (simp add: drop_ticket_def)
  have ttl: "tsTTL (drop_ticket v s) = ttl" using ticket_invD(1) [OF inv] by (simp add: drop_ticket_def)
  have fewer: "redemptions u h + outstanding u (drop_ticket v s) \<le> issues u h" for u
    using ticket_invD(3) [OF inv, of u] by (auto simp: drop)
  have expired: "ticket_inv ttl ((w, drop_ticket v s), h)"
    by (rule ticket_invI [OF ttl ticket_invD(2) [OF inv sub] fewer ticket_invD(4) [OF inv]])
  show ?thesis
  proof (cases "after (wNow w) (tkExpiresAt t)")
    case True
    then show ?thesis using Some expired by (simp add: Ticket_Redeem_run)
  next
    case False
    let ?h = "Redeemed v t (wNow w) # h"
    have "ticket_inv ttl ((w, drop_ticket v s), ?h)"
    proof (rule ticket_invI)
      show "\<exists>a. Issued u x a \<in> set ?h" if "(u, x) \<in> set (tsTickets (drop_ticket v s))" for u x
        using ticket_invD(2) [OF inv sub [OF that]] by auto
      show "redemptions u ?h + outstanding u (drop_ticket v s) \<le> issues u ?h" for u
        using ticket_invD(3) [OF inv, of u] out drop [of u] by (auto simp: redemptions_def issues_def)
      show "backed ttl ?h (wNow w) e" if "e \<in> set ?h" for e
      proof (cases "e \<in> set h")
        case True
        show ?thesis by (rule backed_mono [OF ticket_invD(4) [OF inv True]]) auto
      next
        case F: False
        then show ?thesis using that a exp False by (auto simp: backed_def after_def)
      qed
    qed (rule ttl)
    then show ?thesis using Some False by (simp add: Ticket_Redeem_run)
  qed
qed (simp add: Ticket_Redeem_run)

interpretation tickets: machine ticket_step "ticket_inv ttl"
proof
  fix st :: ticket_run and x
  assume inv: "ticket_inv ttl st"
  obtain w s h where st: "st = ((w, s), h)" by (metis prod.exhaust)
  show "ticket_inv ttl (ticket_step st x)"
  proof (cases x)
    case (ReqIssue t)
    then show ?thesis using inv step_issue by (simp only: st)
  next
    case (ReqRedeem v)
    then show ?thesis using inv step_redeem by (simp only: st)
  next
    case (ReqWait d)
    have "ticket_inv ttl ((w\<lparr>wNow := wNow w + int d\<rparr>, s), h)"
      using inv backed_mono [of ttl h "wNow w" _ h "wNow w + int d"] by (simp add: st ticket_inv_def)
    then show ?thesis by (simp add: ReqWait st)
  next
    case (ReqEntropy bs)
    then show ?thesis using inv by (simp add: st ticket_inv_def)
  qed
qed

lemma ticket_inv_init: "ticket_inv (tsTTL (NewTicketStore ttl)) ((w, NewTicketStore ttl), [])"
  by (simp add: ticket_inv_def NewTicketStore_def redemptions_def issues_def outstanding_def)

text \<open>
  C35: whatever requests arrive in whatever order, the store never lets a value be redeemed
  more often than it was issued, and each redemption returns a ticket that was issued under
  that value no longer than the store's lifetime ago.
\<close>

theorem tickets_single_use:
  assumes "run_steps ticket_step ((w, NewTicketStore ttl), []) reqs = (st, h)"
  shows "redemptions v h \<le> issues v h
    \<and> (\<forall>t r. Redeemed v t r \<in> set h \<longrightarrow>
         (\<exists>a. Issued v t a \<in> set h \<and> a \<le> r \<and> r \<le> a + tsTTL (NewTicketStore ttl)))"
proof -
  obtain w' s' where st: "st = (w', s')" by (cases st)
  have inv: "ticket_inv (tsTTL (NewTicketStore ttl)) ((w', s'), h)"
    using tickets.run_inv [OF ticket_inv_init, of ttl w reqs] assms by (simp add: st)
  show ?thesis
    using ticket_invD(3) [OF inv, of v] ticket_invD(4) [OF inv] by (fastforce simp: backed_def)
qed

theorem tickets_single_use_witness:
  "\<exists>v st h. run_steps ticket_step ((entropy_world (replicate 32 7), NewTicketStore 0), [])
       [ReqIssue sample_ticket, ReqRedeem v, ReqRedeem v] = (st, h)
     \<and> redemptions v h = 1 \<and> redemptions v h \<le> issues v h"
proof -
  let ?w = "entropy_world (replicate 32 7)" and ?s = "NewTicketStore 0"
  define v where "v = b64_encode base64_url (replicate 32 7)"
  obtain w' s' where issue: "Ticket_Issue sample_ticket (?w, ?s) = (Inr v, (w', s'))" and now: "wNow w' = wNow ?w"
    by (simp add: Ticket_Issue_run entropy_world_def Let_def v_def)
  obtain s'' where redeem: "Ticket_Redeem v (w', s') = (Inr (sample_ticket\<lparr>tkExpiresAt := wNow ?w + tsTTL ?s\<rparr>), (w', s''))"
    and again: "Ticket_Redeem v (w', s'') = (Inl ErrTicketInvalid, (w', s''))"
    using issued_redeem [OF issue, of w'] now by (auto simp: NewTicketStore_def TicketTTL_def)
  let ?t = "sample_ticket\<lparr>tkExpiresAt := wNow ?w + tsTTL ?s\<rparr>"
  have run: "run_steps ticket_step ((?w, ?s), []) [ReqIssue sample_ticket, ReqRedeem v, ReqRedeem v]
      = ((w', s''), [Redeemed v ?t (wNow w'), Issued v ?t (wNow ?w)])"
    by (simp add: issue redeem again)
  then have "redemptions v [Redeemed v ?t (wNow w'), Issued v ?t (wNow ?w)] = 1"
    by (simp add: redemptions_def)
  then show ?thesis using run tickets_single_use [OF run, of v] by blast
qed

end
