(* ===== verification/Passwords.thy ===== *)
theory Passwords
  imports Secrets
begin

text \<open>
  Password policy and password hashes: internal/auth/password.go. A hash is the PHC string
  \<open>$argon2id$v=..$m=..,t=..,p=..$salt$key\<close>; \<open>fmt.Sscanf\<close> is modelled for the two
  formats the code scans. argon2 itself and the Unicode classes above ASCII are the
  functions of \<open>ext\<close>.
\<close>

section \<open>Policy\<close>

definition MinPasswordLength :: nat where "MinPasswordLength = 12"
definition maxPasswordLength :: nat where "maxPasswordLength = 1024"

definition class_of :: "ext \<Rightarrow> rune \<Rightarrow> rune_class" where
  "class_of X r =
     (if r \<ge> 128 then rune_class X r
      else if is_lower (char_of r) then RuneLower
      else if is_upper (char_of r) then RuneUpper
      else if is_digit (char_of r) then RuneDigit
      else RuneOther)"

definition classesIn :: "ext \<Rightarrow> string \<Rightarrow> nat" where
  "classesIn X s =
     (let present = map (\<lambda>(i, r). class_of X r) (range_string s)
      in length (filter (\<lambda>k. k \<in> set present) [RuneLower, RuneUpper, RuneDigit, RuneOther]))"

definition ValidatePassword :: "ext \<Rightarrow> string \<Rightarrow> go_error + unit" where
  "ValidatePassword X password =
     (if length password < MinPasswordLength then Inl ErrPasswordTooShort
      else if length password > maxPasswordLength then Inl ErrPasswordTooLong
      else if classesIn X password < 2 then Inl ErrPasswordTooWeak
      else Inr ())"

section \<open>Scanning\<close>

text \<open>
  \<open>%d\<close> for an unsigned field of the given width: spaces other than newlines are skipped,
  at least one digit is read, and a value that does not fit is an error. For the signed
  version number a sign may come first. The rest of the input is left unread.
\<close>

definition scan_lit :: "string \<Rightarrow> string \<Rightarrow> string option" where
  "scan_lit lit s = (if has_prefix s lit then Some (drop (length lit) s) else None)"

definition skip_spaces :: "string \<Rightarrow> string" where
  "skip_spaces s = dropWhile (\<lambda>c. is_space c \<and> c \<noteq> CHR 0x0A) s"

definition scan_digits :: "string \<Rightarrow> (nat \<times> string) option" where
  "scan_digits s =
     (let ds = takeWhile is_digit s
      in if ds = '''' then None else Some (digits_val ds, dropWhile is_digit s))"

definition scan_uint :: "nat \<Rightarrow> string \<Rightarrow> (nat \<times> string) option" where
  "scan_uint bits s =
     (case scan_digits (skip_spaces s) of
        None \<Rightarrow> None
      | Some (n, rest) \<Rightarrow> if n < 2 ^ bits then Some (n, rest) else None)"

definition scan_int :: "string \<Rightarrow> (int \<times> string) option" where
  "scan_int s =
     (let s1 = skip_spaces s;
          neg = (s1 \<noteq> '''' \<and> hd s1 = CHR ''-'');
          s2 = (if s1 \<noteq> '''' \<and> hd s1 \<in> {CHR ''-'', CHR ''+''} then tl s1 else s1)
      in case scan_digits s2 of
           None \<Rightarrow> None
         | Some (n, rest) \<Rightarrow>
             let i = (if neg then - int n else int n)
             in if in_int64 i then Some (i, rest) else None)"

section \<open>Hashes\<close>

definition argonTime :: "32 word" where "argonTime = 3"
definition argonMemory :: "32 word" where "argonMemory = 64 * 1024"
definition argonThreads :: "8 word" where "argonThreads = 2"
definition argonKeyLen :: "32 word" where "argonKeyLen = 32"
definition argonSaltLen :: nat where "argonSaltLen = 16"

definition phc_string :: "nat \<Rightarrow> 32 word \<Rightarrow> 32 word \<Rightarrow> 8 word \<Rightarrow> byte list \<Rightarrow> byte list \<Rightarrow> string" where
  "phc_string version memory rounds threads salt key =
     ''$argon2id$v='' @ show_nat version @ ''$m='' @ show_nat (unat memory)
     @ '',t='' @ show_nat (unat rounds) @ '',p='' @ show_nat (unat threads)
     @ ''$'' @ b64_encode base64_std salt @ ''$'' @ b64_encode base64_std key"

definition HashPassword :: "ext \<Rightarrow> string \<Rightarrow> string io" where
  "HashPassword X password =
     bindE (rand_read argonSaltLen) (\<lambda>salt.
     let key = IDKey X (bytes password) salt argonTime argonMemory argonThreads argonKeyLen
     in returnE (phc_string (argon2_Version X) argonMemory argonTime argonThreads salt key))"

record hash_params =
  hpMemory :: "32 word"
  hpTime :: "32 word"
  hpThreads :: "8 word"

definition scan_params :: "string \<Rightarrow> hash_params option" where
  "scan_params s =
     Option.bind (scan_lit ''m='' s) (\<lambda>s.
     Option.bind (scan_uint 32 s) (\<lambda>(m, s).
     Option.bind (scan_lit '',t='' s) (\<lambda>s.
     Option.bind (scan_uint 32 s) (\<lambda>(t, s).
     Option.bind (scan_lit '',p='' s) (\<lambda>s.
     Option.bind (scan_uint 8 s) (\<lambda>(p, s).
     Some \<lparr>hpMemory = of_nat m, hpTime = of_nat t, hpThreads = of_nat p\<rparr>))))))"

definition decodeHash :: "ext \<Rightarrow> string \<Rightarrow> go_error + hash_params \<times> byte list \<times> byte list" where
  "decodeHash X encoded =
     (let parts = split_on (CHR ''$'') encoded in
      if length parts \<noteq> 6 \<or> parts ! 0 \<noteq> '''' \<or> parts ! 1 \<noteq> ''argon2id'' then Inl ErrInvalidHash
      else case Option.bind (scan_lit ''v='' (parts ! 2)) scan_int of
        None \<Rightarrow> Inl ErrInvalidHash
      | Some (version, _) \<Rightarrow>
          if version \<noteq> int (argon2_Version X) then Inl ErrInvalidHash
          else case scan_params (parts ! 3) of
            None \<Rightarrow> Inl ErrInvalidHash
          | Some p \<Rightarrow>
              (case b64_decode_strict base64_std (parts ! 4) of
                 None \<Rightarrow> Inl ErrInvalidHash
               | Some salt \<Rightarrow>
                   (case b64_decode_strict base64_std (parts ! 5) of
                      None \<Rightarrow> Inl ErrInvalidHash
                    | Some key \<Rightarrow>
                        if salt = [] \<or> key = [] then Inl ErrInvalidHash else Inr (p, salt, key))))"

definition VerifyPassword :: "ext \<Rightarrow> string \<Rightarrow> string \<Rightarrow> go_error + bool" where
  "VerifyPassword X encodedHash password =
     (case decodeHash X encodedHash of
        Inl e \<Rightarrow> Inl e
      | Inr (p, salt, want) \<Rightarrow>
          let keyLen = of_nat (length want);
              got = IDKey X (bytes password) salt (hpTime p) (hpMemory p) (hpThreads p) keyLen
          in Inr (got = want))"

definition NeedsRehash :: "ext \<Rightarrow> string \<Rightarrow> bool" where
  "NeedsRehash X encodedHash =
     (case decodeHash X encodedHash of
        Inl _ \<Rightarrow> True
      | Inr (p, _, _) \<Rightarrow> hpMemory p < argonMemory \<or> hpTime p < argonTime \<or> hpThreads p < argonThreads)"

section \<open>Round trip\<close>

lemma digit_not_space: "is_digit c \<Longrightarrow> \<not> is_space c \<and> c \<noteq> CHR ''-'' \<and> c \<noteq> CHR ''+'' \<and> c \<noteq> CHR ''$''"
  by (auto simp: is_digit_def is_space_def)

lemma takeWhile_show_nat:
  assumes "rest = '''' \<or> \<not> is_digit (hd rest)"
  shows "takeWhile is_digit (show_nat n @ rest) = show_nat n"
    and "dropWhile is_digit (show_nat n @ rest) = rest"
proof -
  have "\<forall>c\<in>set (show_nat n). is_digit c" by (simp add: show_nat_digits)
  with assms show "takeWhile is_digit (show_nat n @ rest) = show_nat n"
    "dropWhile is_digit (show_nat n @ rest) = rest"
    by (cases rest; simp add: takeWhile_append2 dropWhile_append2)+
qed

lemma skip_spaces_show_nat: "skip_spaces (show_nat n @ rest) = show_nat n @ rest"
proof -
  obtain c cs where "show_nat n = c # cs" "is_digit c" using show_nat_hd by blast
  then show ?thesis by (simp add: skip_spaces_def digit_not_space)
qed

lemma scan_uint_show_nat:
  "rest = '''' \<or> \<not> is_digit (hd rest) \<Longrightarrow> n < 2 ^ bits \<Longrightarrow> scan_uint bits (show_nat n @ rest) = Some (n, rest)"
  by (simp add: scan_uint_def skip_spaces_show_nat scan_digits_def takeWhile_show_nat Let_def)

lemma scan_int_show_nat:
  assumes "rest = '''' \<or> \<not> is_digit (hd rest)" "int n < 2 ^ 63"
  shows "scan_int (show_nat n @ rest) = Some (int n, rest)"
proof -
  obtain c cs where n: "show_nat n = c # cs" and c: "is_digit c" using show_nat_hd by blast
  have "scan_digits (show_nat n @ rest) = Some (n, rest)"
    using assms(1) by (simp add: scan_digits_def takeWhile_show_nat Let_def)
  moreover have "skip_spaces (c # cs @ rest) = c # cs @ rest"
    using skip_spaces_show_nat [of n rest] by (simp add: n)
  ultimately show ?thesis
    using assms(2) digit_not_space [OF c] by (simp add: scan_int_def n in_int64_def Let_def)
qed

lemma scan_lit_append [simp]: "scan_lit lit (lit @ s) = Some s"
  by (simp add: scan_lit_def has_prefix_iff)

lemma split_phc:
  "split_on (CHR ''$'') (phc_string v m t p salt key) =
     ['''', ''argon2id'', ''v='' @ show_nat v,
      ''m='' @ show_nat (unat m) @ '',t='' @ show_nat (unat t) @ '',p='' @ show_nat (unat p),
      b64_encode base64_std salt, b64_encode base64_std key]" (is "split_on _ _ = ?parts")
proof -
  have "phc_string v m t p salt key = join [CHR ''$''] ?parts" by (simp add: phc_string_def)
  moreover have "CHR ''$'' \<notin> set (show_nat k)" for k
    using show_nat_digits digit_not_space by blast
  moreover have "CHR ''$'' \<notin> set (b64_encode base64_std bs)" for bs
    by (rule b64.enc_avoids) (simp add: base64_std_def)
  ultimately show ?thesis by (simp only:) (rule split_on_join; simp)
qed

lemma scan_params_show:
  "scan_params (''m='' @ show_nat (unat m) @ '',t='' @ show_nat (unat t) @ '',p='' @ show_nat (unat p))
     = Some \<lparr>hpMemory = m, hpTime = t, hpThreads = p\<rparr>"
proof -
  have b: "unat m < 2 ^ 32" "unat t < 2 ^ 32" "unat p < 2 ^ 8"
    using unsigned_less [where w = m and ?'a = nat] unsigned_less [where w = t and ?'a = nat]
      unsigned_less [where w = p and ?'a = nat] by simp_all
  have nd: "\<not> is_digit (CHR '','')" by (simp add: is_digit_def)
  have "scan_uint 32 (show_nat (unat m) @ '',t='' @ r) = Some (unat m, '',t='' @ r)"
    "scan_uint 32 (show_nat (unat t) @ '',p='' @ r) = Some (unat t, '',p='' @ r)" for r
    using b nd by (auto intro!: scan_uint_show_nat)
  moreover have "scan_uint 8 (show_nat (unat p)) = Some (unat p, '''')"
    using scan_uint_show_nat [of "''''" "unat p" 8] b by simp
  ultimately show ?thesis unfolding scan_params_def by (simp add: scan_lit_def has_prefix_iff)
qed

lemma decodeHash_phc:
  assumes "argon2_Version X = v" "int v < 2 ^ 63" "salt \<noteq> []" "key \<noteq> []"
  shows "decodeHash X (phc_string v m t p salt key) =
     Inr (\<lparr>hpMemory = m, hpTime = t, hpThreads = p\<rparr>, salt, key)"
proof -
  have "Option.bind (scan_lit ''v='' (''v='' @ show_nat v)) scan_int = Some (int v, '''')"
    using scan_int_show_nat [of "''''" v] assms(2) by (simp add: scan_lit_def has_prefix_iff)
  then show ?thesis
    using assms scan_params_show by (simp add: decodeHash_def split_phc Let_def b64.dec_enc)
qed

lemma HashPassword_run:
  "HashPassword X pw w =
     (if length (wEntropy w) < 16 then (Inl EntropyError, w)
      else (Inr (phc_string (argon2_Version X) argonMemory argonTime argonThreads (take 16 (wEntropy w))
                  (IDKey X (bytes pw) (take 16 (wEntropy w)) argonTime argonMemory argonThreads argonKeyLen)),
            w\<lparr>wEntropy := drop 16 (wEntropy w)\<rparr>))"
  by (simp add: HashPassword_def prog_simps rand_read_def argonSaltLen_def Let_def)

lemma decode_HashPassword:
  assumes "argon_ok X" "HashPassword X pw w = (Inr h, w')"
  shows "decodeHash X h = Inr (\<lparr>hpMemory = argonMemory, hpTime = argonTime, hpThreads = argonThreads\<rparr>,
           take 16 (wEntropy w),
           IDKey X (bytes pw) (take 16 (wEntropy w)) argonTime argonMemory argonThreads argonKeyLen)"
proof -
  have n: "16 \<le> length (wEntropy w)" and h: "h = phc_string (argon2_Version X) argonMemory argonTime argonThreads
      (take 16 (wEntropy w)) (IDKey X (bytes pw) (take 16 (wEntropy w)) argonTime argonMemory argonThreads argonKeyLen)"
    using assms(2) by (auto simp: HashPassword_run split: if_splits)
  have "length (IDKey X (bytes pw) (take 16 (wEntropy w)) argonTime argonMemory argonThreads argonKeyLen) = 32"
    using assms(1) by (simp add: argon_ok_def argonKeyLen_def)
  then have "IDKey X (bytes pw) (take 16 (wEntropy w)) argonTime argonMemory argonThreads argonKeyLen \<noteq> []"
    by (metis list.size(3) zero_neq_numeral)
  moreover have "take 16 (wEntropy w) \<noteq> []" using n by auto
  ultimately show ?thesis
    unfolding h using assms(1) by (intro decodeHash_phc) (auto simp: argon_ok_def)
qed

lemma hash_round_trip:
  assumes "argon_ok X" and "HashPassword X pw w = (Inr h, w')"
  shows "VerifyPassword X h pw = Inr True \<and> \<not> NeedsRehash X h
    \<and> VerifyPassword X h pw' =
        Inr (IDKey X (bytes pw') (take argonSaltLen (wEntropy w)) argonTime argonMemory argonThreads argonKeyLen
           = IDKey X (bytes pw) (take argonSaltLen (wEntropy w)) argonTime argonMemory argonThreads argonKeyLen)"
proof -
  have "of_nat (length (IDKey X (bytes pw) s argonTime argonMemory argonThreads argonKeyLen)) = argonKeyLen" for s
    using assms(1) by (simp add: argon_ok_def)
  then show ?thesis
    using decode_HashPassword [OF assms]
    by (simp add: VerifyPassword_def NeedsRehash_def argonSaltLen_def Let_def)
qed

lemma hash_verifies: "argon_ok X \<Longrightarrow> HashPassword X pw w = (Inr h, w') \<Longrightarrow> VerifyPassword X h pw = Inr True"
  using hash_round_trip by blast

text \<open>
  A fresh hash verifies against its own password and needs no rehash, and another
  password verifies only where argon2 derives the same key from it under the same salt.
\<close>

theorem HashPassword_round_trip:
  assumes "argon_ok X" and "HashPassword X pw w = (Inr h, w')"
  shows "VerifyPassword X h pw = Inr True \<and> \<not> NeedsRehash X h
    \<and> VerifyPassword X h pw' =
        Inr (IDKey X (bytes pw') (take argonSaltLen (wEntropy w)) argonTime argonMemory argonThreads argonKeyLen
           = IDKey X (bytes pw) (take argonSaltLen (wEntropy w)) argonTime argonMemory argonThreads argonKeyLen)"
  using assms by (rule hash_round_trip)

theorem HashPassword_round_trip_witness:
  "argon_ok sample_ext
   \<and> (\<exists>h w'. HashPassword sample_ext ''correct horse'' (entropy_world (replicate 16 7)) = (Inr h, w')
        \<and> VerifyPassword sample_ext h ''correct horse'' = Inr True
        \<and> VerifyPassword sample_ext h ''battery staple'' = Inr False)"
proof -
  obtain h w' where run: "HashPassword sample_ext ''correct horse'' (entropy_world (replicate 16 7)) = (Inr h, w')"
    by (simp add: HashPassword_run entropy_world_def)
  have "take (unat (32 :: 32 word)) (bytes ''battery staple'' @ replicate 16 7 @ replicate 32 0)
      \<noteq> take (unat (32 :: 32 word)) (bytes ''correct horse'' @ replicate 16 7 @ replicate 32 (0 :: byte))"
    by (simp add: bytes_def)
  then show ?thesis
    using run HashPassword_round_trip [OF sample_ext_ok(1) run, of "''battery staple''"] sample_ext_ok(1)
    by (simp add: sample_ext_def argonKeyLen_def argonSaltLen_def entropy_world_def)
qed

text \<open>The policy, and what a stored hash that does not have the format leads to.\<close>

lemma ValidatePassword_Inr: "ValidatePassword X pw = Inr u \<Longrightarrow> 12 \<le> length pw \<and> length pw \<le> 1024 \<and> 2 \<le> classesIn X pw"
  by (auto simp: ValidatePassword_def MinPasswordLength_def maxPasswordLength_def split: if_splits)

lemma malformed_hash:
  "length (split_on (CHR ''$'') h) \<noteq> 6 \<Longrightarrow> VerifyPassword X h pw = Inl ErrInvalidHash \<and> NeedsRehash X h"
  by (simp add: VerifyPassword_def NeedsRehash_def decodeHash_def)

end
