(* ===== verification/Access.thy ===== *)
theory Access
  imports Passwords
begin

text \<open>
  Access tokens (internal/auth/jwt.go), secrets at rest (internal/crypto/secretbox.go and
  \<open>Key.Derive\<close> of keyfile.go) and the single-use tickets of streaming connections
  (internal/auth/ticket.go). The ticket store is a machine over a history of what was
  issued and redeemed; its invariant bounds every ticket to one use within its lifetime.
\<close>

section \<open>Access tokens (jwt.go)\<close>

definition JWTPurpose :: string where "JWTPurpose = ''jwt-signing''"
definition issuer :: string where "issuer = ''iskele''"

record token_issuer =
  iKey :: "byte list"
  iAccessTTL :: duration

definition new_claims :: "token_issuer \<Rightarrow> user \<Rightarrow> string \<Rightarrow> time \<Rightarrow> claims" where
  "new_claims I u jti t =
     \<lparr>cUserID = uID u, cUsername = uUsername u, cRole = uRole u, cIssuer = issuer, cID = jti,
      cIssuedAt = t, cNotBefore = t, cExpiresAt = t + iAccessTTL I\<rparr>"

definition TokenIssuer_Issue :: "ext \<Rightarrow> token_issuer \<Rightarrow> user \<Rightarrow> (string \<times> time) io" where
  "TokenIssuer_Issue X I u =
     bindE now (\<lambda>t.
     let expiresAt = t + iAccessTTL I in
     bindE randomID (\<lambda>jti.
     case jwt_sign X (iKey I) (new_claims I u jti t) of
       None \<Rightarrow> throwE SignError
     | Some tok \<Rightarrow> returnE (tok, expiresAt)))"

definition TokenIssuer_Parse :: "ext \<Rightarrow> token_issuer \<Rightarrow> string \<Rightarrow> claims io" where
  "TokenIssuer_Parse X I tokenString =
     bindE now (\<lambda>t.
     case jwt_parse X (iKey I) issuer t tokenString of
       Inl JwtExpired \<Rightarrow> throwE ErrTokenExpired
     | Inl JwtMalformed \<Rightarrow> throwE ErrTokenInvalid
     | Inr c \<Rightarrow>
         if cUserID c = '''' \<or> \<not> ValidRole (cRole c) then throwE ErrTokenInvalid else returnE c)"

lemma Issue_InrD:
  assumes "TokenIssuer_Issue X I u w = (Inr (s, expiresAt), w')"
  shows "\<exists>jti. randomID w = (Inr jti, w') \<and> jwt_sign X (iKey I) (new_claims I u jti (wNow w)) = Some s
    \<and> expiresAt = wNow w + iAccessTTL I"
proof (cases "randomID w")
  case (Pair r w1)
  with assms show ?thesis
    by (cases r) (auto simp: TokenIssuer_Issue_def prog_simps Let_def split: option.splits)
qed

lemma whole_seconds_le: "whole_seconds t \<le> t"
  using div_mult_mod_eq [of t second] pos_mod_sign [of second t] unfolding whole_seconds_def by linarith


definition sample_user :: user where
  "sample_user = \<lparr>uID = ''u1'', uUsername = ''ada'', uRole = ''admin'', uTOTPEnabled = False,
     uDisabled = False, uCreatedAt = second, uUpdatedAt = second, uLastLoginAt = 0,
     uPasswordHash = '''', uTOTPSecretEnc = ''''\<rparr>"


section \<open>Secrets at rest (keyfile.go, secretbox.go)\<close>

definition secretPurpose :: string where "secretPurpose = ''secretbox''"

definition key_Derive :: "byte list \<Rightarrow> string \<Rightarrow> byte list" where
  "key_Derive k purpose = hmac_sha256 k (bytes (''iskele/v1/'' @ purpose))"

type_synonym secret_box = "byte list"

definition NewSecretBox :: "byte list \<Rightarrow> secret_box" where
  "NewSecretBox key = key_Derive key secretPurpose"

definition nonce_size :: nat where "nonce_size = 12"

definition of_bytes :: "byte list \<Rightarrow> string" where
  "of_bytes bs = map (\<lambda>b. char_of (unat b)) bs"

definition Encrypt :: "ext \<Rightarrow> secret_box \<Rightarrow> string \<Rightarrow> string io" where
  "Encrypt X box plaintext =
     (if plaintext = '''' then returnE ''''
      else bindE (rand_read nonce_size) (\<lambda>nonce.
           returnE (b64_pad_encode (nonce @ gcm_seal X box nonce (bytes plaintext)))))"

definition Decrypt :: "ext \<Rightarrow> secret_box \<Rightarrow> string \<Rightarrow> go_error + string" where
  "Decrypt X box encoded =
     (if encoded = '''' then Inr ''''
      else case b64_pad_decode encoded of
        None \<Rightarrow> Inl SecretBoxError
      | Some raw \<Rightarrow>
          if length raw < nonce_size then Inl SecretBoxError
          else case gcm_open X box (take nonce_size raw) (drop nonce_size raw) of
            None \<Rightarrow> Inl SecretBoxError
          | Some plaintext \<Rightarrow> Inr (of_bytes plaintext))"

lemma of_bytes_bytes [simp]: "of_bytes (bytes s) = s"
proof -
  have "char_of (unat (of_char c :: byte)) = c" for c
  proof -
    have "unat (of_nat (code c) :: byte) = code c" by (simp add: unat_of_nat)
    then show ?thesis by (simp add: of_nat_of_char)
  qed
  then show ?thesis by (simp add: of_bytes_def bytes_def comp_def)
qed

lemma Encrypt_not_Nil:
  assumes "Encrypt X box s w = (Inr enc, w')" "s \<noteq> ''''"
  shows "enc \<noteq> ''''"
proof -
  let ?n = "take nonce_size (wEntropy w)"
  have len: "length ?n = nonce_size" and enc: "enc = b64_pad_encode (?n @ gcm_seal X box ?n (bytes s))"
    using assms by (auto simp: Encrypt_def prog_simps rand_read_def split: if_splits)
  have "b64_pad_decode [] = Some []" by code_simp
  then show ?thesis
    using len b64pad.dec_enc [of "?n @ gcm_seal X box ?n (bytes s)"] by (auto simp: enc nonce_size_def)
qed

lemma decrypt_encrypt:
  assumes "aead_ok X" and "Encrypt X box s w = (Inr enc, w')"
  shows "Decrypt X box enc = Inr s"
proof (cases "s = ''''")
  case True
  with assms(2) show ?thesis by (simp add: Encrypt_def Decrypt_def prog_simps)
next
  case False
  let ?n = "take nonce_size (wEntropy w)"
  have len: "length ?n = nonce_size" and enc: "enc = b64_pad_encode (?n @ gcm_seal X box ?n (bytes s))"
    using assms(2) False by (auto simp: Encrypt_def prog_simps rand_read_def split: if_splits)
  have "enc \<noteq> []" using Encrypt_not_Nil [OF assms(2) False] by simp
  with assms(1) len show ?thesis
    by (simp add: Decrypt_def enc b64pad.dec_enc aead_ok_def)
qed

text \<open>What was encrypted decrypts, with the same box, to itself.\<close>

theorem SecretBox_round_trip:
  assumes "aead_ok X" and "Encrypt X box s w = (Inr enc, w')"
  shows "Decrypt X box enc = Inr s"
  using assms by (rule decrypt_encrypt)

theorem SecretBox_round_trip_witness:
  "aead_ok sample_ext
   \<and> (\<exists>enc w'. Encrypt sample_ext [1, 2] ''s3cret'' (entropy_world (replicate 12 7)) = (Inr enc, w')
        \<and> Decrypt sample_ext [1, 2] enc = Inr ''s3cret'')"
proof -
  obtain enc w' where
    run: "Encrypt sample_ext [1, 2] ''s3cret'' (entropy_world (replicate 12 7)) = (Inr enc, w')"
    by (simp add: Encrypt_def prog_simps rand_read_def nonce_size_def entropy_world_def)
  show ?thesis
    using run SecretBox_round_trip [OF sample_ext_ok(3) run] sample_ext_ok(3) by blast
qed

end
