(* ===== verification/Limiter.thy ===== *)
theory Limiter
  imports Store_Laws
begin

text \<open>
  internal/auth/bruteforce.go: the per-address brute-force limiter over the log of login
  attempts. Its clock is the clock of the world.
\<close>

record limiter =
  maxFailures :: int
  window :: duration
  lockout :: duration

record limiter_options =
  optMaxFailures :: int
  optWindow :: duration
  optLockout :: duration

definition DefaultMaxFailures :: int where "DefaultMaxFailures = 10"
definition DefaultWindow :: duration where "DefaultWindow = 15 * minute"
definition DefaultLockout :: duration where "DefaultLockout = 15 * minute"

definition NewLimiter :: "limiter_options \<Rightarrow> limiter" where
  "NewLimiter opts =
     \<lparr>maxFailures = (if optMaxFailures opts \<le> 0 then DefaultMaxFailures else optMaxFailures opts),
      window = (if optWindow opts \<le> 0 then DefaultWindow else optWindow opts),
      lockout = (if optLockout opts \<le> 0 then DefaultLockout else optLockout opts)\<rparr>"

record lock_status =
  Locked :: bool
  RetryAfter :: duration
  Failures :: int
  Remaining :: int

definition limiter_Check :: "limiter \<Rightarrow> string \<Rightarrow> lock_status io" where
  "limiter_Check l ip =
     bindE now (\<lambda>t.
     bindE (Logins_FailuresSince ip (t - window l)) (\<lambda>failures.
     let remaining = maxFailures l - int failures;
         status = \<lparr>Locked = False, RetryAfter = 0, Failures = int failures,
                   Remaining = (if remaining < 0 then 0 else remaining)\<rparr>
     in if int failures < maxFailures l then returnE status
        else bindE (Logins_LastFailureAt ip) (\<lambda>lastFailure.
             if is_zero lastFailure then returnE status
             else let unlockAt = lastFailure + lockout l
                  in if before t unlockAt
                     then returnE (status\<lparr>Locked := True,
                            RetryAfter := dur_round (time_sub unlockAt t) second\<rparr>)
                     else returnE status)))"

definition limiter_RecordFailure :: "string \<Rightarrow> string \<Rightarrow> unit io" where
  "limiter_RecordFailure ip username = Logins_Record ip username False"

definition limiter_RecordSuccess :: "string \<Rightarrow> string \<Rightarrow> unit io" where
  "limiter_RecordSuccess ip username = Logins_Record ip username True"

definition limiter_Prune :: "limiter \<Rightarrow> nat io" where
  "limiter_Prune l = bindE now (\<lambda>t. Logins_DeleteBefore (t - (window l + lockout l)))"

section \<open>What the queries return\<close>

lemma keeps_limiter_Check [keeps_intros]: "fault_blind I \<Longrightarrow> keeps I (limiter_Check l ip)"
  unfolding limiter_Check_def Let_def by (intro keeps_intros)

lemma keeps_RecordFailure [keeps_intros]: "keeps db_ok (limiter_RecordFailure ip u)"
  unfolding limiter_RecordFailure_def by (rule keeps_Logins_Record)

lemma keeps_RecordSuccess [keeps_intros]: "keeps db_ok (limiter_RecordSuccess ip u)"
  unfolding limiter_RecordSuccess_def by (rule keeps_Logins_Record)

lemma sort_key_Nil_iff [simp]: "sort_key f xs = [] \<longleftrightarrow> xs = []"
  by (metis length_0_conv length_sort)

lemma max_created_None: "max_created p rs = None \<longleftrightarrow> (\<forall>r\<in>set rs. \<not> p r)"
proof -
  have "max_created p rs = None \<longleftrightarrow> filter p rs = []"
    by (simp add: max_created_def split: list.split)
       (metis Nil_is_map_conv list.distinct(1) sort_key_Nil_iff)
  then show ?thesis by (simp add: filter_empty_conv)
qed

lemma sorted_key_last:
  "sorted (map f xs) \<Longrightarrow> x \<in> set xs \<Longrightarrow> f x \<le> (f (last xs) :: 'b :: linorder)"
  by (induction xs) auto

lemma max_created_Some:
  assumes "max_created p rs = Some t"
  shows "\<exists>r\<in>set rs. p r \<and> laCreatedAt r = t"
    and "r \<in> set rs \<Longrightarrow> p r \<Longrightarrow> stamp (laCreatedAt r) \<le> stamp t"
proof -
  let ?ts = "sort_key (\<lambda>t. stamp t) (map laCreatedAt (filter p rs))"
  have ne: "?ts \<noteq> []" and t: "t = last ?ts"
    using assms by (auto simp: max_created_def split: list.splits)
  then have "t \<in> set ?ts" by (metis last_in_set)
  then show "\<exists>r\<in>set rs. p r \<and> laCreatedAt r = t" by auto
  show "stamp (laCreatedAt r) \<le> stamp t" if "r \<in> set rs" "p r"
  proof -
    have "laCreatedAt r \<in> set ?ts" using that by auto
    then show ?thesis
      using sorted_key_last [of stamp ?ts "laCreatedAt r"] sorted_sort_key t by simp
  qed
qed

lemma max_created_unique:
  assumes "\<exists>r\<in>set rs. p r \<and> laCreatedAt r = t"
    and "\<And>r. r \<in> set rs \<Longrightarrow> p r \<Longrightarrow> stamp (laCreatedAt r) \<le> stamp t"
  shows "max_created p rs = Some t"
proof -
  obtain t' where t': "max_created p rs = Some t'"
    using assms(1) max_created_None [of p rs] by (cases "max_created p rs") auto
  then obtain r where "r \<in> set rs" "p r" "laCreatedAt r = t'" using max_created_Some(1) by blast
  then have "stamp t' \<le> stamp t" using assms(2) by blast
  moreover have "stamp t \<le> stamp t'" using assms(1) max_created_Some(2) [OF t'] by blast
  ultimately have "stamp t = stamp t'" by simp
  then show ?thesis using t' by (simp add: stamp_inject)
qed

text \<open>The specification of the count: failures after the last success inside the window.\<close>

definition counted_from :: "string \<Rightarrow> time \<Rightarrow> login_attempt list \<Rightarrow> time" where
  "counted_from ip since rs =
     (case max_created (\<lambda>r. laIP r = ip \<and> laSuccess r \<and> stamp since \<le> stamp (laCreatedAt r)) rs of
        Some t \<Rightarrow> if stamp since < stamp t then t else since
      | None \<Rightarrow> since)"

definition failure_count :: "string \<Rightarrow> time \<Rightarrow> login_attempt list \<Rightarrow> nat" where
  "failure_count ip since rs =
     length (filter (\<lambda>r. laIP r = ip \<and> \<not> laSuccess r \<and> stamp (counted_from ip since rs) < stamp (laCreatedAt r)) rs)"

definition last_failure :: "string \<Rightarrow> login_attempt list \<Rightarrow> time option" where
  "last_failure ip rs = max_created (\<lambda>r. laIP r = ip \<and> \<not> laSuccess r) rs"

lemma FailuresSince_run:
  "wFaults w = [] \<Longrightarrow> Logins_FailuresSince ip since w = (Inr (failure_count ip since (wAttempts w)), w)"
  by (simp add: Logins_FailuresSince_def failure_count_def counted_from_def prog_simps Let_def)

lemma LastFailureAt_run:
  "wFaults w = [] \<Longrightarrow>
     Logins_LastFailureAt ip w = (Inr (case last_failure ip (wAttempts w) of None \<Rightarrow> 0 | Some t \<Rightarrow> t), w)"
  by (simp add: Logins_LastFailureAt_def last_failure_def prog_simps split: option.splits)

definition check_result :: "limiter \<Rightarrow> string \<Rightarrow> time \<Rightarrow> login_attempt list \<Rightarrow> lock_status" where
  "check_result l ip t rs =
     (let n = int (failure_count ip (t - window l) rs);
          lastAt = (case last_failure ip rs of None \<Rightarrow> 0 | Some f \<Rightarrow> f);
          locked = maxFailures l \<le> n \<and> lastAt \<noteq> 0 \<and> t < lastAt + lockout l
      in \<lparr>Locked = locked,
          RetryAfter = (if locked then dur_round (time_sub (lastAt + lockout l) t) second else 0),
          Failures = n, Remaining = max 0 (maxFailures l - n)\<rparr>)"

lemma Check_run:
  "wFaults w = [] \<Longrightarrow> limiter_Check l ip w = (Inr (check_result l ip (wNow w) (wAttempts w)), w)"
  by (simp add: limiter_Check_def check_result_def Let_def bindE_run now_run FailuresSince_run
      LastFailureAt_run returnE_run is_zero_def before_def max_def)

lemma Check_Inr:
  assumes "limiter_Check l ip w = (Inr st, w')"
  shows "st = check_result l ip (wNow w) (wAttempts w) \<and> (\<exists>fs. w' = w\<lparr>wFaults := fs\<rparr>)"
proof -
  have reads: "Logins_FailuresSince ip s w = (Inr n, w1) \<Longrightarrow>
      n = failure_count ip s (wAttempts w) \<and> (\<exists>fs. w1 = w\<lparr>wFaults := fs\<rparr>)" for s n w w1
    unfolding Logins_FailuresSince_def failure_count_def counted_from_def Let_def
    by (elim bindE_InrE db_Inr) (auto simp: readE_def)
  have last: "Logins_LastFailureAt ip w = (Inr t, w1) \<Longrightarrow>
      t = (case last_failure ip (wAttempts w) of None \<Rightarrow> 0 | Some f \<Rightarrow> f) \<and> (\<exists>fs. w1 = w\<lparr>wFaults := fs\<rparr>)" for t w w1
    unfolding Logins_LastFailureAt_def last_failure_def
    by (elim bindE_InrE db_Inr) (auto simp: readE_def returnE_def split: option.splits)
  from assms obtain n w1 where n: "Logins_FailuresSince ip (wNow w - window l) w = (Inr n, w1)"
    unfolding limiter_Check_def by (auto simp: bindE_Inr now_run)
  then obtain fs where n': "n = failure_count ip (wNow w - window l) (wAttempts w)" "w1 = w\<lparr>wFaults := fs\<rparr>"
    using reads by blast
  show ?thesis
  proof (cases "int n < maxFailures l")
    case True
    with assms n n' show ?thesis
      by (auto simp: limiter_Check_def bindE_run now_run returnE_run check_result_def Let_def max_def)
  next
    case False
    with assms n obtain t w2 where t: "Logins_LastFailureAt ip w1 = (Inr t, w2)"
      by (auto simp: limiter_Check_def bindE_run now_run Let_def split: prod.splits sum.splits)
    then have "t = (case last_failure ip (wAttempts w) of None \<Rightarrow> 0 | Some f \<Rightarrow> f)" "\<exists>fs. w2 = w\<lparr>wFaults := fs\<rparr>"
      using last [OF t] n'(2) by auto
    with False assms n n' t show ?thesis
      by (auto simp: limiter_Check_def bindE_run now_run returnE_run check_result_def Let_def
          is_zero_def before_def max_def split: if_splits)
  qed
qed

section \<open>The limiter's guarantees\<close>

text \<open>
  With a working database, an address is refused exactly when the failures after its
  last success inside the window reach the limit and the lockout measured from its last
  failure has not passed; the check itself changes nothing.
\<close>

theorem Check_locks_iff:
  assumes "wFaults w = []" and "\<forall>r\<in>set (wAttempts w). laCreatedAt r \<noteq> 0" and "0 < maxFailures l"
  shows "\<exists>st. limiter_Check l ip w = (Inr st, w) \<and>
    (Locked st \<longleftrightarrow>
       maxFailures l \<le> int (failure_count ip (wNow w - window l) (wAttempts w))
       \<and> (\<exists>f. last_failure ip (wAttempts w) = Some f \<and> wNow w < f + lockout l))"
proof -
  have nz: "last_failure ip (wAttempts w) = Some f \<Longrightarrow> f \<noteq> 0" for f
    using assms(2) max_created_Some(1) unfolding last_failure_def by metis
  then show ?thesis
    using assms(1) by (auto simp: Check_run check_result_def Let_def split: option.splits)
qed

definition attempt_at :: "string \<Rightarrow> bool \<Rightarrow> time \<Rightarrow> login_attempt" where
  "attempt_at ip ok t = \<lparr>laIP = ip, laUsername = ''root'', laSuccess = ok, laCreatedAt = t\<rparr>"

definition world_at :: "time \<Rightarrow> login_attempt list \<Rightarrow> world" where
  "world_at t rs =
     \<lparr>wUsers = [], wSessions = [], wTokens = [], wAttempts = rs, wAudit = [], wAuditSeq = 0,
      wNow = t, wEntropy = [], wFaults = []\<rparr>"

theorem Check_locks_iff_witness:
  "\<exists>st. limiter_Check \<lparr>maxFailures = 1, window = minute, lockout = minute\<rparr> ''10.0.0.1''
       (world_at (9 * minute) [attempt_at ''10.0.0.1'' False (9 * minute - second)]) =
     (Inr st, world_at (9 * minute) [attempt_at ''10.0.0.1'' False (9 * minute - second)])"
  using Check_locks_iff [of "world_at (9 * minute) [attempt_at ''10.0.0.1'' False (9 * minute - second)]"
      "\<lparr>maxFailures = 1, window = minute, lockout = minute\<rparr>" "''10.0.0.1''"]
  by (auto simp: world_at_def attempt_at_def)

lemma counted_from_ge: "stamp since \<le> stamp (counted_from ip since rs)"
  by (auto simp: counted_from_def split: option.splits)

subsection \<open>Success clears the count\<close>

lemma counted_from_snoc_success:
  assumes "\<forall>r\<in>set rs. stamp (laCreatedAt r) \<le> stamp (laCreatedAt r0)"
    and "laIP r0 = ip" "laSuccess r0" "stamp since < stamp (laCreatedAt r0)"
  shows "counted_from ip since (rs @ [r0]) = laCreatedAt r0"
proof -
  have "max_created (\<lambda>r. laIP r = ip \<and> laSuccess r \<and> stamp since \<le> stamp (laCreatedAt r)) (rs @ [r0])
      = Some (laCreatedAt r0)"
    by (rule max_created_unique) (use assms in auto)
  then show ?thesis using assms(4) by (simp add: counted_from_def)
qed

text \<open>
  A recorded success clears the address: no failure logged up to then is counted by
  the next check, and all attempts are available again.
\<close>

theorem RecordSuccess_clears:
  assumes "wFaults w = []" and "second \<le> window l" and "0 < maxFailures l"
    and "\<forall>r\<in>set (wAttempts w). stamp (laCreatedAt r) \<le> stamp (wNow w)"
    and "limiter_RecordSuccess ip name w = (Inr (), w')"
  shows "\<exists>st. limiter_Check l ip w' = (Inr st, w') \<and> \<not> Locked st \<and> Failures st = 0 \<and> Remaining st = maxFailures l"
proof -
  let ?r = "\<lparr>laIP = ip, laUsername = to_lower (trim_space name), laSuccess = True, laCreatedAt = wNow w\<rparr>"
  have w': "w' = w\<lparr>wAttempts := wAttempts w @ [?r]\<rparr>"
    using assms(1,5) by (simp add: limiter_RecordSuccess_def Logins_Record_def prog_simps)
  have "stamp (wNow w - window l) < stamp (wNow w)"
    using assms(2) by (intro stamp_less_second_apart) simp
  then have "counted_from ip (wNow w - window l) (wAttempts w') = wNow w"
    unfolding w' using counted_from_snoc_success [of "wAttempts w" ?r ip] assms(4) by simp
  then have "failure_count ip (wNow w - window l) (wAttempts w') = 0"
    using assms(4) by (auto simp: failure_count_def w' filter_empty_conv not_less)
  then show ?thesis
    using assms(1,3) by (simp add: w' Check_run check_result_def Let_def)
qed

theorem RecordSuccess_clears_witness:
  "\<exists>st. limiter_Check \<lparr>maxFailures = 1, window = minute, lockout = minute\<rparr> ''10.0.0.1''
       (snd (limiter_RecordSuccess ''10.0.0.1'' ''root'' (world_at (9 * minute) [attempt_at ''10.0.0.1'' False (9 * minute)])))
     = (Inr st, snd (limiter_RecordSuccess ''10.0.0.1'' ''root'' (world_at (9 * minute) [attempt_at ''10.0.0.1'' False (9 * minute)])))
     \<and> \<not> Locked st"
proof -
  let ?w = "world_at (9 * minute) [attempt_at ''10.0.0.1'' False (9 * minute)]"
  have "limiter_RecordSuccess ''10.0.0.1'' ''root'' ?w = (Inr (), snd (limiter_RecordSuccess ''10.0.0.1'' ''root'' ?w))"
    by (simp add: limiter_RecordSuccess_def Logins_Record_def prog_simps world_at_def)
  then show ?thesis
    using RecordSuccess_clears [of ?w "\<lparr>maxFailures = 1, window = minute, lockout = minute\<rparr>" "''10.0.0.1''" "''root''"]
    by (auto simp: world_at_def attempt_at_def)
qed

subsection \<open>Pruning\<close>

lemma max_created_delete_old:
  assumes "\<And>r. r \<in> set rs \<Longrightarrow> p r \<Longrightarrow> \<not> old r"
  shows "max_created p (delete_where old rs) = max_created p rs"
  using assms by (simp add: max_created_def filter_delete_where)

lemma failure_count_delete_old:
  assumes "\<And>r. r \<in> set rs \<Longrightarrow> old r \<Longrightarrow> stamp (laCreatedAt r) < stamp since"
  shows "failure_count ip since (delete_where old rs) = failure_count ip since rs"
proof -
  have "counted_from ip since (delete_where old rs) = counted_from ip since rs"
    unfolding counted_from_def
    by (subst max_created_delete_old) (use assms in \<open>fastforce+\<close>)
  moreover have "\<not> old r" if "r \<in> set rs" "stamp (counted_from ip since rs) < stamp (laCreatedAt r)" for r
    using that assms counted_from_ge [of since ip rs] by force
  then have "filter (\<lambda>r. laIP r = ip \<and> \<not> laSuccess r \<and> stamp (counted_from ip since rs) < stamp (laCreatedAt r)) (delete_where old rs) =
      filter (\<lambda>r. laIP r = ip \<and> \<not> laSuccess r \<and> stamp (counted_from ip since rs) < stamp (laCreatedAt r)) rs"
    by (intro filter_delete_where) blast
  ultimately show ?thesis by (simp add: failure_count_def)
qed

lemma last_failure_delete_old:
  assumes "\<And>r. r \<in> set rs \<Longrightarrow> old r \<longleftrightarrow> stamp (laCreatedAt r) < c"
    and "r0 \<in> set rs" "laIP r0 = ip" "\<not> laSuccess r0" "\<not> old r0"
  shows "last_failure ip (delete_where old rs) = last_failure ip rs"
proof -
  let ?p = "\<lambda>r. laIP r = ip \<and> \<not> laSuccess r"
  obtain t where t: "max_created ?p rs = Some t"
    using assms(2-4) max_created_None [of ?p rs] by (cases "max_created ?p rs") auto
  then obtain r where r: "r \<in> set rs" "?p r" "laCreatedAt r = t" using max_created_Some(1) by blast
  have "stamp (laCreatedAt r0) \<le> stamp t" using max_created_Some(2) [OF t] assms(2-4) by blast
  then have "\<not> old r" using assms(1) [OF r(1)] assms(1) [OF assms(2)] assms(5) r(3) by auto
  then have "max_created ?p (delete_where old rs) = Some t"
    using r max_created_Some(2) [OF t] by (intro max_created_unique) auto
  then show ?thesis using t by (simp add: last_failure_def)
qed

text \<open>
  Pruning deletes only attempts that can no longer affect a decision: from then on, at
  any clock reading, a check gives the same answer as it would have without the pruning.
\<close>

theorem Prune_harmless:
  assumes "wFaults w = []" and "second \<le> lockout l" and "0 < maxFailures l"
    and "limiter_Prune l w = (Inr n, w')" and "wNow w \<le> t"
  shows "fst (limiter_Check l ip (w'\<lparr>wNow := t\<rparr>)) = fst (limiter_Check l ip (w\<lparr>wNow := t\<rparr>))"
proof -
  let ?c = "stamp (wNow w - (window l + lockout l))"
  let ?old = "\<lambda>r. stamp (laCreatedAt r) < ?c" and ?rs = "wAttempts w"
  have w': "w' = w\<lparr>wAttempts := delete_where ?old ?rs\<rparr>"
    using assms(1,4) by (auto simp: limiter_Prune_def Logins_DeleteBefore_def rows_affected_def prog_simps Let_def)
  have c: "?c < stamp (t - window l)"
    using assms(2,5) by (intro stamp_less_second_apart) simp
  have count: "failure_count ip (t - window l) (delete_where ?old ?rs) = failure_count ip (t - window l) ?rs"
    using c by (intro failure_count_delete_old) auto
  have "last_failure ip (delete_where ?old ?rs) = last_failure ip ?rs"
    if "maxFailures l \<le> int (failure_count ip (t - window l) ?rs)"
  proof -
    have "failure_count ip (t - window l) ?rs \<noteq> 0" using that assms(3) by simp
    then obtain r where r: "r \<in> set ?rs" "laIP r = ip" "\<not> laSuccess r"
        "stamp (counted_from ip (t - window l) ?rs) < stamp (laCreatedAt r)"
      by (auto simp: failure_count_def filter_empty_conv)
    then have "\<not> ?old r" using c counted_from_ge [of "t - window l" ip ?rs] by force
    with r show ?thesis by (intro last_failure_delete_old) auto
  qed
  then have "check_result l ip t (delete_where ?old ?rs) = check_result l ip t ?rs"
    using count by (auto simp: check_result_def Let_def)
  then show ?thesis using assms(1) by (simp add: w' Check_run)
qed

theorem Prune_harmless_witness:
  "fst (limiter_Check \<lparr>maxFailures = 1, window = minute, lockout = minute\<rparr> ''10.0.0.1''
      ((snd (limiter_Prune \<lparr>maxFailures = 1, window = minute, lockout = minute\<rparr>
          (world_at (9 * minute) [attempt_at ''10.0.0.1'' False second])))\<lparr>wNow := 9 * minute\<rparr>)) =
   fst (limiter_Check \<lparr>maxFailures = 1, window = minute, lockout = minute\<rparr> ''10.0.0.1''
      ((world_at (9 * minute) [attempt_at ''10.0.0.1'' False second])\<lparr>wNow := 9 * minute\<rparr>))"
proof -
  let ?w = "world_at (9 * minute) [attempt_at ''10.0.0.1'' False second]"
  let ?l = "\<lparr>maxFailures = 1, window = minute, lockout = minute\<rparr>"
  obtain n where "limiter_Prune ?l ?w = (Inr n, snd (limiter_Prune ?l ?w))"
    by (auto simp: limiter_Prune_def Logins_DeleteBefore_def rows_affected_def prog_simps Let_def world_at_def)
  then show ?thesis
    using Prune_harmless [of ?w ?l n "snd (limiter_Prune ?l ?w)" "9 * minute" "''10.0.0.1''"]
    by (simp add: world_at_def)
qed

subsection \<open>How many guesses get through\<close>

text \<open>
  A client that keeps guessing: every guess asks the limiter first, as the login handler
  does, and is logged as a failure when it is let through.
\<close>

definition guess :: "limiter \<Rightarrow> string \<Rightarrow> string \<Rightarrow> world \<Rightarrow> time \<Rightarrow> world" where
  "guess l ip name w t =
     (case limiter_Check l ip (w\<lparr>wNow := t\<rparr>) of
        (Inl e, w1) \<Rightarrow> w1
      | (Inr st, w1) \<Rightarrow> if Locked st then w1 else snd (limiter_RecordFailure ip name w1))"

definition failures_in :: "string \<Rightarrow> time \<Rightarrow> time \<Rightarrow> login_attempt list \<Rightarrow> nat" where
  "failures_in ip a b rs = length (filter (\<lambda>r. laIP r = ip \<and> \<not> laSuccess r \<and> a < laCreatedAt r \<and> laCreatedAt r \<le> b) rs)"

text \<open>The invariant of a run of guesses up to time \<open>t0\<close>.\<close>

definition guesses_ok :: "limiter \<Rightarrow> string \<Rightarrow> time \<Rightarrow> world \<Rightarrow> bool" where
  "guesses_ok l ip t0 w \<longleftrightarrow>
     wFaults w = []
     \<and> (\<forall>r\<in>set (wAttempts w). laIP r = ip \<and> \<not> laSuccess r \<and> second dvd laCreatedAt r
          \<and> 0 < laCreatedAt r \<and> laCreatedAt r \<le> t0)
     \<and> (\<forall>b. int (failures_in ip (b - window l) b (wAttempts w)) \<le> maxFailures l)"

definition whole_limiter :: "limiter \<Rightarrow> bool" where
  "whole_limiter l \<longleftrightarrow> 0 < maxFailures l \<and> second dvd window l \<and> 0 < window l \<and> window l \<le> lockout l"

lemma failures_in_mono:
  assumes "a \<le> a'" "\<And>r. r \<in> set rs \<Longrightarrow> laCreatedAt r \<le> b'"
  shows "failures_in ip a' b rs \<le> failures_in ip a b' rs"
  unfolding failures_in_def using assms by (intro length_filter_mono) auto

lemma guesses_failure_count:
  assumes "guesses_ok l ip t0 w" "whole_limiter l" "second dvd t" "t0 \<le> t"
  shows "failure_count ip (t - window l) (wAttempts w) = failures_in ip (t - window l) t (wAttempts w)"
proof -
  have nosucc: "\<forall>r\<in>set (wAttempts w). \<not> laSuccess r" using assms(1) by (simp add: guesses_ok_def)
  then have "max_created (\<lambda>r. laIP r = ip \<and> laSuccess r \<and> stamp (t - window l) \<le> stamp (laCreatedAt r)) (wAttempts w) = None"
    by (auto simp: max_created_None)
  then have from_eq: "counted_from ip (t - window l) (wAttempts w) = t - window l"
    by (simp add: counted_from_def)
  have "stamp (t - window l) < stamp (laCreatedAt r) \<longleftrightarrow> t - window l < laCreatedAt r \<and> laCreatedAt r \<le> t"
    if "r \<in> set (wAttempts w)" for r
  proof -
    have "second dvd laCreatedAt r" "laCreatedAt r \<le> t"
      using that assms(1,4) by (auto simp: guesses_ok_def)
    moreover have "second dvd t - window l"
      using assms(2,3) by (simp add: whole_limiter_def)
    ultimately show ?thesis by (simp add: stamp_mono_whole(1))
  qed
  then show ?thesis
    unfolding failure_count_def failures_in_def from_eq
    by (intro arg_cong [of _ _ length] filter_cong) simp_all
qed

lemma guess_allowed_below:
  assumes ok: "guesses_ok l ip t0 w" and l: "whole_limiter l" and t: "second dvd t" "t0 \<le> t"
    and free: "\<not> Locked (check_result l ip t (wAttempts w))"
  shows "int (failures_in ip (t - window l) t (wAttempts w)) < maxFailures l"
proof (rule ccontr)
  assume "\<not> ?thesis"
  then have full: "maxFailures l \<le> int (failure_count ip (t - window l) (wAttempts w))"
    using guesses_failure_count [OF ok l t] by simp
  then have "failures_in ip (t - window l) t (wAttempts w) \<noteq> 0"
    using guesses_failure_count [OF ok l t] l by (auto simp: whole_limiter_def)
  then obtain r where r: "r \<in> set (wAttempts w)" "laIP r = ip" "\<not> laSuccess r" "t - window l < laCreatedAt r"
    by (auto simp: failures_in_def filter_empty_conv)
  obtain f where f: "last_failure ip (wAttempts w) = Some f"
    using r max_created_None [of "\<lambda>r. laIP r = ip \<and> \<not> laSuccess r" "wAttempts w"]
    by (cases "last_failure ip (wAttempts w)") (auto simp: last_failure_def)
  obtain rf where rf: "rf \<in> set (wAttempts w)" "laCreatedAt rf = f"
    using max_created_Some(1) f unfolding last_failure_def by blast
  have dv: "second dvd laCreatedAt r" "second dvd f" "0 < f"
    using ok r(1) rf by (auto simp: guesses_ok_def)
  have "stamp (laCreatedAt r) \<le> stamp f"
    using max_created_Some(2) [OF f [unfolded last_failure_def]] r by blast
  then have "laCreatedAt r \<le> f" using dv by (simp add: stamp_mono_whole(2))
  then have "t < f + lockout l" using r(4) l by (simp add: whole_limiter_def)
  then have "Locked (check_result l ip t (wAttempts w))"
    using full f dv(3) by (simp add: check_result_def Let_def)
  then show False using free by simp
qed

lemma failures_in_snoc:
  "failures_in ip a b (rs @ [r]) =
     failures_in ip a b rs + (if laIP r = ip \<and> \<not> laSuccess r \<and> a < laCreatedAt r \<and> laCreatedAt r \<le> b then 1 else 0)"
  by (simp add: failures_in_def)

lemma guess_step:
  assumes ok: "guesses_ok l ip t0 w" and l: "whole_limiter l" and t: "second dvd t" "t0 \<le> t" "0 < t"
  shows "guesses_ok l ip t (guess l ip name w t)"
proof -
  have chk: "limiter_Check l ip (w\<lparr>wNow := t\<rparr>) = (Inr (check_result l ip t (wAttempts w)), w\<lparr>wNow := t\<rparr>)"
    using ok Check_run [of "w\<lparr>wNow := t\<rparr>"] by (simp add: guesses_ok_def)
  show ?thesis
  proof (cases "Locked (check_result l ip t (wAttempts w))")
    case True
    then show ?thesis using ok chk t(2) by (force simp: guess_def guesses_ok_def)
  next
    case False
    let ?r = "\<lparr>laIP = ip, laUsername = to_lower (trim_space name), laSuccess = False, laCreatedAt = t\<rparr>"
    have g: "guess l ip name w t = w\<lparr>wNow := t, wAttempts := wAttempts w @ [?r]\<rparr>"
      using ok chk False
      by (simp add: guess_def guesses_ok_def limiter_RecordFailure_def Logins_Record_def prog_simps)
    have below: "int (failures_in ip (t - window l) t (wAttempts w)) < maxFailures l"
      by (rule guess_allowed_below [OF ok l t(1,2) False])
    have "int (failures_in ip (b - window l) b (wAttempts w @ [?r])) \<le> maxFailures l" for b
    proof (cases "b - window l < t \<and> t \<le> b")
      case True
      have "failures_in ip (b - window l) b (wAttempts w) \<le> failures_in ip (t - window l) t (wAttempts w)"
        using True ok t(2) by (intro failures_in_mono) (auto simp: guesses_ok_def)
      then show ?thesis using below by (simp add: failures_in_snoc)
    next
      case False
      then show ?thesis using ok by (auto simp: failures_in_snoc guesses_ok_def)
    qed
    then show ?thesis using ok t by (auto simp: g guesses_ok_def)
  qed
qed



subsection \<open>The lock can lift before the lockout has passed\<close>

definition spread_failures :: "login_attempt list" where
  "spread_failures = map (\<lambda>k. attempt_at ''10.0.0.1'' False (1000 * minute + int k * 99 * second)) [0..<10]"

text \<open>
  With the default settings, ten failures spread over the window lock the address,
  but as soon as the first of them leaves the window the address is free again: here 10
  seconds after the last failure, where the status announced a wait of almost 15 minutes.
\<close>

theorem lock_lifts_early:
  "let l = NewLimiter \<lparr>optMaxFailures = 0, optWindow = 0, optLockout = 0\<rparr>;
       lastFailure = 1000 * minute + 891 * second
   in (\<exists>st w. limiter_Check l ''10.0.0.1'' (world_at lastFailure spread_failures) = (Inr st, w)
         \<and> Locked st \<and> RetryAfter st = DefaultLockout)
    \<and> (\<exists>st w. limiter_Check l ''10.0.0.1'' (world_at (lastFailure + 10 * second) spread_failures) = (Inr st, w)
         \<and> \<not> Locked st)"
proof -
  define l where "l = NewLimiter \<lparr>optMaxFailures = 0, optWindow = 0, optLockout = 0\<rparr>"
  define t where "t = 1000 * minute + 891 * second"
  have sf: "spread_failures = map (\<lambda>s. attempt_at ''10.0.0.1'' False (1000 * minute + s * second))
      [0, 99, 198, 297, 396, 495, 594, 693, 792, 891]"
    by (simp add: spread_failures_def upt_rec)
  have from_eq: "counted_from ''10.0.0.1'' s spread_failures = s" for s
  proof -
    have "max_created (\<lambda>r. laIP r = ''10.0.0.1'' \<and> laSuccess r \<and> stamp s \<le> stamp (laCreatedAt r)) spread_failures = None"
      by (auto simp: max_created_None sf attempt_at_def)
    then show ?thesis by (simp add: counted_from_def)
  qed
  have last_eq: "last_failure ''10.0.0.1'' spread_failures = Some t"
    unfolding last_failure_def
  proof (rule max_created_unique)
    show "\<exists>r\<in>set spread_failures. (laIP r = ''10.0.0.1'' \<and> \<not> laSuccess r) \<and> laCreatedAt r = t"
      by (simp add: sf attempt_at_def t_def)
    show "stamp (laCreatedAt r) \<le> stamp t" if "r \<in> set spread_failures" for r
      using that by (auto simp: sf attempt_at_def t_def stamp_def less_eq_prod_def)
  qed
  have count1: "failure_count ''10.0.0.1'' (t - 15 * minute) spread_failures = 10"
    by (simp add: failure_count_def from_eq) (simp add: sf attempt_at_def t_def stamp_def less_prod_def)
  have count2: "failure_count ''10.0.0.1'' (t + 10 * second - 15 * minute) spread_failures = 9"
    by (simp add: failure_count_def from_eq) (simp add: sf attempt_at_def t_def stamp_def less_prod_def)
  have "limiter_Check l ''10.0.0.1'' (world_at u spread_failures) =
      (Inr (check_result l ''10.0.0.1'' u spread_failures), world_at u spread_failures)" for u
    using Check_run [of "world_at u spread_failures"] by (simp add: world_at_def)
  moreover have "Locked (check_result l ''10.0.0.1'' t spread_failures)"
      "RetryAfter (check_result l ''10.0.0.1'' t spread_failures) = DefaultLockout"
    using count1 by (simp_all add: check_result_def Let_def last_eq l_def NewLimiter_def DefaultWindow_def
        DefaultLockout_def DefaultMaxFailures_def t_def time_sub_def dur_round_def min_duration_def max_duration_def)
  moreover have "\<not> Locked (check_result l ''10.0.0.1'' (t + 10 * second) spread_failures)"
    using count2 by (simp add: check_result_def Let_def last_eq l_def NewLimiter_def DefaultWindow_def
        DefaultLockout_def DefaultMaxFailures_def)
  ultimately show ?thesis unfolding Let_def l_def [symmetric] t_def [symmetric] by blast
qed

end
