(* ===== verification/Audit_Record.thy ===== *)
theory Audit_Record
  imports Access Limiter
begin

text \<open>
  The audit recorder, internal/audit/audit.go, and the frame rules the services share: a
  statement keeps every predicate that does not look at the tables it writes.

  A nil recorder records nothing; its presence is the first argument of \<open>Record\<close>. The
  error of an event is kept as its message. Details are values \<open>encoding/json\<close> can encode.
\<close>

section \<open>Predicates that do not look at a field\<close>

definition blind :: "(('x \<Rightarrow> 'x) \<Rightarrow> world \<Rightarrow> world) \<Rightarrow> (world \<Rightarrow> bool) \<Rightarrow> bool" where
  "blind upd I \<longleftrightarrow> (\<forall>f w. I (upd f w) = I w)"

lemma fault_blind_iff: "blind wFaults_update I \<Longrightarrow> fault_blind I"
  by (simp add: blind_def fault_blind_def)

lemma blindD: "blind upd I \<Longrightarrow> I (upd f w) = I w"
  by (simp add: blind_def)

lemma keeps_Users_update_blind [keeps_intros]:
  "fault_blind I \<Longrightarrow> blind wUsers_update I \<Longrightarrow> keeps I (Users_update i f)"
  unfolding Users_update_def by (intro keeps_intros) (simp_all add: blindD)

lemma keeps_users_writes [keeps_intros]:
  assumes "fault_blind I" "blind wUsers_update I"
  shows "keeps I (Users_UpdatePassword i h)" "keeps I (Users_SetDisabled i d)"
    "keeps I (Users_SetTOTP i s e)" "keeps I (Users_TouchLogin i t)"
    "keeps I (Users_UpdateRole i r)" "keeps I (Users_Create u)"
proof -
  have ins: "keeps I (insert_user v)" for v
    by (rule keepsI) (auto simp: insert_user_def blindD [OF assms(2)])
  have role: "keeps I (\<lambda>w. if c w then (Inl e, w) else (Inr (), w\<lparr>wUsers := g w\<rparr>))" for c e g
    by (rule keepsI) (auto simp: blindD [OF assms(2)])
  show "keeps I (Users_UpdatePassword i h)" "keeps I (Users_SetDisabled i d)"
    "keeps I (Users_SetTOTP i s e)" "keeps I (Users_TouchLogin i t)"
    using assms
    unfolding Users_UpdatePassword_def Users_SetDisabled_def Users_SetTOTP_def Users_TouchLogin_def
    by - (intro keeps_intros; assumption)+
  show "keeps I (Users_UpdateRole i r)" "keeps I (Users_Create u)"
    using assms(1) unfolding Users_UpdateRole_def Users_Create_def Let_def
    by - (intro keeps_intros ins role; assumption)+
qed

lemma keeps_session_writes [keeps_intros]:
  assumes "fault_blind I" "blind wSessions_update I"
  shows "keeps I (Sessions_Revoke i)" "keeps I (Sessions_RevokeAllForUser i)"
    "keeps I (Sessions_Touch i t)" "keeps I (Sessions_Create s)"
proof -
  have ins: "keeps I (insert_session v)" for v
    by (rule keepsI) (auto simp: insert_session_def blindD [OF assms(2)])
  show "keeps I (Sessions_Create s)"
    using assms(1) unfolding Sessions_Create_def by (intro keeps_intros ins; assumption)
  show "keeps I (Sessions_Revoke i)" "keeps I (Sessions_RevokeAllForUser i)" "keeps I (Sessions_Touch i t)"
    using assms(1) unfolding Sessions_Revoke_def Sessions_RevokeAllForUser_def Sessions_Touch_def
    by - (intro keeps_intros; simp add: revoke_where_def blindD [OF assms(2)])+
qed

lemma keeps_Tokens_Touch_blind [keeps_intros]:
  "fault_blind I \<Longrightarrow> blind wTokens_update I \<Longrightarrow> keeps I (Tokens_Touch i t)"
  unfolding Tokens_Touch_def by (intro keeps_intros) (simp_all add: blindD)

lemma keeps_attempt_writes [keeps_intros]:
  assumes "fault_blind I" "blind wAttempts_update I"
  shows "keeps I (Logins_Record ip u b)" "keeps I (limiter_RecordFailure ip u)" "keeps I (limiter_RecordSuccess ip u)"
proof -
  show rec: "keeps I (Logins_Record ip u b)" for b
    using assms(1) unfolding Logins_Record_def
    by (intro keeps_intros) (simp_all add: blindD [OF assms(2)])
  show "keeps I (limiter_RecordFailure ip u)" "keeps I (limiter_RecordSuccess ip u)"
    unfolding limiter_RecordFailure_def limiter_RecordSuccess_def by (rule rec)+
qed

lemma keeps_entropy [keeps_intros]:
  assumes "blind wEntropy_update I"
  shows "keeps I (rand_read n)" "keeps I (randomToken n)" "keeps I randomID" "keeps I NewID"
    "keeps I NewRefreshToken" "keeps I NewTOTPSecret" "keeps I (HashPassword X pw)" "keeps I (Encrypt X b s)"
proof -
  show r: "keeps I (rand_read n)" for n
    using assms by (intro keeps_rand_read) (simp add: blindD)
  show t: "keeps I (randomToken n)" for n unfolding randomToken_def by (intro keeps_intros r)
  show i: "keeps I randomID" unfolding randomID_def by (intro keeps_intros r)
  show "keeps I NewID" "keeps I NewRefreshToken" "keeps I NewTOTPSecret"
    unfolding NewID_def NewRefreshToken_def NewTOTPSecret_def by - (intro keeps_intros r t i)+
  show "keeps I (HashPassword X pw)" "keeps I (Encrypt X b s)"
    unfolding HashPassword_def Encrypt_def Let_def by - (intro keeps_intros r)+
qed

section \<open>The recorder\<close>

record actor =
  acUserID :: string
  acUsername :: string
  acRole :: role
  acTokenID :: string

type_synonym detail = "(string \<times> any) list"

record audit_event =
  evActor :: actor
  evAction :: string
  evResourceType :: string
  evResourceID :: string
  evErr :: "string option"
  evDetail :: "detail option"
  evIP :: string
  evUserAgent :: string

definition map_put :: "string \<Rightarrow> any \<Rightarrow> detail \<Rightarrow> detail" where
  "map_put k v m = filter (\<lambda>e. fst e \<noteq> k) m @ [(k, v)]"

definition encodeDetail :: "detail option \<Rightarrow> detail \<Rightarrow> any" where
  "encodeDetail det trusted =
     (let d = (case det of None \<Rightarrow> [] | Some m \<Rightarrow> m) in
      if d = [] \<and> trusted = [] then AMap []
      else case MaskAny (AMap d) of
        AMap masked \<Rightarrow> AMap (foldl (\<lambda>m (k, v). map_put k v m) masked trusted)
      | _ \<Rightarrow> AMap [])"

definition event_entry :: "audit_event \<Rightarrow> time \<Rightarrow> audit_entry" where
  "event_entry e t =
     (let det = (case evErr e of
            None \<Rightarrow> evDetail e
          | Some msg \<Rightarrow> Some (map_put ''error'' (AString msg) (case evDetail e of None \<Rightarrow> [] | Some m \<Rightarrow> m)));
          trusted = (if acTokenID (evActor e) \<noteq> '''' then [(''api_token_id'', AString (acTokenID (evActor e)))] else [])
      in \<lparr>aID = 0, aUserID = acUserID (evActor e), aUsername = acUsername (evActor e), aAction = evAction e,
          aResourceType = evResourceType e, aResourceID = evResourceID e,
          aResult = (if evErr e = None then ResultOK else ResultError),
          aDetail = encodeDetail det trusted,
          aIP = evIP e, aUserAgent = evUserAgent e, aCreatedAt = t\<rparr>)"

definition Record :: "bool \<Rightarrow> audit_event \<Rightarrow> unit io" where
  "Record present e =
     (if \<not> present then returnE ()
      else bindE now (\<lambda>t. ignoreE (Audit_Append (event_entry e t))))"

definition ActionBootstrap :: string where "ActionBootstrap = ''auth.bootstrap''"
definition ActionLogin :: string where "ActionLogin = ''auth.login''"
definition ActionLoginFailed :: string where "ActionLoginFailed = ''auth.login_failed''"
definition ActionLogout :: string where "ActionLogout = ''auth.logout''"
definition ActionRefresh :: string where "ActionRefresh = ''auth.refresh''"

lemma keeps_Record [keeps_intros]:
  assumes "fault_blind I" "blind wAudit_update I" "blind wAuditSeq_update I"
  shows "keeps I (Record p e)"
  using assms unfolding Record_def
  by (intro keeps_intros keeps_Audit_Append) (simp_all add: blindD)

lemma keeps_Record_db_ok [keeps_intros]: "keeps db_ok (Record p e)"
  unfolding Record_def by (intro keeps_intros)

section \<open>What a record may show\<close>

definition clean_record :: "any \<Rightarrow> bool" where
  "clean_record d =
     (case d of
        AMap m \<Rightarrow> list_all (\<lambda>(k, v). k = ''api_token_id'' \<or> (if IsSecretKey k then masked_leaf v else clean v)) m
      | _ \<Rightarrow> False)"

lemma clean_encodeDetail:
  assumes "\<forall>e\<in>set trusted. fst e = ''api_token_id''"
  shows "clean_record (encodeDetail det trusted)"
proof -
  let ?ok = "list_all (\<lambda>(k, v). k = ''api_token_id'' \<or> (if IsSecretKey k then masked_leaf v else clean v))"
  have fold: "?ok (foldl (\<lambda>m (k, v). map_put k v m) m trusted)" if "?ok m" for m
    using that assms
  proof (induction trusted arbitrary: m)
    case (Cons e es)
    have "?ok (map_put (fst e) (snd e) m)" using Cons.prems by (auto simp: map_put_def list_all_iff)
    then show ?case using Cons by (simp add: case_prod_unfold)
  qed simp
  let ?d = "case det of None \<Rightarrow> [] | Some m \<Rightarrow> m"
  obtain m where m: "MaskAny (AMap ?d) = AMap m" by simp
  moreover have "clean (AMap m)" using clean_MaskAny [of "AMap ?d"] m by simp
  then have "?ok m" by (auto simp: list_all_iff)
  ultimately show ?thesis
    using fold [of m] by (simp add: encodeDetail_def clean_record_def Let_def)
qed

lemma Audit_Append_appends:
  assumes "aResult e = ResultOK \<or> aResult e = ResultError"
  shows "wAudit (snd (Audit_Append e w)) = wAudit w
    \<or> (\<exists>x. wAudit (snd (Audit_Append e w)) = wAudit w @ [x] \<and> aDetail x = aDetail e \<and> aResult x = aResult e
         \<and> aAction x = aAction e \<and> aUserID x = aUserID e \<and> aUsername x = aUsername e)"
  using assms unfolding Audit_Append_def Let_def db_def
  by (auto simp: prog_simps ResultOK_def ResultError_def split: list.splits prod.splits sum.splits)


end
