(* ===== verification/Service_Auth.thy ===== *)
theory Service_Auth
  imports Audit_Record
begin

text \<open>
  The authentication flows, internal/service/auth.go: bootstrap, login with second factor
  and brute-force limit, refresh with rotation, logout, and the resolution of bearer
  credentials. Every flow is one program over the world; each of its statements may fail.
\<close>

section \<open>Types\<close>

record request_meta =
  rmIP :: string
  rmUserAgent :: string

record identity =
  idUserID :: string
  idUsername :: string
  idRole :: role
  idTokenID :: string
  idScopes :: "string list"

definition identity_Actor :: "identity \<Rightarrow> actor" where
  "identity_Actor i = \<lparr>acUserID = idUserID i, acUsername = idUsername i, acRole = idRole i, acTokenID = idTokenID i\<rparr>"

record token_pair =
  tpAccessToken :: string
  tpExpiresAt :: time
  tpRefreshToken :: string
  tpRefreshExpiresAt :: time
  tpUser :: user

text \<open>
  The collaborators of \<open>Auth\<close>. The repositories are the tables of the world; \<open>asRecorder\<close>
  says whether there is an audit recorder, \<open>asSecrets\<close> is \<open>None\<close> for a nil secret box, and
  \<open>asDummyHash\<close> is the package's \<open>dummyHash\<close>, drawn at start-up.
\<close>

record auth_service =
  asLimiter :: limiter
  asIssuer :: token_issuer
  asRecorder :: bool
  asSecrets :: "secret_box option"
  asRefreshTTL :: duration
  asDummyHash :: string

record login_input =
  liUsername :: string
  liPassword :: string
  liTOTP :: string

definition zero_user :: user where
  "zero_user = \<lparr>uID = '''', uUsername = '''', uRole = '''', uTOTPEnabled = False, uDisabled = False,
     uCreatedAt = 0, uUpdatedAt = 0, uLastLoginAt = 0, uPasswordHash = '''', uTOTPSecretEnc = ''''\<rparr>"

definition user_Actor :: "user \<Rightarrow> actor" where
  "user_Actor u = \<lparr>acUserID = uID u, acUsername = uUsername u, acRole = uRole u, acTokenID = ''''\<rparr>"

text \<open>The messages of the errors a failed login records.\<close>

definition cause_text :: "go_error \<Rightarrow> string" where
  "cause_text e =
     (if e = ErrInvalidCredentials then ''invalid username or password''
      else if e = ErrAccountDisabled then ''this account is disabled''
      else if e = ErrTOTPRequired then ''a two-factor code is required''
      else ''two-factor authentication needs the secret key, which is not configured'')"

section \<open>The flows\<close>

definition Auth_Initialized :: "bool io" where
  "Auth_Initialized = bindE Users_Count (\<lambda>n. returnE (n > 0))"

definition issuePair :: "ext \<Rightarrow> auth_service \<Rightarrow> user \<Rightarrow> request_meta \<Rightarrow> token_pair io" where
  "issuePair X S u meta =
     bindE (TokenIssuer_Issue X (asIssuer S) u) (\<lambda>(accessToken, expiresAt).
     bindE NewRefreshToken (\<lambda>(refreshToken, refreshHash).
     bindE NewID (\<lambda>sessionID.
     bindE now (\<lambda>t.
     let refreshExpiresAt = t + asRefreshTTL S in
     thenE (Sessions_Create
       \<lparr>sID = sessionID, sUserID = uID u, sRefreshHash = refreshHash, sIP = rmIP meta,
        sUserAgent = rmUserAgent meta, sCreatedAt = t, sExpiresAt = refreshExpiresAt,
        sRevokedAt = 0, sLastUsedAt = 0\<rparr>)
     (returnE \<lparr>tpAccessToken = accessToken, tpExpiresAt = expiresAt, tpRefreshToken = refreshToken,
               tpRefreshExpiresAt = refreshExpiresAt, tpUser = u\<rparr>)))))"

definition liftE :: "go_error + 'a \<Rightarrow> 'a io" where
  "liftE r = (case r of Inl e \<Rightarrow> throwE e | Inr x \<Rightarrow> returnE x)"

definition createUser :: "ext \<Rightarrow> string \<Rightarrow> string \<Rightarrow> role \<Rightarrow> user io" where
  "createUser X username password r =
     (let username = trim_space username in
      if username = '''' then throwE ErrUsernameRequired
      else thenE (liftE (ValidatePassword X password))
       (bindE (HashPassword X password) (\<lambda>hash.
        bindE NewID (\<lambda>i.
        bindE now (\<lambda>t.
        let u = zero_user\<lparr>uID := i, uUsername := username, uRole := r, uPasswordHash := hash, uCreatedAt := t\<rparr>
        in attemptE (Users_Create u) (\<lambda>res.
           case res of
             Inl e \<Rightarrow> throwE (if e = ErrConflict then ErrUsernameUnavailable else e)
           | Inr _ \<Rightarrow> returnE u))))))"

definition Bootstrap :: "ext \<Rightarrow> auth_service \<Rightarrow> string \<Rightarrow> string \<Rightarrow> request_meta \<Rightarrow> token_pair io" where
  "Bootstrap X S username password meta =
     bindE Auth_Initialized (\<lambda>initialized.
     if initialized then throwE ErrAlreadyInitialized
     else bindE (createUser X username password RoleAdmin) (\<lambda>u.
          bindE (issuePair X S u meta) (\<lambda>pair.
          thenE (Record (asRecorder S)
            \<lparr>evActor = user_Actor u, evAction = ActionBootstrap, evResourceType = ''user'', evResourceID = uID u,
             evErr = None, evDetail = None, evIP = rmIP meta, evUserAgent = rmUserAgent meta\<rparr>)
          (returnE pair))))"

definition verifySecondFactor :: "ext \<Rightarrow> auth_service \<Rightarrow> user \<Rightarrow> string \<Rightarrow> time \<Rightarrow> go_error option" where
  "verifySecondFactor X S u c t =
     (case asSecrets S of
        None \<Rightarrow> Some ErrTOTPUnavailable
      | Some box \<Rightarrow>
          if uTOTPSecretEnc u = '''' then Some ErrTOTPUnavailable
          else if trim_space c = '''' then Some ErrTOTPRequired
          else case Decrypt X box (uTOTPSecretEnc u) of
            Inl _ \<Rightarrow> Some ErrTOTPUnavailable
          | Inr secret \<Rightarrow>
              (case VerifyTOTP secret c t of
                 Inl _ \<Rightarrow> Some ErrInvalidCredentials
               | Inr _ \<Rightarrow> None))"

definition failLogin :: "auth_service \<Rightarrow> string \<Rightarrow> request_meta \<Rightarrow> go_error \<Rightarrow> 'a io" where
  "failLogin S username meta cause =
     thenE (limiter_RecordFailure (rmIP meta) username)
     (thenE (Record (asRecorder S)
        \<lparr>evActor = \<lparr>acUserID = '''', acUsername = username, acRole = '''', acTokenID = ''''\<rparr>,
         evAction = ActionLoginFailed, evResourceType = '''', evResourceID = '''',
         evErr = Some (cause_text cause), evDetail = Some [(''username'', AString username)],
         evIP = rmIP meta, evUserAgent = rmUserAgent meta\<rparr>)
     (throwE cause))"

text \<open>\<open>Login\<close> after the credentials have been accepted.\<close>

definition rehash :: "ext \<Rightarrow> user \<Rightarrow> string \<Rightarrow> unit io" where
  "rehash X u password =
     whenE (NeedsRehash X (uPasswordHash u))
       (attemptE (HashPassword X password) (\<lambda>r.
        case r of Inl _ \<Rightarrow> returnE () | Inr h \<Rightarrow> ignoreE (Users_UpdatePassword (uID u) h)))"

definition startSession :: "ext \<Rightarrow> auth_service \<Rightarrow> login_input \<Rightarrow> request_meta \<Rightarrow> user \<Rightarrow> token_pair io" where
  "startSession X S inp meta u =
     thenE (limiter_RecordSuccess (rmIP meta) (liUsername inp))
     (thenE (rehash X u (liPassword inp))
     (bindE now (\<lambda>t.
      thenE (Users_TouchLogin (uID u) t)
      (bindE (issuePair X S u meta) (\<lambda>pair.
       thenE (Record (asRecorder S)
         \<lparr>evActor = user_Actor u, evAction = ActionLogin, evResourceType = '''', evResourceID = '''',
          evErr = None, evDetail = None, evIP = rmIP meta, evUserAgent = rmUserAgent meta\<rparr>)
       (returnE pair))))))"

text \<open>\<open>Login\<close> from the point where the account has been looked up.\<close>

definition stored_hash :: "auth_service \<Rightarrow> user \<Rightarrow> string" where
  "stored_hash S u = (if uPasswordHash u = '''' then asDummyHash S else uPasswordHash u)"

definition checkLogin :: "ext \<Rightarrow> auth_service \<Rightarrow> login_input \<Rightarrow> request_meta \<Rightarrow> user \<Rightarrow> token_pair io" where
  "checkLogin X S inp meta u =
     (case VerifyPassword X (stored_hash S u) (liPassword inp) of
        Inl e \<Rightarrow> if uID u \<noteq> '''' then throwE e else failLogin S (liUsername inp) meta ErrInvalidCredentials
      | Inr ok \<Rightarrow>
          if \<not> ok \<or> uID u = '''' then failLogin S (liUsername inp) meta ErrInvalidCredentials
          else if uDisabled u then failLogin S (liUsername inp) meta ErrAccountDisabled
          else if uTOTPEnabled u
          then bindE now (\<lambda>t.
               case verifySecondFactor X S u (liTOTP inp) t of
                 Some factorErr \<Rightarrow> failLogin S (liUsername inp) meta factorErr
               | None \<Rightarrow> startSession X S inp meta u)
          else startSession X S inp meta u)"

definition Login :: "ext \<Rightarrow> auth_service \<Rightarrow> login_input \<Rightarrow> request_meta \<Rightarrow> token_pair io" where
  "Login X S inp meta =
     bindE Auth_Initialized (\<lambda>initialized.
     if \<not> initialized then throwE ErrNotInitialized
     else bindE (limiter_Check (asLimiter S) (rmIP meta)) (\<lambda>status.
       if Locked status then throwE (LockedOutError (RetryAfter status))
       else attemptE (Users_ByUsername (liUsername inp)) (\<lambda>found.
         case found of
           Inl e \<Rightarrow> if e \<noteq> ErrNotFound then throwE e else checkLogin X S inp meta zero_user
         | Inr u \<Rightarrow> checkLogin X S inp meta u)))"

definition not_found_as :: "go_error \<Rightarrow> go_error \<Rightarrow> go_error" where
  "not_found_as e' e = (if e = ErrNotFound then e' else e)"

definition mapErr :: "(go_error \<Rightarrow> go_error) \<Rightarrow> 'a io \<Rightarrow> 'a io" where
  "mapErr f m = attemptE m (\<lambda>r. case r of Inl e \<Rightarrow> throwE (f e) | Inr x \<Rightarrow> returnE x)"

definition Refresh :: "ext \<Rightarrow> auth_service \<Rightarrow> string \<Rightarrow> request_meta \<Rightarrow> token_pair io" where
  "Refresh X S refreshToken meta =
     (let refreshToken = trim_space refreshToken in
      if refreshToken = '''' then throwE ErrSessionInvalid
      else bindE (mapErr (not_found_as ErrSessionInvalid) (Sessions_ByRefreshHash (HashToken refreshToken))) (\<lambda>s.
        bindE now (\<lambda>t.
        if \<not> session_Active s t then throwE ErrSessionInvalid
        else bindE (mapErr (not_found_as ErrSessionInvalid) (Users_ByID (sUserID s))) (\<lambda>u.
          if uDisabled u then thenE (ignoreE (Sessions_RevokeAllForUser (uID u))) (throwE ErrAccountDisabled)
          else thenE (Sessions_Revoke (sID s))
            (bindE (issuePair X S u meta) (\<lambda>pair.
             thenE (Record (asRecorder S)
               \<lparr>evActor = user_Actor u, evAction = ActionRefresh, evResourceType = '''', evResourceID = '''',
                evErr = None, evDetail = None, evIP = rmIP meta, evUserAgent = rmUserAgent meta\<rparr>)
             (returnE pair)))))))"

definition Logout :: "auth_service \<Rightarrow> string \<Rightarrow> identity \<Rightarrow> request_meta \<Rightarrow> unit io" where
  "Logout S refreshToken i meta =
     (let refreshToken = trim_space refreshToken in
      if refreshToken = '''' then returnE ()
      else attemptE (Sessions_ByRefreshHash (HashToken refreshToken)) (\<lambda>found.
        case found of
          Inl e \<Rightarrow> if e = ErrNotFound then returnE () else throwE e
        | Inr s \<Rightarrow>
            thenE (Sessions_Revoke (sID s))
            (Record (asRecorder S)
               \<lparr>evActor = identity_Actor i, evAction = ActionLogout, evResourceType = '''', evResourceID = '''',
                evErr = None, evDetail = None, evIP = rmIP meta, evUserAgent = rmUserAgent meta\<rparr>)))"

definition authenticateJWT :: "ext \<Rightarrow> auth_service \<Rightarrow> string \<Rightarrow> identity io" where
  "authenticateJWT X S token =
     bindE (TokenIssuer_Parse X (asIssuer S) token) (\<lambda>c.
     bindE (mapErr (not_found_as ErrTokenInvalid) (Users_ByID (cUserID c))) (\<lambda>u.
     if uDisabled u then throwE ErrAccountDisabled
     else returnE \<lparr>idUserID = uID u, idUsername = uUsername u, idRole = uRole u, idTokenID = '''', idScopes = []\<rparr>))"

definition authenticateAPIToken :: "string \<Rightarrow> identity io" where
  "authenticateAPIToken token =
     bindE (mapErr (not_found_as ErrTokenInvalid) (Tokens_ByHash (HashToken token))) (\<lambda>r.
     bindE now (\<lambda>t.
     if \<not> token_Active r t
     then (if \<not> is_zero (tExpiresAt r) \<and> after t (tExpiresAt r) then throwE ErrTokenExpired else throwE ErrTokenInvalid)
     else bindE (mapErr (not_found_as ErrTokenInvalid) (Users_ByID (tUserID r))) (\<lambda>u.
       if uDisabled u then throwE ErrAccountDisabled
       else thenE (ignoreE (Tokens_Touch (tID r) t))
         (returnE \<lparr>idUserID = uID u, idUsername = uUsername u, idRole = uRole u,
                   idTokenID = tID r, idScopes = tScopes r\<rparr>))))"

definition Auth_Authenticate :: "ext \<Rightarrow> auth_service \<Rightarrow> string \<Rightarrow> identity io" where
  "Auth_Authenticate X S credential =
     (let credential = trim_space credential in
      if credential = '''' then throwE ErrSessionInvalid
      else if IsAPIToken credential then authenticateAPIToken credential
      else authenticateJWT X S credential)"

definition Auth_User :: "string \<Rightarrow> user io" where
  "Auth_User userID = mapErr (not_found_as ErrSessionInvalid) (Users_ByID userID)"

end
