(* ===== verification/Service_Auth_Laws.thy ===== *)
theory Service_Auth_Laws
  imports Service_Auth
begin

text \<open>
  What the authentication flows guarantee, for every pattern of failing statements: a
  login succeeds only for an enabled account with the right password and second factor
  from an address that is not locked out, a refused login is counted and starts no
  session, a refresh token works once, disabled accounts and revoked tokens authenticate
  nobody, and bootstrap happens on an empty installation only.
\<close>

section \<open>Steps that consume faults and entropy only\<close>

definition quiet :: "world \<Rightarrow> world \<Rightarrow> bool" where
  "quiet w w' \<longleftrightarrow>
     wUsers w' = wUsers w \<and> wSessions w' = wSessions w \<and> wTokens w' = wTokens w
     \<and> wAttempts w' = wAttempts w \<and> wAudit w' = wAudit w \<and> wAuditSeq w' = wAuditSeq w \<and> wNow w' = wNow w"

lemma quiet_refl [simp]: "quiet w w"
  by (simp add: quiet_def)

lemma quiet_faults [simp]: "quiet w (w\<lparr>wFaults := fs\<rparr>)"
  by (simp add: quiet_def)

lemma quiet_trans: "quiet a b \<Longrightarrow> quiet b c \<Longrightarrow> quiet a c"
  by (simp add: quiet_def)

lemma keeps_quiet: "(\<And>I. blind wFaults_update I \<Longrightarrow> blind wEntropy_update I \<Longrightarrow> keeps I m) \<Longrightarrow> m w = (r, w') \<Longrightarrow> quiet w w'"
  by (rule keeps_run [where I = "quiet w" and m = m and s = w]) (auto simp: blind_def quiet_def)

lemma keeps_liftE [keeps_intros]: "keeps I (liftE r)"
  by (cases r) (simp_all add: liftE_def keeps_intros)

lemma keeps_mapErr [keeps_intros]: "keeps I m \<Longrightarrow> keeps I (mapErr f m)"
  unfolding mapErr_def by (intro keeps_intros)

lemma mapErr_Inr [simp]: "mapErr f m w = (Inr x, w') \<longleftrightarrow> m w = (Inr x, w')"
  by (auto simp: mapErr_def attemptE_run throwE_run returnE_run split: prod.splits sum.splits)

lemma mapErr_Inl: "mapErr f m w = (Inl e, w') \<longleftrightarrow> (\<exists>e'. m w = (Inl e', w') \<and> e = f e')"
  by (auto simp: mapErr_def attemptE_run throwE_run returnE_run split: prod.splits sum.splits)

lemma keeps_Issue [keeps_intros]: "blind wEntropy_update I \<Longrightarrow> keeps I (TokenIssuer_Issue X T u)"
  unfolding TokenIssuer_Issue_def Let_def by (intro keeps_intros)

lemma keeps_Parse [keeps_intros]: "keeps I (TokenIssuer_Parse X T s)"
  unfolding TokenIssuer_Parse_def
  by (intro keeps_intros) (auto intro!: keeps_intros split: jwt_error.split)

lemma keeps_Initialized [keeps_intros]: "fault_blind I \<Longrightarrow> keeps I Auth_Initialized"
  unfolding Auth_Initialized_def by (intro keeps_intros)

lemma keeps_issuePair [keeps_intros]:
  "fault_blind I \<Longrightarrow> blind wEntropy_update I \<Longrightarrow> blind wSessions_update I \<Longrightarrow> keeps I (issuePair X S u meta)"
  unfolding issuePair_def Let_def by (intro keeps_intros)

section \<open>Starting a session\<close>

lemma issuePair_Inr:
  assumes "issuePair X S u meta w = (Inr pair, w')"
  shows "\<exists>s. wSessions w' = wSessions w @ [s] \<and> wUsers w' = wUsers w \<and> wNow w' = wNow w
    \<and> sUserID s = uID u \<and> sRefreshHash s = HashToken (tpRefreshToken pair)
    \<and> sExpiresAt s = wNow w + asRefreshTTL S \<and> sRevokedAt s = 0
    \<and> sRefreshHash s \<notin> sRefreshHash ` set (wSessions w) \<and> sID s \<notin> sID ` set (wSessions w)
    \<and> tpUser pair = u"
proof -
  obtain a e w1 where 1: "TokenIssuer_Issue X (asIssuer S) u w = (Inr (a, e), w1)"
    and rest1: "bindE NewRefreshToken (\<lambda>(refreshToken, refreshHash).
       bindE NewID (\<lambda>sessionID. bindE now (\<lambda>t.
       let refreshExpiresAt = t + asRefreshTTL S in
       thenE (Sessions_Create
         \<lparr>sID = sessionID, sUserID = uID u, sRefreshHash = refreshHash, sIP = rmIP meta,
          sUserAgent = rmUserAgent meta, sCreatedAt = t, sExpiresAt = refreshExpiresAt, sRevokedAt = 0, sLastUsedAt = 0\<rparr>)
       (returnE \<lparr>tpAccessToken = a, tpExpiresAt = e, tpRefreshToken = refreshToken,
                 tpRefreshExpiresAt = refreshExpiresAt, tpUser = u\<rparr>)))) w1 = (Inr pair, w')"
    using assms unfolding issuePair_def by (elim bindE_InrE) (auto split: prod.splits)
  then obtain t w2 i w3 where 2: "NewRefreshToken w1 = (Inr (t, HashToken t), w2)" and 3: "NewID w2 = (Inr i, w3)"
    and rest3: "thenE (Sessions_Create
         \<lparr>sID = i, sUserID = uID u, sRefreshHash = HashToken t, sIP = rmIP meta,
          sUserAgent = rmUserAgent meta, sCreatedAt = wNow w3, sExpiresAt = wNow w3 + asRefreshTTL S, sRevokedAt = 0, sLastUsedAt = 0\<rparr>)
       (returnE \<lparr>tpAccessToken = a, tpExpiresAt = e, tpRefreshToken = t,
                 tpRefreshExpiresAt = wNow w3 + asRefreshTTL S, tpUser = u\<rparr>) w3 = (Inr pair, w')"
    by (elim bindE_InrE) (auto simp: NewRefreshToken_def now_run bindE_Inr returnE_run Let_def split: prod.splits)
  have q: "quiet w w3"
    using quiet_trans keeps_quiet [OF keeps_Issue 1] keeps_quiet [OF keeps_entropy(5) 2] keeps_quiet [OF keeps_entropy(4) 3]
    by blast
  obtain w4 where c: "Sessions_Create
         \<lparr>sID = i, sUserID = uID u, sRefreshHash = HashToken t, sIP = rmIP meta,
          sUserAgent = rmUserAgent meta, sCreatedAt = wNow w3, sExpiresAt = wNow w3 + asRefreshTTL S, sRevokedAt = 0, sLastUsedAt = 0\<rparr>
        w3 = (Inr (), w4)" and w': "w' = w4"
    and p: "pair = \<lparr>tpAccessToken = a, tpExpiresAt = e, tpRefreshToken = t,
                 tpRefreshExpiresAt = wNow w3 + asRefreshTTL S, tpUser = u\<rparr>"
    using rest3 by (auto simp: thenE_def bindE_Inr returnE_run)
  show ?thesis using Sessions_Create_Inr [OF c] q by (auto simp: quiet_def p w' is_zero_def)
qed

lemma keeps_rehash [keeps_intros]:
  "fault_blind I \<Longrightarrow> blind wEntropy_update I \<Longrightarrow> blind wUsers_update I \<Longrightarrow> keeps I (rehash X u pw)"
  unfolding rehash_def by (intro keeps_intros)

lemma keeps_failLogin [keeps_intros]:
  "fault_blind I \<Longrightarrow> blind wAttempts_update I \<Longrightarrow> blind wAudit_update I \<Longrightarrow> blind wAuditSeq_update I
    \<Longrightarrow> keeps I (failLogin S n meta c)"
  unfolding failLogin_def by (intro keeps_intros)

lemma succeeds_Record: "succeeds (Record p e)"
  by (simp add: succeeds_def Record_def prog_simps)

lemma Record_frame:
  assumes "Record p e w = (r, w')"
  shows "wSessions w' = wSessions w \<and> wUsers w' = wUsers w \<and> wTokens w' = wTokens w
    \<and> wAttempts w' = wAttempts w \<and> wNow w' = wNow w"
proof -
  let ?I = "\<lambda>v. wSessions v = wSessions w \<and> wUsers v = wUsers w \<and> wTokens v = wTokens w
    \<and> wAttempts v = wAttempts w \<and> wNow v = wNow w"
  have "keeps ?I (Record p e)" by (rule keeps_Record) (simp_all add: fault_blind_def blind_def)
  from keeps_run [OF this _ assms] show ?thesis by simp
qed

lemma Logins_Record_Inr:
  assumes "Logins_Record ip n b w = (Inr (), w')"
  shows "wAttempts w' = wAttempts w @ [\<lparr>laIP = ip, laUsername = to_lower (trim_space n), laSuccess = b, laCreatedAt = wNow w\<rparr>]
    \<and> wUsers w' = wUsers w \<and> wSessions w' = wSessions w \<and> wNow w' = wNow w"
  using assms unfolding Logins_Record_def by (elim bindE_InrE db_Inr) (auto simp: now_run modifyE_run)

lemma startSession_Inr:
  assumes "startSession X S inp meta u w = (Inr pair, w')"
  shows "\<exists>s. wSessions w' = wSessions w @ [s]
    \<and> sUserID s = uID u \<and> sRefreshHash s = HashToken (tpRefreshToken pair)
    \<and> sExpiresAt s = wNow w + asRefreshTTL S \<and> sRevokedAt s = 0 \<and> tpUser pair = u"
proof -
  obtain w1 w2 w3 w4 where 1: "limiter_RecordSuccess (rmIP meta) (liUsername inp) w = (Inr (), w1)"
    and 2: "rehash X u (liPassword inp) w1 = (Inr (), w2)"
    and 3: "Users_TouchLogin (uID u) (wNow w2) w2 = (Inr (), w3)"
    and 4: "issuePair X S u meta w3 = (Inr pair, w4)"
    and 5: "\<exists>ev. Record (asRecorder S) ev w4 = (Inr (), w')"
    using assms unfolding startSession_def thenE_def by (elim bindE_InrE) (clarsimp simp: now_run returnE_run, blast)
  let ?I = "\<lambda>v. wSessions v = wSessions w \<and> wNow v = wNow w"
  have b: "fault_blind ?I" "blind wEntropy_update ?I" "blind wUsers_update ?I" "blind wAttempts_update ?I"
    by (simp_all add: fault_blind_def blind_def)
  have k: "keeps ?I (limiter_RecordSuccess ip n)" "keeps ?I (rehash X u pw)" "keeps ?I (Users_TouchLogin i t)" for ip n pw i t
    by (intro keeps_intros b)+
  have I: "?I w3" using keeps_run [OF k(3) keeps_run [OF k(2) keeps_run [OF k(1) _ 1] 2] 3] by simp
  have r: "wSessions w' = wSessions w4" using 5 Record_frame by blast
  show ?thesis using issuePair_Inr [OF 4] I r by auto
qed

lemma failLogin_not_Inr: "failLogin S n meta c w \<noteq> (Inr x, w')"
  by (simp add: failLogin_def thenE_def bindE_Inr throwE_run)

lemma checkLogin_Inr:
  assumes "checkLogin X S inp meta u w = (Inr pair, w')"
  shows "uID u \<noteq> '''' \<and> VerifyPassword X (stored_hash S u) (liPassword inp) = Inr True \<and> \<not> uDisabled u
    \<and> (uTOTPEnabled u \<longrightarrow> verifySecondFactor X S u (liTOTP inp) (wNow w) = None)
    \<and> startSession X S inp meta u w = (Inr pair, w')"
  using assms unfolding checkLogin_def
  by (auto simp: failLogin_not_Inr throwE_run bindE_Inr now_run split: sum.splits if_splits option.splits)

lemma Initialized_Inr:
  assumes "Auth_Initialized w = (Inr b, w')"
  shows "b = (wUsers w \<noteq> []) \<and> quiet w w'"
  using assms unfolding Auth_Initialized_def Users_Count_def
  by (elim bindE_InrE db_Inr) (auto simp: readE_run returnE_run)

lemma Login_InrE:
  assumes "Login X S inp meta w = (Inr pair, w')"
  obtains u w1 where "u \<in> set (wUsers w)" "username_lower u = to_lower (trim_space (liUsername inp))"
    "\<not> Locked (check_result (asLimiter S) (rmIP meta) (wNow w) (wAttempts w))"
    "quiet w w1" "checkLogin X S inp meta u w1 = (Inr pair, w')"
proof -
  obtain w1 st w2 where 1: "Auth_Initialized w = (Inr True, w1)" and 2: "limiter_Check (asLimiter S) (rmIP meta) w1 = (Inr st, w2)"
    and nl: "\<not> Locked st"
    and rest: "attemptE (Users_ByUsername (liUsername inp)) (\<lambda>found.
         case found of
           Inl e \<Rightarrow> if e \<noteq> ErrNotFound then throwE e else checkLogin X S inp meta zero_user
         | Inr u \<Rightarrow> checkLogin X S inp meta u) w2 = (Inr pair, w')"
    using assms unfolding Login_def
    by (elim bindE_InrE) (auto simp: throwE_run bindE_Inr split: if_splits)
  have q1: "quiet w w1" using Initialized_Inr [OF 1] by simp
  have st: "st = check_result (asLimiter S) (rmIP meta) (wNow w) (wAttempts w)" and q2: "quiet w w2"
    using Check_Inr [OF 2] q1 by (auto simp: quiet_def)
  obtain found w3 where 3: "Users_ByUsername (liUsername inp) w2 = (found, w3)" by (metis prod.exhaust)
  show thesis
  proof (cases found)
    case (Inl e)
    with rest 3 have "e = ErrNotFound" and z: "checkLogin X S inp meta zero_user w3 = (Inr pair, w')"
      by (auto simp: attemptE_run throwE_run split: if_splits)
    from checkLogin_Inr [OF z] show thesis by (simp add: zero_user_def)
  next
    case (Inr u)
    have u: "u \<in> set (wUsers w2)" "username_lower u = to_lower (trim_space (liUsername inp))" "quiet w2 w3"
      using Users_ByUsername_Inr [OF 3 [unfolded Inr]] by auto
    have "checkLogin X S inp meta u w3 = (Inr pair, w')" using rest 3 Inr by (simp add: attemptE_run)
    with u q2 nl st show thesis by (intro that [of u w3]) (auto simp: quiet_def)
  qed
qed

text \<open>
  C8: whatever statements fail, a login that succeeds is one for an enabled account of the
  given name whose password verifies and, where two-factor is on, whose code verifies,
  from an address that is not locked out; it starts exactly one session, for that account,
  reachable by the refresh token that is returned.
\<close>

theorem Login_sound:
  assumes "Login X S inp meta w = (Inr pair, w')"
  shows "\<exists>u\<in>set (wUsers w). username_lower u = to_lower (trim_space (liUsername inp))
    \<and> \<not> Locked (check_result (asLimiter S) (rmIP meta) (wNow w) (wAttempts w))
    \<and> VerifyPassword X (stored_hash S u) (liPassword inp) = Inr True \<and> \<not> uDisabled u
    \<and> (uTOTPEnabled u \<longrightarrow> verifySecondFactor X S u (liTOTP inp) (wNow w) = None)
    \<and> tpUser pair = u
    \<and> (\<exists>s. wSessions w' = wSessions w @ [s] \<and> sUserID s = uID u
         \<and> sRefreshHash s = HashToken (tpRefreshToken pair)
         \<and> sExpiresAt s = wNow w + asRefreshTTL S \<and> sRevokedAt s = 0)"
proof -
  obtain u w1 where u: "u \<in> set (wUsers w)" "username_lower u = to_lower (trim_space (liUsername inp))"
    "\<not> Locked (check_result (asLimiter S) (rmIP meta) (wNow w) (wAttempts w))"
    and q: "quiet w w1" and c: "checkLogin X S inp meta u w1 = (Inr pair, w')"
    using assms by (rule Login_InrE)
  have "wNow w1 = wNow w" "wSessions w1 = wSessions w" using q by (simp_all add: quiet_def)
  then show ?thesis
    using u checkLogin_Inr [OF c] startSession_Inr [of X S inp meta u w1 pair w'] by auto
qed

section \<open>Logins that must succeed\<close>

lemma ids_update_where:
  "(\<And>r. g (f r) = g r) \<Longrightarrow> g ` set (update_where p f rs) = g ` set rs"
  by (metis list.set_map map_update_where)

lemma Users_update_run:
  assumes "wFaults w = []" "i \<in> uID ` set (wUsers w)"
  shows "Users_update i f w = (Inr (), w\<lparr>wUsers := update_where (\<lambda>u. uID u = i) f (wUsers w)\<rparr>)"
proof -
  have "filter (\<lambda>u. uID u = i) (wUsers w) \<noteq> []" using assms(2) by (auto simp: filter_empty_conv)
  with assms(1) show ?thesis
    by (simp add: Users_update_def Users_exec_def rows_affected_def prog_simps)
qed

lemma Logins_Record_run:
  "wFaults w = [] \<Longrightarrow> Logins_Record ip n b w =
     (Inr (), w\<lparr>wAttempts := wAttempts w @ [\<lparr>laIP = ip, laUsername = to_lower (trim_space n), laSuccess = b, laCreatedAt = wNow w\<rparr>]\<rparr>)"
  by (simp add: Logins_Record_def prog_simps)

definition new_refresh_token :: "world \<Rightarrow> string" where
  "new_refresh_token w = b64_encode base64_url (take 32 (drop 16 (wEntropy w)))"

definition new_session_id :: "world \<Rightarrow> string" where
  "new_session_id w = hex_encode (take 16 (drop 48 (wEntropy w)))"

definition fresh_entropy :: "world \<Rightarrow> bool" where
  "fresh_entropy w \<longleftrightarrow> 64 \<le> length (wEntropy w)
     \<and> new_session_id w \<notin> sID ` set (wSessions w)
     \<and> HashToken (new_refresh_token w) \<notin> sRefreshHash ` set (wSessions w)"

lemma issuePair_run:
  assumes "wFaults w = []" "uID u \<in> uID ` set (wUsers w)" "fresh_entropy w"
    and "jwt_sign X (iKey (asIssuer S)) (new_claims (asIssuer S) u (hex_encode (take 16 (wEntropy w))) (wNow w)) = Some tok"
  shows "\<exists>pair w'. issuePair X S u meta w = (Inr pair, w') \<and> tpRefreshToken pair = new_refresh_token w"
  using assms unfolding fresh_entropy_def
  by (auto simp: issuePair_def TokenIssuer_Issue_def randomID_def NewRefreshToken_def randomToken_run NewID_def
      refreshTokenBytes_def rand_read_def Sessions_Create_def insert_session_def
      new_refresh_token_def new_session_id_def bindE_run thenE_run now_run returnE_run db_no_faults Let_def is_zero_def)

lemma startSession_run:
  assumes "wFaults w = []" "uID u \<in> uID ` set (wUsers w)" "fresh_entropy w" "\<not> NeedsRehash X (uPasswordHash u)"
    and "jwt_sign X (iKey (asIssuer S)) (new_claims (asIssuer S) u (hex_encode (take 16 (wEntropy w))) (wNow w)) = Some tok"
  shows "\<exists>pair w'. startSession X S inp meta u w = (Inr pair, w') \<and> tpRefreshToken pair = new_refresh_token w"
proof -
  let ?row = "\<lparr>laIP = rmIP meta, laUsername = to_lower (trim_space (liUsername inp)), laSuccess = True, laCreatedAt = wNow w\<rparr>"
  let ?w1 = "w\<lparr>wAttempts := wAttempts w @ [?row]\<rparr>"
  let ?w2 = "?w1\<lparr>wUsers := update_where (\<lambda>v. uID v = uID u) (\<lambda>v. v\<lparr>uLastLoginAt := wNow w\<rparr>) (wUsers w)\<rparr>"
  have touch: "Users_TouchLogin (uID u) (wNow w) ?w1 = (Inr (), ?w2)"
    unfolding Users_TouchLogin_def using assms(1,2) by (simp add: Users_update_run)
  have in2: "uID u \<in> uID ` set (wUsers ?w2)" using assms(2) by (simp add: ids_update_where del: set_update_where)
  have eq: "new_refresh_token ?w2 = new_refresh_token w" "fresh_entropy ?w2"
    using assms(3) by (simp_all add: new_refresh_token_def fresh_entropy_def new_session_id_def)
  obtain pair w3 where p: "issuePair X S u meta ?w2 = (Inr pair, w3)" "tpRefreshToken pair = new_refresh_token w"
    using issuePair_run [OF _ in2 eq(2), of X S tok meta] assms(1,5) eq(1) by auto
  show ?thesis
    using assms(1,4) touch p
    by (simp add: startSession_def limiter_RecordSuccess_def Logins_Record_run rehash_def thenE_run bindE_run
        whenE_def now_run returnE_run Record_def ignoreE_run)
qed

text \<open>The conditions under which a login is to succeed.\<close>

definition login_ready :: "ext \<Rightarrow> auth_service \<Rightarrow> login_input \<Rightarrow> request_meta \<Rightarrow> user \<Rightarrow> world \<Rightarrow> bool" where
  "login_ready X S inp meta u w \<longleftrightarrow>
     wFaults w = [] \<and> db_ok w \<and> u \<in> set (wUsers w) \<and> uID u \<noteq> '''' \<and> fresh_entropy w
     \<and> username_lower u = to_lower (trim_space (liUsername inp))
     \<and> \<not> Locked (check_result (asLimiter S) (rmIP meta) (wNow w) (wAttempts w))
     \<and> VerifyPassword X (stored_hash S u) (liPassword inp) = Inr True
     \<and> \<not> NeedsRehash X (uPasswordHash u) \<and> \<not> uDisabled u
     \<and> (uTOTPEnabled u \<longrightarrow> verifySecondFactor X S u (liTOTP inp) (wNow w) = None)
     \<and> (\<exists>tok. jwt_sign X (iKey (asIssuer S))
          (new_claims (asIssuer S) u (hex_encode (take 16 (wEntropy w))) (wNow w)) = Some tok)"

lemma Login_ready_succeeds:
  assumes "login_ready X S inp meta u w"
  shows "\<exists>pair w'. Login X S inp meta w = (Inr pair, w') \<and> tpRefreshToken pair = new_refresh_token w"
proof -
  have ready: "wFaults w = []" "db_ok w" "u \<in> set (wUsers w)" "uID u \<noteq> ''''" "fresh_entropy w"
    "username_lower u = to_lower (trim_space (liUsername inp))"
    "\<not> Locked (check_result (asLimiter S) (rmIP meta) (wNow w) (wAttempts w))"
    "VerifyPassword X (stored_hash S u) (liPassword inp) = Inr True" "\<not> NeedsRehash X (uPasswordHash u)" "\<not> uDisabled u"
    "uTOTPEnabled u \<longrightarrow> verifySecondFactor X S u (liTOTP inp) (wNow w) = None"
    using assms by (simp_all add: login_ready_def)
  obtain tok where "jwt_sign X (iKey (asIssuer S))
      (new_claims (asIssuer S) u (hex_encode (take 16 (wEntropy w))) (wNow w)) = Some tok"
    using assms by (auto simp: login_ready_def)
  then obtain pair w' where s: "startSession X S inp meta u w = (Inr pair, w')" "tpRefreshToken pair = new_refresh_token w"
    using startSession_run [of w u X S tok inp meta] ready by (auto intro: imageI)
  have "Auth_Initialized w = (Inr True, w)"
    using ready(1,3) by (auto simp: Auth_Initialized_def Users_Count_def prog_simps)
  moreover have "Users_ByUsername (liUsername inp) w = (Inr u, w)"
    using ready by (intro Users_ByUsername_present) simp_all
  moreover have "checkLogin X S inp meta u w = (Inr pair, w')"
    using ready s by (simp add: checkLogin_def bindE_run now_run)
  ultimately show ?thesis
    using ready(1,7) s(2) by (simp add: Login_def bindE_run Check_run attemptE_run)
qed


text \<open>A small installation: one administrator, whose password is ''correct horse''.\<close>

definition demo_hash :: string where
  "demo_hash = phc_string 0x13 argonMemory argonTime argonThreads [7]
     (IDKey sample_ext (bytes ''correct horse'') [7] argonTime argonMemory argonThreads argonKeyLen)"

definition demo_admin :: user where
  "demo_admin = zero_user\<lparr>uID := ''u1'', uUsername := ''Ada'', uRole := ''admin'', uPasswordHash := demo_hash\<rparr>"

definition demo_world :: world where
  "demo_world = (entropy_world (replicate 64 7))\<lparr>wUsers := [demo_admin], wNow := hour\<rparr>"

definition demo_service :: auth_service where
  "demo_service = \<lparr>asLimiter = \<lparr>maxFailures = 5, window = 15 * minute, lockout = 15 * minute\<rparr>,
     asIssuer = \<lparr>iKey = [], iAccessTTL = 15 * minute\<rparr>, asRecorder = True, asSecrets = None,
     asRefreshTTL = 24 * hour, asDummyHash = ''''\<rparr>"

definition demo_login :: login_input where
  "demo_login = \<lparr>liUsername = '' ada'', liPassword = ''correct horse'', liTOTP = ''''\<rparr>"

definition demo_meta :: request_meta where
  "demo_meta = \<lparr>rmIP = ''10.0.0.1'', rmUserAgent = ''''\<rparr>"

lemma demo_hash_decodes:
  "decodeHash sample_ext demo_hash = Inr (\<lparr>hpMemory = argonMemory, hpTime = argonTime, hpThreads = argonThreads\<rparr>, [7],
     IDKey sample_ext (bytes ''correct horse'') [7] argonTime argonMemory argonThreads argonKeyLen)"
proof -
  have "IDKey sample_ext (bytes ''correct horse'') [7] argonTime argonMemory argonThreads argonKeyLen \<noteq> []"
    by (simp add: sample_ext_def bytes_def argonKeyLen_def)
  then show ?thesis unfolding demo_hash_def by (intro decodeHash_phc) (simp_all add: sample_ext_def)
qed

lemma demo_verifies: "VerifyPassword sample_ext demo_hash ''correct horse'' = Inr True" "\<not> NeedsRehash sample_ext demo_hash"
  using sample_ext_ok(1) by (simp_all add: VerifyPassword_def NeedsRehash_def demo_hash_decodes argon_ok_def)

lemma demo_db_ok: "db_ok demo_world"
  by (simp add: demo_world_def db_ok_def unique_defs roles_ok_def refs_ok_def demo_admin_def ValidRole_def
      RoleAdmin_def entropy_world_def)

lemma demo_ready: "login_ready sample_ext demo_service demo_login demo_meta demo_admin demo_world"
proof -
  have "demo_hash \<noteq> ''''" by (simp add: demo_hash_def phc_string_def)
  then have hash: "stored_hash demo_service demo_admin = demo_hash" by (simp add: stored_hash_def demo_admin_def)
  have "to_lower ''Ada'' = to_lower (trim_space '' ada'')" by code_simp
  then have name: "username_lower demo_admin = to_lower (trim_space (liUsername demo_login))"
    by (simp add: demo_admin_def demo_login_def username_lower_def)
  have open_: "\<not> Locked (check_result (asLimiter demo_service) (rmIP demo_meta) (wNow demo_world) (wAttempts demo_world))"
    by (simp add: check_result_def failure_count_def demo_world_def entropy_world_def demo_service_def Let_def)
  have sign: "\<exists>tok. jwt_sign sample_ext (iKey (asIssuer demo_service))
      (new_claims (asIssuer demo_service) demo_admin (hex_encode (take 16 (wEntropy demo_world))) (wNow demo_world)) = Some tok"
    by (simp add: sample_ext_def sample_sign_def new_claims_def truncate_claims_def whole_seconds_def in_int64_def
        demo_service_def demo_world_def entropy_world_def Let_def)
  have fresh: "fresh_entropy demo_world"
    by (simp add: fresh_entropy_def demo_world_def entropy_world_def)
  have fields: "wFaults demo_world = []" "demo_admin \<in> set (wUsers demo_world)" "uID demo_admin \<noteq> ''''"
    "uPasswordHash demo_admin = demo_hash" "liPassword demo_login = ''correct horse''"
    "\<not> uDisabled demo_admin" "\<not> uTOTPEnabled demo_admin"
    by (simp_all add: demo_world_def entropy_world_def demo_admin_def demo_login_def zero_user_def)
  show ?thesis
    unfolding login_ready_def hash fields(4,5) using fields(1-3,6,7) name open_ sign fresh demo_db_ok demo_verifies
    by blast
qed


theorem Login_sound_witness:
  "\<exists>pair w' s. Login sample_ext demo_service demo_login demo_meta demo_world = (Inr pair, w')
     \<and> tpUser pair = demo_admin \<and> wSessions w' = [s] \<and> sUserID s = ''u1''"
proof -
  obtain pair w' where run: "Login sample_ext demo_service demo_login demo_meta demo_world = (Inr pair, w')"
    using Login_ready_succeeds [OF demo_ready] by blast
  show ?thesis
    using run Login_sound [OF run] by (auto simp: demo_world_def entropy_world_def demo_admin_def)
qed

section \<open>Refused logins\<close>

lemma raises_db [raises_intros]: "DriverError \<in> E \<Longrightarrow> raises E m \<Longrightarrow> raises E (db m)"
proof -
  assume E: "DriverError \<in> E" "raises E m"
  have "e \<in> E" if "db m w = (Inl e, t)" for w e t
    by (rule db_cases [of m w]) (use that E(1) raisesD [OF E(2)] in \<open>metis fst_conv sum.inject(1)\<close>)+
  then show ?thesis unfolding raises_def by blast
qed

lemma raises_now [raises_intros]: "raises E now"
  by (simp add: raises_def now_run)

lemma raises_rand_read [raises_intros]: "EntropyError \<in> E \<Longrightarrow> raises E (rand_read n)"
  by (simp add: raises_def rand_read_def)

definition infra_errors :: "go_error set" where
  "infra_errors = {DriverError, ErrNotFound, ErrConflict, EntropyError, SignError, ErrInvalidHash}"

definition login_causes :: "go_error set" where
  "login_causes = {ErrInvalidCredentials, ErrAccountDisabled, ErrTOTPRequired, ErrTOTPUnavailable}"

lemma infra_members: "DriverError \<in> infra_errors" "ErrNotFound \<in> infra_errors" "ErrConflict \<in> infra_errors"
  "EntropyError \<in> infra_errors" "SignError \<in> infra_errors" "ErrInvalidHash \<in> infra_errors"
  by (simp_all add: infra_errors_def)

lemma raises_inserts:
  "raises infra_errors (insert_session s)" "raises infra_errors (insert_user u)"
  by (simp_all add: raises_def insert_session_def insert_user_def infra_errors_def)

lemma raises_issuePair: "raises infra_errors (issuePair X S u meta)"
  unfolding issuePair_def TokenIssuer_Issue_def NewRefreshToken_def randomToken_def NewID_def randomID_def
    Sessions_Create_def Let_def
  by (intro raises_intros raises_inserts infra_members)

lemma raises_startSession: "raises infra_errors (startSession X S inp meta u)"
  unfolding startSession_def limiter_RecordSuccess_def Logins_Record_def rehash_def Users_TouchLogin_def
    Users_update_def Users_exec_def rows_affected_def Record_def
  by (intro raises_intros raises_issuePair infra_members)

lemma on_error_issuePair:
  "fault_blind I \<Longrightarrow> blind wEntropy_update I \<Longrightarrow> on_error I (issuePair X S u meta)"
proof -
  assume I: "fault_blind I" "blind wEntropy_update I"
  have create: "on_error I (Sessions_Create s)" for s
    unfolding on_error_def using Sessions_Create_Inl I(1) by (metis fault_blind_def)
  have "on_error I (thenE (Sessions_Create s) (returnE p))" for s p
    unfolding thenE_def by (rule on_error_bindE_last [OF create]) (simp add: succeeds_def returnE_run)
  then show ?thesis
    unfolding issuePair_def Let_def
    by (intro on_error_bindE on_error_case_prod keeps_intros I)
qed

lemma on_error_startSession: "on_error (\<lambda>w. wSessions w = ss) (startSession X S inp meta u)"
proof -
  have b: "fault_blind (\<lambda>w. wSessions w = ss)" "blind wEntropy_update (\<lambda>w. wSessions w = ss)"
    "blind wUsers_update (\<lambda>w. wSessions w = ss)" "blind wAttempts_update (\<lambda>w. wSessions w = ss)"
    by (simp_all add: fault_blind_def blind_def)
  show ?thesis
    unfolding startSession_def
    by (intro error_intros keeps_intros b on_error_bindE_last [OF on_error_issuePair]
        succeeds_thenE_returnE succeeds_Record)
qed

lemma Record_eq: "Record p e w = (Inr (), snd (Record p e w))"
  by (simp add: Record_def prog_simps)

lemma Record_then: "thenE (Record p e) k w = k (snd (Record p e w))"
  by (subst thenE_run, subst Record_eq) simp

lemma failLogin_Inl:
  assumes "failLogin S n meta c w = (Inl e, w')"
  shows "wSessions w' = wSessions w \<and> wUsers w' = wUsers w \<and>
    (e = c \<and> wAttempts w' = wAttempts w @
       [\<lparr>laIP = rmIP meta, laUsername = to_lower (trim_space n), laSuccess = False, laCreatedAt = wNow w\<rparr>]
     \<or> e = DriverError)"
proof (cases "limiter_RecordFailure (rmIP meta) n w")
  case (Pair r w1)
  show ?thesis
  proof (cases r)
    case (Inl e1)
    have "e1 = DriverError \<and> quiet w w1"
      using Pair unfolding Inl limiter_RecordFailure_def Logins_Record_def
      by (auto simp: bindE_run now_run db_def modifyE_run throwE_run split: list.splits if_splits)
    then show ?thesis using assms Pair Inl by (simp add: failLogin_def thenE_run quiet_def)
  next
    case (Inr u)
    have row: "wAttempts w1 = wAttempts w @
       [\<lparr>laIP = rmIP meta, laUsername = to_lower (trim_space n), laSuccess = False, laCreatedAt = wNow w\<rparr>]
      \<and> wUsers w1 = wUsers w \<and> wSessions w1 = wSessions w"
      using Logins_Record_Inr [of "rmIP meta" n False w w1] Pair Inr by (simp add: limiter_RecordFailure_def)
    obtain ev where "e = c" "w' = snd (Record (asRecorder S) ev w1)"
      using assms Pair Inr by (auto simp: failLogin_def thenE_run [of "limiter_RecordFailure _ _"] throwE_run Record_then)
    then have "e = c" "\<exists>q. Record (asRecorder S) ev w1 = (q, w')" by (auto simp: prod_eq_iff)
    then show ?thesis using row Record_frame by metis
  qed
qed

lemma VerifyPassword_Inl: "VerifyPassword X h pw = Inl e \<Longrightarrow> e = ErrInvalidHash"
  by (auto simp: VerifyPassword_def decodeHash_def Let_def split: sum.splits if_splits option.splits prod.splits)

lemma checkLogin_Inl:
  assumes "checkLogin X S inp meta u w = (Inl e, w')"
  shows "wSessions w' = wSessions w \<and> e \<in> login_causes \<union> infra_errors
    \<and> (e \<in> login_causes \<longrightarrow> wUsers w' = wUsers w \<and> wAttempts w' = wAttempts w @
         [\<lparr>laIP = rmIP meta, laUsername = to_lower (trim_space (liUsername inp)), laSuccess = False, laCreatedAt = wNow w\<rparr>])"
proof -
  have fl: ?thesis if "failLogin S (liUsername inp) meta c w = (Inl e, w')" "c \<in> login_causes" for c
    using failLogin_Inl [OF that(1)] that(2) by (auto simp: infra_errors_def login_causes_def)
  have ss: ?thesis if "startSession X S inp meta u w = (Inl e, w')"
    using on_errorD [OF on_error_startSession _ that, of "wSessions w"] raisesD [OF raises_startSession that]
    by (auto simp: infra_errors_def login_causes_def)
  have vf: "verifySecondFactor X S u c t = Some f \<Longrightarrow> f \<in> login_causes" for c t f
    by (auto simp: verifySecondFactor_def login_causes_def split: option.splits if_splits sum.splits)
  have th: ?thesis if "VerifyPassword X (stored_hash S u) (liPassword inp) = Inl d" "throwE d w = (Inl e, w')" for d
    using VerifyPassword_Inl [OF that(1)] that(2) by (auto simp: throwE_run infra_errors_def login_causes_def)
  have causes: "ErrInvalidCredentials \<in> login_causes" "ErrAccountDisabled \<in> login_causes"
    by (simp_all add: login_causes_def)
  have "(\<exists>c\<in>login_causes. failLogin S (liUsername inp) meta c w = (Inl e :: go_error + token_pair, w'))
      \<or> startSession X S inp meta u w = (Inl e, w')
      \<or> (\<exists>d. VerifyPassword X (stored_hash S u) (liPassword inp) = Inl d \<and> throwE d w = (Inl e :: go_error + token_pair, w'))"
    using assms causes unfolding checkLogin_def bindE_run now_run
    by (auto split: sum.splits if_splits option.splits dest: vf)
  then show ?thesis by (elim disjE bexE exE conjE) (rule fl ss th; assumption)+
qed

lemma bindE_Inl:
  "bindE m f s = (Inl e, t) \<longleftrightarrow> m s = (Inl e, t) \<or> (\<exists>x s'. m s = (Inr x, s') \<and> f x s' = (Inl e, t))"
  by (auto simp: bindE_def split: prod.splits sum.splits)

lemma raises_login_reads:
  "raises {DriverError} Auth_Initialized" "raises {DriverError} (limiter_Check l ip)"
  "raises {DriverError, ErrNotFound} (Users_ByUsername n)"
proof -
  show "raises {DriverError} Auth_Initialized"
    unfolding Auth_Initialized_def Users_Count_def by (intro raises_intros) simp
  show "raises {DriverError} (limiter_Check l ip)"
    unfolding limiter_Check_def Logins_FailuresSince_def Logins_LastFailureAt_def Let_def
    by (intro raises_intros) simp_all
  have "raises {DriverError, ErrNotFound} (\<lambda>w. case find p (wUsers w) of None \<Rightarrow> (Inl ErrNotFound, w) | Some u \<Rightarrow> (Inr u, w))" for p
    by (auto simp: raises_def split: option.splits)
  then show "raises {DriverError, ErrNotFound} (Users_ByUsername n)"
    unfolding Users_ByUsername_def Users_scanOne_def by (intro raises_db) simp
qed

lemma quiet_login_reads:
  "Auth_Initialized w = (r, w') \<Longrightarrow> quiet w w'"
  "limiter_Check l ip w = (r', w') \<Longrightarrow> quiet w w'"
  "Users_ByUsername n w = (r'', w') \<Longrightarrow> quiet w w'"
  by (erule keeps_quiet [rotated], intro keeps_intros fault_blind_iff, assumption)+

lemma Login_Inl:
  assumes "Login X S inp meta w = (Inl e, w')"
  shows "quiet w w' \<and> (e \<in> {DriverError, ErrNotInitialized} \<or> (\<exists>d. e = LockedOutError d))
    \<or> (\<exists>u w1. quiet w w1 \<and> checkLogin X S inp meta u w1 = (Inl e, w'))"
proof -
  obtain r1 w1 where 1: "Auth_Initialized w = (r1, w1)" by (metis prod.exhaust)
  obtain r2 w2 where 2: "limiter_Check (asLimiter S) (rmIP meta) w1 = (r2, w2)" by (metis prod.exhaust)
  obtain r3 w3 where 3: "Users_ByUsername (liUsername inp) w2 = (r3, w3)" by (metis prod.exhaust)
  have q: "quiet w w1" "quiet w w2" "quiet w w3"
    using quiet_login_reads(1) [OF 1] quiet_login_reads(2) [OF 2] quiet_login_reads(3) [OF 3] quiet_trans by blast+
  show ?thesis
  proof (cases "r1 = Inr True \<and> (\<exists>st. r2 = Inr st \<and> \<not> Locked st)")
    case False
    then show ?thesis
      using assms 1 2 q raises_login_reads(1,2)
      by (auto simp: Login_def bindE_Inl throwE_run dest: raisesD split: if_splits)
  next
    case True
    then have "(case r3 of Inl e \<Rightarrow> if e \<noteq> ErrNotFound then throwE e else checkLogin X S inp meta zero_user
         | Inr u \<Rightarrow> checkLogin X S inp meta u) w3 = (Inl e, w')"
      using assms 1 2 3 by (auto simp: Login_def bindE_Inl attemptE_run)
    then show ?thesis
      using q(3) raisesD [OF raises_login_reads(3), of "liUsername inp" w2 _ w3] 3
      by (auto simp: throwE_run split: sum.splits if_splits)
  qed
qed

text \<open>
  A login that is refused starts no session, whatever statements fail. When the refusal
  is about the credentials, exactly one failed attempt is recorded against the address and
  no account changes; when the address is locked out nothing is written at all.
\<close>

theorem Login_refused:
  assumes "Login X S inp meta w = (Inl e, w')"
  shows "wSessions w' = wSessions w
    \<and> (e \<in> {ErrInvalidCredentials, ErrAccountDisabled, ErrTOTPRequired, ErrTOTPUnavailable} \<longrightarrow>
        wUsers w' = wUsers w \<and> wAttempts w' = wAttempts w @
          [\<lparr>laIP = rmIP meta, laUsername = to_lower (trim_space (liUsername inp)), laSuccess = False, laCreatedAt = wNow w\<rparr>])
    \<and> (e = LockedOutError d \<longrightarrow> quiet w w')"
  using Login_Inl [OF assms]
proof (elim disjE exE conjE)
  fix u w1 assume q: "quiet w w1" and c: "checkLogin X S inp meta u w1 = (Inl e, w')"
  show ?thesis
    using checkLogin_Inl [OF c] q by (auto simp: quiet_def login_causes_def infra_errors_def)
qed (auto simp: quiet_def)

lemma Login_bad_credentials:
  assumes "wFaults w = []" "wUsers w \<noteq> []"
    and "\<not> Locked (check_result (asLimiter S) (rmIP meta) (wNow w) (wAttempts w))"
    and "\<forall>u\<in>set (wUsers w). username_lower u = to_lower (trim_space (liUsername inp)) \<longrightarrow>
           VerifyPassword X (stored_hash S u) (liPassword inp) = Inr False"
  shows "\<exists>w'. Login X S inp meta w = (Inl ErrInvalidCredentials, w') \<and> wUsers w' = wUsers w \<and> wSessions w' = wSessions w
    \<and> wAttempts w' = wAttempts w @
        [\<lparr>laIP = rmIP meta, laUsername = to_lower (trim_space (liUsername inp)), laSuccess = False, laCreatedAt = wNow w\<rparr>]"
proof -
  let ?f = "failLogin S (liUsername inp) meta ErrInvalidCredentials :: token_pair io"
  have "Auth_Initialized w = (Inr True, w)"
    using assms(1,2) by (simp add: Auth_Initialized_def Users_Count_def prog_simps)
  moreover have "(case fst (Users_ByUsername (liUsername inp) w) of
         Inl e \<Rightarrow> if e \<noteq> ErrNotFound then throwE e else checkLogin X S inp meta zero_user
       | Inr u \<Rightarrow> checkLogin X S inp meta u) w = ?f w"
  proof (cases "find (\<lambda>u. username_lower u = to_lower (trim_space (liUsername inp))) (wUsers w)")
    case None
    then show ?thesis
      using assms(1)
      by (simp add: Users_ByUsername_def Users_scanOne_def prog_simps checkLogin_def zero_user_def split: sum.split)
  next
    case (Some u)
    then show ?thesis
      using assms(1,4) find_SomeD [OF Some]
      by (simp add: Users_ByUsername_def Users_scanOne_def prog_simps checkLogin_def)
  qed
  moreover have "snd (Users_ByUsername (liUsername inp) w) = w"
    using assms(1) by (simp add: Users_ByUsername_def Users_scanOne_def prog_simps split: option.split)
  ultimately have run: "Login X S inp meta w = ?f w"
    using assms(1,3)
    by (cases "Users_ByUsername (liUsername inp) w") (simp add: Login_def bindE_run Check_run attemptE_run)
  obtain w' where f: "?f w = (Inl ErrInvalidCredentials, w')"
    using assms(1)
    by (simp add: failLogin_def thenE_run [of "Logins_Record _ _ _"] limiter_RecordFailure_def
        Logins_Record_run Record_then throwE_run)
  show ?thesis using run f failLogin_Inl [OF f] by simp
qed

text \<open>
  C10: with a working database, a name nobody has and a wrong password are answered alike:
  the same error, one failed attempt recorded, no account and no session touched.
\<close>

theorem Login_uniform_refusal:
  assumes "wFaults w = []" and "wUsers w \<noteq> []"
    and "\<not> Locked (check_result (asLimiter S) (rmIP meta) (wNow w) (wAttempts w))"
    and "\<forall>u\<in>set (wUsers w). username_lower u = to_lower (trim_space (liUsername inp)) \<longrightarrow>
           VerifyPassword X (stored_hash S u) (liPassword inp) = Inr False"
  shows "\<exists>w'. Login X S inp meta w = (Inl ErrInvalidCredentials, w') \<and> wUsers w' = wUsers w \<and> wSessions w' = wSessions w
    \<and> wAttempts w' = wAttempts w @
        [\<lparr>laIP = rmIP meta, laUsername = to_lower (trim_space (liUsername inp)), laSuccess = False, laCreatedAt = wNow w\<rparr>]"
  using assms by (rule Login_bad_credentials)

definition demo_stranger :: login_input where
  "demo_stranger = \<lparr>liUsername = ''bob'', liPassword = ''battery staple'', liTOTP = ''''\<rparr>"

lemma demo_stranger_facts:
  "wFaults demo_world = []" "wUsers demo_world \<noteq> []"
  "\<not> Locked (check_result (asLimiter demo_service) (rmIP demo_meta) (wNow demo_world) (wAttempts demo_world))"
  "\<forall>u\<in>set (wUsers demo_world). username_lower u = to_lower (trim_space (liUsername demo_stranger)) \<longrightarrow>
     VerifyPassword sample_ext (stored_hash demo_service u) (liPassword demo_stranger) = Inr False"
proof -
  show "wFaults demo_world = []" "wUsers demo_world \<noteq> []"
    by (simp_all add: demo_world_def entropy_world_def)
  show "\<not> Locked (check_result (asLimiter demo_service) (rmIP demo_meta) (wNow demo_world) (wAttempts demo_world))"
    using demo_ready by (simp add: login_ready_def)
  have "to_lower ''Ada'' \<noteq> to_lower (trim_space ''bob'')" by code_simp
  then show "\<forall>u\<in>set (wUsers demo_world). username_lower u = to_lower (trim_space (liUsername demo_stranger)) \<longrightarrow>
     VerifyPassword sample_ext (stored_hash demo_service u) (liPassword demo_stranger) = Inr False"
    by (simp add: demo_world_def demo_stranger_def demo_admin_def username_lower_def)
qed

theorem Login_uniform_refusal_witness:
  "\<exists>w'. Login sample_ext demo_service demo_stranger demo_meta demo_world = (Inl ErrInvalidCredentials, w')
     \<and> wSessions w' = []"
  using Login_uniform_refusal [OF demo_stranger_facts] by (auto simp: demo_world_def entropy_world_def)

theorem Login_refused_witness:
  "\<exists>w' a. Login sample_ext demo_service demo_stranger demo_meta demo_world = (Inl ErrInvalidCredentials, w')
     \<and> wAttempts w' = [a] \<and> laSuccess a = False"
proof -
  obtain w' where run: "Login sample_ext demo_service demo_stranger demo_meta demo_world = (Inl ErrInvalidCredentials, w')"
    using Login_bad_credentials [OF demo_stranger_facts] by blast
  show ?thesis using run Login_refused [OF run] by (simp add: demo_world_def entropy_world_def)
qed

end
