(* ===== verification/Service_Auth_Sessions.thy ===== *)
theory Service_Auth_Sessions
  imports Service_Auth_Laws
begin

text \<open>
  Sessions after login: rotation of refresh tokens, logout, the resolution of bearer
  credentials, and bootstrap. Every flow keeps the constraints of the schema.
\<close>

section \<open>The schema's constraints\<close>

lemma blind_entropy_db_ok: "blind wEntropy_update db_ok"
  by (simp add: blind_def db_ok_def unique_defs roles_ok_def refs_ok_def)

lemma keeps_db_ok_entropy:
  "keeps db_ok (rand_read n)" "keeps db_ok NewID" "keeps db_ok NewRefreshToken" "keeps db_ok NewTOTPSecret"
  "keeps db_ok (HashPassword X pw)" "keeps db_ok (Encrypt X b s)" "keeps db_ok (TokenIssuer_Issue X T u)"
  by (rule keeps_entropy keeps_Issue, rule blind_entropy_db_ok)+

lemmas db_ok_keeps = keeps_core keeps_now keeps_liftE keeps_mapErr keeps_db_ok_entropy keeps_Record_db_ok
  keeps_Users_Create keeps_Users_Delete keeps_UpdatePassword keeps_SetDisabled keeps_SetTOTP keeps_TouchLogin
  keeps_UpdateRole keeps_Revoke keeps_RevokeAll keeps_Sessions_Create keeps_Tokens_Touch keeps_RecordFailure
  keeps_RecordSuccess keeps_Parse
  keeps_Users_Count [OF fault_blind_db_ok] keeps_Users_ByID [OF fault_blind_db_ok]
  keeps_Users_ByUsername [OF fault_blind_db_ok] keeps_Users_List [OF fault_blind_db_ok]
  keeps_ByRefreshHash [OF fault_blind_db_ok] keeps_Tokens_ByHash [OF fault_blind_db_ok]
  keeps_limiter_Check [OF fault_blind_db_ok]

lemma db_ok_issuePair: "keeps db_ok (issuePair X S u meta)"
  unfolding issuePair_def Let_def by (intro db_ok_keeps)

lemma db_ok_createUser: "keeps db_ok (createUser X n pw r)"
  unfolding createUser_def Let_def by (intro db_ok_keeps)

lemma db_ok_failLogin: "keeps db_ok (failLogin S n meta c)"
  unfolding failLogin_def by (intro db_ok_keeps)

lemma db_ok_auth_flows:
  "keeps db_ok (Bootstrap X S n pw meta)" "keeps db_ok (Login X S inp meta)"
  "keeps db_ok (Refresh X S tok meta)" "keeps db_ok (Logout S tok i meta)" "keeps db_ok (Auth_Authenticate X S tok)"
proof -
  have start: "keeps db_ok (startSession X S inp meta u)" for u
    unfolding startSession_def rehash_def by (intro db_ok_keeps db_ok_issuePair)
  have check: "keeps db_ok (checkLogin X S inp meta u)" for u
    unfolding checkLogin_def by (intro db_ok_keeps db_ok_failLogin start)
  show "keeps db_ok (Bootstrap X S n pw meta)"
    unfolding Bootstrap_def Auth_Initialized_def by (intro db_ok_keeps db_ok_issuePair db_ok_createUser)
  show "keeps db_ok (Login X S inp meta)"
    unfolding Login_def Auth_Initialized_def by (intro db_ok_keeps check)
  show "keeps db_ok (Refresh X S tok meta)"
    unfolding Refresh_def Let_def by (intro db_ok_keeps db_ok_issuePair)
  show "keeps db_ok (Logout S tok i meta)" "keeps db_ok (Auth_Authenticate X S tok)"
    unfolding Logout_def Auth_Authenticate_def authenticateJWT_def authenticateAPIToken_def Let_def
    by - (intro db_ok_keeps)+
qed

section \<open>Refresh\<close>

lemma Sessions_Revoke_Inr:
  assumes "Sessions_Revoke i w = (Inr (), w')"
  shows "wSessions w' = wSessions (revoke_where (\<lambda>s. sID s = i) (wNow w) w) \<and> wUsers w' = wUsers w \<and> wNow w' = wNow w"
  using assms unfolding Sessions_Revoke_def
  by (elim bindE_InrE db_Inr) (auto simp: now_run modifyE_run revoke_where_def)

lemma ByRefreshHash_present:
  assumes "db_ok w" "s \<in> set (wSessions w)" "wFaults w = []"
  shows "Sessions_ByRefreshHash (sRefreshHash s) w = (Inr s, w)"
  using assms sess_tbl.by_uk [of w s] by (simp add: Sessions_ByRefreshHash_def prog_simps db_ok_def)

lemma Refresh_InrE:
  assumes "Refresh X S tok meta w = (Inr pair, w')"
  obtains s u w1 w2 where "trim_space tok \<noteq> ''''" "s \<in> set (wSessions w)" "sRefreshHash s = HashToken (trim_space tok)"
    "session_Active s (wNow w)" "u \<in> set (wUsers w)" "uID u = sUserID s" "\<not> uDisabled u"
    "wSessions w1 = wSessions (revoke_where (\<lambda>x. sID x = sID s) (wNow w) w)" "wUsers w1 = wUsers w" "wNow w1 = wNow w"
    "issuePair X S u meta w1 = (Inr pair, w2)" "wSessions w' = wSessions w2"
proof -
  let ?tok = "trim_space tok"
  obtain s wa where ne: "?tok \<noteq> ''''" and 1: "Sessions_ByRefreshHash (HashToken ?tok) w = (Inr s, wa)"
    and rest: "bindE now (\<lambda>t. if \<not> session_Active s t then throwE ErrSessionInvalid
        else bindE (mapErr (not_found_as ErrSessionInvalid) (Users_ByID (sUserID s))) (\<lambda>u.
          if uDisabled u then thenE (ignoreE (Sessions_RevokeAllForUser (uID u))) (throwE ErrAccountDisabled)
          else thenE (Sessions_Revoke (sID s))
            (bindE (issuePair X S u meta) (\<lambda>pair.
             thenE (Record (asRecorder S)
               \<lparr>evActor = user_Actor u, evAction = ActionRefresh, evResourceType = '''', evResourceID = '''',
                evErr = None, evDetail = None, evIP = rmIP meta, evUserAgent = rmUserAgent meta\<rparr>)
             (returnE pair))))) wa = (Inr pair, w')"
    using assms unfolding Refresh_def Let_def
    by (auto simp: throwE_run bindE_Inr [of "mapErr _ _"] split: if_splits)
  have s: "s \<in> set (wSessions w)" "sRefreshHash s = HashToken ?tok" "quiet w wa"
    using Sessions_ByRefreshHash_Inr [OF 1] by auto
  obtain u wb wc wd where act: "session_Active s (wNow wa)" and 2: "Users_ByID (sUserID s) wa = (Inr u, wb)"
    and dis: "\<not> uDisabled u" and 3: "Sessions_Revoke (sID s) wb = (Inr (), wc)"
    and 4: "issuePair X S u meta wc = (Inr pair, wd)" and 5: "w' = snd (Record (asRecorder S)
       \<lparr>evActor = user_Actor u, evAction = ActionRefresh, evResourceType = '''', evResourceID = '''',
        evErr = None, evDetail = None, evIP = rmIP meta, evUserAgent = rmUserAgent meta\<rparr> wd)"
    using rest
    by (auto simp: bindE_Inr now_run throwE_run thenE_def [of "Sessions_Revoke _"] thenE_def [of "ignoreE _"]
        Record_then returnE_run split: if_splits)
  have u: "u \<in> set (wUsers w)" "uID u = sUserID s" "quiet w wb"
    using Users_ByID_Inr [OF 2] s(3) by (auto simp: quiet_def)
  have c: "wSessions wc = wSessions (revoke_where (\<lambda>x. sID x = sID s) (wNow w) w)" "wUsers wc = wUsers w" "wNow wc = wNow w"
    using Sessions_Revoke_Inr [OF 3] u(3) by (simp_all add: quiet_def revoke_where_def)
  have "wSessions w' = wSessions wd" using Record_frame 5 by (metis prod.collapse)
  then show thesis using that [OF ne s(1,2) _ u(1,2) dis c 4] act s(3) by (simp add: quiet_def)
qed

lemma Refresh_inactive:
  assumes "wFaults v = []" "trim_space tok \<noteq> ''''"
    and "\<forall>s\<in>set (wSessions v). sRefreshHash s = HashToken (trim_space tok) \<longrightarrow> \<not> session_Active s (wNow v)"
  shows "Refresh X S tok meta v = (Inl ErrSessionInvalid, v)"
proof (cases "find (\<lambda>s. sRefreshHash s = HashToken (trim_space tok)) (wSessions v)")
  case None
  then show ?thesis
    using assms(1,2) by (simp add: Refresh_def Let_def Sessions_ByRefreshHash_def mapErr_def not_found_as_def prog_simps)
next
  case (Some s)
  then show ?thesis
    using assms find_SomeD [OF Some]
    by (simp add: Refresh_def Let_def Sessions_ByRefreshHash_def mapErr_def prog_simps)
qed

lemma revoked_inactive:
  assumes "db_ok w" "s \<in> set (wSessions w)" "t \<noteq> 0"
    and "x \<in> set (wSessions (revoke_where (\<lambda>y. sID y = sID s) t w))" "sRefreshHash x = sRefreshHash s"
  shows "\<not> session_Active x n"
proof -
  obtain y where y: "y \<in> set (wSessions w)" "sRefreshHash y = sRefreshHash s"
    and x: "x = (if sID y = sID s \<and> is_zero (sRevokedAt y) then y\<lparr>sRevokedAt := t\<rparr> else y)"
    using assms(4,5) by (auto simp: revoke_where_def split: if_splits)
  have "y = s" using assms(1,2) y sess_tbl.same_uk [of w y s] by (simp add: db_ok_def)
  then show ?thesis using x assms(3) by (auto simp: session_Active_def is_zero_def)
qed

text \<open>
  C11: a refresh succeeds only for an active session of an enabled account; it revokes that
  session, adds one new session under a different token, and the old token is refused from
  then on, at any time, as long as the sessions are what the refresh left.
\<close>

theorem Refresh_rotates:
  assumes "db_ok w" and "wNow w \<noteq> 0" and "Refresh X S tok meta w = (Inr pair, w')"
  shows "(\<exists>s\<in>set (wSessions w). \<exists>u\<in>set (wUsers w). sRefreshHash s = HashToken (trim_space tok)
      \<and> session_Active s (wNow w) \<and> uID u = sUserID s \<and> \<not> uDisabled u \<and> tpUser pair = u
      \<and> (\<exists>s'. wSessions w' = wSessions (revoke_where (\<lambda>x. sID x = sID s) (wNow w) w) @ [s']
           \<and> sUserID s' = uID u \<and> sRefreshHash s' = HashToken (tpRefreshToken pair)
           \<and> sRefreshHash s' \<noteq> sRefreshHash s \<and> sExpiresAt s' = wNow w + asRefreshTTL S \<and> sRevokedAt s' = 0))
    \<and> (wFaults v = [] \<longrightarrow> wSessions v = wSessions w' \<longrightarrow> Refresh X S tok meta v = (Inl ErrSessionInvalid, v))"
proof -
  obtain s u w1 w2 where ne: "trim_space tok \<noteq> ''''" and s: "s \<in> set (wSessions w)"
    and h: "sRefreshHash s = HashToken (trim_space tok)" and act: "session_Active s (wNow w)"
    and u: "u \<in> set (wUsers w)" "uID u = sUserID s" "\<not> uDisabled u"
    and w1: "wSessions w1 = wSessions (revoke_where (\<lambda>x. sID x = sID s) (wNow w) w)" "wUsers w1 = wUsers w" "wNow w1 = wNow w"
    and p: "issuePair X S u meta w1 = (Inr pair, w2)" and w': "wSessions w' = wSessions w2"
    using assms(3) by (rule Refresh_InrE)
  obtain s' where s': "wSessions w2 = wSessions w1 @ [s']" "sUserID s' = uID u"
      "sRefreshHash s' = HashToken (tpRefreshToken pair)" "sExpiresAt s' = wNow w1 + asRefreshTTL S" "sRevokedAt s' = 0"
      "sRefreshHash s' \<notin> sRefreshHash ` set (wSessions w1)" "tpUser pair = u"
    using issuePair_Inr [OF p] by auto
  have "sRefreshHash s \<in> sRefreshHash ` set (wSessions w1)"
    using s unfolding w1(1) revoke_where_def by (simp add: ids_update_where del: set_update_where)
  with s'(6) have new: "sRefreshHash s' \<noteq> sRefreshHash s" by auto
  have dead: "\<not> session_Active x n" if "x \<in> set (wSessions w')" "sRefreshHash x = HashToken (trim_space tok)" for x n
    using that new revoked_inactive [OF assms(1) s assms(2), of x n] by (auto simp: w' s'(1) w1(1) h)
  have "Refresh X S tok meta v = (Inl ErrSessionInvalid, v)" if "wFaults v = []" "wSessions v = wSessions w'"
    using that ne dead by (intro Refresh_inactive) auto
  then show ?thesis using s u h act s' w1 w' new by auto
qed

definition demo_session :: session where
  "demo_session = \<lparr>sID = ''s1'', sUserID = ''u1'', sRefreshHash = HashToken ''t1'', sIP = '''', sUserAgent = '''',
     sCreatedAt = second, sExpiresAt = 24 * hour, sRevokedAt = 0, sLastUsedAt = 0\<rparr>"

definition demo_signed_in :: world where
  "demo_signed_in = demo_world\<lparr>wSessions := [demo_session]\<rparr>"

lemma demo_signed_in_ok: "db_ok demo_signed_in" "wNow demo_signed_in = hour" "wFaults demo_signed_in = []"
  using demo_db_ok
  by (auto simp: demo_signed_in_def demo_world_def db_ok_def unique_defs roles_ok_def refs_ok_def demo_session_def
      demo_admin_def entropy_world_def)

lemma Refresh_ready:
  assumes "wFaults w = []" "db_ok w" "s \<in> set (wSessions w)" "trim_space tok \<noteq> ''''"
    and "sRefreshHash s = HashToken (trim_space tok)" "session_Active s (wNow w)"
    and "u \<in> set (wUsers w)" "uID u = sUserID s" "\<not> uDisabled u" "fresh_entropy w"
    and "jwt_sign X (iKey (asIssuer S)) (new_claims (asIssuer S) u (hex_encode (take 16 (wEntropy w))) (wNow w)) = Some t"
  shows "\<exists>pair w'. Refresh X S tok meta w = (Inr pair, w') \<and> tpRefreshToken pair = new_refresh_token w"
proof -
  let ?w = "revoke_where (\<lambda>x. sID x = sID s) (wNow w) w"
  have "Sessions_ByRefreshHash (HashToken (trim_space tok)) w = (Inr s, w)"
    using ByRefreshHash_present [OF assms(2,3,1)] assms(5) by simp
  moreover have "Users_ByID (sUserID s) w = (Inr u, w)"
    using Users_ByID_present [OF assms(2,7,1)] assms(8) by simp
  moreover have "Sessions_Revoke (sID s) w = (Inr (), ?w)"
    using assms(1) by (simp add: Sessions_Revoke_def prog_simps)
  moreover have "fresh_entropy ?w"
    using assms(10) by (simp add: fresh_entropy_def revoke_where_def new_session_id_def new_refresh_token_def
        ids_update_where del: set_update_where)
  moreover obtain pair w' where "issuePair X S u meta ?w = (Inr pair, w')" "tpRefreshToken pair = new_refresh_token ?w"
    using issuePair_run [of ?w u X S t meta] assms(1,7,11) calculation(4) by (auto simp: revoke_where_def intro: imageI)
  moreover have "new_refresh_token ?w = new_refresh_token w" by (simp add: new_refresh_token_def revoke_where_def)
  ultimately show ?thesis
    using assms(4,6,9) by (simp add: Refresh_def Let_def bindE_run mapErr_def attemptE_run now_run Record_then
        thenE_run [of "Sessions_Revoke _"] returnE_run)
qed

lemma demo_refresh:
  assumes "HashToken (new_refresh_token demo_signed_in) \<noteq> HashToken ''t1''"
  shows "\<exists>pair w'. Refresh sample_ext demo_service ''t1'' demo_meta demo_signed_in = (Inr pair, w')"
proof -
  have tok: "trim_space ''t1'' = ''t1''" by code_simp
  have len: "length (new_session_id demo_signed_in) = 32"
    by (simp add: new_session_id_def length_hex_encode demo_signed_in_def demo_world_def entropy_world_def)
  have sid: "new_session_id demo_signed_in \<noteq> ''s1''"
  proof
    assume "new_session_id demo_signed_in = ''s1''"
    then show False using len by simp
  qed
  have fresh: "fresh_entropy demo_signed_in"
    using assms sid unfolding fresh_entropy_def
    by (simp add: demo_signed_in_def demo_world_def entropy_world_def demo_session_def)
  have sign: "\<exists>t. jwt_sign sample_ext (iKey (asIssuer demo_service))
      (new_claims (asIssuer demo_service) demo_admin (hex_encode (take 16 (wEntropy demo_signed_in))) (wNow demo_signed_in)) = Some t"
    by (simp add: sample_ext_def sample_sign_def new_claims_def truncate_claims_def whole_seconds_def in_int64_def
        demo_service_def demo_signed_in_def demo_world_def entropy_world_def Let_def)
  have "demo_session \<in> set (wSessions demo_signed_in)" "sRefreshHash demo_session = HashToken (trim_space ''t1'')"
    "session_Active demo_session (wNow demo_signed_in)" "demo_admin \<in> set (wUsers demo_signed_in)"
    "uID demo_admin = sUserID demo_session" "\<not> uDisabled demo_admin" "trim_space ''t1'' \<noteq> ''''"
    unfolding tok
    by (simp_all add: demo_signed_in_def demo_session_def demo_world_def demo_admin_def zero_user_def session_Active_def
        is_zero_def before_def entropy_world_def)
  then show ?thesis
    using Refresh_ready [OF demo_signed_in_ok(3,1)] fresh sign by blast
qed

text \<open>
  On the demo installation the refresh succeeds unless the new token's SHA-256 happens to
  be that of the old one.
\<close>

theorem Refresh_rotates_witness:
  "HashToken (new_refresh_token demo_signed_in) = HashToken ''t1''
   \<or> (\<exists>pair w'. Refresh sample_ext demo_service ''t1'' demo_meta demo_signed_in = (Inr pair, w')
        \<and> length (wSessions w') = 2 \<and> tpUser pair = demo_admin)"
proof (cases "HashToken (new_refresh_token demo_signed_in) = HashToken ''t1''")
  case False
  then obtain pair w' where run: "Refresh sample_ext demo_service ''t1'' demo_meta demo_signed_in = (Inr pair, w')"
    using demo_refresh by blast
  have "wNow demo_signed_in \<noteq> 0" using demo_signed_in_ok(2) by simp
  note rot = Refresh_rotates [OF demo_signed_in_ok(1) this run, of demo_signed_in]
  have "wSessions demo_signed_in = [demo_session]" "wUsers demo_signed_in = [demo_admin]"
    by (simp_all add: demo_signed_in_def demo_world_def)
  then have "length (wSessions w') = 2" "tpUser pair = demo_admin"
    using rot by (auto simp: revoke_where_def)
  with run show ?thesis by blast
qed simp

text \<open>
  A refresh that fails, for whatever reason and with whatever statements failing,
  makes no session active: whatever is active afterwards is a row that was active before.
\<close>

theorem Refresh_failure_safe:
  assumes "wNow w \<noteq> 0" and "Refresh X S tok meta w = (Inl e, w')"
  shows "{s \<in> set (wSessions w'). session_Active s t} \<subseteq> {s \<in> set (wSessions w). session_Active s t}"
proof -
  let ?I = "\<lambda>v :: world. wNow v = wNow w \<and> (\<forall>s\<in>set (wSessions v). s \<in> set (wSessions w) \<or> \<not> is_zero (sRevokedAt s))"
  have b: "fault_blind ?I" "blind wEntropy_update ?I" by (simp_all add: fault_blind_def blind_def)
  have rev: "?I v \<Longrightarrow> ?I (revoke_where p (wNow w) v)" for v p
    using assms(1) by (auto simp: revoke_where_def is_zero_def)
  have keeps_rev: "keeps ?I (bindE now (\<lambda>t. db (modifyE (revoke_where p t))))" for p
  proof (rule keepsI)
    fix v assume v: "?I v"
    have "keeps ?I (db (modifyE (revoke_where p (wNow w))))" using b(1) rev by (intro keeps_db keeps_modifyE) auto
    with v show "?I (snd (bindE now (\<lambda>t. db (modifyE (revoke_where p t))) v))"
      using keepsD by (fastforce simp: bindE_run now_run)
  qed
  have kr: "keeps ?I (Sessions_Revoke i)" "keeps ?I (Sessions_RevokeAllForUser i)" for i
    unfolding Sessions_Revoke_def Sessions_RevokeAllForUser_def by (rule keeps_rev)+
  have "on_error ?I (Refresh X S tok meta)"
    unfolding Refresh_def Let_def
    by (intro on_error_if on_error_thenE on_error_bindE [OF keeps_mapErr] on_error_bindE [OF keeps_now]
        on_error_bindE_last [OF on_error_issuePair] on_error_keeps [OF keeps_throwE] kr keeps_ignoreE
        keeps_ByRefreshHash keeps_Users_ByID b succeeds_thenE_returnE succeeds_Record)
  from on_errorD [OF this _ assms(2)] show ?thesis by (auto simp: session_Active_def)
qed

theorem Refresh_failure_safe_witness:
  "\<exists>w'. Refresh sample_ext demo_service ''t1'' demo_meta (demo_signed_in\<lparr>wFaults := [True]\<rparr>) = (Inl DriverError, w')
     \<and> {s \<in> set (wSessions w'). session_Active s (wNow demo_signed_in)} \<subseteq> {demo_session}"
proof -
  let ?w = "demo_signed_in\<lparr>wFaults := [True]\<rparr>"
  have tok: "trim_space ''t1'' \<noteq> ''''" by code_simp
  have run: "Refresh sample_ext demo_service ''t1'' demo_meta ?w = (Inl DriverError, demo_signed_in\<lparr>wFaults := []\<rparr>)"
    using tok by (simp add: Refresh_def mapErr_def Sessions_ByRefreshHash_def db_def bindE_run attemptE_run throwE_run
        not_found_as_def Let_def)
  have "wNow ?w \<noteq> 0" using demo_signed_in_ok(2) by simp
  note safe = Refresh_failure_safe [OF this run, of "wNow demo_signed_in"]
  have "set (wSessions ?w) = {demo_session}" by (simp add: demo_signed_in_def)
  then have "{s \<in> set (wSessions ?w). session_Active s (wNow demo_signed_in)} \<subseteq> {demo_session}" by auto
  from subset_trans [OF safe this] run show ?thesis by blast
qed

section \<open>Logout\<close>

text \<open>
  When logout reports success, no session of the presented refresh token is active any
  more, at any time.
\<close>

theorem Logout_ends_session:
  assumes "db_ok w" and "wNow w \<noteq> 0" and "Logout S tok i meta w = (Inr (), w')" and "trim_space tok \<noteq> ''''"
  shows "\<forall>s\<in>set (wSessions w'). sRefreshHash s = HashToken (trim_space tok) \<longrightarrow> \<not> session_Active s t"
proof -
  let ?h = "HashToken (trim_space tok)"
  obtain r w1 where 1: "Sessions_ByRefreshHash ?h w = (r, w1)" by (metis prod.exhaust)
  have q: "quiet w w1" using 1 by (elim keeps_quiet [rotated]) (intro keeps_intros fault_blind_iff)
  show ?thesis
  proof (cases r)
    case (Inl e)
    then have w': "w' = w1" and e: "e = ErrNotFound"
      using assms(3,4) 1 by (auto simp: Logout_def attemptE_run returnE_run throwE_run Let_def split: if_splits)
    have "find (\<lambda>s. sRefreshHash s = ?h) (wSessions w) = None"
      using 1 Inl e unfolding Sessions_ByRefreshHash_def
      by (auto simp: db_def throwE_run split: list.splits if_splits option.splits)
    then show ?thesis using q w' by (auto simp: find_eq_None quiet_def)
  next
    case (Inr s)
    have s: "s \<in> set (wSessions w)" "sRefreshHash s = ?h"
      using Sessions_ByRefreshHash_Inr [OF 1 [unfolded Inr]] by auto
    obtain w2 where 2: "Sessions_Revoke (sID s) w1 = (Inr (), w2)" and w': "\<exists>ev r'. Record (asRecorder S) ev w2 = (r', w')"
      using assms(3,4) 1 Inr by (auto simp: Logout_def attemptE_run thenE_def bindE_Inr Let_def split: if_splits)
    have "wSessions w' = wSessions (revoke_where (\<lambda>x. sID x = sID s) (wNow w) w)"
      using Sessions_Revoke_Inr [OF 2] q w' by (auto simp: quiet_def revoke_where_def dest: Record_frame)
    then show ?thesis using revoked_inactive [OF assms(1) s(1) assms(2)] s(2) by auto
  qed
qed

theorem Logout_ends_session_witness:
  "\<exists>w'. Logout demo_service ''t1'' \<lparr>idUserID = ''u1'', idUsername = ''Ada'', idRole = ''admin'', idTokenID = '''', idScopes = []\<rparr>
        demo_meta demo_signed_in = (Inr (), w')
     \<and> (\<forall>s\<in>set (wSessions w'). sRefreshHash s = HashToken (trim_space ''t1'') \<longrightarrow> \<not> session_Active s hour)"
proof -
  let ?i = "\<lparr>idUserID = ''u1'', idUsername = ''Ada'', idRole = ''admin'', idTokenID = '''', idScopes = []\<rparr>"
  have tok: "trim_space ''t1'' = ''t1''" by code_simp
  have "Sessions_ByRefreshHash (HashToken ''t1'') demo_signed_in = (Inr demo_session, demo_signed_in)"
    using ByRefreshHash_present [OF demo_signed_in_ok(1) _ demo_signed_in_ok(3), of demo_session]
    by (simp add: demo_signed_in_def demo_session_def)
  then obtain w' where run: "Logout demo_service ''t1'' ?i demo_meta demo_signed_in = (Inr (), w')"
    using demo_signed_in_ok(3)
    by (simp add: Logout_def tok attemptE_run thenE_run Sessions_Revoke_def prog_simps Let_def) (metis Record_eq)
  have "wNow demo_signed_in \<noteq> 0" "trim_space ''t1'' \<noteq> ''''" using demo_signed_in_ok(2) tok by simp_all
  from Logout_ends_session [OF demo_signed_in_ok(1) this(1) run this(2)] run show ?thesis by blast
qed

section \<open>Bearer credentials\<close>

lemma Authenticate_Inr:
  assumes "Auth_Authenticate X S cred w = (Inr i, w')"
  shows "\<exists>u\<in>set (wUsers w). idUserID i = uID u \<and> idUsername i = uUsername u \<and> idRole i = uRole u \<and> \<not> uDisabled u
    \<and> (if IsAPIToken (trim_space cred)
       then \<exists>t\<in>set (wTokens w). tTokenHash t = HashToken (trim_space cred) \<and> token_Active t (wNow w)
              \<and> tUserID t = uID u \<and> idTokenID i = tID t \<and> idScopes i = tScopes t
       else \<exists>c. TokenIssuer_Parse X (asIssuer S) (trim_space cred) w = (Inr c, w) \<and> cUserID c = uID u)"
proof (cases "IsAPIToken (trim_space cred)")
  case True
  then have run: "authenticateAPIToken (trim_space cred) w = (Inr i, w')"
    using assms by (auto simp: Auth_Authenticate_def throwE_run Let_def split: if_splits)
  then obtain t w1 u w2 where 1: "Tokens_ByHash (HashToken (trim_space cred)) w = (Inr t, w1)" and act: "token_Active t (wNow w1)"
    and 2: "Users_ByID (tUserID t) w1 = (Inr u, w2)" and dis: "\<not> uDisabled u"
    and i: "i = \<lparr>idUserID = uID u, idUsername = uUsername u, idRole = uRole u, idTokenID = tID t, idScopes = tScopes t\<rparr>"
    unfolding authenticateAPIToken_def
    by (auto simp: bindE_Inr now_run throwE_run thenE_def returnE_run split: if_splits)
  have t: "t \<in> set (wTokens w)" "tTokenHash t = HashToken (trim_space cred)" "quiet w w1"
    using Tokens_ByHash_Inr [OF 1] by auto
  have u: "u \<in> set (wUsers w)" "uID u = tUserID t"
    using Users_ByID_Inr [OF 2] t(3) by (auto simp: quiet_def)
  have "token_Active t (wNow w)" using act t(3) by (simp add: quiet_def)
  with t(1,2) u(2) i have "\<exists>t\<in>set (wTokens w). tTokenHash t = HashToken (trim_space cred) \<and> token_Active t (wNow w)
      \<and> tUserID t = uID u \<and> idTokenID i = tID t \<and> idScopes i = tScopes t"
    by (intro bexI [of _ t]) simp_all
  with True u(1) dis i show ?thesis by (intro bexI [of _ u]) simp_all
next
  case False
  then have run: "authenticateJWT X S (trim_space cred) w = (Inr i, w')"
    using assms by (auto simp: Auth_Authenticate_def throwE_run Let_def split: if_splits)
  then obtain c w1 u w2 where 1: "TokenIssuer_Parse X (asIssuer S) (trim_space cred) w = (Inr c, w1)"
    and 2: "Users_ByID (cUserID c) w1 = (Inr u, w2)" and dis: "\<not> uDisabled u"
    and i: "i = \<lparr>idUserID = uID u, idUsername = uUsername u, idRole = uRole u, idTokenID = '''', idScopes = []\<rparr>"
    unfolding authenticateJWT_def
    by (auto simp: bindE_Inr throwE_run returnE_run split: if_splits)
  have "w1 = w" using keeps_run [OF keeps_Parse [of "\<lambda>v. v = w"] _ 1] by simp
  with Users_ByID_Inr [OF 2] have "u \<in> set (wUsers w)" "uID u = cUserID c" by simp_all
  with False 1 dis i \<open>w1 = w\<close> show ?thesis by (intro bexI [of _ u]) simp_all
qed

text \<open>
  C12: a credential that authenticates gives the id, name and role the account has now, not
  what a token claims; the account exists and is enabled, and the credential is a signed
  token of that account or an active API token of it.
\<close>

theorem Authenticate_current:
  assumes "Auth_Authenticate X S cred w = (Inr i, w')"
  shows "\<exists>u\<in>set (wUsers w). idUserID i = uID u \<and> idUsername i = uUsername u \<and> idRole i = uRole u \<and> \<not> uDisabled u
    \<and> (if IsAPIToken (trim_space cred)
       then \<exists>t\<in>set (wTokens w). tTokenHash t = HashToken (trim_space cred) \<and> token_Active t (wNow w)
              \<and> tUserID t = uID u \<and> idTokenID i = tID t \<and> idScopes i = tScopes t
       else \<exists>c. TokenIssuer_Parse X (asIssuer S) (trim_space cred) w = (Inr c, w) \<and> cUserID c = uID u)"
  using assms by (rule Authenticate_Inr)

definition demo_token :: api_token where
  "demo_token = \<lparr>tID = ''k1'', tUserID = ''u1'', tName = ''ci'', tPrefix = ''isk_ab'', tTokenHash = HashToken ''isk_ab_cd'',
     tScopes = [''read''], tCreatedAt = second, tExpiresAt = 0, tLastUsedAt = 0, tRevokedAt = 0\<rparr>"

theorem Authenticate_current_witness:
  "\<exists>i w'. Auth_Authenticate sample_ext demo_service ''isk_ab_cd '' (demo_world\<lparr>wTokens := [demo_token]\<rparr>) = (Inr i, w')
     \<and> idUserID i = ''u1'' \<and> idRole i = ''admin''"
proof -
  let ?w = "demo_world\<lparr>wTokens := [demo_token]\<rparr>"
  have cred: "trim_space ''isk_ab_cd '' = ''isk_ab_cd''" "IsAPIToken ''isk_ab_cd''" by code_simp+
  have fields: "wFaults ?w = []" "wUsers ?w = [demo_admin]" "wNow ?w = hour"
    by (simp_all add: demo_world_def entropy_world_def)
  obtain i w' where run: "Auth_Authenticate sample_ext demo_service ''isk_ab_cd '' ?w = (Inr i, w')"
    using fields
    by (simp add: Auth_Authenticate_def cred authenticateAPIToken_def mapErr_def Tokens_ByHash_def Tokens_find_def
        Users_ByID_def Users_scanOne_def prog_simps demo_token_def token_Active_def is_zero_def demo_admin_def
        zero_user_def Let_def)
  have "uID demo_admin = ''u1''" "uRole demo_admin = ''admin''" by (simp_all add: demo_admin_def)
  with run fields Authenticate_current [OF run] show ?thesis by auto
qed

section \<open>Bootstrap\<close>

lemma Users_Create_Inr:
  assumes "Users_Create u w = (Inr (), w')" "uCreatedAt u \<noteq> 0"
  shows "wUsers w' = wUsers w @ [u\<lparr>uUpdatedAt := wNow w\<rparr>] \<and> wSessions w' = wSessions w \<and> wNow w' = wNow w"
  using assms unfolding Users_Create_def
  by (elim bindE_InrE) (auto simp: now_run Let_def is_zero_def insert_user_def elim!: db_Inr split: if_splits)

lemma create_attempt:
  "attemptE (Users_Create u) (\<lambda>res. case res of Inl e \<Rightarrow> throwE (f e) | Inr _ \<Rightarrow> returnE u) w = (Inr v, w')
    \<longleftrightarrow> v = u \<and> Users_Create u w = (Inr (), w')"
  by (auto simp: attemptE_run throwE_run returnE_run split: prod.splits sum.splits)

lemma createUser_Inr:
  assumes "createUser X n pw r w = (Inr u, w')" "wNow w \<noteq> 0"
  shows "wUsers w' = wUsers w @ [u\<lparr>uUpdatedAt := wNow w\<rparr>] \<and> wSessions w' = wSessions w \<and> wNow w' = wNow w
    \<and> uUsername u = trim_space n \<and> uRole u = r \<and> \<not> uDisabled u \<and> \<not> uTOTPEnabled u
    \<and> ValidatePassword X pw = Inr () \<and> (\<exists>v v'. HashPassword X pw v = (Inr (uPasswordHash u), v'))"
proof -
  obtain h w1 i w2 where val: "ValidatePassword X pw = Inr ()" and 1: "HashPassword X pw w = (Inr h, w1)"
    and 2: "NewID w1 = (Inr i, w2)"
    and 3: "Users_Create (zero_user\<lparr>uID := i, uUsername := trim_space n, uRole := r, uPasswordHash := h, uCreatedAt := wNow w2\<rparr>) w2
              = (Inr (), w')"
    and u: "u = zero_user\<lparr>uID := i, uUsername := trim_space n, uRole := r, uPasswordHash := h, uCreatedAt := wNow w2\<rparr>"
    using assms(1) unfolding createUser_def Let_def
    by (clarsimp simp: throwE_run thenE_def bindE_Inr liftE_def returnE_run now_run create_attempt
        split: if_splits sum.splits)
  have "quiet w w1" using 1 by (elim keeps_quiet [rotated]) (intro keeps_intros)
  moreover have "quiet w1 w2" using 2 by (elim keeps_quiet [rotated]) (intro keeps_intros)
  ultimately have q: "quiet w w2" by (rule quiet_trans)
  then have "wNow w2 \<noteq> 0" using assms(2) by (simp add: quiet_def)
  then show ?thesis
    using Users_Create_Inr [OF 3] q val 1 unfolding u by (auto simp: quiet_def zero_user_def)
qed

lemma Bootstrap_result:
  assumes "argon_ok X" and "wNow w \<noteq> 0" and "Bootstrap X S n pw meta w = (r, w')"
  shows "(wUsers w \<noteq> [] \<longrightarrow> wUsers w' = wUsers w \<and> wSessions w' = wSessions w \<and> (\<exists>e. r = Inl e))
    \<and> (\<forall>pair. r = Inr pair \<longrightarrow>
         (\<exists>u. wUsers w' = [u] \<and> uUsername u = trim_space n \<and> uRole u = RoleAdmin \<and> \<not> uDisabled u
            \<and> VerifyPassword X (uPasswordHash u) pw = Inr True
            \<and> (\<exists>s. wSessions w' = wSessions w @ [s] \<and> sUserID s = uID u
                 \<and> sRefreshHash s = HashToken (tpRefreshToken pair))))"
proof (cases "wUsers w = []")
  case False
  obtain b w1 where 1: "Auth_Initialized w = (b, w1)" by (metis prod.exhaust)
  then have "quiet w w1" by (rule quiet_login_reads)
  moreover have "b = Inr False \<Longrightarrow> False" using Initialized_Inr [of w False w1] 1 False by auto
  ultimately show ?thesis
    using assms(3) 1 False by (cases b) (auto simp: Bootstrap_def bindE_run throwE_run quiet_def split: if_splits)
next
  case True
  have "\<exists>u. wUsers w' = [u] \<and> uUsername u = trim_space n \<and> uRole u = RoleAdmin \<and> \<not> uDisabled u
            \<and> VerifyPassword X (uPasswordHash u) pw = Inr True
            \<and> (\<exists>s. wSessions w' = wSessions w @ [s] \<and> sUserID s = uID u
                 \<and> sRefreshHash s = HashToken (tpRefreshToken pair))" if r: "r = Inr pair" for pair
  proof -
    obtain w1 u w2 w3 where 1: "Auth_Initialized w = (Inr False, w1)" and 2: "createUser X n pw RoleAdmin w1 = (Inr u, w2)"
      and 3: "issuePair X S u meta w2 = (Inr pair, w3)"
      and 4: "\<exists>ev. w' = snd (Record (asRecorder S) ev w3)"
      using assms(3) r unfolding Bootstrap_def
      by (clarsimp simp: bindE_Inr throwE_run Record_then returnE_run split: if_splits) blast
    have q: "quiet w w1" using quiet_login_reads(1) [OF 1] .
    have c: "wUsers w2 = [u\<lparr>uUpdatedAt := wNow w\<rparr>]" "wSessions w2 = wSessions w" "uUsername u = trim_space n"
        "uRole u = RoleAdmin" "\<not> uDisabled u" "\<exists>v v'. HashPassword X pw v = (Inr (uPasswordHash u), v')"
      using createUser_Inr [OF 2] q assms(2) True by (auto simp: quiet_def)
    have "VerifyPassword X (uPasswordHash u) pw = Inr True"
      using c(6) hash_verifies [OF assms(1)] by blast
    moreover have "wUsers w' = wUsers w3" "wSessions w' = wSessions w3"
      using 4 Record_frame by (metis prod.collapse)+
    ultimately show ?thesis using issuePair_Inr [OF 3] c by auto
  qed
  with True show ?thesis by blast
qed

text \<open>
  Bootstrap creates an account only on an installation that has none; that account is
  an enabled administrator under the given name, its hash verifies the given password, and
  it is signed in. On any other installation no account and no session changes.
\<close>

theorem Bootstrap_once:
  assumes "argon_ok X" and "wNow w \<noteq> 0" and "Bootstrap X S n pw meta w = (r, w')"
  shows "(wUsers w \<noteq> [] \<longrightarrow> wUsers w' = wUsers w \<and> wSessions w' = wSessions w \<and> (\<exists>e. r = Inl e))
    \<and> (\<forall>pair. r = Inr pair \<longrightarrow>
         (\<exists>u. wUsers w' = [u] \<and> uUsername u = trim_space n \<and> uRole u = RoleAdmin \<and> \<not> uDisabled u
            \<and> VerifyPassword X (uPasswordHash u) pw = Inr True
            \<and> (\<exists>s. wSessions w' = wSessions w @ [s] \<and> sUserID s = uID u
                 \<and> sRefreshHash s = HashToken (tpRefreshToken pair))))"
  using assms by (rule Bootstrap_result)

definition blank_world :: world where
  "blank_world = (entropy_world (replicate 96 7))\<lparr>wNow := hour\<rparr>"

lemma demo_bootstrap:
  "\<exists>pair w'. Bootstrap sample_ext demo_service ''ada'' ''Correct Horse 1'' meta blank_world = (Inr pair, w')"
proof -
  have n: "trim_space ''ada'' = ''ada''" by code_simp
  have v: "ValidatePassword sample_ext ''Correct Horse 1'' = Inr ()" by code_simp
  let ?id = "hex_encode (replicate 16 7)"
  obtain h where h: "HashPassword sample_ext ''Correct Horse 1'' blank_world = (Inr h, blank_world\<lparr>wEntropy := replicate 80 7\<rparr>)"
    by (simp add: HashPassword_run blank_world_def entropy_world_def)
  have i: "NewID (blank_world\<lparr>wEntropy := replicate 80 7\<rparr>) = (Inr ?id, blank_world\<lparr>wEntropy := replicate 64 7\<rparr>)"
    by (simp add: NewID_def randomID_def rand_read_def prog_simps blank_world_def entropy_world_def)
  let ?u = "zero_user\<lparr>uID := ?id, uUsername := ''ada'', uRole := RoleAdmin, uPasswordHash := h, uCreatedAt := hour\<rparr>"
  let ?w = "blank_world\<lparr>wEntropy := replicate 64 7, wUsers := [?u\<lparr>uUpdatedAt := hour\<rparr>]\<rparr>"
  have c: "createUser sample_ext ''ada'' ''Correct Horse 1'' RoleAdmin blank_world = (Inr ?u, ?w)"
    using h i
    by (simp add: createUser_def n v liftE_def thenE_run bindE_run returnE_run now_run attemptE_run Users_Create_def
        insert_user_def db_no_faults blank_world_def entropy_world_def ValidRole_def is_zero_def Let_def)
  have sign: "\<exists>t. jwt_sign sample_ext (iKey (asIssuer demo_service))
      (new_claims (asIssuer demo_service) ?u (hex_encode (take 16 (wEntropy ?w))) (wNow ?w)) = Some t"
    by (simp add: sample_ext_def sample_sign_def new_claims_def truncate_claims_def whole_seconds_def in_int64_def
        demo_service_def blank_world_def entropy_world_def Let_def)
  have "wFaults ?w = []" "uID ?u \<in> uID ` set (wUsers ?w)" "fresh_entropy ?w"
    by (simp_all add: blank_world_def entropy_world_def fresh_entropy_def)
  then obtain pair w' where p: "issuePair sample_ext demo_service ?u meta ?w = (Inr pair, w')"
    using issuePair_run [of ?w ?u] sign by blast
  have "Auth_Initialized blank_world = (Inr False, blank_world)"
    by (simp add: Auth_Initialized_def Users_Count_def prog_simps blank_world_def entropy_world_def)
  then show ?thesis using c p by (simp add: Bootstrap_def bindE_run Record_then returnE_run)
qed

theorem Bootstrap_once_witness:
  "\<exists>pair w' u. Bootstrap sample_ext demo_service ''ada'' ''Correct Horse 1'' demo_meta blank_world = (Inr pair, w')
     \<and> wUsers w' = [u] \<and> uRole u = RoleAdmin \<and> VerifyPassword sample_ext (uPasswordHash u) ''Correct Horse 1'' = Inr True"
proof -
  obtain pair w' where run: "Bootstrap sample_ext demo_service ''ada'' ''Correct Horse 1'' demo_meta blank_world = (Inr pair, w')"
    using demo_bootstrap by blast
  have "wNow blank_world \<noteq> 0" by (simp add: blank_world_def)
  from Bootstrap_once [OF sample_ext_ok(1) this run] run show ?thesis by blast
qed

end
