(* ===== verification/Service_Users.thy ===== *)
theory Service_Users
  imports Service_Auth_Sessions
begin

text \<open>
  Account administration and two-factor enrolment, internal/service/users.go. The collaborators
  are the tables of the world, an optional secret box, and the presence of the session
  repository and of the recorder.
\<close>

section \<open>Operations\<close>

record users_service =
  usSecrets :: "secret_box option"
  usSessions :: bool
  usRecorder :: bool

definition svc_validRole :: "role \<Rightarrow> bool" where
  "svc_validRole r \<longleftrightarrow> r = RoleAdmin \<or> r = RoleOperator \<or> r = RoleViewer"

definition Svc_List :: "user list io" where
  "Svc_List = Users_List"

definition Svc_Get :: "string \<Rightarrow> user io" where
  "Svc_Get i = mapErr (not_found_as ErrUserNotFound) (Users_ByID i)"

definition revokeSessions :: "users_service \<Rightarrow> string \<Rightarrow> unit io" where
  "revokeSessions S i = (if \<not> usSessions S then returnE () else Sessions_RevokeAllForUser i)"

definition users_record :: "users_service \<Rightarrow> identity \<Rightarrow> request_meta \<Rightarrow> string \<Rightarrow> user \<Rightarrow> detail \<Rightarrow> unit io" where
  "users_record S act meta action subject det =
     (if \<not> usRecorder S then returnE ()
      else Record True
        \<lparr>evActor = identity_Actor act, evAction = action, evResourceType = ''user'', evResourceID = uID subject,
         evErr = None, evDetail = Some (map_put ''username'' (AString (uUsername subject)) det),
         evIP = rmIP meta, evUserAgent = rmUserAgent meta\<rparr>)"

definition refuseIfLastAdmin :: "string \<Rightarrow> unit io" where
  "refuseIfLastAdmin i =
     bindE Users_List (\<lambda>all.
     if list_ex (\<lambda>other. uID other \<noteq> i \<and> uRole other = RoleAdmin \<and> \<not> uDisabled other) all then returnE ()
     else throwE ErrLastAdmin)"

record create_input =
  ciUsername :: string
  ciPassword :: string
  ciRole :: role

definition Svc_Create :: "ext \<Rightarrow> users_service \<Rightarrow> create_input \<Rightarrow> identity \<Rightarrow> request_meta \<Rightarrow> user io" where
  "Svc_Create X S inp act meta =
     (let username = trim_space (ciUsername inp) in
      if username = '''' then throwE ErrUsernameRequired
      else if \<not> svc_validRole (ciRole inp) then throwE ErrInvalidRole
      else thenE (liftE (ValidatePassword X (ciPassword inp)))
       (bindE (HashPassword X (ciPassword inp)) (\<lambda>hash.
        bindE NewID (\<lambda>i.
        bindE now (\<lambda>t.
        let u = zero_user\<lparr>uID := i, uUsername := username, uRole := ciRole inp, uPasswordHash := hash, uCreatedAt := t\<rparr>
        in attemptE (Users_Create u) (\<lambda>res.
           case res of
             Inl e \<Rightarrow> throwE (if e = ErrConflict then ErrUsernameUnavailable else e)
           | Inr _ \<Rightarrow>
               thenE (users_record S act meta ''user.create'' u [(''role'', AString (uRole u))])
               (returnE u)))))))"

record update_input =
  uiRole :: "role option"
  uiPassword :: "string option"
  uiDisabled :: "bool option"

text \<open>The three optional parts of \<open>Update\<close>; each returns the account and what it changed.\<close>

definition update_role :: "user \<Rightarrow> role option \<Rightarrow> (user \<times> detail) io" where
  "update_role u req =
     (case req of
        None \<Rightarrow> returnE (u, [])
      | Some r \<Rightarrow>
          if r = uRole u then returnE (u, [])
          else if \<not> svc_validRole r then throwE ErrInvalidRole
          else thenE (whenE (uRole u = RoleAdmin) (refuseIfLastAdmin (uID u)))
              (thenE (Users_UpdateRole (uID u) r)
              (returnE (u\<lparr>uRole := r\<rparr>, [(''role'', AString r)]))))"

definition update_disabled :: "users_service \<Rightarrow> user \<Rightarrow> bool option \<Rightarrow> (user \<times> detail) io" where
  "update_disabled S u req =
     (case req of
        None \<Rightarrow> returnE (u, [])
      | Some d \<Rightarrow>
          if d = uDisabled u then returnE (u, [])
          else thenE (whenE (d \<and> uRole u = RoleAdmin) (refuseIfLastAdmin (uID u)))
              (thenE (Users_SetDisabled (uID u) d)
              (thenE (whenE d (revokeSessions S (uID u)))
              (returnE (u\<lparr>uDisabled := d\<rparr>, [(''disabled'', AOther (if d then ''true'' else ''false''))])))))"

definition update_password :: "ext \<Rightarrow> users_service \<Rightarrow> user \<Rightarrow> string option \<Rightarrow> detail io" where
  "update_password X S u req =
     (case req of
        None \<Rightarrow> returnE []
      | Some pw \<Rightarrow>
          thenE (liftE (ValidatePassword X pw))
          (bindE (HashPassword X pw) (\<lambda>hash.
           thenE (Users_UpdatePassword (uID u) hash)
           (thenE (revokeSessions S (uID u))
           (returnE [(''password'', AString ''reset'')])))))"

definition Svc_Update :: "ext \<Rightarrow> users_service \<Rightarrow> string \<Rightarrow> update_input \<Rightarrow> identity \<Rightarrow> request_meta \<Rightarrow> user io" where
  "Svc_Update X S i inp act meta =
     bindE (Svc_Get i) (\<lambda>u.
     bindE (update_role u (uiRole inp)) (\<lambda>(u, ch1).
     bindE (update_disabled S u (uiDisabled inp)) (\<lambda>(u, ch2).
     bindE (update_password X S u (uiPassword inp)) (\<lambda>ch3.
     if ch1 @ ch2 @ ch3 = [] then returnE u
     else thenE (users_record S act meta ''user.update'' u (ch1 @ ch2 @ ch3)) (returnE u)))))"

definition Svc_Delete :: "users_service \<Rightarrow> string \<Rightarrow> identity \<Rightarrow> request_meta \<Rightarrow> unit io" where
  "Svc_Delete S i act meta =
     bindE (Svc_Get i) (\<lambda>u.
     if uID u = idUserID act then throwE ErrSelfDelete
     else thenE (whenE (uRole u = RoleAdmin) (refuseIfLastAdmin (uID u)))
         (thenE (revokeSessions S (uID u))
         (thenE (mapErr (not_found_as ErrUserNotFound) (Users_Delete (uID u)))
         (users_record S act meta ''user.delete'' u []))))"

record totp_setup =
  tsSecret :: string
  tsURI :: string

definition totpIssuer :: string where "totpIssuer = ''iskele''"

definition BeginTOTP :: "ext \<Rightarrow> users_service \<Rightarrow> identity \<Rightarrow> request_meta \<Rightarrow> totp_setup io" where
  "BeginTOTP X S act meta =
     (case usSecrets S of
        None \<Rightarrow> throwE ErrTOTPUnavailable
      | Some box \<Rightarrow>
          bindE (Svc_Get (idUserID act)) (\<lambda>u.
          if uTOTPEnabled u then throwE ErrTOTPEnabled
          else bindE NewTOTPSecret (\<lambda>secret.
               bindE (Encrypt X box secret) (\<lambda>encrypted.
               thenE (Users_SetTOTP (uID u) encrypted False)
               (thenE (users_record S act meta ''user.totp_begin'' u [])
               (returnE \<lparr>tsSecret = FormatTOTPSecret secret, tsURI = TOTPURI totpIssuer (uUsername u) secret\<rparr>))))))"

definition ConfirmTOTP :: "ext \<Rightarrow> users_service \<Rightarrow> string \<Rightarrow> identity \<Rightarrow> request_meta \<Rightarrow> unit io" where
  "ConfirmTOTP X S c act meta =
     (case usSecrets S of
        None \<Rightarrow> throwE ErrTOTPUnavailable
      | Some box \<Rightarrow>
          bindE (Svc_Get (idUserID act)) (\<lambda>u.
          if uTOTPEnabled u then throwE ErrTOTPEnabled
          else if uTOTPSecretEnc u = '''' then throwE ErrTOTPNotPending
          else bindE (liftE (Decrypt X box (uTOTPSecretEnc u))) (\<lambda>secret.
               bindE now (\<lambda>t.
               thenE (liftE (VerifyTOTP secret c t))
               (thenE (Users_SetTOTP (uID u) (uTOTPSecretEnc u) True)
               (users_record S act meta ''user.totp_enable'' u []))))))"

definition DisableTOTP :: "ext \<Rightarrow> users_service \<Rightarrow> string \<Rightarrow> identity \<Rightarrow> request_meta \<Rightarrow> unit io" where
  "DisableTOTP X S c act meta =
     (case usSecrets S of
        None \<Rightarrow> throwE ErrTOTPUnavailable
      | Some box \<Rightarrow>
          bindE (Svc_Get (idUserID act)) (\<lambda>u.
          if \<not> uTOTPEnabled u then returnE ()
          else bindE (liftE (Decrypt X box (uTOTPSecretEnc u))) (\<lambda>secret.
               bindE now (\<lambda>t.
               thenE (liftE (VerifyTOTP secret c t))
               (thenE (Users_SetTOTP (uID u) '''' False)
               (users_record S act meta ''user.totp_disable'' u []))))))"

definition ResetTOTP :: "users_service \<Rightarrow> string \<Rightarrow> identity \<Rightarrow> request_meta \<Rightarrow> unit io" where
  "ResetTOTP S i act meta =
     bindE (Svc_Get i) (\<lambda>u.
     if uID u = idUserID act then throwE ErrOwnTOTPReset
     else thenE (Users_SetTOTP (uID u) '''' False)
         (thenE (revokeSessions S (uID u))
         (users_record S act meta ''user.totp_reset'' u [])))"

section \<open>The schema's constraints\<close>

lemma db_ok_helpers:
  "keeps db_ok (Svc_Get i)" "keeps db_ok (revokeSessions S i)" "keeps db_ok (users_record S act meta a u d)"
  "keeps db_ok (refuseIfLastAdmin i)"
  unfolding Svc_Get_def revokeSessions_def users_record_def refuseIfLastAdmin_def by - (intro db_ok_keeps)+

lemma db_ok_user_ops:
  "keeps db_ok (Svc_Create X S ci act meta)" "keeps db_ok (Svc_Update X S i ui act meta)"
  "keeps db_ok (Svc_Delete S i act meta)" "keeps db_ok (BeginTOTP X S act meta)"
  "keeps db_ok (ConfirmTOTP X S c act meta)" "keeps db_ok (DisableTOTP X S c act meta)"
  "keeps db_ok (ResetTOTP S i act meta)"
  unfolding Svc_Create_def Svc_Update_def update_role_def update_disabled_def update_password_def Svc_Delete_def
    BeginTOTP_def ConfirmTOTP_def DisableTOTP_def ResetTOTP_def Let_def
  by - (intro db_ok_keeps db_ok_helpers)+

end
