(* ===== verification/Middleware.thy ===== *)
theory Middleware
  imports Rate_Limit Tickets Service_Users
begin

text \<open>
  The HTTP vocabulary and the middleware chain: internal/httpx/errors.go,
  internal/server/middleware (rbac.go, auth.go, require.go, csrf.go, ratelimit.go's handler,
  requestid.go's check, ClientIP of logger.go) and the deny functions of
  internal/server/router.go.

  A handler is a program over the server's state that ends with an HTTP error or a
  response; a middleware maps handlers to handlers. The message and detail texts of an
  error are not kept, only its status and code. A request holds the headers the code reads,
  an absent one being the empty string; the identity the context carries is an argument of
  the handler, the zero identity where none was attached.
\<close>

section \<open>Errors\<close>

record api_error =
  aeStatus :: nat
  aeCode :: string

definition NewError :: "nat \<Rightarrow> string \<Rightarrow> api_error" where
  "NewError status c = \<lparr>aeStatus = status, aeCode = c\<rparr>"

definition ErrBadRequest :: api_error where "ErrBadRequest = NewError 400 ''BAD_REQUEST''"
definition ErrValidation :: api_error where "ErrValidation = NewError 422 ''VALIDATION_FAILED''"
definition ErrInternal :: api_error where "ErrInternal = NewError 500 ''INTERNAL''"

text \<open>An error a handler returns: already an \<open>APIError\<close>, or any other, which becomes an opaque 500.\<close>

datatype http_error = Api api_error | Raw go_error

fun AsAPIError :: "http_error \<Rightarrow> api_error" where
  "AsAPIError (Api e) = e"
| "AsAPIError (Raw _) = ErrInternal"

section \<open>Roles and permissions\<close>

type_synonym permission = string

definition PermRead :: permission where "PermRead = ''read''"
definition PermOperate :: permission where "PermOperate = ''operate''"
definition PermCreate :: permission where "PermCreate = ''create''"
definition PermDelete :: permission where "PermDelete = ''delete''"
definition PermBuild :: permission where "PermBuild = ''build''"
definition PermPrune :: permission where "PermPrune = ''prune''"
definition PermPrivileged :: permission where "PermPrivileged = ''privileged''"
definition PermAdmin :: permission where "PermAdmin = ''admin''"

definition rolePermissions :: "(role \<times> permission list) list" where
  "rolePermissions =
     [(RoleViewer, [PermRead]),
      (RoleOperator, [PermRead, PermOperate, PermCreate, PermDelete]),
      (RoleAdmin, [PermRead, PermOperate, PermCreate, PermDelete, PermBuild, PermPrune, PermPrivileged, PermAdmin])]"

definition RoleHas :: "role \<Rightarrow> permission \<Rightarrow> bool" where
  "RoleHas r perm = (case map_of rolePermissions r of None \<Rightarrow> False | Some perms \<Rightarrow> perm \<in> set perms)"

definition allPermissions :: "permission list" where
  "allPermissions = [PermRead, PermOperate, PermCreate, PermDelete, PermBuild, PermPrune, PermPrivileged, PermAdmin]"

definition PermissionsOf :: "role \<Rightarrow> permission list" where
  "PermissionsOf r =
     filter (\<lambda>p. case map_of rolePermissions r of None \<Rightarrow> False | Some perms \<Rightarrow> p \<in> set perms) allPermissions"

section \<open>Requests\<close>

record http_request =
  rqMethod :: string
  rqHost :: string
  rqOrigin :: string
  rqAuthorization :: string
  rqUserAgent :: string
  rqRemoteAddr :: string
  rqTicket :: string

text \<open>The zero \<open>Identity\<close>, and \<open>Authenticated\<close>.\<close>

definition anonymous :: identity where
  "anonymous = \<lparr>idUserID = '''', idUsername = '''', idRole = '''', idTokenID = '''', idScopes = []\<rparr>"

definition Authenticated :: "identity \<Rightarrow> bool" where
  "Authenticated i \<longleftrightarrow> idUserID i \<noteq> ''''"

definition BearerToken :: "http_request \<Rightarrow> string" where
  "BearerToken rq =
     (if rqAuthorization rq = '''' then ''''
      else case str_cut (CHR '' '') (rqAuthorization rq) of
        (scheme, v, found) \<Rightarrow>
          if \<not> found \<or> \<not> equal_fold scheme ''bearer'' then '''' else trim_space v)"

text \<open>\<open>strings.Index(s, "://")\<close> and what follows it.\<close>

fun after_scheme :: "string \<Rightarrow> string option" where
  "after_scheme [] = None"
| "after_scheme (c # s) = (if has_prefix (c # s) ''://'' then Some (drop 3 (c # s)) else after_scheme s)"

definition OriginAllowed :: "http_request \<Rightarrow> string \<Rightarrow> string \<Rightarrow> bool" where
  "OriginAllowed rq origin allowedOrigin =
     (if origin = '''' then True
      else if allowedOrigin \<noteq> '''' \<and> equal_fold origin allowedOrigin then True
      else if rqHost rq = '''' then False
      else equal_fold (case after_scheme origin of None \<Rightarrow> origin | Some h \<Rightarrow> h) (rqHost rq))"

definition safeMethods :: "string list" where
  "safeMethods = [''GET'', ''HEAD'', ''OPTIONS'']"

text \<open>
  \<open>net.SplitHostPort\<close>, every failure of which is one to \<open>ClientIP\<close>: the host before the
  last colon, without the brackets of an IPv6 address.
\<close>

definition index_char :: "char \<Rightarrow> string \<Rightarrow> nat option" where
  "index_char c s = (if c \<in> set s then Some (length (takeWhile (\<lambda>x. x \<noteq> c) s)) else None)"

definition last_index_char :: "char \<Rightarrow> string \<Rightarrow> nat option" where
  "last_index_char c s =
     (if c \<in> set s then Some (length s - 1 - length (takeWhile (\<lambda>x. x \<noteq> c) (rev s))) else None)"

definition SplitHost :: "string \<Rightarrow> string option" where
  "SplitHost hostport =
     (case last_index_char (CHR '':'') hostport of
        None \<Rightarrow> None
      | Some i \<Rightarrow>
          if take 1 hostport = ''[''
          then (case index_char (CHR '']'') hostport of
                  None \<Rightarrow> None
                | Some e \<Rightarrow>
                    if e + 1 \<noteq> i then None
                    else if CHR ''['' \<in> set (drop 1 hostport) then None
                    else if CHR '']'' \<in> set (drop (e + 1) hostport) then None
                    else Some (drop 1 (take e hostport)))
          else (let host = take i hostport
                in if CHR '':'' \<in> set host then None
                   else if CHR ''['' \<in> set hostport then None
                   else if CHR '']'' \<in> set hostport then None
                   else Some host))"

definition ClientIP :: "http_request \<Rightarrow> string" where
  "ClientIP rq = (case SplitHost (rqRemoteAddr rq) of None \<Rightarrow> rqRemoteAddr rq | Some host \<Rightarrow> host)"

definition maxInboundRequestIDLen :: nat where "maxInboundRequestIDLen = 64"

definition sanitizeRequestID :: "string \<Rightarrow> string" where
  "sanitizeRequestID v =
     (if v = '''' \<or> maxInboundRequestIDLen < length v then ''''
      else if list_ex (\<lambda>(i, c). c < 33 \<or> 126 < c) (range_string v) then ''''
      else v)"

section \<open>The server's state\<close>

text \<open>
  What requests share: the store behind the services, the stream tickets and the two rate
  limiters of the router.
\<close>

record server =
  svWorld :: world
  svTickets :: ticket_store
  svGeneral :: rate_limiter
  svLogin :: rate_limiter

type_synonym 'a web = "(server, api_error, 'a) prog"
type_synonym 'a handler = "http_request \<Rightarrow> identity \<Rightarrow> 'a web"

text \<open>A call of a service from a handler, with the translation of its errors.\<close>

definition on_store :: "(go_error \<Rightarrow> http_error) \<Rightarrow> 'a io \<Rightarrow> 'a web" where
  "on_store f m = (\<lambda>s. case m (svWorld s) of
       (Inl e, w) \<Rightarrow> (Inl (AsAPIError (f e)), s\<lparr>svWorld := w\<rparr>)
     | (Inr x, w) \<Rightarrow> (Inr x, s\<lparr>svWorld := w\<rparr>))"

definition on_tickets :: "(go_error \<Rightarrow> http_error) \<Rightarrow> 'a tio \<Rightarrow> 'a web" where
  "on_tickets f m = (\<lambda>s. case m (svWorld s, svTickets s) of
       (Inl e, (w, t)) \<Rightarrow> (Inl (AsAPIError (f e)), s\<lparr>svWorld := w, svTickets := t\<rparr>)
     | (Inr x, (w, t)) \<Rightarrow> (Inr x, s\<lparr>svWorld := w, svTickets := t\<rparr>))"

section \<open>Denials\<close>

datatype deny_error = PermissionError role permission | ErrUnauthenticated | Service go_error

definition denyAuth :: "deny_error \<Rightarrow> api_error" where
  "denyAuth err =
     (case err of
        PermissionError r p \<Rightarrow> NewError 403 ''FORBIDDEN''
      | ErrUnauthenticated \<Rightarrow> NewError 401 ''UNAUTHORIZED''
      | Service e \<Rightarrow>
          if e = ErrTokenExpired then NewError 401 ''TOKEN_EXPIRED''
          else if e = ErrAccountDisabled then NewError 403 ''ACCOUNT_DISABLED''
          else if e = ErrTokenInvalid \<or> e = ErrSessionInvalid then NewError 401 ''UNAUTHORIZED''
          else AsAPIError (Raw e))"

definition denyRateLimited :: api_error where "denyRateLimited = NewError 429 ''RATE_LIMITED''"
definition denyCSRF :: api_error where "denyCSRF = NewError 403 ''CSRF_INVALID''"

section \<open>The middlewares\<close>

text \<open>The two limiters of the router, as fields of the state.\<close>

datatype limiter_id = GeneralLimiter | LoginLimiter

fun get_limiter :: "limiter_id \<Rightarrow> server \<Rightarrow> rate_limiter" where
  "get_limiter GeneralLimiter s = svGeneral s"
| "get_limiter LoginLimiter s = svLogin s"

fun put_limiter :: "limiter_id \<Rightarrow> rate_limiter \<Rightarrow> server \<Rightarrow> server" where
  "put_limiter GeneralLimiter l s = s\<lparr>svGeneral := l\<rparr>"
| "put_limiter LoginLimiter l s = s\<lparr>svLogin := l\<rparr>"

definition RateLimit :: "limiter_id \<Rightarrow> 'a handler \<Rightarrow> 'a handler" where
  "RateLimit which next = (\<lambda>rq i s.
     case Allow (ClientIP rq) (wNow (svWorld s)) (get_limiter which s) of
       ((allowed, retryAfter), l) \<Rightarrow>
         if \<not> allowed then throwE denyRateLimited (put_limiter which l s)
         else next rq i (put_limiter which l s))"

definition requireInitialized :: "'a handler \<Rightarrow> 'a handler" where
  "requireInitialized next = (\<lambda>rq i.
     bindE (on_store Raw Auth_Initialized) (\<lambda>initialized.
     if \<not> initialized then throwE (NewError 409 ''NOT_INITIALIZED'') else next rq i))"

definition Authenticate :: "ext \<Rightarrow> auth_service \<Rightarrow> 'a handler \<Rightarrow> 'a handler" where
  "Authenticate X S next = (\<lambda>rq i.
     let credential = BearerToken rq in
     if credential = '''' then next rq i
     else bindE (on_store (\<lambda>e. Api (denyAuth (Service e))) (Auth_Authenticate X S credential)) (\<lambda>identity.
          next rq identity))"

definition RequireAuth :: "'a handler \<Rightarrow> 'a handler" where
  "RequireAuth next = (\<lambda>rq i.
     if \<not> Authenticated i then throwE (denyAuth ErrUnauthenticated) else next rq i)"

definition CSRFGuard :: "string \<Rightarrow> 'a handler \<Rightarrow> 'a handler" where
  "CSRFGuard allowedOrigin next = (\<lambda>rq i.
     if rqMethod rq \<in> set safeMethods then next rq i
     else if rqOrigin rq \<noteq> '''' \<and> \<not> OriginAllowed rq (rqOrigin rq) allowedOrigin then throwE denyCSRF
     else if BearerToken rq = '''' then throwE denyCSRF
     else next rq i)"

definition RequirePermission :: "permission \<Rightarrow> 'a handler \<Rightarrow> 'a handler" where
  "RequirePermission perm next = (\<lambda>rq i.
     if \<not> Authenticated i then throwE (denyAuth ErrUnauthenticated)
     else if \<not> RoleHas (idRole i) perm then throwE (denyAuth (PermissionError (idRole i) perm))
     else next rq i)"

text \<open>
  The chain of the router's authenticated group, and of a route in it that asks for a
  permission.
\<close>

definition authenticated :: "ext \<Rightarrow> auth_service \<Rightarrow> 'a handler \<Rightarrow> 'a handler" where
  "authenticated X S next =
     RateLimit GeneralLimiter (requireInitialized (Authenticate X S (RequireAuth (CSRFGuard '''' next))))"

definition permitted :: "ext \<Rightarrow> auth_service \<Rightarrow> permission \<Rightarrow> 'a handler \<Rightarrow> 'a handler" where
  "permitted X S perm next = authenticated X S (RequirePermission perm next)"

end
