(* ===== verification/Api.thy ===== *)
theory Api
  imports Middleware
begin

text \<open>
  The identity endpoints of the HTTP API: internal/server/handlers/auth.go and users.go, the
  ticket endpoints of handlers/stream.go, and their routes in internal/server/router.go.

  Matching a path to its route is the work of the chi router and decoding a body that of
  encoding/json: a request reaches the model as the endpoint it matched, with its path
  parameter and its body, which is missing, malformed (or has an unknown field) or the
  decoded value. A response is its status and the value that is encoded as its body.
  Times in a response are the milliseconds that \<open>timeFormat\<close> prints.
\<close>

section \<open>Bodies\<close>

datatype 'a body = NoBody | Malformed | Decoded 'a

fun decodeJSON :: "'a body \<Rightarrow> 'a web" where
  "decodeJSON NoBody = throwE ErrBadRequest"
| "decodeJSON Malformed = throwE ErrBadRequest"
| "decodeJSON (Decoded x) = returnE x"

record credentialsRequest =
  crUsername :: string
  crPassword :: string

definition format_ms :: "time \<Rightarrow> int" where
  "format_ms t = t div 1000000"

record userResponse =
  urID :: string
  urUsername :: string
  urRole :: role
  urTOTPEnabled :: bool
  urDisabled :: bool
  urCreatedAt :: int
  urLastLoginAt :: "int option"
  urPermissions :: "permission list"

definition toUserResponse :: "user \<Rightarrow> userResponse" where
  "toUserResponse u =
     \<lparr>urID = uID u, urUsername = uUsername u, urRole = uRole u, urTOTPEnabled = uTOTPEnabled u,
      urDisabled = uDisabled u, urCreatedAt = format_ms (uCreatedAt u),
      urLastLoginAt = (if \<not> is_zero (uLastLoginAt u) then Some (format_ms (uLastLoginAt u)) else None),
      urPermissions = PermissionsOf (uRole u)\<rparr>"

record sessionResponse =
  srAccessToken :: string
  srTokenType :: string
  srExpiresAt :: int
  srRefreshToken :: string
  srRefreshExpiresAt :: int
  srUser :: userResponse

definition toSessionResponse :: "token_pair \<Rightarrow> sessionResponse" where
  "toSessionResponse p =
     \<lparr>srAccessToken = tpAccessToken p, srTokenType = ''Bearer'', srExpiresAt = format_ms (tpExpiresAt p),
      srRefreshToken = tpRefreshToken p, srRefreshExpiresAt = format_ms (tpRefreshExpiresAt p),
      srUser = toUserResponse (tpUser p)\<rparr>"

datatype payload =
    InitializedBody bool
  | SessionBody sessionResponse
  | UserBody userResponse
  | MeBody userResponse string "string list"
  | UsersBody "userResponse list"
  | SetupBody totp_setup
  | TOTPBody bool
  | TicketBody string int
  | EmptyBody

type_synonym response = "nat \<times> payload"

definition truncate :: "string \<Rightarrow> nat \<Rightarrow> string" where
  "truncate s n = (if length s \<le> n then s else take n s)"

definition metaOf :: "http_request \<Rightarrow> request_meta" where
  "metaOf rq = \<lparr>rmIP = ClientIP rq, rmUserAgent = truncate (rqUserAgent rq) 256\<rparr>"

section \<open>Error mapping\<close>

definition authError :: "go_error \<Rightarrow> http_error" where
  "authError err =
     (case err of
        LockedOutError d \<Rightarrow> Api (NewError 429 ''RATE_LIMITED'')
      | ErrNotInitialized \<Rightarrow> Api (NewError 409 ''NOT_INITIALIZED'')
      | ErrAlreadyInitialized \<Rightarrow> Api (NewError 409 ''ALREADY_INITIALIZED'')
      | ErrTOTPRequired \<Rightarrow> Api (NewError 401 ''TOTP_REQUIRED'')
      | ErrTOTPUnavailable \<Rightarrow> Api (NewError 503 ''TOTP_UNAVAILABLE'')
      | ErrInvalidCredentials \<Rightarrow> Api (NewError 401 ''INVALID_CREDENTIALS'')
      | ErrAccountDisabled \<Rightarrow> Api (NewError 403 ''ACCOUNT_DISABLED'')
      | ErrSessionInvalid \<Rightarrow> Api (NewError 401 ''UNAUTHORIZED'')
      | ErrTokenInvalid \<Rightarrow> Api (NewError 401 ''UNAUTHORIZED'')
      | ErrTokenExpired \<Rightarrow> Api (NewError 401 ''TOKEN_EXPIRED'')
      | ErrUsernameUnavailable \<Rightarrow> Api (NewError 409 ''CONFLICT'')
      | ErrUsernameRequired \<Rightarrow> Api ErrValidation
      | ErrPasswordTooShort \<Rightarrow> Api ErrValidation
      | ErrPasswordTooLong \<Rightarrow> Api ErrValidation
      | ErrPasswordTooWeak \<Rightarrow> Api ErrValidation
      | _ \<Rightarrow> Raw err)"

definition userError :: "go_error \<Rightarrow> http_error" where
  "userError err =
     (case err of
        ErrUserNotFound \<Rightarrow> Api (NewError 404 ''NOT_FOUND'')
      | ErrLastAdmin \<Rightarrow> Api (NewError 409 ''LAST_ADMIN'')
      | ErrSelfDelete \<Rightarrow> Api (NewError 403 ''FORBIDDEN'')
      | ErrOwnTOTPReset \<Rightarrow> Api (NewError 403 ''FORBIDDEN'')
      | ErrUsernameUnavailable \<Rightarrow> Api (NewError 409 ''CONFLICT'')
      | ErrTOTPUnavailable \<Rightarrow> Api (NewError 503 ''TOTP_UNAVAILABLE'')
      | ErrInvalidTOTPCode \<Rightarrow> Api (NewError 401 ''INVALID_CREDENTIALS'')
      | ErrInvalidTOTPSecret \<Rightarrow> Api (NewError 401 ''INVALID_CREDENTIALS'')
      | ErrTOTPEnabled \<Rightarrow> Api (NewError 409 ''CONFLICT'')
      | ErrTOTPNotPending \<Rightarrow> Api (NewError 409 ''CONFLICT'')
      | ErrInvalidRole \<Rightarrow> Api ErrValidation
      | ErrUsernameRequired \<Rightarrow> Api ErrValidation
      | ErrPasswordTooShort \<Rightarrow> Api ErrValidation
      | ErrPasswordTooLong \<Rightarrow> Api ErrValidation
      | ErrPasswordTooWeak \<Rightarrow> Api ErrValidation
      | _ \<Rightarrow> Raw err)"

section \<open>Handlers\<close>

record services =
  svcAuth :: auth_service
  svcUsers :: users_service

definition h_Status :: "response handler" where
  "h_Status = (\<lambda>rq i. bindE (on_store Raw Auth_Initialized) (\<lambda>b. returnE (200, InitializedBody b)))"

definition h_Bootstrap :: "ext \<Rightarrow> services \<Rightarrow> credentialsRequest body \<Rightarrow> response handler" where
  "h_Bootstrap X V body = (\<lambda>rq i.
     bindE (decodeJSON body) (\<lambda>req.
     bindE (on_store authError (Bootstrap X (svcAuth V) (crUsername req) (crPassword req) (metaOf rq))) (\<lambda>pair.
     returnE (201, SessionBody (toSessionResponse pair)))))"

definition h_Login :: "ext \<Rightarrow> services \<Rightarrow> login_input body \<Rightarrow> response handler" where
  "h_Login X V body = (\<lambda>rq i.
     bindE (decodeJSON body) (\<lambda>req.
     bindE (on_store authError (Login X (svcAuth V) req (metaOf rq))) (\<lambda>pair.
     returnE (200, SessionBody (toSessionResponse pair)))))"

definition h_Refresh :: "ext \<Rightarrow> services \<Rightarrow> string body \<Rightarrow> response handler" where
  "h_Refresh X V body = (\<lambda>rq i.
     bindE (decodeJSON body) (\<lambda>refreshToken.
     bindE (on_store authError (Refresh X (svcAuth V) refreshToken (metaOf rq))) (\<lambda>pair.
     returnE (200, SessionBody (toSessionResponse pair)))))"

definition h_Logout :: "services \<Rightarrow> string body \<Rightarrow> response handler" where
  "h_Logout V body = (\<lambda>rq i.
     bindE (decodeJSON body) (\<lambda>refreshToken.
     bindE (on_store authError (Logout (svcAuth V) refreshToken i (metaOf rq))) (\<lambda>_.
     returnE (204, EmptyBody))))"

definition h_Me :: "response handler" where
  "h_Me = (\<lambda>rq i.
     bindE (on_store authError (Auth_User (idUserID i))) (\<lambda>u.
     returnE (200, MeBody (toUserResponse u) (idTokenID i) (idScopes i))))"

definition h_Ticket :: "response handler" where
  "h_Ticket = (\<lambda>rq i.
     bindE (on_tickets Raw (Ticket_Issue
       \<lparr>tkUserID = idUserID i, tkUsername = idUsername i, tkRole = idRole i, tkTokenID = idTokenID i,
        tkScopes = idScopes i, tkExpiresAt = 0\<rparr>)) (\<lambda>v.
     returnE (201, TicketBody v (TicketTTL div second))))"

definition redeemStreamTicket :: "permission \<Rightarrow> http_request \<Rightarrow> ticket web" where
  "redeemStreamTicket perm rq =
     bindE (on_tickets (\<lambda>e. Api (NewError 401 ''UNAUTHORIZED'')) (Ticket_Redeem (rqTicket rq))) (\<lambda>t.
     if \<not> RoleHas (tkRole t) perm then throwE (NewError 403 ''FORBIDDEN'') else returnE t)"

definition h_Users_List :: "response handler" where
  "h_Users_List = (\<lambda>rq i.
     bindE (on_store Raw Svc_List) (\<lambda>us. returnE (200, UsersBody (map toUserResponse us))))"

definition h_Users_Get :: "string \<Rightarrow> response handler" where
  "h_Users_Get uid = (\<lambda>rq i.
     bindE (on_store userError (Svc_Get uid)) (\<lambda>u. returnE (200, UserBody (toUserResponse u))))"

definition h_Users_Create :: "ext \<Rightarrow> services \<Rightarrow> create_input body \<Rightarrow> response handler" where
  "h_Users_Create X V body = (\<lambda>rq i.
     bindE (decodeJSON body) (\<lambda>req.
     bindE (on_store userError (Svc_Create X (svcUsers V) req i (metaOf rq))) (\<lambda>u.
     returnE (201, UserBody (toUserResponse u)))))"

definition h_Users_Update :: "ext \<Rightarrow> services \<Rightarrow> string \<Rightarrow> update_input body \<Rightarrow> response handler" where
  "h_Users_Update X V uid body = (\<lambda>rq i.
     bindE (decodeJSON body) (\<lambda>req.
     bindE (on_store userError (Svc_Update X (svcUsers V) uid req i (metaOf rq))) (\<lambda>u.
     returnE (200, UserBody (toUserResponse u)))))"

definition h_Users_Delete :: "services \<Rightarrow> string \<Rightarrow> response handler" where
  "h_Users_Delete V uid = (\<lambda>rq i.
     bindE (on_store userError (Svc_Delete (svcUsers V) uid i (metaOf rq))) (\<lambda>_.
     returnE (204, EmptyBody)))"

definition h_Users_ResetTOTP :: "services \<Rightarrow> string \<Rightarrow> response handler" where
  "h_Users_ResetTOTP V uid = (\<lambda>rq i.
     bindE (on_store userError (ResetTOTP (svcUsers V) uid i (metaOf rq))) (\<lambda>_.
     returnE (204, EmptyBody)))"

definition h_BeginTOTP :: "ext \<Rightarrow> services \<Rightarrow> response handler" where
  "h_BeginTOTP X V = (\<lambda>rq i.
     bindE (on_store userError (BeginTOTP X (svcUsers V) i (metaOf rq))) (\<lambda>enr.
     returnE (201, SetupBody enr)))"

definition h_ConfirmTOTP :: "ext \<Rightarrow> services \<Rightarrow> string body \<Rightarrow> response handler" where
  "h_ConfirmTOTP X V body = (\<lambda>rq i.
     bindE (decodeJSON body) (\<lambda>c.
     bindE (on_store userError (ConfirmTOTP X (svcUsers V) c i (metaOf rq))) (\<lambda>_.
     returnE (200, TOTPBody True))))"

definition h_DisableTOTP :: "ext \<Rightarrow> services \<Rightarrow> string body \<Rightarrow> response handler" where
  "h_DisableTOTP X V body = (\<lambda>rq i.
     bindE (decodeJSON body) (\<lambda>c.
     bindE (on_store userError (DisableTOTP X (svcUsers V) c i (metaOf rq))) (\<lambda>_.
     returnE (200, TOTPBody False))))"

section \<open>Routes\<close>

text \<open>
  The matched endpoint of a request. \<open>EpStream\<close> is a streaming endpoint up to the point
  where its ticket is accepted; what it then streams comes from the Docker engine.
\<close>

datatype endpoint =
    EpStatus
  | EpBootstrap "credentialsRequest body"
  | EpLogin "login_input body"
  | EpRefresh "string body"
  | EpMe
  | EpLogout "string body"
  | EpTicket
  | EpBeginTOTP
  | EpConfirmTOTP "string body"
  | EpDisableTOTP "string body"
  | EpUsersList
  | EpUsersCreate "create_input body"
  | EpUsersGet string
  | EpUsersUpdate string "update_input body"
  | EpUsersDelete string
  | EpUsersResetTOTP string
  | EpStream permission

definition auth_routes :: "ext \<Rightarrow> services \<Rightarrow> endpoint \<Rightarrow> response handler" where
  "auth_routes X V ep =
     (case ep of
        EpBootstrap b \<Rightarrow> RateLimit LoginLimiter (h_Bootstrap X V b)
      | EpLogin b \<Rightarrow> RateLimit LoginLimiter (h_Login X V b)
      | EpStatus \<Rightarrow> RateLimit GeneralLimiter h_Status
      | EpRefresh b \<Rightarrow> RateLimit GeneralLimiter (h_Refresh X V b)
      | EpStream perm \<Rightarrow> RateLimit GeneralLimiter (requireInitialized (\<lambda>rq i.
          bindE (redeemStreamTicket perm rq) (\<lambda>t. returnE (200, EmptyBody))))
      | EpMe \<Rightarrow> authenticated X (svcAuth V) h_Me
      | EpLogout b \<Rightarrow> authenticated X (svcAuth V) (h_Logout V b)
      | EpTicket \<Rightarrow> authenticated X (svcAuth V) h_Ticket
      | EpBeginTOTP \<Rightarrow> authenticated X (svcAuth V) (h_BeginTOTP X V)
      | EpConfirmTOTP b \<Rightarrow> authenticated X (svcAuth V) (h_ConfirmTOTP X V b)
      | EpDisableTOTP b \<Rightarrow> authenticated X (svcAuth V) (h_DisableTOTP X V b)
      | EpUsersList \<Rightarrow> permitted X (svcAuth V) PermAdmin h_Users_List
      | EpUsersCreate b \<Rightarrow> permitted X (svcAuth V) PermAdmin (h_Users_Create X V b)
      | EpUsersGet uid \<Rightarrow> permitted X (svcAuth V) PermAdmin (h_Users_Get uid)
      | EpUsersUpdate uid b \<Rightarrow> permitted X (svcAuth V) PermAdmin (h_Users_Update X V uid b)
      | EpUsersDelete uid \<Rightarrow> permitted X (svcAuth V) PermAdmin (h_Users_Delete V uid)
      | EpUsersResetTOTP uid \<Rightarrow> permitted X (svcAuth V) PermAdmin (h_Users_ResetTOTP V uid))"

text \<open>The method a route is registered for.\<close>

fun ep_method :: "endpoint \<Rightarrow> string" where
  "ep_method EpStatus = ''GET''"
| "ep_method (EpBootstrap b) = ''POST''"
| "ep_method (EpLogin b) = ''POST''"
| "ep_method (EpRefresh b) = ''POST''"
| "ep_method EpMe = ''GET''"
| "ep_method (EpLogout b) = ''POST''"
| "ep_method EpTicket = ''POST''"
| "ep_method EpBeginTOTP = ''POST''"
| "ep_method (EpConfirmTOTP b) = ''POST''"
| "ep_method (EpDisableTOTP b) = ''POST''"
| "ep_method EpUsersList = ''GET''"
| "ep_method (EpUsersCreate b) = ''POST''"
| "ep_method (EpUsersGet uid) = ''GET''"
| "ep_method (EpUsersUpdate uid b) = ''PUT''"
| "ep_method (EpUsersDelete uid) = ''DELETE''"
| "ep_method (EpUsersResetTOTP uid) = ''DELETE''"
| "ep_method (EpStream perm) = ''GET''"

definition serve :: "ext \<Rightarrow> services \<Rightarrow> http_request \<Rightarrow> endpoint \<Rightarrow> response web" where
  "serve X V rq ep = auth_routes X V ep (rq\<lparr>rqMethod := ep_method ep\<rparr>) anonymous"

end
