(* ===== verification/Service_Users_Laws.thy ===== *)
theory Service_Users_Laws
  imports Service_Users
begin

text \<open>
  What account administration guarantees: no operation, however its statements fail, takes
  away the last enabled administrator; a password reset, a disable, a two-factor reset or
  a deletion leaves no live session; an account is deleted with everything it owns; and
  two-factor is switched on and off against a valid code only.
\<close>

section \<open>The last enabled administrator\<close>

definition admin_row :: "user \<Rightarrow> bool" where
  "admin_row u \<longleftrightarrow> uRole u = RoleAdmin \<and> \<not> uDisabled u"

definition enabled_admin :: "world \<Rightarrow> bool" where
  "enabled_admin w \<longleftrightarrow> (\<exists>u\<in>set (wUsers w). admin_row u)"

definition other_admin :: "string \<Rightarrow> world \<Rightarrow> bool" where
  "other_admin i w \<longleftrightarrow> (\<exists>u\<in>set (wUsers w). uID u \<noteq> i \<and> admin_row u)"

lemma other_admin_enabled: "other_admin i w \<Longrightarrow> enabled_admin w"
  by (auto simp: other_admin_def enabled_admin_def)

lemma blind_admin:
  "fault_blind enabled_admin" "fault_blind (other_admin i)"
  "blind wEntropy_update enabled_admin" "blind wEntropy_update (other_admin i)"
  "blind wSessions_update enabled_admin" "blind wSessions_update (other_admin i)"
  "blind wAudit_update enabled_admin" "blind wAudit_update (other_admin i)"
  "blind wAuditSeq_update enabled_admin" "blind wAuditSeq_update (other_admin i)"
  "blind wAttempts_update enabled_admin" "blind wAttempts_update (other_admin i)"
  "blind wTokens_update enabled_admin" "blind wTokens_update (other_admin i)"
  by (simp_all add: fault_blind_def blind_def enabled_admin_def other_admin_def)

text \<open>Updates that leave role and status alone, or that touch one account only.\<close>

lemma enabled_admin_update:
  "(\<And>u. admin_row u \<Longrightarrow> admin_row (f u)) \<Longrightarrow> enabled_admin w
    \<Longrightarrow> enabled_admin (w\<lparr>wUsers := update_where p f (wUsers w)\<rparr>)"
  by (auto simp: enabled_admin_def)

lemma other_admin_update:
  "other_admin i w \<Longrightarrow> other_admin i (w\<lparr>wUsers := update_where (\<lambda>u. uID u = i) f (wUsers w)\<rparr>)"
  by (auto simp: other_admin_def)

lemma other_admin_delete: "other_admin i w \<Longrightarrow> other_admin i (delete_user i w)"
  by (auto simp: other_admin_def delete_user_def)

lemma keeps_other_admin:
  "keeps (other_admin i) (Users_update i f)" "keeps (other_admin i) (Users_UpdateRole i r)"
  "keeps (other_admin i) (Users_SetDisabled i d)" "keeps (other_admin i) (Users_UpdatePassword i h)"
  "keeps (other_admin i) (Users_Delete i)"
proof -
  show upd: "keeps (other_admin i) (Users_update i f)" for f
    unfolding Users_update_def by (intro keeps_Users_exec keeps_modifyE blind_admin other_admin_update)
  show "keeps (other_admin i) (Users_SetDisabled i d)" "keeps (other_admin i) (Users_UpdatePassword i h)"
    unfolding Users_SetDisabled_def Users_UpdatePassword_def by (intro keeps_bindE keeps_now upd)+
  have "keeps (other_admin i) (\<lambda>w. if c w then (Inl e, w) else (Inr (), w\<lparr>wUsers := update_where (\<lambda>u. uID u = i) g (wUsers w)\<rparr>))" for c e g
    by (rule keepsI) (simp add: other_admin_update)
  then show "keeps (other_admin i) (Users_UpdateRole i r)"
    unfolding Users_UpdateRole_def by (intro keeps_bindE keeps_now keeps_Users_exec blind_admin)
  show "keeps (other_admin i) (Users_Delete i)"
    unfolding Users_Delete_def by (intro keeps_Users_exec keeps_modifyE blind_admin other_admin_delete)
qed

lemma keeps_enabled_admin:
  "keeps enabled_admin (Users_UpdatePassword i h)" "keeps enabled_admin (Users_SetTOTP i s e)"
  "keeps enabled_admin (Users_TouchLogin i t)" "keeps enabled_admin (Users_SetDisabled i False)"
  "keeps enabled_admin (Users_Create u)"
proof -
  have upd: "keeps enabled_admin (Users_update i f)" if "\<And>u. admin_row u \<Longrightarrow> admin_row (f u)" for f
    unfolding Users_update_def using that by (intro keeps_Users_exec keeps_modifyE blind_admin enabled_admin_update)
  show "keeps enabled_admin (Users_UpdatePassword i h)" "keeps enabled_admin (Users_SetTOTP i s e)"
    "keeps enabled_admin (Users_TouchLogin i t)" "keeps enabled_admin (Users_SetDisabled i False)"
    unfolding Users_UpdatePassword_def Users_SetTOTP_def Users_TouchLogin_def Users_SetDisabled_def
    by (intro keeps_bindE keeps_now upd; simp add: admin_row_def)+
  have "keeps enabled_admin (insert_user v)" for v
    by (rule keepsI) (auto simp: insert_user_def enabled_admin_def)
  then show "keeps enabled_admin (Users_Create u)"
    unfolding Users_Create_def Let_def by (intro keeps_bindE keeps_now keeps_db blind_admin)
qed

lemmas admin_keeps = keeps_core keeps_now keeps_liftE keeps_mapErr keeps_enabled_admin
  keeps_entropy [OF blind_admin(3)] keeps_session_writes [OF blind_admin(1,5)]
  keeps_Users_ByID [OF blind_admin(1)] keeps_Users_List [OF blind_admin(1)]
  keeps_Users_ByUsername [OF blind_admin(1)] keeps_Users_Count [OF blind_admin(1)]
  keeps_Record [OF blind_admin(1,7,9)] keeps_attempt_writes [OF blind_admin(1,11)]
  keeps_Tokens_Touch_blind [OF blind_admin(1,13)] keeps_ByRefreshHash [OF blind_admin(1)]
  keeps_Tokens_ByHash [OF blind_admin(1)] keeps_limiter_Check [OF blind_admin(1)]
  keeps_Issue [OF blind_admin(3)] keeps_Parse

lemma refuse_Inr: "refuseIfLastAdmin i w = (Inr (), w') \<Longrightarrow> other_admin i w'"
proof -
  assume "refuseIfLastAdmin i w = (Inr (), w')"
  then obtain us where us: "Users_List w = (Inr us, w')"
    and ex: "list_ex (\<lambda>other. uID other \<noteq> i \<and> uRole other = RoleAdmin \<and> \<not> uDisabled other) us"
    unfolding refuseIfLastAdmin_def by (auto simp: bindE_Inr returnE_run throwE_run split: if_splits)
  have "wUsers w' = wUsers w"
    using us by (rule keeps_run [rotated 2, where I = "\<lambda>v. wUsers v = wUsers w"])
      (simp_all add: keeps_Users_List fault_blind_def)
  then show ?thesis using ex set_Users_List [OF us] by (auto simp: other_admin_def admin_row_def list_ex_iff)
qed

definition row_matches :: "user \<Rightarrow> world \<Rightarrow> bool" where
  "row_matches u w \<longleftrightarrow> (\<exists>r\<in>set (wUsers w). uID r = uID u \<and> uRole r = uRole u \<and> uDisabled r = uDisabled u)"

lemma not_admin_other:
  assumes "db_ok w" "enabled_admin w" "row_matches u w" "\<not> admin_row u"
  shows "other_admin (uID u) w"
proof -
  obtain a where a: "a \<in> set (wUsers w)" "admin_row a" using assms(2) by (auto simp: enabled_admin_def)
  obtain r where r: "r \<in> set (wUsers w)" "uID r = uID u" "\<not> admin_row r"
    using assms(3,4) by (auto simp: row_matches_def admin_row_def)
  have "uID a \<noteq> uID u"
    using users_tbl.same_pk [of w a r] assms(1) a r by (auto simp: db_ok_def)
  with a show ?thesis by (auto simp: other_admin_def)
qed

lemma Users_exec_Inr:
  assumes "Users_exec p (modifyE g) w = (Inr (), w')"
  shows "\<exists>fs fs'. w' = (g (w\<lparr>wFaults := fs\<rparr>))\<lparr>wFaults := fs'\<rparr>"
proof -
  obtain n w1 where 1: "db (bindE (readE (\<lambda>w. length (filter p (wUsers w)))) (\<lambda>n. thenE (modifyE g) (returnE n))) w = (Inr n, w1)"
    and 2: "\<exists>m. rows_affected n w1 = (Inr m, w')"
    using assms unfolding Users_exec_def by (auto simp: bindE_Inr throwE_run returnE_run split: if_splits)
  obtain fs where "w1 = g (w\<lparr>wFaults := fs\<rparr>)"
    using 1 by (elim db_Inr) (auto simp: prog_simps)
  moreover obtain fs' where "w' = w1\<lparr>wFaults := fs'\<rparr>"
    using 2 unfolding rows_affected_def by (auto simp: returnE_run elim!: db_Inr)
  ultimately show ?thesis by blast
qed

lemma Users_update_Inr:
  assumes "Users_update i f w = (Inr (), w')"
  shows "wUsers w' = update_where (\<lambda>u. uID u = i) f (wUsers w) \<and> wSessions w' = wSessions w \<and> wNow w' = wNow w"
  using Users_exec_Inr [OF assms [unfolded Users_update_def]] by auto

lemma UpdateRole_Inr:
  assumes "Users_UpdateRole i r w = (Inr (), w')" "svc_validRole r"
  shows "wUsers w' = update_where (\<lambda>u. uID u = i) (\<lambda>u. u\<lparr>uRole := r, uUpdatedAt := wNow w\<rparr>) (wUsers w) \<and> wNow w' = wNow w"
proof -
  have "ValidRole r" using assms(2) by (simp add: svc_validRole_def ValidRole_def)
  then have "Users_UpdateRole i r = bindE now (\<lambda>t. Users_update i (\<lambda>u. u\<lparr>uRole := r, uUpdatedAt := t\<rparr>))"
    by (simp add: Users_UpdateRole_def Users_update_def modifyE_def)
  then show ?thesis using assms(1) Users_update_Inr by (auto simp: bindE_Inr now_run)
qed

lemma row_matches_update:
  assumes "row_matches u w" "wUsers w' = update_where (\<lambda>x. uID x = uID u) f (wUsers w)"
    and "\<And>x. uID (f x) = uID x" "\<And>x. uRole x = uRole u \<Longrightarrow> uRole (f x) = uRole u'"
    and "\<And>x. uDisabled x = uDisabled u \<Longrightarrow> uDisabled (f x) = uDisabled u'" "uID u' = uID u"
  shows "row_matches u' w'"
proof -
  obtain r where r: "r \<in> set (wUsers w)" "uID r = uID u" "uRole r = uRole u" "uDisabled r = uDisabled u"
    using assms(1) by (auto simp: row_matches_def)
  then have "f r \<in> set (wUsers w')" using assms(2) by force
  then show ?thesis unfolding row_matches_def using r assms(3-6) by (intro bexI [of _ "f r"]) simp_all
qed

lemma refuse_quiet: "whenE b (refuseIfLastAdmin i) w = (r, w') \<Longrightarrow> quiet w w'"
  unfolding refuseIfLastAdmin_def by (elim keeps_quiet [rotated]) (intro keeps_intros fault_blind_iff)

lemma quiet_same:
  assumes "quiet w w'"
  shows "enabled_admin w' = enabled_admin w" "row_matches u w' = row_matches u w" "db_ok w' = db_ok w"
  using assms
  by (simp_all add: quiet_def enabled_admin_def row_matches_def db_ok_def unique_defs roles_ok_def refs_ok_def)

lemma update_role_step:
  assumes "db_ok w" "enabled_admin w" "row_matches u w" "update_role u req w = (r, w')"
  shows "enabled_admin w' \<and> (\<forall>u' d. r = Inr (u', d) \<longrightarrow> row_matches u' w' \<and> uID u' = uID u)"
proof (cases "req = None \<or> req = Some (uRole u) \<or> (\<exists>q. req = Some q \<and> \<not> svc_validRole q)")
  case True
  then show ?thesis using assms by (auto simp: update_role_def returnE_run throwE_run split: if_splits)
next
  case False
  then obtain q where req: "req = Some q" "q \<noteq> uRole u" "svc_validRole q" by auto
  let ?chk = "whenE (uRole u = RoleAdmin) (refuseIfLastAdmin (uID u))"
  obtain c w1 where chk: "?chk w = (c, w1)" by (metis prod.exhaust)
  have quiet: "enabled_admin w1" "row_matches u w1" "db_ok w1"
    using quiet_same [OF refuse_quiet [OF chk]] assms(1-3) by auto
  show ?thesis
  proof (cases c)
    case (Inl e)
    then show ?thesis using assms(4) chk quiet req by (auto simp: update_role_def thenE_run)
  next
    case (Inr x)
    have other: "other_admin (uID u) w1"
    proof (cases "uRole u = RoleAdmin")
      case True
      then show ?thesis using chk Inr refuse_Inr [of "uID u" w w1] by (simp add: whenE_def)
    next
      case False
      then show ?thesis using not_admin_other [OF quiet(3,1,2)] by (simp add: admin_row_def)
    qed
    obtain c2 w2 where upd: "Users_UpdateRole (uID u) q w1 = (c2, w2)" by (metis prod.exhaust)
    have "enabled_admin w2"
      using other_admin_enabled keeps_run [OF keeps_other_admin(2) other upd] by blast
    moreover have "row_matches (u\<lparr>uRole := q\<rparr>) w2" if "c2 = Inr ()"
      by (rule row_matches_update [OF quiet(2) conjunct1 [OF UpdateRole_Inr [OF upd [unfolded that] req(3)]]]) simp_all
    ultimately show ?thesis
      using assms(4) chk Inr upd req by (cases c2) (auto simp: update_role_def thenE_run returnE_run)
  qed
qed

lemma keeps_helpers_admin:
  "keeps enabled_admin (Svc_Get i)" "keeps enabled_admin (revokeSessions S i)"
  "keeps enabled_admin (users_record S act meta a u d)" "keeps enabled_admin (update_password X S v req)"
  unfolding Svc_Get_def revokeSessions_def users_record_def update_password_def by - (intro admin_keeps)+

lemma SetDisabled_Inr:
  "Users_SetDisabled i d w = (Inr (), w')
    \<Longrightarrow> wUsers w' = update_where (\<lambda>u. uID u = i) (\<lambda>u. u\<lparr>uDisabled := d, uUpdatedAt := wNow w\<rparr>) (wUsers w)
      \<and> wSessions w' = wSessions w \<and> wNow w' = wNow w"
  unfolding Users_SetDisabled_def using Users_update_Inr by (auto simp: bindE_Inr now_run)

lemma update_disabled_step:
  assumes "db_ok w" "enabled_admin w" "row_matches u w" "update_disabled S u req w = (r, w')"
  shows "enabled_admin w'"
proof (cases "req = None \<or> req = Some (uDisabled u)")
  case True
  then show ?thesis using assms by (auto simp: update_disabled_def returnE_run split: if_splits)
next
  case False
  then obtain d where req: "req = Some d" "d \<noteq> uDisabled u" by auto
  have tail: "keeps enabled_admin (thenE (whenE d (revokeSessions S (uID u)))
      (returnE (u\<lparr>uDisabled := d\<rparr>, [(''disabled'', AOther (if d then ''true'' else ''false''))])))"
    by (intro admin_keeps keeps_helpers_admin)
  let ?chk = "whenE (d \<and> uRole u = RoleAdmin) (refuseIfLastAdmin (uID u))"
  obtain c w1 where chk: "?chk w = (c, w1)" by (metis prod.exhaust)
  have quiet: "enabled_admin w1" "row_matches u w1" "db_ok w1"
    using quiet_same [OF refuse_quiet [OF chk]] assms(1-3) by auto
  show ?thesis
  proof (cases c)
    case (Inl e)
    then show ?thesis using assms(4) chk quiet req by (auto simp: update_disabled_def thenE_run)
  next
    case (Inr x)
    obtain c2 w2 where upd: "Users_SetDisabled (uID u) d w1 = (c2, w2)" by (metis prod.exhaust)
    have "enabled_admin w2"
    proof (cases d)
      case True
      have "other_admin (uID u) w1"
      proof (cases "uRole u = RoleAdmin")
        case T: True
        then show ?thesis using chk Inr True refuse_Inr [of "uID u" w w1] by (simp add: whenE_def)
      next
        case False
        then show ?thesis using not_admin_other [OF quiet(3,1,2)] by (simp add: admin_row_def)
      qed
      then show ?thesis using other_admin_enabled keeps_run [OF keeps_other_admin(3) _ upd] by blast
    next
      case False
      then show ?thesis using keeps_run [OF keeps_enabled_admin(4) quiet(1)] upd by simp
    qed
    then show ?thesis
      using assms(4) chk Inr upd req keepsD [OF tail, of w2]
      by (cases c2) (auto simp: update_disabled_def thenE_run [of "?chk"] thenE_run [of "Users_SetDisabled _ _"])
  qed
qed

lemma Svc_Get_Inr:
  assumes "Svc_Get i w = (Inr u, w')"
  shows "u \<in> set (wUsers w) \<and> uID u = i \<and> quiet w w'"
  using assms Users_ByID_Inr [of i w u w'] by (auto simp: Svc_Get_def)

lemma db_ok_update_role: "keeps db_ok (update_role u req)"
  unfolding update_role_def by (intro db_ok_keeps db_ok_helpers)

lemma admin_Svc_Update: "keeps (\<lambda>w. db_ok w \<and> enabled_admin w) (Svc_Update X S i inp act meta)"
proof (rule keepsI)
  fix w assume w: "db_ok w \<and> enabled_admin w"
  have "enabled_admin (snd (Svc_Update X S i inp act meta w))"
  proof (cases "Svc_Get i w")
    case (Pair r0 w0)
    have w0: "db_ok w0" "enabled_admin w0"
      using w keeps_run [OF db_ok_helpers(1) _ Pair] keeps_run [OF keeps_helpers_admin(1) _ Pair] by auto
    show ?thesis
    proof (cases r0)
      case (Inl e)
      then show ?thesis using Pair w0 by (simp add: Svc_Update_def bindE_run)
    next
      case (Inr u)
      have u: "row_matches u w0" using Svc_Get_Inr [OF Pair [unfolded Inr]] by (auto simp: row_matches_def quiet_def)
      obtain r1 w1 where 1: "update_role u (uiRole inp) w0 = (r1, w1)" by (metis prod.exhaust)
      have ok1: "db_ok w1" by (rule keeps_run [OF db_ok_update_role w0(1) 1])
      note s1 = update_role_step [OF w0 u 1]
      show ?thesis
      proof (cases r1)
        case (Inl e)
        then show ?thesis using Pair Inr 1 s1 by (simp add: Svc_Update_def bindE_run)
      next
        case Inr1: (Inr p)
        obtain u1 ch1 where p: "p = (u1, ch1)" by (cases p)
        obtain r2 w2 where 2: "update_disabled S u1 (uiDisabled inp) w1 = (r2, w2)" by (metis prod.exhaust)
        have s2: "enabled_admin w2" using update_disabled_step [OF ok1 _ _ 2] s1 Inr1 p by auto
        have tail: "keeps enabled_admin (bindE (update_password X S u2 (uiPassword inp)) (\<lambda>ch3.
           if ch1 @ ch2 @ ch3 = [] then returnE u2
           else thenE (users_record S act meta ''user.update'' u2 (ch1 @ ch2 @ ch3)) (returnE u2)))" for u2 ch2
          by (intro admin_keeps keeps_helpers_admin)
        show ?thesis
          using Pair Inr 1 Inr1 p 2 s2 keepsD [OF tail s2]
          by (cases r2) (auto simp: Svc_Update_def bindE_run [of "Svc_Get i"] bindE_run [of "update_role _ _"]
              bindE_run [of "update_disabled _ _ _"])
      qed
    qed
  qed
  then show "db_ok (snd (Svc_Update X S i inp act meta w)) \<and> enabled_admin (snd (Svc_Update X S i inp act meta w))"
    using w keepsD [OF db_ok_user_ops(2)] by blast
qed

lemma admin_Svc_Delete: "keeps (\<lambda>w. db_ok w \<and> enabled_admin w) (Svc_Delete S i act meta)"
proof (rule keepsI)
  fix w assume w: "db_ok w \<and> enabled_admin w"
  have "enabled_admin (snd (Svc_Delete S i act meta w))"
  proof (cases "Svc_Get i w")
    case (Pair r0 w0)
    have w0: "db_ok w0" "enabled_admin w0"
      using w keeps_run [OF db_ok_helpers(1) _ Pair] keeps_run [OF keeps_helpers_admin(1) _ Pair] by auto
    show ?thesis
    proof (cases r0)
      case (Inl e)
      then show ?thesis using Pair w0 by (simp add: Svc_Delete_def bindE_run)
    next
      case (Inr u)
      have u: "row_matches u w0" using Svc_Get_Inr [OF Pair [unfolded Inr]] by (auto simp: row_matches_def quiet_def)
      let ?chk = "whenE (uRole u = RoleAdmin) (refuseIfLastAdmin (uID u))"
      let ?rest = "thenE (revokeSessions S (uID u))
         (thenE (mapErr (not_found_as ErrUserNotFound) (Users_Delete (uID u)))
         (users_record S act meta ''user.delete'' u []))"
      obtain c w1 where chk: "?chk w0 = (c, w1)" by (metis prod.exhaust)
      have q: "enabled_admin w1" "row_matches u w1" "db_ok w1"
        using quiet_same [OF refuse_quiet [OF chk]] w0 u by auto
      have "keeps (other_admin (uID u)) ?rest"
        unfolding revokeSessions_def users_record_def
        by (intro keeps_core keeps_mapErr keeps_other_admin keeps_session_writes keeps_Record blind_admin)
      moreover have "other_admin (uID u) w1" if "c = Inr ()"
      proof (cases "uRole u = RoleAdmin")
        case True
        then show ?thesis using chk that refuse_Inr [of "uID u" w0 w1] by (simp add: whenE_def)
      next
        case False
        then show ?thesis using not_admin_other [OF q(3,1,2)] by (simp add: admin_row_def)
      qed
      ultimately have "enabled_admin (snd (?rest w1))" if "c = Inr ()"
        using that by (intro other_admin_enabled) (rule keepsD)
      moreover have "Svc_Delete S i act meta w =
          (if uID u = idUserID act then (Inl ErrSelfDelete, w0) else thenE ?chk ?rest w0)"
        using Pair Inr by (simp add: Svc_Delete_def bindE_run throwE_run)
      moreover have "thenE ?chk ?rest w0 = (case c of Inl e \<Rightarrow> (Inl e, w1) | Inr _ \<Rightarrow> ?rest w1)"
        using chk by (simp add: thenE_run [of ?chk] split: sum.split)
      ultimately show ?thesis using q(1) w0(2) by (cases c) simp_all
    qed
  qed
  then show "db_ok (snd (Svc_Delete S i act meta w)) \<and> enabled_admin (snd (Svc_Delete S i act meta w))"
    using w keepsD [OF db_ok_user_ops(3)] by blast
qed

lemma admin_user_ops:
  "keeps enabled_admin (Svc_Create X S ci act meta)" "keeps enabled_admin (BeginTOTP X S act meta)"
  "keeps enabled_admin (ConfirmTOTP X S c act meta)" "keeps enabled_admin (DisableTOTP X S c act meta)"
  "keeps enabled_admin (ResetTOTP S i act meta)"
  unfolding Svc_Create_def BeginTOTP_def ConfirmTOTP_def DisableTOTP_def ResetTOTP_def Let_def
  by - (intro admin_keeps keeps_helpers_admin)+

lemma admin_auth_flows:
  "keeps enabled_admin (Login X S inp meta)" "keeps enabled_admin (Refresh X S tok meta)"
  "keeps enabled_admin (Logout S tok i meta)" "keeps enabled_admin (Auth_Authenticate X S tok)"
  "keeps enabled_admin (Bootstrap X S n pw meta)"
  unfolding Login_def checkLogin_def startSession_def rehash_def failLogin_def Refresh_def Logout_def
    Auth_Authenticate_def authenticateJWT_def authenticateAPIToken_def Auth_Initialized_def issuePair_def
    Bootstrap_def createUser_def Let_def
  by - (intro admin_keeps)+

section \<open>Refusing to remove the last administrator\<close>

lemma refuse_last:
  assumes "wFaults w = []" "\<not> other_admin i w"
  shows "refuseIfLastAdmin i w = (Inl ErrLastAdmin, w)"
  using assms
  by (auto simp: refuseIfLastAdmin_def Users_List_def prog_simps other_admin_def admin_row_def list_ex_iff)

lemma Svc_Get_present:
  assumes "wFaults w = []" "db_ok w" "u \<in> set (wUsers w)"
  shows "Svc_Get (uID u) w = (Inr u, w)"
  using Users_ByID_present [OF assms(2,3,1)] by (simp add: Svc_Get_def)

text \<open>
  C13: on a working database, demoting, disabling or deleting the only enabled administrator
  is refused with ErrLastAdmin and changes nothing, whoever asks.
\<close>

theorem last_admin_refused:
  assumes "wFaults w = []" and "db_ok w" and "u \<in> set (wUsers w)" and "admin_row u" and "\<not> other_admin (uID u) w"
  shows "(uID u \<noteq> idUserID act \<longrightarrow> Svc_Delete S (uID u) act meta w = (Inl ErrLastAdmin, w))
    \<and> (svc_validRole r \<and> r \<noteq> RoleAdmin \<longrightarrow>
         Svc_Update X S (uID u) \<lparr>uiRole = Some r, uiPassword = pw, uiDisabled = d\<rparr> act meta w = (Inl ErrLastAdmin, w))
    \<and> Svc_Update X S (uID u) \<lparr>uiRole = None, uiPassword = pw, uiDisabled = Some True\<rparr> act meta w = (Inl ErrLastAdmin, w)"
  using assms
  by (simp add: Svc_Delete_def Svc_Update_def update_role_def update_disabled_def bindE_run thenE_run whenE_def
      Svc_Get_present refuse_last admin_row_def returnE_run)

theorem last_admin_refused_witness:
  "Svc_Delete \<lparr>usSecrets = None, usSessions = True, usRecorder = True\<rparr> ''u1''
     \<lparr>idUserID = ''u2'', idUsername = '''', idRole = '''', idTokenID = '''', idScopes = []\<rparr> demo_meta demo_world
   = (Inl ErrLastAdmin, demo_world)"
proof -
  have u: "demo_admin \<in> set (wUsers demo_world)" "admin_row demo_admin" "\<not> other_admin (uID demo_admin) demo_world"
    "uID demo_admin = ''u1''" "wFaults demo_world = []"
    by (simp_all add: demo_world_def demo_admin_def admin_row_def other_admin_def RoleAdmin_def zero_user_def entropy_world_def)
  from last_admin_refused [OF u(5) demo_db_ok u(1-3), of _ _ demo_meta] show ?thesis by (simp add: u(4))
qed

section \<open>Sessions that must end\<close>

definition no_live_session :: "string \<Rightarrow> world \<Rightarrow> bool" where
  "no_live_session i w \<longleftrightarrow> (\<forall>s\<in>set (wSessions w). sUserID s = i \<longrightarrow> \<not> is_zero (sRevokedAt s))"

definition dead_at :: "string \<Rightarrow> time \<Rightarrow> world \<Rightarrow> bool" where
  "dead_at i t w \<longleftrightarrow> wNow w = t \<and> no_live_session i w"

lemma blind_dead:
  "fault_blind (dead_at i t)" "blind wEntropy_update (dead_at i t)" "blind wUsers_update (dead_at i t)"
  "blind wAudit_update (dead_at i t)" "blind wAuditSeq_update (dead_at i t)"
  by (simp_all add: fault_blind_def blind_def dead_at_def no_live_session_def)

lemma revoke_dead:
  assumes "t \<noteq> 0"
  shows "no_live_session i (revoke_where (\<lambda>s. sUserID s = i) t w)"
    and "no_live_session i w \<Longrightarrow> no_live_session i (revoke_where p t w)"
proof -
  have cases: "\<exists>r\<in>set (wSessions w). s = (if p r \<and> is_zero (sRevokedAt r) then r\<lparr>sRevokedAt := t\<rparr> else r)"
    if "s \<in> set (wSessions (revoke_where p t w))" for s p
    using that by (simp add: revoke_where_def update_where_def image_iff) blast
  show "no_live_session i (revoke_where (\<lambda>s. sUserID s = i) t w)"
    unfolding no_live_session_def using assms by (force dest!: cases simp: is_zero_def split: if_splits)
  show "no_live_session i (revoke_where p t w)" if "no_live_session i w"
    using that unfolding no_live_session_def using assms by (force dest!: cases simp: is_zero_def split: if_splits)
qed

lemma revokeSessions_Inr:
  assumes "revokeSessions S i w = (Inr (), w')" "usSessions S" "wNow w \<noteq> 0"
  shows "dead_at i (wNow w) w'"
proof -
  obtain fs where "w' = revoke_where (\<lambda>s. sUserID s = i) (wNow w) (w\<lparr>wFaults := fs\<rparr>)"
    using assms(1,2) unfolding revokeSessions_def Sessions_RevokeAllForUser_def
    by (auto simp: bindE_Inr now_run modifyE_run elim!: db_Inr)
  then show ?thesis
    using revoke_dead(1) [OF assms(3), of i "w\<lparr>wFaults := fs\<rparr>"] by (simp add: dead_at_def revoke_where_def)
qed

lemma keeps_dead:
  assumes "t \<noteq> 0"
  shows "keeps (dead_at i t) (revokeSessions S j)" "keeps (dead_at i t) (users_record S act meta a u d)"
    "keeps (dead_at i t) (update_password X S v req)"
proof -
  have all: "keeps (dead_at i t) (Sessions_RevokeAllForUser j)" for j
  proof (rule keepsI)
    fix w assume w: "dead_at i t w"
    have "keeps (dead_at i t) (db (modifyE (revoke_where (\<lambda>s. sUserID s = j) t)))"
      using revoke_dead(2) [OF assms] by (intro keeps_db keeps_modifyE blind_dead) (simp add: dead_at_def revoke_where_def)
    with w show "dead_at i t (snd (Sessions_RevokeAllForUser j w))"
      unfolding Sessions_RevokeAllForUser_def by (simp add: bindE_run now_run keeps_def dead_at_def)
  qed
  show r: "keeps (dead_at i t) (revokeSessions S j)" for j
    unfolding revokeSessions_def by (intro keeps_core all)
  show "keeps (dead_at i t) (users_record S act meta a u d)"
    unfolding users_record_def by (intro keeps_core keeps_Record blind_dead)
  show "keeps (dead_at i t) (update_password X S v req)"
    unfolding update_password_def
    by (intro keeps_core keeps_liftE keeps_entropy keeps_users_writes r blind_dead)
qed

lemma update_password_dead:
  assumes "update_password X S u (Some pw) w = (Inr ch, w')" "usSessions S" "wNow w \<noteq> 0"
  shows "dead_at (uID u) (wNow w) w' \<and> ch \<noteq> []"
proof -
  obtain h w1 w2 where 1: "HashPassword X pw w = (Inr h, w1)" and 2: "Users_UpdatePassword (uID u) h w1 = (Inr (), w2)"
    and 3: "revokeSessions S (uID u) w2 = (Inr (), w')" and ch: "ch = [(''password'', AString ''reset'')]"
    using assms(1) unfolding update_password_def
    by (auto simp: thenE_def bindE_Inr liftE_def throwE_run returnE_run split: sum.splits)
  have "quiet w w1" using 1 by (elim keeps_quiet [rotated]) (intro keeps_intros)
  moreover have "wNow w2 = wNow w1" using 2 Users_update_Inr by (auto simp: Users_UpdatePassword_def bindE_Inr now_run)
  ultimately have "wNow w2 = wNow w" by (simp add: quiet_def)
  then show ?thesis using revokeSessions_Inr [OF 3 assms(2)] assms(3) ch by simp
qed

lemma update_disabled_dead:
  assumes "update_disabled S u (Some True) w = (Inr (u', ch), w')" "\<not> uDisabled u" "usSessions S" "wNow w \<noteq> 0"
  shows "dead_at (uID u) (wNow w) w'"
proof -
  obtain w1 w2 where 1: "whenE (uRole u = RoleAdmin) (refuseIfLastAdmin (uID u)) w = (Inr (), w1)"
    and 2: "Users_SetDisabled (uID u) True w1 = (Inr (), w2)" and 3: "revokeSessions S (uID u) w2 = (Inr (), w')"
    using assms(1,2) unfolding update_disabled_def
    by (auto simp: thenE_def bindE_Inr returnE_run whenE_def split: if_splits)
  have "wNow w2 = wNow w" using SetDisabled_Inr [OF 2] refuse_quiet [OF 1] by (simp add: quiet_def)
  then show ?thesis using revokeSessions_Inr [OF 3 assms(3)] assms(4) by simp
qed

lemma Svc_Update_InrE:
  assumes "Svc_Update X S i inp act meta w = (Inr v, w')"
  obtains u w0 u1 ch1 w1 u2 ch2 w2 ch3 w3 where "Svc_Get i w = (Inr u, w0)"
    "update_role u (uiRole inp) w0 = (Inr (u1, ch1), w1)"
    "update_disabled S u1 (uiDisabled inp) w1 = (Inr (u2, ch2), w2)"
    "update_password X S u2 (uiPassword inp) w2 = (Inr ch3, w3)"
    "w' = w3 \<or> (\<exists>d. users_record S act meta ''user.update'' u2 d w3 = (Inr (), w'))"
proof -
  obtain u w0 u1 ch1 w1 u2 ch2 w2 ch3 w3 where r: "Svc_Get i w = (Inr u, w0)"
    "update_role u (uiRole inp) w0 = (Inr (u1, ch1), w1)"
    "update_disabled S u1 (uiDisabled inp) w1 = (Inr (u2, ch2), w2)"
    "update_password X S u2 (uiPassword inp) w2 = (Inr ch3, w3)"
    "(if ch1 @ ch2 @ ch3 = [] then returnE u2
      else thenE (users_record S act meta ''user.update'' u2 (ch1 @ ch2 @ ch3)) (returnE u2)) w3 = (Inr v, w')"
    using assms unfolding Svc_Update_def by (elim bindE_InrE) (auto elim!: bindE_InrE split: prod.splits)
  have "w' = w3 \<or> (\<exists>d. users_record S act meta ''user.update'' u2 d w3 = (Inr (), w'))"
    using r(5) by (auto simp: returnE_run thenE_def bindE_Inr split: if_splits)
  then show thesis using that r(1-4) by blast
qed

lemma update_role_same:
  assumes "update_role u req w = (Inr (u', ch), w')"
  shows "uID u' = uID u \<and> uDisabled u' = uDisabled u \<and> wNow w' = wNow w"
proof (cases "req = None \<or> req = Some (uRole u)")
  case True
  then show ?thesis using assms by (auto simp: update_role_def returnE_run)
next
  case False
  then obtain q where q: "req = Some q" "q \<noteq> uRole u" by (cases req) auto
  have v: "svc_validRole q"
    using assms q by (rule_tac ccontr) (simp add: update_role_def throwE_run)
  have "bindE (whenE (uRole u = RoleAdmin) (refuseIfLastAdmin (uID u))) (\<lambda>_.
      bindE (Users_UpdateRole (uID u) q) (\<lambda>_. returnE (u\<lparr>uRole := q\<rparr>, [(''role'', AString q)]))) w = (Inr (u', ch), w')"
    using assms q v by (simp add: update_role_def thenE_def)
  then obtain w1 where 1: "whenE (uRole u = RoleAdmin) (refuseIfLastAdmin (uID u)) w = (Inr (), w1)"
    and 2: "Users_UpdateRole (uID u) q w1 = (Inr (), w')" and u': "u' = u\<lparr>uRole := q\<rparr>"
    by (elim bindE_InrE) (simp add: returnE_run)
  show ?thesis using UpdateRole_Inr [OF 2 v] refuse_quiet [OF 1] u' by (simp add: quiet_def)
qed

lemma update_disabled_same:
  assumes "update_disabled S u req w = (Inr (u', ch), w')"
  shows "uID u' = uID u \<and> wNow w' = wNow w"
proof -
  have "keeps (\<lambda>v. wNow v = wNow w) (update_disabled S u req)"
    unfolding update_disabled_def revokeSessions_def refuseIfLastAdmin_def
    by (intro keeps_core keeps_Users_List keeps_users_writes keeps_session_writes) (simp_all add: fault_blind_def blind_def)
  from keeps_run [OF this _ assms] have "wNow w' = wNow w" by simp
  moreover have "uID u' = uID u"
    using assms unfolding update_disabled_def thenE_def
    by (auto elim!: bindE_InrE simp: returnE_run split: option.splits if_splits)
  ultimately show ?thesis by simp
qed

lemma dead_inactive: "dead_at i t w \<Longrightarrow> s \<in> set (wSessions w) \<Longrightarrow> sUserID s = i \<Longrightarrow> \<not> session_Active s n"
  by (auto simp: dead_at_def no_live_session_def session_Active_def)

lemma Svc_Update_dead:
  assumes "usSessions S" "wNow w \<noteq> 0" "db_ok w" "Svc_Update X S i inp act meta w = (Inr v, w')"
    and "uiPassword inp \<noteq> None \<or> uiDisabled inp = Some True \<and> (\<exists>u\<in>set (wUsers w). uID u = i \<and> \<not> uDisabled u)"
  shows "dead_at i (wNow w) w'"
proof -
  obtain u w0 u1 ch1 w1 u2 ch2 w2 ch3 w3 where 0: "Svc_Get i w = (Inr u, w0)"
    and 1: "update_role u (uiRole inp) w0 = (Inr (u1, ch1), w1)"
    and 2: "update_disabled S u1 (uiDisabled inp) w1 = (Inr (u2, ch2), w2)"
    and 3: "update_password X S u2 (uiPassword inp) w2 = (Inr ch3, w3)"
    and 4: "w' = w3 \<or> (\<exists>d. users_record S act meta ''user.update'' u2 d w3 = (Inr (), w'))"
    using assms(4) by (rule Svc_Update_InrE)
  have u: "u \<in> set (wUsers w)" "uID u = i" "wNow w0 = wNow w" using Svc_Get_Inr [OF 0] by (auto simp: quiet_def)
  have ids: "uID u1 = i" "uID u2 = i" "uDisabled u1 = uDisabled u" "wNow w1 = wNow w" "wNow w2 = wNow w"
    using update_role_same [OF 1] update_disabled_same [OF 2] u by simp_all
  have "dead_at i (wNow w) w3"
  proof (cases "uiPassword inp")
    case (Some pw)
    then show ?thesis using update_password_dead [of X S u2 pw w2 ch3 w3] 3 assms(1,2) ids by simp
  next
    case None
    then obtain x where x: "uiDisabled inp = Some True" "x \<in> set (wUsers w)" "uID x = i" "\<not> uDisabled x"
      using assms(5) by auto
    have "x = u" using users_tbl.same_pk [of w x u] assms(3) x u by (simp add: db_ok_def)
    then have "dead_at i (wNow w) w2"
      using update_disabled_dead [of S u1 w1 u2 ch2 w2] 2 x ids assms(1,2) by simp
    then show ?thesis using keeps_run [OF keeps_dead(3) _ 3] assms(2) by blast
  qed
  then show ?thesis using 4 keeps_run [OF keeps_dead(2)] assms(2) by blast
qed

lemma ResetTOTP_dead:
  assumes "usSessions S" "wNow w \<noteq> 0" "ResetTOTP S i act meta w = (Inr (), w')"
  shows "dead_at i (wNow w) w'"
proof -
  obtain u w0 where 0: "Svc_Get i w = (Inr u, w0)" and ne: "uID u \<noteq> idUserID act"
    and rest: "bindE (Users_SetTOTP (uID u) '''' False) (\<lambda>_. bindE (revokeSessions S (uID u)) (\<lambda>_.
         users_record S act meta ''user.totp_reset'' u [])) w0 = (Inr (), w')"
    using assms(3) unfolding ResetTOTP_def thenE_def by (elim bindE_InrE) (auto simp: throwE_run split: if_splits)
  then obtain w1 w2 where 1: "Users_SetTOTP (uID u) '''' False w0 = (Inr (), w1)"
    and 2: "revokeSessions S (uID u) w1 = (Inr (), w2)" and 3: "users_record S act meta ''user.totp_reset'' u [] w2 = (Inr (), w')"
    by (elim bindE_InrE) simp
  have "wNow w1 = wNow w0" using 1 Users_update_Inr by (auto simp: Users_SetTOTP_def bindE_Inr now_run)
  then have "wNow w1 = wNow w" "uID u = i" using Svc_Get_Inr [OF 0] by (simp_all add: quiet_def)
  then have "dead_at i (wNow w) w2" using revokeSessions_Inr [OF 2 assms(1)] assms(2) by simp
  then show ?thesis using keeps_run [OF keeps_dead(2) _ 3] assms(2) by blast
qed

text \<open>
  C14: when a password reset, a disabling or a two-factor reset reports success, no session
  of that account is active any more.
\<close>

theorem account_changes_end_sessions:
  assumes "usSessions S" and "wNow w \<noteq> 0" and "db_ok w"
    and "(\<exists>v. Svc_Update X S i inp act meta w = (Inr v, w')
            \<and> (uiPassword inp \<noteq> None \<or> uiDisabled inp = Some True \<and> (\<exists>u\<in>set (wUsers w). uID u = i \<and> \<not> uDisabled u)))
       \<or> ResetTOTP S i act meta w = (Inr (), w')"
  shows "\<forall>s\<in>set (wSessions w'). sUserID s = i \<longrightarrow> \<not> session_Active s t"
proof -
  have "dead_at i (wNow w) w'"
    using assms(4)
  proof
    assume "\<exists>v. Svc_Update X S i inp act meta w = (Inr v, w')
        \<and> (uiPassword inp \<noteq> None \<or> uiDisabled inp = Some True \<and> (\<exists>u\<in>set (wUsers w). uID u = i \<and> \<not> uDisabled u))"
    then obtain v where v: "Svc_Update X S i inp act meta w = (Inr v, w')"
      "uiPassword inp \<noteq> None \<or> uiDisabled inp = Some True \<and> (\<exists>u\<in>set (wUsers w). uID u = i \<and> \<not> uDisabled u)"
      by blast
    show ?thesis by (rule Svc_Update_dead [OF assms(1-3) v])
  qed (rule ResetTOTP_dead [OF assms(1,2)])
  then show ?thesis using dead_inactive by blast
qed

definition demo_users :: users_service where
  "demo_users = \<lparr>usSecrets = Some [1], usSessions = True, usRecorder = True\<rparr>"

definition demo_actor :: identity where
  "demo_actor = \<lparr>idUserID = ''u2'', idUsername = ''Bob'', idRole = ''admin'', idTokenID = '''', idScopes = []\<rparr>"

lemma demo_signed_in_admin: "demo_admin \<in> set (wUsers demo_signed_in)" "uID demo_admin = ''u1''"
  by (simp_all add: demo_signed_in_def demo_world_def demo_admin_def)

lemma demo_reset: "\<exists>w'. ResetTOTP demo_users ''u1'' demo_actor demo_meta demo_signed_in = (Inr (), w')"
proof -
  have get: "Svc_Get ''u1'' demo_signed_in = (Inr demo_admin, demo_signed_in)"
    using Svc_Get_present [OF demo_signed_in_ok(3,1) demo_signed_in_admin(1)] demo_signed_in_admin(2) by simp
  have "''u1'' \<in> uID ` set (wUsers demo_signed_in)" using demo_signed_in_admin by force
  then show ?thesis
    using get demo_signed_in_admin(2) demo_signed_in_ok(3)
    by (simp add: ResetTOTP_def bindE_run thenE_run now_run Users_SetTOTP_def Users_update_run demo_actor_def
        revokeSessions_def demo_users_def Sessions_RevokeAllForUser_def db_no_faults modifyE_run users_record_def)
      (metis Record_eq)
qed

theorem account_changes_end_sessions_witness:
  "\<exists>w'. ResetTOTP demo_users ''u1'' demo_actor demo_meta demo_signed_in = (Inr (), w')
     \<and> (\<forall>s\<in>set (wSessions w'). sUserID s = ''u1'' \<longrightarrow> \<not> session_Active s (2 * hour))"
proof -
  obtain w' where run: "ResetTOTP demo_users ''u1'' demo_actor demo_meta demo_signed_in = (Inr (), w')"
    using demo_reset by blast
  have "usSessions demo_users" "wNow demo_signed_in \<noteq> 0"
    using demo_signed_in_ok(2) by (simp_all add: demo_users_def)
  from account_changes_end_sessions [OF this demo_signed_in_ok(1) disjI2 [OF run]] run show ?thesis by blast
qed

section \<open>Deletion\<close>

text \<open>
  When a deletion reports success, the account is gone and with it every session and
  every API token it owned, and no other account changed.
\<close>

theorem Delete_cascades:
  assumes "Svc_Delete S i act meta w = (Inr (), w')"
  shows "i \<noteq> idUserID act
    \<and> wUsers w' = filter (\<lambda>u. uID u \<noteq> i) (wUsers w)
    \<and> (\<forall>s\<in>set (wSessions w'). sUserID s \<noteq> i) \<and> (\<forall>t\<in>set (wTokens w'). tUserID t \<noteq> i)"
proof -
  obtain u w0 where 0: "Svc_Get i w = (Inr u, w0)" and ne: "uID u \<noteq> idUserID act"
    and rest: "bindE (whenE (uRole u = RoleAdmin) (refuseIfLastAdmin (uID u))) (\<lambda>_.
       bindE (revokeSessions S (uID u)) (\<lambda>_.
       bindE (mapErr (not_found_as ErrUserNotFound) (Users_Delete (uID u))) (\<lambda>_.
       users_record S act meta ''user.delete'' u []))) w0 = (Inr (), w')"
    using assms unfolding Svc_Delete_def thenE_def by (elim bindE_InrE) (auto simp: throwE_run split: if_splits)
  then obtain w1 w2 w3 where 1: "whenE (uRole u = RoleAdmin) (refuseIfLastAdmin (uID u)) w0 = (Inr (), w1)"
    and 2: "revokeSessions S (uID u) w1 = (Inr (), w2)" and 3: "Users_Delete (uID u) w2 = (Inr (), w3)"
    and 4: "users_record S act meta ''user.delete'' u [] w3 = (Inr (), w')"
    by (elim bindE_InrE) simp
  have u: "u \<in> set (wUsers w)" "uID u = i" "quiet w w1"
    using Svc_Get_Inr [OF 0] refuse_quiet [OF 1] by (auto simp: quiet_def)
  have "keeps (\<lambda>v. wUsers v = wUsers w) (revokeSessions S (uID u))"
    unfolding revokeSessions_def by (intro keeps_core keeps_session_writes) (simp_all add: fault_blind_def blind_def)
  from keeps_run [OF this _ 2] have users2: "wUsers w2 = wUsers w" using u(3) by (simp add: quiet_def)
  obtain fs fs' where w3: "w3 = (delete_user i (w2\<lparr>wFaults := fs\<rparr>))\<lparr>wFaults := fs'\<rparr>"
    using Users_exec_Inr [OF 3 [unfolded Users_Delete_def]] u(2) by blast
  have "i \<in> uID ` set (wUsers w2)" using u users2 by auto
  then have del: "wUsers w3 = filter (\<lambda>u. uID u \<noteq> i) (wUsers w)"
    "\<forall>s\<in>set (wSessions w3). sUserID s \<noteq> i" "\<forall>t\<in>set (wTokens w3). tUserID t \<noteq> i"
    using users2 by (auto simp: w3 delete_user_def delete_where_def)
  have "wUsers w' = wUsers w3 \<and> wSessions w' = wSessions w3 \<and> wTokens w' = wTokens w3"
    using 4 Record_frame unfolding users_record_def by (auto simp: returnE_run split: if_splits dest: Record_frame)
  then show ?thesis using del ne u(2) by simp
qed

lemma users_record_run: "users_record S act meta a u d w = (Inr (), snd (users_record S act meta a u d w))"
  by (cases "usRecorder S") (simp_all add: users_record_def returnE_run, rule Record_eq)

definition demo_viewer :: user where
  "demo_viewer = zero_user\<lparr>uID := ''u2'', uUsername := ''Bob'', uRole := ''viewer'', uPasswordHash := demo_hash\<rparr>"

theorem Delete_cascades_witness:
  "\<exists>w'. Svc_Delete demo_users ''u2'' \<lparr>idUserID = ''u1'', idUsername = ''Ada'', idRole = ''admin'', idTokenID = '''', idScopes = []\<rparr>
        demo_meta (demo_world\<lparr>wUsers := [demo_admin, demo_viewer]\<rparr>) = (Inr (), w')
     \<and> wUsers w' = [demo_admin]"
proof -
  let ?w = "demo_world\<lparr>wUsers := [demo_admin, demo_viewer]\<rparr>"
  let ?a = "\<lparr>idUserID = ''u1'', idUsername = ''Ada'', idRole = ''admin'', idTokenID = '''', idScopes = []\<rparr>"
  have ids: "uID demo_admin = ''u1''" "uID demo_viewer = ''u2''" "uRole demo_viewer \<noteq> RoleAdmin" "wFaults ?w = []"
    by (simp_all add: demo_admin_def demo_viewer_def RoleAdmin_def demo_world_def entropy_world_def)
  have get: "Svc_Get ''u2'' ?w = (Inr demo_viewer, ?w)"
    using ids by (simp add: Svc_Get_def Users_ByID_def Users_scanOne_def mapErr_def prog_simps)
  obtain w2 where rev: "revokeSessions demo_users ''u2'' ?w = (Inr (), w2)" "wUsers w2 = wUsers ?w" "wFaults w2 = []"
    using ids by (simp add: revokeSessions_def demo_users_def Sessions_RevokeAllForUser_def prog_simps revoke_where_def)
  obtain w3 where del: "Users_Delete ''u2'' w2 = (Inr (), w3)"
    using rev(2,3) ids by (simp add: Users_Delete_def Users_exec_def rows_affected_def prog_simps delete_user_def)
  have "\<exists>w'. users_record demo_users ?a demo_meta ''user.delete'' demo_viewer [] w3 = (Inr (), w')"
    using users_record_run by blast
  then have "\<exists>w'. Svc_Delete demo_users ''u2'' ?a demo_meta ?w = (Inr (), w')"
    using get rev(1) del ids by (simp add: Svc_Delete_def bindE_run thenE_run mapErr_def attemptE_run whenE_def returnE_run)
  then obtain w' where run: "Svc_Delete demo_users ''u2'' ?a demo_meta ?w = (Inr (), w')" by blast
  from Delete_cascades [OF run] run ids show ?thesis by auto
qed

section \<open>Two-factor enrolment\<close>

lemma BeginTOTP_InrE:
  assumes "BeginTOTP X S act meta w = (Inr enr, w')" "usSecrets S = Some box"
  obtains u secret enc wa wa' wb wb' where "u \<in> set (wUsers w)" "uID u = idUserID act" "\<not> uTOTPEnabled u"
    "NewTOTPSecret wa = (Inr secret, wa')" "Encrypt X box secret wb = (Inr enc, wb')"
    "wUsers w' = update_where (\<lambda>x. uID x = idUserID act)
       (\<lambda>x. x\<lparr>uTOTPSecretEnc := enc, uTOTPEnabled := False, uUpdatedAt := wNow w\<rparr>) (wUsers w)"
    "tsSecret enr = FormatTOTPSecret secret"
proof -
  obtain u w0 where 0: "Svc_Get (idUserID act) w = (Inr u, w0)" and dis: "\<not> uTOTPEnabled u"
    and rest: "bindE NewTOTPSecret (\<lambda>secret. bindE (Encrypt X box secret) (\<lambda>encrypted.
        bindE (Users_SetTOTP (uID u) encrypted False) (\<lambda>_.
        bindE (users_record S act meta ''user.totp_begin'' u []) (\<lambda>_.
        returnE \<lparr>tsSecret = FormatTOTPSecret secret, tsURI = TOTPURI totpIssuer (uUsername u) secret\<rparr>)))) w0 = (Inr enr, w')"
    using assms unfolding BeginTOTP_def thenE_def by (auto elim!: bindE_InrE [of "Svc_Get _"] simp: throwE_run split: if_splits)
  from rest obtain secret w1 enc w2 w3 where 1: "NewTOTPSecret w0 = (Inr secret, w1)" and 2: "Encrypt X box secret w1 = (Inr enc, w2)"
    and 3: "Users_SetTOTP (uID u) enc False w2 = (Inr (), w3)" and 4: "users_record S act meta ''user.totp_begin'' u [] w3 = (Inr (), w')"
    and s: "enr = \<lparr>tsSecret = FormatTOTPSecret secret, tsURI = TOTPURI totpIssuer (uUsername u) secret\<rparr>"
    by (elim bindE_InrE) (simp add: returnE_run)
  have u: "u \<in> set (wUsers w)" "uID u = idUserID act" "quiet w w0" using Svc_Get_Inr [OF 0] by auto
  have "quiet w0 w1" using 1 by (elim keeps_quiet [rotated]) (intro keeps_intros)
  moreover have "quiet w1 w2" using 2 by (elim keeps_quiet [rotated]) (intro keeps_intros)
  ultimately have "quiet w w2" using u(3) quiet_trans by blast
  moreover have "wUsers w3 = update_where (\<lambda>x. uID x = uID u)
       (\<lambda>x. x\<lparr>uTOTPSecretEnc := enc, uTOTPEnabled := False, uUpdatedAt := wNow w2\<rparr>) (wUsers w2)"
    using 3 Users_update_Inr by (auto simp: Users_SetTOTP_def bindE_Inr now_run)
  moreover have "wUsers w' = wUsers w3"
    using 4 unfolding users_record_def by (auto simp: returnE_run split: if_splits dest: Record_frame)
  ultimately have "wUsers w' = update_where (\<lambda>x. uID x = idUserID act)
       (\<lambda>x. x\<lparr>uTOTPSecretEnc := enc, uTOTPEnabled := False, uUpdatedAt := wNow w\<rparr>) (wUsers w)"
    using u(2) by (simp add: quiet_def)
  then show thesis using that u(1,2) dis 1 2 s by simp
qed

text \<open>
  C15: enrolment works end to end: after two-factor setup has begun, the code an
  authenticator computes from the secret that was shown, on a clock at most 30 seconds
  off, confirms it and switches two-factor on for the account.
\<close>

theorem TOTP_enrolment_confirms:
  assumes "aead_ok X" and "usSecrets S = Some box" and "BeginTOTP X S act meta w = (Inr enr, w1)"
    and "TOTPCode (tsSecret enr) t = Inr c" and "\<bar>t - wNow v\<bar> \<le> totpPeriod"
    and "wUsers v = wUsers w1" and "db_ok v" and "wFaults v = []"
  shows "\<exists>v'. ConfirmTOTP X S c act meta v = (Inr (), v')
    \<and> (\<exists>u\<in>set (wUsers v'). uID u = idUserID act \<and> uTOTPEnabled u)"
proof -
  obtain u secret enc wa wa' wb wb' where u: "u \<in> set (wUsers w)" "uID u = idUserID act" "\<not> uTOTPEnabled u"
    and new: "NewTOTPSecret wa = (Inr secret, wa')" and enc: "Encrypt X box secret wb = (Inr enc, wb')"
    and users: "wUsers w1 = update_where (\<lambda>x. uID x = idUserID act)
       (\<lambda>x. x\<lparr>uTOTPSecretEnc := enc, uTOTPEnabled := False, uUpdatedAt := wNow w\<rparr>) (wUsers w)"
    and shown: "tsSecret enr = FormatTOTPSecret secret"
    using assms(3,2) by (rule BeginTOTP_InrE)
  let ?u = "u\<lparr>uTOTPSecretEnc := enc, uTOTPEnabled := False, uUpdatedAt := wNow w\<rparr>"
  have row: "?u \<in> set (wUsers v)" using u users assms(6) by force
  have same: "decodeTOTPSecret (FormatTOTPSecret secret) = decodeTOTPSecret secret"
    using new_secret_decodes [OF new] by simp
  then have "TOTPCode secret t = Inr c" using assms(4) shown by (simp add: TOTPCode_def)
  then have ok: "VerifyTOTP secret c (wNow v) = Inr ()" using assms(5) by (rule verify_skew)
  have "secret \<noteq> ''''"
  proof
    assume "secret = ''''"
    moreover have "decodeTOTPSecret '''' = Inl ErrInvalidTOTPSecret" by code_simp
    ultimately show False using new_secret_decodes [OF new] by simp
  qed
  then have ne: "enc \<noteq> ''''" using Encrypt_not_Nil [OF enc] by blast
  have dec: "Decrypt X box enc = Inr secret" using assms(1) enc by (rule decrypt_encrypt)
  have get: "Svc_Get (idUserID act) v = (Inr ?u, v)"
    using Svc_Get_present [OF assms(8,7) row] u(2) by simp
  let ?v = "v\<lparr>wUsers := update_where (\<lambda>x. uID x = idUserID act)
      (\<lambda>x. x\<lparr>uTOTPSecretEnc := enc, uTOTPEnabled := True, uUpdatedAt := wNow v\<rparr>) (wUsers v)\<rparr>"
  have "idUserID act \<in> uID ` set (wUsers v)" using row u(2) by force
  then have set: "Users_SetTOTP (idUserID act) enc True v = (Inr (), ?v)"
    using assms(8) by (simp add: Users_SetTOTP_def bindE_run now_run Users_update_run)
  let ?x = "?u\<lparr>uTOTPSecretEnc := enc, uTOTPEnabled := True, uUpdatedAt := wNow v\<rparr>"
  have "?x \<in> set (wUsers ?v)"
    using row u(2) by (auto intro!: rev_image_eqI [of ?u])
  then have "\<exists>x\<in>set (wUsers ?v). uID x = idUserID act \<and> uTOTPEnabled x"
    using u(2) by (intro bexI [of _ ?x]) simp_all
  moreover have "\<exists>v'. ConfirmTOTP X S c act meta v = (Inr (), v') \<and> wUsers v' = wUsers ?v"
  proof -
    obtain v' where rec: "users_record S act meta ''user.totp_enable'' ?u [] ?v = (Inr (), v')"
      using users_record_run by blast
    then have "wUsers v' = wUsers ?v"
      unfolding users_record_def by (auto simp: returnE_run split: if_splits dest: Record_frame)
    moreover have "ConfirmTOTP X S c act meta v = (Inr (), v')"
      using assms(2) get ne dec ok set rec u(2)
      by (simp add: ConfirmTOTP_def bindE_run thenE_run liftE_def returnE_run now_run)
    ultimately show ?thesis by blast
  qed
  ultimately show ?thesis by metis
qed

definition demo_self :: identity where
  "demo_self = \<lparr>idUserID = ''u1'', idUsername = ''Ada'', idRole = ''admin'', idTokenID = '''', idScopes = []\<rparr>"

lemma demo_begin: "\<exists>enr w'. BeginTOTP sample_ext demo_users demo_self demo_meta demo_world = (Inr enr, w') \<and> db_ok w'"
proof -
  have fields: "wFaults demo_world = []" "demo_admin \<in> set (wUsers demo_world)" "uID demo_admin = ''u1''"
    "\<not> uTOTPEnabled demo_admin" "wEntropy demo_world = replicate 64 7"
    by (simp_all add: demo_world_def demo_admin_def zero_user_def entropy_world_def)
  have get: "Svc_Get ''u1'' demo_world = (Inr demo_admin, demo_world)"
    using Svc_Get_present [OF fields(1) demo_db_ok fields(2)] fields(3) by simp
  obtain secret where new: "NewTOTPSecret demo_world = (Inr secret, demo_world\<lparr>wEntropy := replicate 44 7\<rparr>)"
    using fields(5) by (simp add: NewTOTPSecret_def bindE_run rand_read_def totpSecretBytes_def returnE_run)
  obtain enc w2 where enc: "Encrypt sample_ext [1] secret (demo_world\<lparr>wEntropy := replicate 44 7\<rparr>) = (Inr enc, w2)"
    and w2: "wUsers w2 = wUsers demo_world" "wFaults w2 = []"
    using fields(1)
    by (cases "secret = []") (simp_all add: Encrypt_def bindE_run rand_read_def nonce_size_def returnE_run)
  have "''u1'' \<in> uID ` set (wUsers w2)" using fields(2,3) w2(1) by force
  then obtain w3 where set: "Users_SetTOTP ''u1'' enc False w2 = (Inr (), w3)"
    using w2 by (simp add: Users_SetTOTP_def bindE_run now_run Users_update_run)
  have "\<exists>w'. users_record demo_users demo_self demo_meta ''user.totp_begin'' demo_admin [] w3 = (Inr (), w')"
    using users_record_run by blast
  then have "\<exists>enr w'. BeginTOTP sample_ext demo_users demo_self demo_meta demo_world = (Inr enr, w')"
    using get new enc set fields
    by (auto simp: BeginTOTP_def demo_users_def demo_self_def bindE_run thenE_run returnE_run)
  then show ?thesis using keeps_run [OF db_ok_user_ops(4) demo_db_ok] by blast
qed

theorem TOTP_enrolment_confirms_witness:
  "\<exists>enr w1 c v'. BeginTOTP sample_ext demo_users demo_self demo_meta demo_world = (Inr enr, w1)
     \<and> TOTPCode (tsSecret enr) (30 * second) = Inr c
     \<and> ConfirmTOTP sample_ext demo_users c demo_self demo_meta (w1\<lparr>wNow := 0, wFaults := []\<rparr>) = (Inr (), v')"
proof -
  obtain enr w1 where run: "BeginTOTP sample_ext demo_users demo_self demo_meta demo_world = (Inr enr, w1)" and ok: "db_ok w1"
    using demo_begin by blast
  have box: "usSecrets demo_users = Some [1]" by (simp add: demo_users_def)
  obtain u secret enc wa wa' wb wb' where "NewTOTPSecret wa = (Inr secret, wa')" "tsSecret enr = FormatTOTPSecret secret"
    using BeginTOTP_InrE [OF run box] by metis
  then obtain c where c: "TOTPCode (tsSecret enr) (30 * second) = Inr c"
    using new_secret_decodes [of wa secret wa'] by (simp add: TOTPCode_def)
  have "\<bar>30 * second - wNow (w1\<lparr>wNow := 0, wFaults := []\<rparr>)\<bar> \<le> totpPeriod" by (simp add: totpPeriod_def)
  from TOTP_enrolment_confirms [OF sample_ext_ok(3) box run c this] ok run c show ?thesis by auto
qed

end
