(* ===== verification/Api_Laws.thy ===== *)
theory Api_Laws
  imports Api Service_Users_Laws
begin

text \<open>
  What the HTTP layer guarantees: which requests reach a handler, that an installation
  always keeps an enabled administrator however requests interleave and fail, and that
  the error mapping reveals nothing about why a login failed.
\<close>

section \<open>Programs of the store inside handlers\<close>

lemma on_store_run:
  "on_store f m s = (case m (svWorld s) of
     (Inl e, w) \<Rightarrow> (Inl (AsAPIError (f e)), s\<lparr>svWorld := w\<rparr>) | (Inr x, w) \<Rightarrow> (Inr x, s\<lparr>svWorld := w\<rparr>))"
  by (simp add: on_store_def)

lemma on_store_Inr: "on_store f m s = (Inr x, s') \<longleftrightarrow> (\<exists>w. m (svWorld s) = (Inr x, w) \<and> s' = s\<lparr>svWorld := w\<rparr>)"
  by (auto simp: on_store_def split: prod.splits sum.splits)

lemma snd_on_store: "snd (on_store f m s) = s\<lparr>svWorld := snd (m (svWorld s))\<rparr>"
  by (simp add: on_store_def split: prod.split sum.split)

lemma keeps_on_store:
  assumes "\<And>s. I s \<longleftrightarrow> J (svWorld s) \<and> K (svTickets s) (svGeneral s) (svLogin s)" and "keeps J m"
  shows "keeps I (on_store f m)"
  using assms by (auto simp: keeps_def snd_on_store)

section \<open>Who reaches a handler\<close>

text \<open>What a chain has established when it calls the handler it protects.\<close>

definition admitted :: "ext \<Rightarrow> auth_service \<Rightarrow> http_request \<Rightarrow> identity \<Rightarrow> server \<Rightarrow> bool" where
  "admitted X S rq i s \<longleftrightarrow>
     fst (fst (Allow (ClientIP rq) (wNow (svWorld s)) (svGeneral s)))
     \<and> BearerToken rq \<noteq> ''''
     \<and> (\<exists>u\<in>set (wUsers (svWorld s)). idUserID i = uID u \<and> idRole i = uRole u \<and> \<not> uDisabled u)
     \<and> (rqMethod rq \<in> set safeMethods \<or> rqOrigin rq = '''' \<or> OriginAllowed rq (rqOrigin rq) '''')"

text \<open>
  A step that leaves accounts, sessions, attempts, the audit trail and the clock alone and
  keeps the integrity of the tables.
\<close>

definition untouched :: "world \<Rightarrow> world \<Rightarrow> bool" where
  "untouched w w' \<longleftrightarrow> wUsers w' = wUsers w \<and> wSessions w' = wSessions w \<and> wAttempts w' = wAttempts w
     \<and> wAudit w' = wAudit w \<and> wNow w' = wNow w"

definition bystander :: "world \<Rightarrow> world \<Rightarrow> bool" where
  "bystander w w' \<longleftrightarrow> untouched w w' \<and> (db_ok w \<longrightarrow> db_ok w')"

lemma bystander_refl [simp]: "bystander w w"
  by (simp add: bystander_def untouched_def)

lemma bystander_trans: "bystander a b \<Longrightarrow> bystander b c \<Longrightarrow> bystander a c"
  by (simp add: bystander_def untouched_def)

lemma quiet_bystander: "quiet a b \<Longrightarrow> bystander a b"
  by (simp add: bystander_def untouched_def quiet_def db_ok_def unique_defs roles_ok_def refs_ok_def)

lemma Authenticate_bystander:
  assumes "Auth_Authenticate X S c w = (r, w')"
  shows "bystander w w'"
proof -
  have b: "fault_blind (untouched w)" "blind wTokens_update (untouched w)"
    by (simp_all add: fault_blind_def blind_def untouched_def)
  have "keeps (untouched w) (Auth_Authenticate X S c)"
    unfolding Auth_Authenticate_def authenticateJWT_def authenticateAPIToken_def Let_def
    by (intro keeps_core keeps_now keeps_mapErr keeps_Parse keeps_Users_ByID keeps_Tokens_ByHash
        keeps_Tokens_Touch_blind b)
  from keeps_run [OF this _ assms] keeps_run [OF db_ok_auth_flows(5) _ assms] show ?thesis
    by (simp add: bystander_def untouched_def)
qed

lemma put_limiter_simps [simp]:
  "svWorld (put_limiter k l s) = svWorld s" "svTickets (put_limiter k l s) = svTickets s"
  by (cases k; simp)+

lemma RateLimit_run:
  "RateLimit k next rq i s =
     (let a = Allow (ClientIP rq) (wNow (svWorld s)) (get_limiter k s)
      in if fst (fst a) then next rq i (put_limiter k (snd a) s) else (Inl denyRateLimited, put_limiter k (snd a) s))"
  by (simp add: RateLimit_def throwE_run Let_def split: prod.split)

lemma requireInitialized_cases:
  assumes "requireInitialized next rq i s = (r, s')"
  obtains (closed) e w where "r = Inl e" "s' = s\<lparr>svWorld := w\<rparr>" "quiet (svWorld s) w"
    | (passed) w where "quiet (svWorld s) w" "next rq i (s\<lparr>svWorld := w\<rparr>) = (r, s')" "wUsers (svWorld s) \<noteq> []"
proof (cases "Auth_Initialized (svWorld s)")
  case (Pair a w)
  have q: "quiet (svWorld s) w" using Pair by (rule quiet_login_reads)
  show thesis
  proof (cases a)
    case (Inl e)
    then show ?thesis using assms Pair q closed by (auto simp: requireInitialized_def bindE_run on_store_run)
  next
    case (Inr b)
    show ?thesis
    proof (cases b)
      case True
      then have "wUsers (svWorld s) \<noteq> []" using Initialized_Inr [of "svWorld s" b w] Pair Inr by auto
      then show ?thesis using assms Pair Inr True q passed by (auto simp: requireInitialized_def bindE_run on_store_run)
    next
      case False
      then show ?thesis
        using assms Pair Inr q closed by (auto simp: requireInitialized_def bindE_run on_store_run throwE_run)
    qed
  qed
qed

lemma Authenticate_cases:
  assumes run: "Authenticate X S (RequireAuth (CSRFGuard '''' next)) rq anonymous s = (r, s')"
  obtains (denied) e w where "r = Inl e" "s' = s\<lparr>svWorld := w\<rparr>" "bystander (svWorld s) w"
    | (reached) i w where "next rq i (s\<lparr>svWorld := w\<rparr>) = (r, s')" "Authenticated i" "bystander (svWorld s) w"
      "BearerToken rq \<noteq> ''''"
      "\<exists>u\<in>set (wUsers (svWorld s)). idUserID i = uID u \<and> idRole i = uRole u \<and> \<not> uDisabled u"
      "rqMethod rq \<in> set safeMethods \<or> rqOrigin rq = '''' \<or> OriginAllowed rq (rqOrigin rq) ''''"
proof (cases "BearerToken rq = ''''")
  case True
  then show thesis using run denied [of _ "svWorld s"]
    by (auto simp: Authenticate_def RequireAuth_def Authenticated_def anonymous_def throwE_run)
next
  case cred: False
  obtain a w where auth: "Auth_Authenticate X S (BearerToken rq) (svWorld s) = (a, w)" by force
  have b: "bystander (svWorld s) w" using auth by (rule Authenticate_bystander)
  show thesis
  proof (cases a)
    case (Inl e)
    then show ?thesis using run auth cred b denied by (auto simp: Authenticate_def bindE_run on_store_run)
  next
    case (Inr i)
    let ?s = "s\<lparr>svWorld := w\<rparr>"
    have next_run: "RequireAuth (CSRFGuard '''' next) rq i ?s = (r, s')"
      using run auth cred Inr by (simp add: Authenticate_def bindE_run on_store_run)
    have u: "\<exists>u\<in>set (wUsers (svWorld s)). idUserID i = uID u \<and> idRole i = uRole u \<and> \<not> uDisabled u"
      using Authenticate_Inr [OF auth [unfolded Inr]] by auto
    show ?thesis
    proof (cases "(\<exists>e. r = Inl e) \<and> s' = ?s")
      case True
      then show ?thesis using b denied by auto
    next
      case False
      then have "next rq i ?s = (r, s')" "Authenticated i"
        "rqMethod rq \<in> set safeMethods \<or> rqOrigin rq = '''' \<or> OriginAllowed rq (rqOrigin rq) ''''"
        using next_run by (auto simp: RequireAuth_def CSRFGuard_def throwE_run split: if_splits)
      then show ?thesis using cred u b by (intro reached) simp_all
    qed
  qed
qed

lemma authenticated_cases:
  assumes "authenticated X S next rq anonymous s = (r, s')"
  obtains (denied) e where "r = Inl e" "bystander (svWorld s) (svWorld s')" "svTickets s' = svTickets s"
      "svGeneral s' = snd (Allow (ClientIP rq) (wNow (svWorld s)) (svGeneral s))" "svLogin s' = svLogin s"
    | (reached) i s1 where "next rq i s1 = (r, s')" "admitted X S rq i s" "Authenticated i"
      "bystander (svWorld s) (svWorld s1)" "svTickets s1 = svTickets s"
      "svGeneral s1 = snd (Allow (ClientIP rq) (wNow (svWorld s)) (svGeneral s))" "svLogin s1 = svLogin s"
proof -
  let ?a = "Allow (ClientIP rq) (wNow (svWorld s)) (svGeneral s)"
  let ?s = "s\<lparr>svGeneral := snd ?a\<rparr>"
  let ?n = "Authenticate X S (RequireAuth (CSRFGuard '''' next))"
  show thesis
  proof (cases "fst (fst ?a)")
    case False
    then show ?thesis using assms denied by (auto simp: authenticated_def RateLimit_run Let_def)
  next
    case ok: True
    then have "requireInitialized ?n rq anonymous ?s = (r, s')"
      using assms by (simp add: authenticated_def RateLimit_run Let_def)
    then show ?thesis
    proof (cases rule: requireInitialized_cases)
      case (closed e w)
      then show ?thesis using denied by (auto dest: quiet_bystander)
    next
      case (passed w)
      have q: "quiet (svWorld s) w" and b: "bystander (svWorld s) w" using passed(1) by (auto dest: quiet_bystander)
      from passed(2) show ?thesis
      proof (cases rule: Authenticate_cases)
        case (denied e w1)
        then show ?thesis using that(1) [of e] bystander_trans [OF b] by simp
      next
        case (reached i w1)
        then show ?thesis using that(2) [of i] bystander_trans [OF b] ok q by (simp add: admitted_def quiet_def)
      qed
    qed
  qed
qed

lemma permitted_cases:
  assumes "permitted X S perm next rq anonymous s = (r, s')"
  obtains (denied) e where "r = Inl e" "bystander (svWorld s) (svWorld s')"
    | (reached) i s1 where "next rq i s1 = (r, s')" "admitted X S rq i s" "RoleHas (idRole i) perm"
      "bystander (svWorld s) (svWorld s1)"
  using assms unfolding permitted_def
proof (cases rule: authenticated_cases)
  case (reached i s1)
  then show thesis using that by (auto simp: RequirePermission_def throwE_run split: if_splits)
qed auto

text \<open>
  C2: on a route that asks for a permission, whatever the handler behind it, a request is
  turned away with accounts, sessions, attempts and audit trail untouched, or it reaches
  the handler as an account that exists and is enabled at that moment, with that account's
  current role and the permission among those of the role; then the client was within its
  rate limit, presented a bearer credential and, for a method that changes state, came
  from an allowed origin or none.
\<close>

theorem permission_enforced:
  assumes "permitted X S perm next rq anonymous s = (r, s')"
  shows "(\<exists>e. r = Inl e \<and> bystander (svWorld s) (svWorld s'))
    \<or> (\<exists>i s1. next rq i s1 = (r, s') \<and> admitted X S rq i s \<and> RoleHas (idRole i) perm
         \<and> bystander (svWorld s) (svWorld s1))"
  using assms by (cases rule: permitted_cases) blast+


text \<open>
  The permissions the interface is told about are exactly those the routes enforce; each
  role has those of the one below it, and a value that is no role has none.
\<close>

theorem permissions_exact:
  "(RoleHas r p \<longleftrightarrow> p \<in> set (PermissionsOf r))
   \<and> PermissionsOf r =
       (if r = RoleAdmin then allPermissions
        else if r = RoleOperator then [PermRead, PermOperate, PermCreate, PermDelete]
        else if r = RoleViewer then [PermRead] else [])"
  by (auto simp: RoleHas_def PermissionsOf_def rolePermissions_def allPermissions_def RoleAdmin_def RoleOperator_def
      RoleViewer_def PermRead_def PermOperate_def PermCreate_def PermDelete_def PermBuild_def PermPrune_def
      PermPrivileged_def PermAdmin_def)

section \<open>An installation keeps an administrator\<close>

text \<open>Either nobody has been set up yet, or somebody enabled can administer.\<close>

definition governed :: "world \<Rightarrow> bool" where
  "governed w \<longleftrightarrow> wUsers w = [] \<or> enabled_admin w"

lemma blind_governed:
  "fault_blind governed" "blind wEntropy_update governed" "blind wSessions_update governed" "blind wAudit_update governed"
  "blind wAuditSeq_update governed" "blind wAttempts_update governed" "blind wTokens_update governed"
  by (simp_all add: fault_blind_def blind_def governed_def enabled_admin_def)

lemma keeps_governed:
  "keeps governed (Users_UpdatePassword i h)" "keeps governed (Users_TouchLogin i t)"
  "admin_row u \<Longrightarrow> keeps governed (Users_Create u)"
proof -
  have "governed (w\<lparr>wUsers := update_where p f (wUsers w)\<rparr>)"
    if "\<And>u. admin_row u \<Longrightarrow> admin_row (f u)" "governed w" for p f and w :: world
    using that enabled_admin_update [of f w p] by (auto simp: governed_def) (simp add: update_where_def)
  then have upd: "keeps governed (Users_update i f)" if "\<And>u. admin_row u \<Longrightarrow> admin_row (f u)" for f
    unfolding Users_update_def using that by (intro keeps_Users_exec keeps_modifyE blind_governed) auto
  show "keeps governed (Users_UpdatePassword i h)" "keeps governed (Users_TouchLogin i t)"
    unfolding Users_UpdatePassword_def Users_TouchLogin_def by (intro keeps_bindE keeps_now upd; simp add: admin_row_def)+
  have "keeps governed (insert_user v)" if "admin_row v" for v
    using that by (intro keepsI) (auto simp: insert_user_def governed_def enabled_admin_def)
  then show "keeps governed (Users_Create u)" if "admin_row u"
    unfolding Users_Create_def Let_def using that
    by (intro keeps_bindE keeps_now keeps_db blind_governed) (simp add: admin_row_def)
qed

lemmas governed_keeps = keeps_core keeps_now keeps_liftE keeps_mapErr keeps_governed
  keeps_entropy [OF blind_governed(2)] keeps_session_writes [OF blind_governed(1,3)]
  keeps_Users_ByID [OF blind_governed(1)] keeps_Users_List [OF blind_governed(1)]
  keeps_Users_ByUsername [OF blind_governed(1)] keeps_Users_Count [OF blind_governed(1)]
  keeps_Record [OF blind_governed(1,4,5)] keeps_attempt_writes [OF blind_governed(1,6)]
  keeps_Tokens_Touch_blind [OF blind_governed(1,7)] keeps_ByRefreshHash [OF blind_governed(1)]
  keeps_Tokens_ByHash [OF blind_governed(1)] keeps_limiter_Check [OF blind_governed(1)]
  keeps_Issue [OF blind_governed(2)] keeps_Parse

lemma governed_auth_flows:
  "keeps governed (Login X S inp meta)" "keeps governed (Refresh X S tok meta)"
  "keeps governed (Auth_Authenticate X S tok)" "keeps governed Auth_Initialized"
  unfolding Login_def checkLogin_def startSession_def rehash_def failLogin_def Refresh_def
    Auth_Authenticate_def authenticateJWT_def authenticateAPIToken_def Auth_Initialized_def issuePair_def Let_def
  by - (intro governed_keeps)+

text \<open>The first account is an administrator, whatever fails after it has been stored.\<close>

lemma governed_Bootstrap: "keeps governed (Bootstrap X S n pw meta)"
  unfolding Bootstrap_def createUser_def Auth_Initialized_def issuePair_def Let_def
  by (intro governed_keeps) (auto simp: admin_row_def zero_user_def)


section \<open>The server as a machine\<close>

text \<open>
  Requests in any order, with the clock, the entropy source and the failures of the store
  as further steps of the environment.
\<close>

datatype server_event =
    Http http_request endpoint
  | Elapse nat
  | Entropy "byte list"
  | Faults "bool list"

fun server_step :: "ext \<Rightarrow> services \<Rightarrow> server \<Rightarrow> server_event \<Rightarrow> server" where
  "server_step X V s (Http rq ep) = snd (serve X V rq ep s)"
| "server_step X V s (Elapse d) = s\<lparr>svWorld := (svWorld s)\<lparr>wNow := wNow (svWorld s) + int d\<rparr>\<rparr>"
| "server_step X V s (Entropy bs) = s\<lparr>svWorld := (svWorld s)\<lparr>wEntropy := bs\<rparr>\<rparr>"
| "server_step X V s (Faults fs) = s\<lparr>svWorld := (svWorld s)\<lparr>wFaults := fs\<rparr>\<rparr>"

definition server_inv :: "server \<Rightarrow> bool" where
  "server_inv s \<longleftrightarrow> db_ok (svWorld s) \<and> governed (svWorld s) \<and> rate_ok (svGeneral s) \<and> rate_ok (svLogin s)"

text \<open>What a handler behind the authenticated chain may rely on and has to keep.\<close>

definition staffed :: "server \<Rightarrow> bool" where
  "staffed s \<longleftrightarrow> server_inv s \<and> enabled_admin (svWorld s)"

lemma keeps_server_store:
  assumes "keeps db_ok m" and "keeps governed m"
  shows "keeps server_inv (on_store f m)"
  using assms unfolding keeps_def server_inv_def by (simp add: snd_on_store)

lemma keeps_staffed_store:
  assumes "keeps (\<lambda>w. db_ok w \<and> enabled_admin w) m"
  shows "keeps staffed (on_store f m)"
  using assms unfolding keeps_def staffed_def server_inv_def by (simp add: snd_on_store governed_def)

lemma keeps_decodeJSON: "keeps I (decodeJSON b)"
  by (cases b) (simp_all add: keeps_core)

lemma keeps_RateLimit:
  assumes "\<And>i. keeps server_inv (next rq i)"
  shows "keeps server_inv (RateLimit k next rq i)"
proof (rule keepsI)
  fix s assume s: "server_inv s"
  let ?l = "snd (Allow (ClientIP rq) (wNow (svWorld s)) (get_limiter k s))"
  have "server_inv (put_limiter k ?l s)"
    using s by (cases k) (simp_all add: server_inv_def Allow_ok)
  then show "server_inv (snd (RateLimit k next rq i s))"
    using keepsD [OF assms] by (simp add: RateLimit_run Let_def)
qed

lemma keeps_requireInitialized:
  "(\<And>i. keeps server_inv (next rq i)) \<Longrightarrow> keeps server_inv (requireInitialized next rq i)"
  unfolding requireInitialized_def Auth_Initialized_def
  by (intro keeps_core keeps_server_store keeps_Users_Count fault_blind_db_ok blind_governed)

lemma snd_on_tickets:
  "snd (on_tickets f m s) = s\<lparr>svWorld := fst (snd (m (svWorld s, svTickets s))), svTickets := snd (snd (m (svWorld s, svTickets s)))\<rparr>"
  by (simp add: on_tickets_def split: prod.split sum.split)

lemma ticket_worlds:
  "\<exists>bs. fst (snd (Ticket_Issue t (w, ts))) = w\<lparr>wEntropy := bs\<rparr>" "fst (snd (Ticket_Redeem v (w, ts))) = w"
proof -
  show "\<exists>bs. fst (snd (Ticket_Issue t (w, ts))) = w\<lparr>wEntropy := bs\<rparr>"
    by (cases "length (wEntropy w) < 32") (auto simp: Ticket_Issue_run Let_def intro: exI [of _ "wEntropy w"])
qed (simp add: Ticket_Redeem_run split: option.split)

lemma server_inv_entropy [simp]: "server_inv (s\<lparr>svWorld := (svWorld s)\<lparr>wEntropy := bs\<rparr>, svTickets := ts\<rparr>) = server_inv s"
  "enabled_admin (w\<lparr>wEntropy := bs\<rparr>) = enabled_admin w"
  by (simp_all add: server_inv_def governed_def enabled_admin_def)

lemma keeps_tickets:
  "keeps server_inv (on_tickets f (Ticket_Redeem v))" "keeps staffed (on_tickets f (Ticket_Issue t))"
proof -
  show "keeps server_inv (on_tickets f (Ticket_Redeem v))"
    by (rule keepsI) (simp add: snd_on_tickets ticket_worlds(2) server_inv_def)
  show "keeps staffed (on_tickets f (Ticket_Issue t))"
  proof (rule keepsI)
    fix s assume "staffed s"
    moreover obtain bs where "fst (snd (Ticket_Issue t (svWorld s, svTickets s))) = (svWorld s)\<lparr>wEntropy := bs\<rparr>"
      using ticket_worlds(1) by blast
    ultimately show "staffed (snd (on_tickets f (Ticket_Issue t) s))" by (simp add: snd_on_tickets staffed_def)
  qed
qed

lemma keeps_authenticated:
  assumes "\<And>i. keeps staffed (next rq i)"
  shows "keeps server_inv (authenticated X S next rq anonymous)"
proof (rule keepsI)
  fix s assume s: "server_inv s"
  obtain r s' where run: "authenticated X S next rq anonymous s = (r, s')" by force
  then have "server_inv s'"
  proof (cases rule: authenticated_cases)
    case (denied e)
    then show ?thesis using s by (simp add: server_inv_def bystander_def untouched_def governed_def enabled_admin_def Allow_ok)
  next
    case (reached i s1)
    have "wUsers (svWorld s) \<noteq> []" using reached(2) by (auto simp: admitted_def)
    then have "staffed s1"
      using s reached by (simp add: staffed_def server_inv_def bystander_def untouched_def governed_def enabled_admin_def Allow_ok)
    then show ?thesis using keeps_run [OF assms _ reached(1)] by (simp add: staffed_def)
  qed
  with run show "server_inv (snd (authenticated X S next rq anonymous s))" by simp
qed

lemma keeps_permitted:
  assumes "\<And>i. keeps staffed (next rq i)"
  shows "keeps server_inv (permitted X S perm next rq anonymous)"
  unfolding permitted_def RequirePermission_def by (intro keeps_authenticated keeps_core assms)

section \<open>Every handler\<close>

lemma staffed_ops:
  "keeps (\<lambda>w. db_ok w \<and> enabled_admin w) (Auth_User i)" "keeps (\<lambda>w. db_ok w \<and> enabled_admin w) (Logout S tok act meta)"
  "keeps (\<lambda>w. db_ok w \<and> enabled_admin w) (BeginTOTP X U act meta)"
  "keeps (\<lambda>w. db_ok w \<and> enabled_admin w) (ConfirmTOTP X U c act meta)"
  "keeps (\<lambda>w. db_ok w \<and> enabled_admin w) (DisableTOTP X U c act meta)"
  "keeps (\<lambda>w. db_ok w \<and> enabled_admin w) (ResetTOTP U i act meta)"
  "keeps (\<lambda>w. db_ok w \<and> enabled_admin w) (Svc_Create X U ci act meta)"
  "keeps (\<lambda>w. db_ok w \<and> enabled_admin w) Svc_List" "keeps (\<lambda>w. db_ok w \<and> enabled_admin w) (Svc_Get i)"
  by (intro keeps_conj db_ok_user_ops db_ok_auth_flows admin_user_ops admin_auth_flows;
      simp add: Auth_User_def Svc_List_def Svc_Get_def keeps_intros keeps_mapErr blind_admin)+

lemma staffed_handlers:
  "keeps staffed (h_Me rq i)" "keeps staffed (h_Logout V b rq i)" "keeps staffed (h_Ticket rq i)"
  "keeps staffed (h_BeginTOTP X V rq i)" "keeps staffed (h_ConfirmTOTP X V b rq i)" "keeps staffed (h_DisableTOTP X V b rq i)"
  "keeps staffed (h_Users_List rq i)" "keeps staffed (h_Users_Create X V c rq i)" "keeps staffed (h_Users_Get uid rq i)"
  "keeps staffed (h_Users_Update X V uid u rq i)" "keeps staffed (h_Users_Delete V uid rq i)"
  "keeps staffed (h_Users_ResetTOTP V uid rq i)"
  unfolding h_Me_def h_Logout_def h_Ticket_def h_BeginTOTP_def h_ConfirmTOTP_def h_DisableTOTP_def h_Users_List_def
    h_Users_Create_def h_Users_Get_def h_Users_Update_def h_Users_Delete_def h_Users_ResetTOTP_def
  by (intro keeps_core keeps_decodeJSON keeps_staffed_store keeps_tickets staffed_ops admin_Svc_Update admin_Svc_Delete)+

lemma public_handlers:
  "keeps server_inv (h_Status rq i)" "keeps server_inv (h_Bootstrap X V c rq i)" "keeps server_inv (h_Login X V l rq i)"
  "keeps server_inv (h_Refresh X V b rq i)" "keeps server_inv (redeemStreamTicket perm rq)"
  unfolding h_Status_def h_Bootstrap_def h_Login_def h_Refresh_def redeemStreamTicket_def
  by (intro keeps_core keeps_decodeJSON keeps_server_store keeps_tickets db_ok_auth_flows governed_auth_flows
      governed_Bootstrap; simp add: Auth_Initialized_def keeps_intros)+

lemma keeps_serve: "keeps server_inv (serve X V rq ep)"
  unfolding serve_def auth_routes_def
  by (cases ep) (simp_all, (intro keeps_RateLimit keeps_requireInitialized keeps_authenticated keeps_permitted
      staffed_handlers public_handlers keeps_core)+)

interpretation server: machine "server_step X V" server_inv
proof
  fix s ev assume "server_inv s"
  then show "server_inv (server_step X V s ev)"
    using keepsD [OF keeps_serve] by (cases ev) (simp_all add: server_inv_def governed_def enabled_admin_def)
qed


text \<open>A daemon that has just been started on a database with the given rows.\<close>

definition boot :: "world \<Rightarrow> server" where
  "boot w = \<lparr>svWorld = w, svTickets = NewTicketStore TicketTTL,
     svGeneral = NewRateLimiter GeneralRate GeneralBurst, svLogin = NewRateLimiter LoginRate LoginBurst\<rparr>"

lemma router_limiters_ok:
  "rate_ok (NewRateLimiter GeneralRate GeneralBurst)" "rate_ok (NewRateLimiter LoginRate LoginBurst)"
  by (intro NewRateLimiter_ok; simp add: GeneralRate_def GeneralBurst_def LoginRate_def LoginBurst_def)+

lemma new_limiter_empty: "rlBuckets (NewRateLimiter r b) = []"
  by (simp add: NewRateLimiter_def Let_def)

lemma boot_inv: "db_ok w \<Longrightarrow> governed w \<Longrightarrow> server_inv (boot w)"
  by (simp add: boot_def server_inv_def router_limiters_ok)


lemma blank_db_ok: "db_ok blank_world"
  by (simp add: blank_world_def entropy_world_def db_ok_def unique_defs roles_ok_def refs_ok_def)

lemma fresh_allowed:
  assumes "rate_ok l" and "rlBuckets l = []"
  shows "fst (Allow key t l) = (True, 0)"
  using rate_okD [OF assms(1)] assms(2)
  by (simp add: Allow_def bucket_of_def refill_def time_sub_def min_duration_def max_duration_def Let_def)

definition demo_services :: services where
  "demo_services = \<lparr>svcAuth = demo_service, svcUsers = demo_users\<rparr>"

definition demo_request :: http_request where
  "demo_request = \<lparr>rqMethod = ''POST'', rqHost = ''box:8080'', rqOrigin = '''', rqAuthorization = ''Bearer isk_ab_cd'',
     rqUserAgent = ''curl'', rqRemoteAddr = ''10.0.0.1:5000'', rqTicket = ''''\<rparr>"



lemma demo_bearer: "BearerToken demo_request = ''isk_ab_cd''"
  by code_simp

definition demo_staffed :: world where
  "demo_staffed = demo_world\<lparr>wTokens := [demo_token]\<rparr>"

lemma demo_token_auth:
  "\<exists>w'. Auth_Authenticate sample_ext demo_service ''isk_ab_cd'' demo_staffed
     = (Inr \<lparr>idUserID = ''u1'', idUsername = ''Ada'', idRole = ''admin'', idTokenID = ''k1'', idScopes = [''read'']\<rparr>, w')
     \<and> wFaults w' = []"
proof -
  have cred: "trim_space ''isk_ab_cd'' = ''isk_ab_cd''" "IsAPIToken ''isk_ab_cd''" by code_simp+
  show ?thesis
    by (simp add: Auth_Authenticate_def cred authenticateAPIToken_def mapErr_def Tokens_ByHash_def Tokens_find_def
        Users_ByID_def Users_scanOne_def prog_simps demo_token_def token_Active_def is_zero_def demo_admin_def
        zero_user_def demo_staffed_def demo_world_def entropy_world_def Tokens_Touch_def Let_def)
qed

text \<open>The administrator's API token lists the accounts, although its only scope is to read.\<close>

theorem permission_enforced_witness:
  "\<exists>us s'. permitted sample_ext demo_service PermAdmin h_Users_List demo_request anonymous (boot demo_staffed) = (Inr (200, UsersBody us), s')
     \<and> (\<exists>i. admitted sample_ext demo_service demo_request i (boot demo_staffed) \<and> RoleHas (idRole i) PermAdmin)"
proof -
  let ?i = "\<lparr>idUserID = ''u1'', idUsername = ''Ada'', idRole = ''admin'', idTokenID = ''k1'', idScopes = [''read'']\<rparr>"
  obtain w' where auth: "Auth_Authenticate sample_ext demo_service ''isk_ab_cd'' demo_staffed = (Inr ?i, w')"
    and nf: "wFaults w' = []" using demo_token_auth by blast
  have init: "Auth_Initialized demo_staffed = (Inr True, demo_staffed)"
    by (simp add: Auth_Initialized_def Users_Count_def prog_simps demo_staffed_def demo_world_def entropy_world_def)
  have has: "RoleHas ''admin'' PermAdmin" by code_simp
  have origin: "rqOrigin demo_request = ''''" "rqMethod demo_request \<notin> set safeMethods"
    by (simp_all add: demo_request_def safeMethods_def)
  from nf obtain us w'' where list: "Svc_List w' = (Inr us, w'')"
    by (auto simp: Svc_List_def Users_List_def prog_simps)
  obtain r s' where run: "permitted sample_ext demo_service PermAdmin h_Users_List demo_request anonymous (boot demo_staffed) = (r, s')"
    by force
  then have r: "r = Inr (200, UsersBody (map toUserResponse us))"
    using auth init has list
    by (simp add: permitted_def authenticated_def RateLimit_run fresh_allowed [OF router_limiters_ok(1) new_limiter_empty]
        requireInitialized_def Authenticate_def RequireAuth_def CSRFGuard_def RequirePermission_def h_Users_List_def
        bindE_run on_store_run returnE_run boot_def demo_bearer Authenticated_def origin Let_def)
  with permission_enforced [OF run] run show ?thesis by auto
qed

end
