(* ===== verification/Tasks.thy ===== *)
theory Tasks
  imports Secrets "HOL-Library.AList"
begin

text \<open>
  The registry of long-running operations, internal/service/tasks.go, and the claim a stack
  operation takes on it, \<open>claim\<close> of internal/service/stackup.go.

  The map of tracked tasks is an association list; the mutex makes each operation one step,
  a function of the registry and the instant it reads. A cancellable context is a number,
  and \<open>rgCanceled\<close> holds those that have been canceled. Go iterates a map in no
  particular order and \<open>sort.Slice\<close> is not stable: the model takes the list's order and
  a stable sort, one of the orders the code may take.
\<close>

section \<open>Tasks\<close>

datatype task_state = TaskRunning | TaskSucceeded | TaskFailed | TaskCanceled

definition Terminal :: "task_state \<Rightarrow> bool" where
  "Terminal s \<longleftrightarrow> s = TaskSucceeded \<or> s = TaskFailed \<or> s = TaskCanceled"

record task =
  jID :: string
  jKind :: string
  jTarget :: string
  jState :: task_state
  jProgress :: int
  jMessage :: string
  jError :: string
  jUsername :: string
  jStartedAt :: time
  jFinishedAt :: time
  jCancelable :: bool

definition taskRetention :: duration where "taskRetention = 10 * minute"
definition maxTasks :: nat where "maxTasks = 200"

type_synonym ctx = nat

record tracked_task =
  ttTask :: task
  ttCancel :: ctx

record task_registry =
  rgTasks :: "(string \<times> tracked_task) list"
  rgNext :: ctx
  rgCanceled :: "ctx list"

datatype task_error = ErrTaskNotFound | ErrTaskFinished

text \<open>The error a task ends with: the cancellation of its context, or any other with its text.\<close>

datatype work_error = ContextCanceled | WorkError string

definition NewTaskRegistry :: task_registry where
  "NewTaskRegistry = \<lparr>rgTasks = [], rgNext = 0, rgCanceled = []\<rparr>"

section \<open>Operations\<close>

definition put_task :: "string \<Rightarrow> tracked_task \<Rightarrow> task_registry \<Rightarrow> task_registry" where
  "put_task i t r = r\<lparr>rgTasks := AList.update i t (rgTasks r)\<rparr>"

definition cancel_ctx :: "ctx \<Rightarrow> task_registry \<Rightarrow> task_registry" where
  "cancel_ctx c r = r\<lparr>rgCanceled := c # rgCanceled r\<rparr>"

definition finished_of :: "task_registry \<Rightarrow> tracked_task list" where
  "finished_of r = filter (\<lambda>t. Terminal (jState (ttTask t))) (map snd (rgTasks r))"

fun evict_oldest :: "tracked_task list \<Rightarrow> task_registry \<Rightarrow> task_registry" where
  "evict_oldest [] r = r"
| "evict_oldest (t # ts) r =
     (if length (rgTasks r) \<le> maxTasks then r
      else evict_oldest ts (r\<lparr>rgTasks := AList.delete (jID (ttTask t)) (rgTasks r)\<rparr>))"

definition evictLocked :: "task_registry \<Rightarrow> task_registry" where
  "evictLocked r =
     (if length (rgTasks r) \<le> maxTasks then r
      else evict_oldest (sort_key (\<lambda>t. jFinishedAt (ttTask t)) (finished_of r)) r)"

definition StartWithID :: "string \<Rightarrow> string \<Rightarrow> string \<Rightarrow> string \<Rightarrow> time \<Rightarrow> task_registry \<Rightarrow> ctx \<times> task_registry" where
  "StartWithID i kind target username t r =
     (let c = rgNext r;
          tr = \<lparr>ttTask = \<lparr>jID = i, jKind = kind, jTarget = target, jState = TaskRunning, jProgress = -1, jMessage = '''',
                  jError = '''', jUsername = username, jStartedAt = t, jFinishedAt = 0, jCancelable = True\<rparr>,
                ttCancel = c\<rparr>
      in (c, evictLocked (put_task i tr (r\<lparr>rgNext := c + 1\<rparr>))))"

definition Task_Start :: "string \<Rightarrow> string \<Rightarrow> string \<Rightarrow> (world \<times> task_registry, go_error, string \<times> ctx) prog" where
  "Task_Start kind target username = (\<lambda>(w, r).
     case NewID w of
       (Inl e, w') \<Rightarrow> (Inl e, (w', r))
     | (Inr i, w') \<Rightarrow> (case StartWithID i kind target username (wNow w') r of (c, r') \<Rightarrow> (Inr (i, c), (w', r'))))"

definition Progress :: "string \<Rightarrow> int \<Rightarrow> string \<Rightarrow> task_registry \<Rightarrow> task_registry" where
  "Progress i pct message r =
     (case map_of (rgTasks r) i of
        None \<Rightarrow> r
      | Some t \<Rightarrow>
          if Terminal (jState (ttTask t)) then r
          else put_task i (t\<lparr>ttTask := (ttTask t)\<lparr>jProgress := pct, jMessage := message\<rparr>\<rparr>) r)"

definition finished_task :: "work_error option \<Rightarrow> time \<Rightarrow> task \<Rightarrow> task" where
  "finished_task err t0 t =
     (let t1 = t\<lparr>jFinishedAt := t0, jCancelable := False\<rparr>
      in case err of
           None \<Rightarrow> t1\<lparr>jState := TaskSucceeded, jProgress := 100\<rparr>
         | Some ContextCanceled \<Rightarrow> t1\<lparr>jState := TaskCanceled\<rparr>
         | Some (WorkError msg) \<Rightarrow> t1\<lparr>jState := TaskFailed, jError := msg\<rparr>)"

definition Finish :: "string \<Rightarrow> work_error option \<Rightarrow> time \<Rightarrow> task_registry \<Rightarrow> task_registry" where
  "Finish i err t0 r =
     (case map_of (rgTasks r) i of
        None \<Rightarrow> r
      | Some t \<Rightarrow>
          if Terminal (jState (ttTask t)) then r
          else cancel_ctx (ttCancel t) (put_task i (t\<lparr>ttTask := finished_task err t0 (ttTask t)\<rparr>) r))"

definition Task_Cancel :: "string \<Rightarrow> time \<Rightarrow> task_registry \<Rightarrow> (task_error + unit) \<times> task_registry" where
  "Task_Cancel i t0 r =
     (case map_of (rgTasks r) i of
        None \<Rightarrow> (Inl ErrTaskNotFound, r)
      | Some t \<Rightarrow>
          if Terminal (jState (ttTask t)) then (Inl ErrTaskFinished, r)
          else (Inr (), put_task i (t\<lparr>ttTask := (ttTask t)\<lparr>jState := TaskCanceled, jFinishedAt := t0, jCancelable := False\<rparr>\<rparr>)
                  (cancel_ctx (ttCancel t) r)))"

definition Task_Get :: "string \<Rightarrow> task_registry \<Rightarrow> task_error + task" where
  "Task_Get i r = (case map_of (rgTasks r) i of None \<Rightarrow> Inl ErrTaskNotFound | Some t \<Rightarrow> Inr (ttTask t))"

definition sweepLocked :: "time \<Rightarrow> task_registry \<Rightarrow> task_registry" where
  "sweepLocked t0 r =
     r\<lparr>rgTasks := filter (\<lambda>(i, t). \<not> (Terminal (jState (ttTask t)) \<and> taskRetention < time_sub t0 (jFinishedAt (ttTask t)))) (rgTasks r)\<rparr>"

definition Task_List :: "time \<Rightarrow> task_registry \<Rightarrow> task list \<times> task_registry" where
  "Task_List t0 r =
     (let r' = sweepLocked t0 r
      in (rev (sort_key jStartedAt (rev (map (ttTask \<circ> snd) (rgTasks r')))), r'))"

section \<open>The claim of a stack operation\<close>

datatype claim_error = ErrStackBusy (busyUsername: string) (busyKind: string)

text \<open>
  \<open>claim\<close> registers the operation under the stack's id; the function it returns, which the
  operation calls when it is done, is \<open>claim_done\<close>. The two registry calls of \<open>claim\<close> take
  the mutex one after the other; here nothing comes between them. Without a registry the
  operation runs on the context of the request, which is not a context of the registry. The
  timeout of the rooted context is not modelled.
\<close>

definition claim :: "string \<Rightarrow> string \<Rightarrow> string \<Rightarrow> string \<Rightarrow> time \<Rightarrow> task_registry option
    \<Rightarrow> (claim_error + ctx option) \<times> task_registry option" where
  "claim stackID kind name username t0 tasks =
     (case tasks of
        None \<Rightarrow> (Inr None, None)
      | Some r \<Rightarrow>
          let start = (case StartWithID stackID kind name username t0 r of (c, r') \<Rightarrow> (Inr (Some c), Some r'))
          in case Task_Get stackID r of
               Inr t \<Rightarrow> if \<not> Terminal (jState t) then (Inl (ErrStackBusy (jUsername t) (jKind t)), Some r) else start
             | Inl _ \<Rightarrow> start)"

definition claim_done :: "string \<Rightarrow> time \<Rightarrow> task_registry option \<Rightarrow> task_registry option" where
  "claim_done stackID t0 tasks = map_option (Finish stackID None t0) tasks"

end
