(* ===== verification/Tasks_Laws.thy ===== *)
theory Tasks_Laws
  imports Tasks
begin

text \<open>
  What the task registry promises: it refines an abstract life cycle of named tasks, a
  finished task is never touched again until its name is reused, and its size is bounded
  after every start; and what becomes of a claim whose stack has been claimed again.
\<close>

section \<open>Requests\<close>

datatype task_op =
    OpStart string string string string time
  | OpProgress string int string
  | OpFinish string "work_error option" time
  | OpCancel string time
  | OpList time

fun task_step :: "task_registry \<Rightarrow> task_op \<Rightarrow> task_registry" where
  "task_step r (OpStart i kind target user t) = snd (StartWithID i kind target user t r)"
| "task_step r (OpProgress i pct msg) = Progress i pct msg r"
| "task_step r (OpFinish i err t) = Finish i err t r"
| "task_step r (OpCancel i t) = snd (Task_Cancel i t r)"
| "task_step r (OpList t) = snd (Task_List t r)"

section \<open>Well-formed registries\<close>

definition entry_ok :: "task_registry \<Rightarrow> string \<times> tracked_task \<Rightarrow> bool" where
  "entry_ok r e \<longleftrightarrow>
     (case e of (i, t) \<Rightarrow>
        jID (ttTask t) = i \<and> ttCancel t < rgNext r
        \<and> (Terminal (jState (ttTask t)) \<longleftrightarrow> ttCancel t \<in> set (rgCanceled r))
        \<and> (Terminal (jState (ttTask t)) \<longleftrightarrow> \<not> jCancelable (ttTask t)))"

definition registry_ok :: "task_registry \<Rightarrow> bool" where
  "registry_ok r \<longleftrightarrow> distinct (map fst (rgTasks r)) \<and> inj_on (ttCancel \<circ> snd) (set (rgTasks r))
     \<and> (\<forall>c\<in>set (rgCanceled r). c < rgNext r) \<and> (\<forall>e\<in>set (rgTasks r). entry_ok r e)"

lemma Terminal_simps [simp]:
  "Terminal TaskSucceeded" "Terminal TaskFailed" "Terminal TaskCanceled" "\<not> Terminal TaskRunning"
  by (simp_all add: Terminal_def)

lemma not_Terminal_iff: "\<not> Terminal s \<longleftrightarrow> s = TaskRunning"
  by (cases s) simp_all

lemma Terminal_finished_task [simp]: "Terminal (jState (finished_task err t x))"
  by (simp add: finished_task_def Let_def split: option.split work_error.split)

lemma finished_task_fields [simp]:
  "jID (finished_task err t x) = jID x" "jCancelable (finished_task err t x) = False"
  by (simp_all add: finished_task_def Let_def split: option.split work_error.split)

text \<open>Dropping entries keeps a registry well-formed.\<close>

lemma registry_ok_filter:
  assumes "registry_ok r"
  shows "registry_ok (r\<lparr>rgTasks := filter p (rgTasks r)\<rparr>)"
  using assms by (auto simp: registry_ok_def entry_ok_def distinct_map_filter intro: inj_on_subset split: prod.splits)

lemma evict_oldest_filter:
  "\<exists>k. rgTasks (evict_oldest ts r) = filter (\<lambda>e. fst e \<notin> (jID \<circ> ttTask) ` set (take k ts)) (rgTasks r)
     \<and> evict_oldest ts r = r\<lparr>rgTasks := rgTasks (evict_oldest ts r)\<rparr>
     \<and> (length (rgTasks (evict_oldest ts r)) \<le> maxTasks \<or> length ts \<le> k)"
proof (induction ts r rule: evict_oldest.induct)
  case (1 r)
  show ?case by (intro exI [of _ 0]) simp
next
  case (2 t ts r)
  show ?case
  proof (cases "length (rgTasks r) \<le> maxTasks")
    case True
    then show ?thesis by (intro exI [of _ 0]) simp
  next
    case False
    let ?r = "r\<lparr>rgTasks := AList.delete (jID (ttTask t)) (rgTasks r)\<rparr>"
    obtain k where k: "rgTasks (evict_oldest ts ?r) = filter (\<lambda>e. fst e \<notin> (jID \<circ> ttTask) ` set (take k ts)) (rgTasks ?r)"
      "evict_oldest ts ?r = ?r\<lparr>rgTasks := rgTasks (evict_oldest ts ?r)\<rparr>"
      "length (rgTasks (evict_oldest ts ?r)) \<le> maxTasks \<or> length ts \<le> k"
      using 2 [OF False] by blast
    have "rgTasks (evict_oldest ts ?r) = filter (\<lambda>e. fst e \<notin> (jID \<circ> ttTask) ` set (take (Suc k) (t # ts))) (rgTasks r)"
      unfolding k(1) by (auto simp: AList.delete_eq intro!: filter_cong)
    moreover have "evict_oldest ts ?r = r\<lparr>rgTasks := rgTasks (evict_oldest ts ?r)\<rparr>" by (subst k(2)) simp
    ultimately show ?thesis using False k(3) by (intro exI [of _ "Suc k"]) auto
  qed
qed

text \<open>Eviction drops finished tasks only, oldest first, and as many as the cap asks for.\<close>

lemma evictLocked_filter:
  assumes "registry_ok r"
  obtains q where "evictLocked r = r\<lparr>rgTasks := filter q (rgTasks r)\<rparr>"
    and "\<And>i t. (i, t) \<in> set (rgTasks r) \<Longrightarrow> \<not> q (i, t) \<Longrightarrow> Terminal (jState (ttTask t))"
    and "length (rgTasks (evictLocked r)) \<le> maxTasks \<or> finished_of (evictLocked r) = []"
proof (cases "length (rgTasks r) \<le> maxTasks")
  case True
  then show thesis by (intro that [of "\<lambda>_. True"]) (auto simp: evictLocked_def)
next
  case False
  let ?ts = "sort_key (\<lambda>t. jFinishedAt (ttTask t)) (finished_of r)"
  obtain k where k: "rgTasks (evict_oldest ?ts r) = filter (\<lambda>e. fst e \<notin> (jID \<circ> ttTask) ` set (take k ?ts)) (rgTasks r)"
    "evict_oldest ?ts r = r\<lparr>rgTasks := rgTasks (evict_oldest ?ts r)\<rparr>"
    "length (rgTasks (evict_oldest ?ts r)) \<le> maxTasks \<or> length ?ts \<le> k"
    using evict_oldest_filter by blast
  have eq: "evictLocked r = evict_oldest ?ts r" using False by (simp add: evictLocked_def)
  have key: "x = t" if x: "x \<in> set (finished_of r)" and t: "(jID (ttTask x), t) \<in> set (rgTasks r)" for x t
  proof -
    obtain i where i: "(i, x) \<in> set (rgTasks r)" using x by (auto simp: finished_of_def)
    then have "jID (ttTask x) = i" using assms by (auto simp: registry_ok_def entry_ok_def)
    then show ?thesis using i t assms by (metis eq_key_imp_eq_value registry_ok_def)
  qed
  have sub: "set (take k ?ts) \<subseteq> set (finished_of r)" using set_take_subset [of k ?ts] by simp
  show thesis
  proof (rule that)
    show "evictLocked r = r\<lparr>rgTasks := filter (\<lambda>e. fst e \<notin> (jID \<circ> ttTask) ` set (take k ?ts)) (rgTasks r)\<rparr>"
      unfolding eq k(1) [symmetric] by (rule k(2))
    show "Terminal (jState (ttTask t))"
      if it: "(i, t) \<in> set (rgTasks r)" and drop: "\<not> fst (i, t) \<notin> (jID \<circ> ttTask) ` set (take k ?ts)" for i t
    proof -
      obtain x where "x \<in> set (finished_of r)" "i = jID (ttTask x)" using drop sub by auto
      then show ?thesis using key [of x t] it by (auto simp: finished_of_def)
    qed
    show "length (rgTasks (evictLocked r)) \<le> maxTasks \<or> finished_of (evictLocked r) = []"
    proof (cases "length ?ts \<le> k")
      case True
      have "(i, t) \<notin> set (rgTasks (evictLocked r))" if "Terminal (jState (ttTask t))" for i t
      proof
        assume "(i, t) \<in> set (rgTasks (evictLocked r))"
        then have "(i, t) \<in> set (rgTasks r)" "i \<notin> (jID \<circ> ttTask) ` set (finished_of r)"
          using True by (auto simp: eq k(1))
        moreover have "t \<in> set (finished_of r)" using calculation(1) that by (force simp: finished_of_def)
        moreover have "jID (ttTask t) = i" using calculation(1) assms by (auto simp: registry_ok_def entry_ok_def)
        ultimately show False by force
      qed
      then show ?thesis by (auto simp: finished_of_def filter_empty_conv)
    next
      case False
      then show ?thesis using k(3) eq by simp
    qed
  qed
qed


text \<open>Registering or changing one entry keeps the registry well-formed.\<close>

lemma set_update_distinct:
  assumes "distinct (map fst al)"
  shows "set (AList.update k v al) = insert (k, v) {e \<in> set al. fst e \<noteq> k}"
proof -
  have d: "distinct (map fst (AList.update k v al))" using assms by (rule AList.distinct_update)
  have "(i, x) \<in> set (AList.update k v al) \<longleftrightarrow> (i, x) \<in> insert (k, v) {e \<in> set al. fst e \<noteq> k}" for i x
    unfolding map_of_eq_Some_iff [OF d, symmetric] by (auto simp: AList.update_conv' map_of_eq_Some_iff [OF assms])
  then show ?thesis by (simp add: set_eq_iff split_paired_all)
qed

lemma registry_ok_put:
  assumes r: "registry_ok r" and tasks: "rgTasks r' = AList.update i t (rgTasks r)" and fresh: "rgNext r \<le> rgNext r'"
    and canceled: "set (rgCanceled r) \<subseteq> set (rgCanceled r')"
      "set (rgCanceled r') \<subseteq> insert (ttCancel t) (set (rgCanceled r))"
    and t: "entry_ok r' (i, t)"
    and others: "\<And>j u. (j, u) \<in> set (rgTasks r) \<Longrightarrow> j \<noteq> i \<Longrightarrow> ttCancel u \<noteq> ttCancel t"
  shows "registry_ok r'"
proof -
  have d: "distinct (map fst (rgTasks r))" using r by (simp add: registry_ok_def)
  have s: "set (rgTasks r') = insert (i, t) {e \<in> set (rgTasks r). fst e \<noteq> i}"
    unfolding tasks using d by (rule set_update_distinct)
  have "entry_ok r' e" if e: "e \<in> set (rgTasks r')" for e
  proof (cases "e = (i, t)")
    case True
    then show ?thesis using t by simp
  next
    case False
    then obtain j u where ju: "e = (j, u)" "(j, u) \<in> set (rgTasks r)" "j \<noteq> i" using e s by (cases e) auto
    then have "entry_ok r (j, u)" "ttCancel u \<noteq> ttCancel t" using r others by (auto simp: registry_ok_def)
    then show ?thesis using fresh canceled ju(1) by (auto simp: entry_ok_def)
  qed
  moreover have "inj_on (ttCancel \<circ> snd) (set (rgTasks r'))"
  proof -
    have inj: "inj_on (ttCancel \<circ> snd) {e \<in> set (rgTasks r). fst e \<noteq> i}"
      using r by (auto simp: registry_ok_def intro: inj_on_subset)
    have "(ttCancel \<circ> snd) e \<noteq> ttCancel t" if "e \<in> set (rgTasks r)" "fst e \<noteq> i" for e
      using others [of "fst e" "snd e"] that by simp
    then have "ttCancel t \<notin> (ttCancel \<circ> snd) ` {e \<in> set (rgTasks r). fst e \<noteq> i}" by fastforce
    moreover have "{e \<in> set (rgTasks r). fst e \<noteq> i} - {(i, t)} = {e \<in> set (rgTasks r). fst e \<noteq> i}" by auto
    ultimately show ?thesis using inj unfolding s inj_on_insert by simp
  qed
  moreover have "c < rgNext r'" if "c \<in> set (rgCanceled r')" for c
    using that canceled(2) fresh t r by (fastforce simp: entry_ok_def registry_ok_def)
  ultimately show ?thesis using d by (simp add: registry_ok_def tasks AList.distinct_update)
qed

lemma registry_entry:
  assumes "registry_ok r" "map_of (rgTasks r) i = Some t"
  shows "entry_ok r (i, t)" "(j, u) \<in> set (rgTasks r) \<Longrightarrow> j \<noteq> i \<Longrightarrow> ttCancel u \<noteq> ttCancel t"
proof -
  have it: "(i, t) \<in> set (rgTasks r)" using assms(2) by (rule map_of_SomeD)
  then show "entry_ok r (i, t)" using assms(1) by (simp add: registry_ok_def)
  assume "(j, u) \<in> set (rgTasks r)" "j \<noteq> i"
  then show "ttCancel u \<noteq> ttCancel t"
    using it assms(1) inj_onD [of "ttCancel \<circ> snd" "set (rgTasks r)" "(j, u)" "(i, t)"] by (auto simp: registry_ok_def)
qed

lemma registry_ok_finish:
  assumes "registry_ok r" "map_of (rgTasks r) i = Some t"
    and "jID x = i" "Terminal (jState x)" "\<not> jCancelable x"
  shows "registry_ok (put_task i (t\<lparr>ttTask := x\<rparr>) (cancel_ctx (ttCancel t) r))"
  by (rule registry_ok_put [OF assms(1), where i = i and t = "t\<lparr>ttTask := x\<rparr>"])
    (use registry_entry [OF assms(1,2)] assms(3-) in \<open>auto simp: put_task_def cancel_ctx_def entry_ok_def\<close>)

lemma put_cancel_commute: "cancel_ctx c (put_task i t r) = put_task i t (cancel_ctx c r)"
  by (simp add: cancel_ctx_def put_task_def)

text \<open>Each operation keeps a registry well-formed.\<close>

definition new_task :: "string \<Rightarrow> string \<Rightarrow> string \<Rightarrow> string \<Rightarrow> time \<Rightarrow> ctx \<Rightarrow> tracked_task" where
  "new_task i kind target user t0 c =
     \<lparr>ttTask = \<lparr>jID = i, jKind = kind, jTarget = target, jState = TaskRunning, jProgress = -1, jMessage = '''',
        jError = '''', jUsername = user, jStartedAt = t0, jFinishedAt = 0, jCancelable = True\<rparr>,
      ttCancel = c\<rparr>"

definition registered :: "string \<Rightarrow> string \<Rightarrow> string \<Rightarrow> string \<Rightarrow> time \<Rightarrow> task_registry \<Rightarrow> task_registry" where
  "registered i kind target user t0 r =
     put_task i (new_task i kind target user t0 (rgNext r)) (r\<lparr>rgNext := rgNext r + 1\<rparr>)"

lemma StartWithID_registered:
  "StartWithID i kind target user t0 r = (rgNext r, evictLocked (registered i kind target user t0 r))"
  by (simp add: StartWithID_def registered_def new_task_def Let_def)

lemma registry_ok_registered:
  assumes "registry_ok r"
  shows "registry_ok (registered i kind target user t0 r)"
  by (rule registry_ok_put [OF assms, where i = i and t = "new_task i kind target user t0 (rgNext r)"])
    (use assms in \<open>auto simp: registered_def new_task_def put_task_def entry_ok_def registry_ok_def\<close>)

lemma registry_ok_StartWithID:
  assumes "registry_ok r"
  shows "registry_ok (snd (StartWithID i kind target user t0 r))"
  unfolding StartWithID_registered snd_conv
  by (metis assms evictLocked_filter registry_ok_filter registry_ok_registered)

lemma registry_ok_Progress:
  assumes "registry_ok r"
  shows "registry_ok (Progress i pct msg r)"
proof (cases "map_of (rgTasks r) i")
  case None
  then show ?thesis using assms by (simp add: Progress_def)
next
  case (Some t)
  let ?t = "t\<lparr>ttTask := (ttTask t)\<lparr>jProgress := pct, jMessage := msg\<rparr>\<rparr>"
  have "registry_ok (put_task i ?t r)"
    by (rule registry_ok_put [OF assms, where i = i and t = ?t])
      (use registry_entry [OF assms Some] in \<open>auto simp: put_task_def entry_ok_def\<close>)
  then show ?thesis using assms Some by (simp add: Progress_def)
qed

lemma registry_ok_Finish: "registry_ok r \<Longrightarrow> registry_ok (Finish i err t0 r)"
  using registry_ok_finish registry_entry(1)
  by (fastforce simp: Finish_def put_cancel_commute entry_ok_def split: option.split)

lemma registry_ok_Cancel: "registry_ok r \<Longrightarrow> registry_ok (snd (Task_Cancel i t0 r))"
  using registry_ok_finish registry_entry(1)
  by (fastforce simp: Task_Cancel_def entry_ok_def split: option.split)

lemma registry_ok_step: "registry_ok r \<Longrightarrow> registry_ok (task_step r op)"
  by (cases op) (simp_all add: registry_ok_StartWithID registry_ok_Progress registry_ok_Finish registry_ok_Cancel
      Task_List_def sweepLocked_def Let_def registry_ok_filter)

lemma registry_ok_new [simp]: "registry_ok NewTaskRegistry"
  by (simp add: registry_ok_def NewTaskRegistry_def)

interpretation tasks: machine task_step registry_ok
  by unfold_locales (rule registry_ok_step)


section \<open>The life cycle\<close>

text \<open>
  The abstract view of a registry: the state of each task that is visible. In the life
  cycle a start makes its task running, a running task ends once, in the state its outcome
  says, a task that is not running is left alone, and what a start or a list forgets is
  finished work.
\<close>

definition task_view :: "task_registry \<Rightarrow> string \<rightharpoonup> task_state" where
  "task_view r i = map_option (\<lambda>t. jState (ttTask t)) (map_of (rgTasks r) i)"

definition outcome :: "work_error option \<Rightarrow> task_state" where
  "outcome err = (case err of None \<Rightarrow> TaskSucceeded | Some ContextCanceled \<Rightarrow> TaskCanceled | Some (WorkError _) \<Rightarrow> TaskFailed)"

definition forgets :: "(string \<rightharpoonup> task_state) \<Rightarrow> (string \<rightharpoonup> task_state) \<Rightarrow> bool" where
  "forgets m m' \<longleftrightarrow> m' \<subseteq>\<^sub>m m \<and> (\<forall>i s. m i = Some s \<longrightarrow> m' i = None \<longrightarrow> Terminal s)"

inductive lifecycle :: "(string \<rightharpoonup> task_state) \<Rightarrow> task_op \<Rightarrow> (string \<rightharpoonup> task_state) \<Rightarrow> bool" where
  lc_start: "forgets (m(i \<mapsto> TaskRunning)) m' \<Longrightarrow> lifecycle m (OpStart i kind target user t) m'"
| lc_progress: "lifecycle m (OpProgress i pct msg) m"
| lc_finish: "m i = Some TaskRunning \<Longrightarrow> lifecycle m (OpFinish i err t) (m(i \<mapsto> outcome err))"
| lc_finish_idle: "m i \<noteq> Some TaskRunning \<Longrightarrow> lifecycle m (OpFinish i err t) m"
| lc_cancel: "m i = Some TaskRunning \<Longrightarrow> lifecycle m (OpCancel i t) (m(i \<mapsto> TaskCanceled))"
| lc_cancel_idle: "m i \<noteq> Some TaskRunning \<Longrightarrow> lifecycle m (OpCancel i t) m"
| lc_list: "forgets m m' \<Longrightarrow> lifecycle m (OpList t) m'"


lemma jState_finished_task [simp]: "jState (finished_task err t x) = outcome err"
  by (simp add: finished_task_def outcome_def Let_def split: option.split work_error.split)

lemma task_view_put [simp]: "task_view (put_task i t r) = (task_view r)(i \<mapsto> jState (ttTask t))"
  by (rule ext) (simp add: task_view_def put_task_def AList.update_conv')

lemma task_view_cancel_ctx [simp]: "task_view (cancel_ctx c r) = task_view r"
  by (rule ext) (simp add: task_view_def cancel_ctx_def)

lemma task_view_registered: "task_view (registered i kind target user t0 r) = (task_view r)(i \<mapsto> TaskRunning)"
  by (rule ext) (simp add: registered_def new_task_def task_view_def put_task_def AList.update_conv')

lemma map_of_filter_distinct:
  assumes "distinct (map fst xs)"
  shows "map_of (filter q xs) i = (case map_of xs i of None \<Rightarrow> None | Some t \<Rightarrow> if q (i, t) then Some t else None)"
  using assms by (induction xs) (auto simp: map_of_eq_None_iff split: option.splits dest: map_of_SomeD)

lemma forgets_filter:
  assumes "distinct (map fst (rgTasks r))"
    and "\<And>i t. (i, t) \<in> set (rgTasks r) \<Longrightarrow> \<not> q (i, t) \<Longrightarrow> Terminal (jState (ttTask t))"
  shows "forgets (task_view r) (task_view (r\<lparr>rgTasks := filter q (rgTasks r)\<rparr>))"
  using assms(2) by (auto simp: forgets_def map_le_def task_view_def map_of_filter_distinct [OF assms(1)]
      split: option.splits if_splits dest: map_of_SomeD)

lemma StartWithID_view:
  assumes "registry_ok r"
  shows "forgets ((task_view r)(i \<mapsto> TaskRunning)) (task_view (snd (StartWithID i kind target user t0 r)))"
proof -
  let ?r = "registered i kind target user t0 r"
  have ok: "registry_ok ?r" using assms by (rule registry_ok_registered)
  obtain q where "evictLocked ?r = ?r\<lparr>rgTasks := filter q (rgTasks ?r)\<rparr>"
    and "\<And>i t. (i, t) \<in> set (rgTasks ?r) \<Longrightarrow> \<not> q (i, t) \<Longrightarrow> Terminal (jState (ttTask t))"
    using evictLocked_filter [OF ok] by metis
  then have "forgets (task_view ?r) (task_view (evictLocked ?r))"
    using forgets_filter [of ?r q] ok by (simp add: registry_ok_def)
  then show ?thesis by (simp add: StartWithID_registered task_view_registered)
qed

lemma task_view_Some: "task_view r i = Some s \<longleftrightarrow> (\<exists>t. map_of (rgTasks r) i = Some t \<and> jState (ttTask t) = s)"
  by (auto simp: task_view_def)

lemma Progress_view: "task_view (Progress i pct msg r) = task_view r"
  by (rule ext) (simp add: Progress_def task_view_Some fun_upd_apply split: option.split, simp add: task_view_def)

lemma Finish_view: "task_view (Finish i err t0 r) = (if task_view r i = Some TaskRunning then (task_view r)(i \<mapsto> outcome err) else task_view r)"
  by (auto simp: Finish_def task_view_Some not_Terminal_iff split: option.split)

lemma Cancel_view: "task_view (snd (Task_Cancel i t0 r)) = (if task_view r i = Some TaskRunning then (task_view r)(i \<mapsto> TaskCanceled) else task_view r)"
  by (auto simp: Task_Cancel_def task_view_Some not_Terminal_iff split: option.split)

lemma step_lifecycle:
  assumes "registry_ok r"
  shows "lifecycle (task_view r) op (task_view (task_step r op))"
proof (cases op)
  case (OpList t)
  have "forgets (task_view r) (task_view (sweepLocked t r))"
    unfolding sweepLocked_def by (rule forgets_filter) (use assms in \<open>auto simp: registry_ok_def\<close>)
  then show ?thesis using OpList by (simp add: Task_List_def Let_def lc_list)
qed (simp_all add: Progress_view Finish_view Cancel_view StartWithID_view assms lifecycle.intros)


section \<open>Finished work\<close>

fun starts :: "string \<Rightarrow> task_op \<Rightarrow> bool" where
  "starts i (OpStart j kind target user t) \<longleftrightarrow> i = j"
| "starts i _ \<longleftrightarrow> False"

text \<open>A name is settled when it is free or its task has finished as \<open>x\<close>.\<close>

definition settled :: "string \<Rightarrow> task \<Rightarrow> task_registry \<Rightarrow> bool" where
  "settled i x r \<longleftrightarrow> Terminal (jState x) \<and> (case map_of (rgTasks r) i of None \<Rightarrow> True | Some t \<Rightarrow> ttTask t = x)"

lemma map_of_put_task: "map_of (rgTasks (put_task j t r)) i = (if i = j then Some t else map_of (rgTasks r) i)"
  by (simp add: put_task_def AList.update_conv')

lemma rgTasks_cancel_ctx [simp]: "rgTasks (cancel_ctx c r) = rgTasks r"
  by (simp add: cancel_ctx_def)

lemma settled_filter:
  "distinct (map fst (rgTasks r)) \<Longrightarrow> settled i x r \<Longrightarrow> settled i x (r\<lparr>rgTasks := filter q (rgTasks r)\<rparr>)"
  by (cases "map_of (rgTasks r) i") (simp_all add: settled_def map_of_filter_distinct)

lemma settled_step:
  assumes "registry_ok r" "settled i x r" "\<not> starts i op"
  shows "settled i x (task_step r op)"
proof (cases op)
  case (OpStart j kind target user t)
  let ?r = "registered j kind target user t r"
  have ok: "registry_ok ?r" using assms(1) by (rule registry_ok_registered)
  have "settled i x ?r" using assms OpStart by (simp add: settled_def registered_def map_of_put_task)
  moreover obtain q where "evictLocked ?r = ?r\<lparr>rgTasks := filter q (rgTasks ?r)\<rparr>"
    using evictLocked_filter [OF ok] by metis
  ultimately show ?thesis using settled_filter ok OpStart by (simp add: StartWithID_registered registry_ok_def)
next
  case (OpList t)
  then show ?thesis using assms by (simp add: Task_List_def Let_def sweepLocked_def settled_filter registry_ok_def)
qed (use assms(2) in \<open>auto simp: settled_def Progress_def Finish_def Task_Cancel_def map_of_put_task split: option.splits\<close>)

lemma settled_run:
  assumes "registry_ok r" "settled i x r" "\<forall>op\<in>set ops. \<not> starts i op"
  shows "settled i x (run_steps task_step r ops)"
  using assms by (induction ops arbitrary: r) (auto simp: settled_step registry_ok_step)

section \<open>Properties\<close>

text \<open>
  C30: the task registry refines the abstract life cycle. After any sequence of requests
  the next request, whatever it is, changes the visible states as the life cycle says: a
  start makes its task running; a running task ends exactly once, as succeeded, canceled or
  failed according to its outcome; progress, a second finish, a late cancel and requests for
  unknown names change nothing; and only finished tasks are ever forgotten.
\<close>

theorem tasks_refine:
  "lifecycle (task_view (run_steps task_step NewTaskRegistry ops)) op
     (task_view (task_step (run_steps task_step NewTaskRegistry ops) op))"
  by (rule step_lifecycle, rule tasks.run_inv, rule registry_ok_new)

text \<open>
  A task that has finished is frozen. Whatever is requested afterwards, as long as its
  name is not started again, a reader of that name gets the very record it finished with or
  is told that there is no such task.
\<close>

theorem finished_task_frozen:
  assumes "Task_Get i (run_steps task_step NewTaskRegistry earlier) = Inr x" "Terminal (jState x)"
    and "\<forall>op\<in>set later. \<not> starts i op"
  shows "Task_Get i (run_steps task_step NewTaskRegistry (earlier @ later)) \<in> {Inr x, Inl ErrTaskNotFound}"
proof -
  let ?r = "run_steps task_step NewTaskRegistry earlier"
  have "registry_ok ?r" by (rule tasks.run_inv) simp
  moreover have "settled i x ?r" using assms(1,2) by (auto simp: Task_Get_def settled_def split: option.splits)
  ultimately have "settled i x (run_steps task_step ?r later)" using assms(3) by (rule settled_run)
  then show ?thesis by (auto simp: Task_Get_def settled_def run_steps_append split: option.split)
qed

theorem finished_task_frozen_witness:
  "Task_Get ''p'' (run_steps task_step NewTaskRegistry
      ([OpStart ''p'' ''image.pull'' ''nginx'' ''ada'' 5, OpFinish ''p'' (Some (WorkError ''denied'')) 9]
        @ [OpProgress ''p'' 40 ''late'', OpFinish ''p'' None 10, OpCancel ''p'' 11]))
    \<in> {Inr \<lparr>jID = ''p'', jKind = ''image.pull'', jTarget = ''nginx'', jState = TaskFailed, jProgress = -1, jMessage = '''',
          jError = ''denied'', jUsername = ''ada'', jStartedAt = 5, jFinishedAt = 9, jCancelable = False\<rparr>,
        Inl ErrTaskNotFound}"
  by (rule finished_task_frozen)
    (simp_all add: StartWithID_def evictLocked_def maxTasks_def put_task_def NewTaskRegistry_def Finish_def
      finished_task_def Let_def cancel_ctx_def Task_Get_def)

text \<open>
  In every registry the requests can produce, a task's context has been canceled
  exactly when the task has finished, it can be canceled exactly while it runs, and no two
  tasks share a context, so that ending one never ends the work of another.
\<close>

theorem task_contexts:
  "let r = run_steps task_step NewTaskRegistry ops
   in (\<forall>(i, t)\<in>set (rgTasks r). jID (ttTask t) = i
          \<and> (Terminal (jState (ttTask t)) \<longleftrightarrow> ttCancel t \<in> set (rgCanceled r))
          \<and> (jCancelable (ttTask t) \<longleftrightarrow> jState (ttTask t) = TaskRunning))
      \<and> inj_on (ttCancel \<circ> snd) (set (rgTasks r))"
  using tasks.run_inv [OF registry_ok_new, of ops]
  by (auto simp: Let_def registry_ok_def entry_ok_def not_Terminal_iff [symmetric])

theorem task_contexts_witness:
  "let r = run_steps task_step NewTaskRegistry [OpStart ''p'' ''k'' ''t'' ''u'' 5, OpCancel ''p'' 6]
   in rgTasks r \<noteq> [] \<and> (\<forall>(i, t)\<in>set (rgTasks r). ttCancel t \<in> set (rgCanceled r))"
  using task_contexts [of "[OpStart ''p'' ''k'' ''t'' ''u'' 5, OpCancel ''p'' 6]"]
  by (simp add: StartWithID_def evictLocked_def maxTasks_def put_task_def NewTaskRegistry_def Task_Cancel_def
      Let_def cancel_ctx_def)

text \<open>
  Starting a task leaves at most 200 of them visible, or nothing but running ones: the
  cap is exceeded only by work that is still being done.
\<close>

theorem start_bounded:
  "let r = snd (StartWithID i kind target user t0 (run_steps task_step NewTaskRegistry ops))
   in length (rgTasks r) \<le> 200 \<or> list_all (\<lambda>(j, t). jState (ttTask t) = TaskRunning) (rgTasks r)"
proof -
  let ?r = "registered i kind target user t0 (run_steps task_step NewTaskRegistry ops)"
  have "registry_ok ?r" by (intro registry_ok_registered tasks.run_inv registry_ok_new)
  then have "length (rgTasks (evictLocked ?r)) \<le> maxTasks \<or> finished_of (evictLocked ?r) = []"
    by (metis evictLocked_filter)
  then show ?thesis
    by (auto simp: Let_def StartWithID_registered maxTasks_def finished_of_def filter_empty_conv list_all_iff
        simp flip: not_Terminal_iff)
qed

text \<open>
  C31: a claim that has been overtaken still ends the operation that overtook it. When a
  stack operation is canceled and the stack is claimed again before the first operation has
  returned, the first one's completion marks the second as succeeded and cancels the
  context it runs on.
\<close>

theorem stale_done_ends_successor:
  "case claim i kind name user t1 (Some NewTaskRegistry) of
     (Inr (Some c1), Some r1) \<Rightarrow>
       (case claim i kind' name user' t3 (Some (snd (Task_Cancel i t2 r1))) of
          (Inr (Some c2), r2) \<Rightarrow>
            c1 \<noteq> c2 \<and> map_option (Task_Get i) r2 = Some (Inr (ttTask (new_task i kind' name user' t3 c2)))
            \<and> (case claim_done i t4 r2 of
                 Some r3 \<Rightarrow> c2 \<in> set (rgCanceled r3)
                   \<and> (case Task_Get i r3 of Inr x \<Rightarrow> jState x = TaskSucceeded | Inl _ \<Rightarrow> False)
               | None \<Rightarrow> False)
        | _ \<Rightarrow> False)
   | _ \<Rightarrow> False"
  by (simp add: claim_def claim_done_def Let_def Task_Get_def NewTaskRegistry_def StartWithID_def evictLocked_def maxTasks_def
      put_task_def Task_Cancel_def cancel_ctx_def Finish_def finished_task_def new_task_def)

end
