(* ===== verification/Text_Formats.thy ===== *)
theory Text_Formats
  imports Store Runes
begin

text \<open>
  The text formats of the standard library in which the audit trail leaves the daemon: the
  calendar texts of package time, the values of encoding/json and the records of
  encoding/csv, with a reader of RFC 4180 files to say what the written records mean.
\<close>

section \<open>Calendar\<close>

text \<open>
  The civil date of a day counted from 1 January of year 1, in the proleptic Gregorian
  calendar: days are counted from 1 March of year 0 in eras of 400 years.
\<close>

definition civil_date :: "int \<Rightarrow> int \<times> int \<times> int" where
  "civil_date d =
     (let z = d + 306; era = z div 146097; doe = z mod 146097;
          yoe = (doe - doe div 1460 + doe div 36524 - doe div 146096) div 365;
          doy = doe - (365 * yoe + yoe div 4 - yoe div 100);
          mp = (5 * doy + 2) div 153;
          m = (if mp < 10 then mp + 3 else mp - 9)
      in (yoe + era * 400 + (if m \<le> 2 then 1 else 0), m, doy - (153 * mp + 2) div 5 + 1))"

definition pad_int :: "nat \<Rightarrow> int \<Rightarrow> string" where
  "pad_int w n = (if n < 0 then ''-'' @ pad_zeros w (show_nat (nat (- n))) else pad_zeros w (show_nat (nat n)))"

definition date_time :: "time \<Rightarrow> string" where
  "date_time t =
     (let s = t div second; secs = s mod 86400 in
      case civil_date (s div 86400) of (y, m, d) \<Rightarrow>
        pad_int 4 y @ ''-'' @ pad_int 2 m @ ''-'' @ pad_int 2 d @ ''T''
        @ pad_int 2 (secs div 3600) @ '':'' @ pad_int 2 (secs div 60 mod 60) @ '':'' @ pad_int 2 (secs mod 60))"

text \<open>\<open>t.UTC().Format(time.RFC3339)\<close> and \<open>t.UTC().Format(time.RFC3339Nano)\<close>\<close>

definition rfc3339 :: "time \<Rightarrow> string" where
  "rfc3339 t = date_time t @ ''Z''"

definition rfc3339_nano :: "time \<Rightarrow> string" where
  "rfc3339_nano t = date_time t @ frac_text (nanos t)"

section \<open>JSON\<close>

text \<open>
  \<open>json.Marshal\<close> escapes quotes, backslashes, control characters and, for HTML, the
  characters \<open><\<close>, \<open>>\<close> and \<open>&\<close>; an invalid byte becomes U+FFFD, and U+2028 and U+2029 are
  escaped too. A map is written in the order of its keys.
\<close>

definition json_byte :: "nat \<Rightarrow> string" where
  "json_byte b =
     (if b = 34 \<or> b = 92 then [CHR 0x5C, char_of b]
      else if b = 8 then [CHR 0x5C, CHR ''b'']
      else if b = 12 then [CHR 0x5C, CHR ''f'']
      else if b = 10 then [CHR 0x5C, CHR ''n'']
      else if b = 13 then [CHR 0x5C, CHR ''r'']
      else if b = 9 then [CHR 0x5C, CHR ''t'']
      else if b < 32 \<or> b = 60 \<or> b = 62 \<or> b = 38
        then CHR 0x5C # ''u00'' @ [''0123456789abcdef'' ! (b div 16), ''0123456789abcdef'' ! (b mod 16)]
      else [char_of b])"

function json_escape :: "nat list \<Rightarrow> string" where
  "json_escape [] = []"
| "json_escape (b # bs) =
     (if b < 128 then json_byte b @ json_escape bs
      else case decode_rune (b # bs) of (r, n) \<Rightarrow>
        (if r = rune_error \<and> n = 1 then CHR 0x5C # ''ufffd''
         else if r = 0x2028 then CHR 0x5C # ''u2028''
         else if r = 0x2029 then CHR 0x5C # ''u2029''
         else map char_of (take n (b # bs))) @ json_escape (drop n (b # bs)))"
  by pat_completeness auto
termination
  by (relation "measure length") (auto dest!: decode_rune_pos)

definition json_string :: "string \<Rightarrow> string" where
  "json_string s = [CHR 0x22] @ json_escape (map of_char s) @ [CHR 0x22]"

definition json_object :: "(string \<times> string) list \<Rightarrow> string" where
  "json_object kvs = ''{'' @ join '','' (map (\<lambda>(k, v). json_string k @ '':'' @ v) kvs) @ ''}''"

definition json_array :: "string list \<Rightarrow> string" where
  "json_array vs = ''['' @ join '','' vs @ '']''"

fun json_any :: "any \<Rightarrow> string" where
  "json_any ANull = ''null''"
| "json_any (AString s) = json_string s"
| "json_any (AOther s) = s"
| "json_any (AStrings ss) = json_array (map json_string ss)"
| "json_any (AStringMap m) = json_object (sort_key fst (map (\<lambda>(k, v). (k, json_string v)) m))"
| "json_any (AList vs) = json_array (map json_any vs)"
| "json_any (AMap m) = json_object (sort_key fst (map (\<lambda>(k, v). (k, json_any v)) m))"

section \<open>CSV\<close>

text \<open>\<open>unicode.IsSpace\<close>\<close>

definition rune_space :: "rune \<Rightarrow> bool" where
  "rune_space r \<longleftrightarrow> r \<in> {9, 10, 11, 12, 13, 32, 0x85, 0xA0, 0x1680, 0x2028, 0x2029, 0x202F, 0x205F, 0x3000}
     \<or> 0x2000 \<le> r \<and> r \<le> 0x200A"

definition dquote :: char where "dquote = CHR 0x22"
definition newline :: char where "newline = CHR 0x0A"
definition creturn :: char where "creturn = CHR 0x0D"

text \<open>\<open>csv.Writer.fieldNeedsQuotes\<close> and \<open>csv.Writer.Write\<close> with a comma and no CRLF.\<close>

definition fieldNeedsQuotes :: "string \<Rightarrow> bool" where
  "fieldNeedsQuotes field =
     (if field = [] then False
      else if field = [CHR 0x5C, CHR ''.''] then True
      else if list_ex (\<lambda>c. c = newline \<or> c = creturn \<or> c = dquote \<or> c = CHR '','') field then True
      else rune_space (fst (decode_rune (map of_char field))))"

definition csv_field :: "string \<Rightarrow> string" where
  "csv_field field =
     (if \<not> fieldNeedsQuotes field then field
      else [dquote] @ concat (map (\<lambda>c. if c = dquote then [dquote, dquote] else [c]) field) @ [dquote])"

definition csv_record :: "string list \<Rightarrow> string" where
  "csv_record cells = join '','' (map csv_field cells) @ [newline]"

text \<open>
  A reader of RFC 4180 files whose lines end in a newline. A state is the field read so
  far; the modes are: at the start of a field, inside a bare field, inside quotes, and
  after a quote inside quotes. \<open>None\<close> is a malformed file.
\<close>

datatype csv_mode = FieldStart | Bare | Quoted | QuoteSeen

definition csv_emit :: "string \<Rightarrow> string list list option \<Rightarrow> string list list option" where
  "csv_emit f rows = (case rows of Some (r # rs) \<Rightarrow> Some ((f # r) # rs) | _ \<Rightarrow> None)"

fun csv_read :: "csv_mode \<Rightarrow> string \<Rightarrow> string \<Rightarrow> string list list option" where
  "csv_read FieldStart f [] = (if f = [] then Some [] else None)"
| "csv_read m f [] = None"
| "csv_read Quoted f (c # s) = (if c = dquote then csv_read QuoteSeen f s else csv_read Quoted (f @ [c]) s)"
| "csv_read m f (c # s) =
     (if c = dquote then
        (case m of FieldStart \<Rightarrow> csv_read Quoted [] s | QuoteSeen \<Rightarrow> csv_read Quoted (f @ [dquote]) s | _ \<Rightarrow> None)
      else if c = CHR '','' then csv_emit f (csv_read FieldStart [] s)
      else if c = newline then map_option (\<lambda>rs. [f] # rs) (csv_read FieldStart [] s)
      else if m = QuoteSeen then None
      else csv_read Bare (f @ [c]) s)"


definition csv_parse :: "string \<Rightarrow> string list list option" where
  "csv_parse s = csv_read FieldStart [] s"

lemma csv_chars [simp]: "dquote \<noteq> CHR '',''" "newline \<noteq> CHR '',''" "dquote \<noteq> newline"
  "CHR '','' \<noteq> dquote" "CHR '','' \<noteq> newline" "newline \<noteq> dquote"
  by (simp_all add: dquote_def newline_def)

lemma csv_read_quoted:
  "csv_read Quoted f (concat (map (\<lambda>c. if c = dquote then [dquote, dquote] else [c]) s) @ dquote # rest)
     = csv_read QuoteSeen (f @ s) rest"
  by (induction s arbitrary: f) auto

lemma csv_read_bare:
  assumes "\<forall>c\<in>set s. c \<noteq> newline \<and> c \<noteq> dquote \<and> c \<noteq> CHR '',''"
  shows "csv_read Bare f (s @ rest) = csv_read Bare (f @ s) rest"
  using assms by (induction s arbitrary: f) auto

text \<open>A written field, up to the comma or newline that ends it, is read back as the field.\<close>

lemma csv_read_field:
  assumes "c = CHR '','' \<or> c = newline"
  shows "csv_read FieldStart [] (csv_field s @ c # rest)
     = (if c = newline then map_option (\<lambda>rs. [s] # rs) (csv_read FieldStart [] rest)
        else csv_emit s (csv_read FieldStart [] rest))"
proof (cases "fieldNeedsQuotes s")
  case True
  then show ?thesis using assms by (auto simp: csv_field_def csv_read_quoted)
next
  case False
  show ?thesis
  proof (cases s)
    case Nil
    then show ?thesis using assms by (auto simp: csv_field_def fieldNeedsQuotes_def)
  next
    case (Cons d ds)
    then have plain: "\<forall>c\<in>set (d # ds). c \<noteq> newline \<and> c \<noteq> dquote \<and> c \<noteq> CHR '',''"
      using False by (auto simp: fieldNeedsQuotes_def list_ex_iff split: if_splits)
    then have "csv_read FieldStart [] (csv_field s @ c # rest) = csv_read Bare [d] (ds @ c # rest)"
      using False Cons by (simp add: csv_field_def)
    also have "\<dots> = csv_read Bare s (c # rest)" using plain Cons csv_read_bare [of ds "[d]"] by simp
    finally show ?thesis using assms by auto
  qed
qed

lemma csv_read_record:
  assumes "cells \<noteq> []"
  shows "csv_read FieldStart [] (csv_record cells @ rest)
     = map_option (\<lambda>rs. cells # rs) (csv_read FieldStart [] rest)"
  using assms
proof (induction cells rule: list_nonempty_induct)
  case (single f)
  show ?case by (simp add: csv_record_def csv_read_field)
next
  case (cons f fs)
  have "csv_record (f # fs) = csv_field f @ CHR '','' # csv_record fs"
    using cons.hyps by (cases fs) (simp_all add: csv_record_def)
  then show ?case using cons.IH by (auto simp: csv_read_field csv_emit_def split: option.split)
qed

lemma csv_parse_records:
  assumes "[] \<notin> set rows"
  shows "csv_parse (concat (map csv_record rows)) = Some rows"
  using assms by (induction rows) (auto simp: csv_parse_def csv_read_record)

end
