(* ===== verification/Audit_Service.thy ===== *)
theory Audit_Service
  imports Audit_Record Text_Formats
begin

text \<open>
  Reading the audit trail, internal/service/audit.go: pages, facets and the export loop.

  The loop reads the trail page by page while other requests go on writing to it. What
  they do before the \<open>k\<close>-th page is the argument \<open>env k\<close>, and \<open>dn k\<close> says whether the
  context has been canceled by then. The loop may run for ever, so it is an option-valued
  partial function: \<open>None\<close> is a run that does not return.

  The response body is a sink that may refuse a write. The CSV writer buffers: here it hands
  its text over at the final flush, where the real buffer hands over full blocks of it
  earlier, so that a failing body may be noticed sooner than in the model.
\<close>

section \<open>Pages and facets\<close>

record audit_page =
  pgItems :: "audit_entry list"
  pgTotal :: nat
  pgLimit :: int
  pgOffset :: int

definition Audit_Page :: "audit_filter \<Rightarrow> audit_page io" where
  "Audit_Page f =
     bindE (Audit_List f) (\<lambda>items.
     bindE (Audit_Count f) (\<lambda>total.
     returnE \<lparr>pgItems = items, pgTotal = total, pgLimit = fLimit f, pgOffset = fOffset f\<rparr>))"

record facets =
  fcActions :: "string list"
  fcResourceTypes :: "string list"
  fcActors :: "(string \<times> string) list"

text \<open>
  \<open>SELECT DISTINCT c ... WHERE c != '' ORDER BY c\<close>; the actors are ordered by name only,
  which leaves open how rows of one name are ordered: here by when they first appear.
\<close>

definition distinct_column :: "(audit_entry \<Rightarrow> string) \<Rightarrow> string list io" where
  "distinct_column col = db (readE (\<lambda>w. sort (remdups (filter (\<lambda>v. v \<noteq> '''') (map col (wAudit w))))))"

definition Audit_Facets :: "facets io" where
  "Audit_Facets =
     bindE (distinct_column aAction) (\<lambda>actions.
     bindE (distinct_column aResourceType) (\<lambda>types.
     bindE (db (readE (\<lambda>w. sort_key snd (rev (remdups (rev
        (map (\<lambda>e. (aUserID e, aUsername e)) (filter (\<lambda>e. aUsername e \<noteq> '''') (wAudit w)))))))))  (\<lambda>actors.
     returnE \<lparr>fcActions = actions, fcResourceTypes = types, fcActors = actors\<rparr>)))"

section \<open>Export\<close>

datatype export_error = StoreFailed go_error | ContextDone | WriteFailed | ErrUnknownExportFormat

record sink =
  skText :: string
  skFaults :: "bool list"

definition sink_write :: "string \<Rightarrow> (sink, export_error, unit) prog" where
  "sink_write s = (\<lambda>k. case skFaults k of
       [] \<Rightarrow> (Inr (), k\<lparr>skText := skText k @ s\<rparr>)
     | b # bs \<Rightarrow> if b then (Inl WriteFailed, k\<lparr>skFaults := bs\<rparr>)
                 else (Inr (), k\<lparr>skText := skText k @ s, skFaults := bs\<rparr>))"

definition exportBatch :: nat where "exportBatch = 500"

fun forE :: "('x \<Rightarrow> ('o, 'e, unit) prog) \<Rightarrow> 'x list \<Rightarrow> ('o, 'e, unit) prog" where
  "forE fn [] = returnE ()"
| "forE fn (x # xs) = thenE (fn x) (forE fn xs)"

partial_function (option) each_from :: "(nat \<Rightarrow> world \<Rightarrow> world) \<Rightarrow> (nat \<Rightarrow> bool)
    \<Rightarrow> (audit_entry \<Rightarrow> ('o, export_error, unit) prog) \<Rightarrow> audit_filter \<Rightarrow> nat \<Rightarrow> 'o \<Rightarrow> world
    \<Rightarrow> ((export_error + unit) \<times> 'o \<times> world) option" where
  "each_from env dn fn page k out w =
     (if dn k then Some (Inl ContextDone, out, w)
      else case Audit_List page (env k w) of
        (Inl e, w1) \<Rightarrow> Some (Inl (StoreFailed e), out, w1)
      | (Inr batch, w1) \<Rightarrow>
          (case forE fn batch out of
             (Inl e, out1) \<Rightarrow> Some (Inl e, out1, w1)
           | (Inr _, out1) \<Rightarrow>
               if length batch < exportBatch then Some (Inr (), out1, w1)
               else each_from env dn fn (page\<lparr>fOffset := fOffset page + int (length batch)\<rparr>) (Suc k) out1 w1))"

definition each :: "(nat \<Rightarrow> world \<Rightarrow> world) \<Rightarrow> (nat \<Rightarrow> bool)
    \<Rightarrow> audit_filter \<Rightarrow> (audit_entry \<Rightarrow> ('o, export_error, unit) prog) \<Rightarrow> 'o \<Rightarrow> world
    \<Rightarrow> ((export_error + unit) \<times> 'o \<times> world) option" where
  "each env dn filt fn = each_from env dn fn (filt\<lparr>fLimit := int exportBatch, fOffset := 0\<rparr>) 0"

definition exportColumns :: "string list" where
  "exportColumns = [''id'', ''created_at'', ''username'', ''user_id'', ''action'',
     ''resource_type'', ''resource_id'', ''result'', ''detail'', ''ip'', ''user_agent'']"

definition export_row :: "audit_entry \<Rightarrow> string list" where
  "export_row e = [show_nat (aID e), rfc3339 (aCreatedAt e), aUsername e, aUserID e, aAction e,
     aResourceType e, aResourceID e, aResult e, json_any (aDetail e), aIP e, aUserAgent e]"

definition csv_write :: "string list \<Rightarrow> (string, export_error, unit) prog" where
  "csv_write cells = modifyE (\<lambda>buf. buf @ csv_record cells)"

definition exportCSV :: "(nat \<Rightarrow> world \<Rightarrow> world) \<Rightarrow> (nat \<Rightarrow> bool) \<Rightarrow> audit_filter \<Rightarrow> sink \<Rightarrow> world
    \<Rightarrow> ((export_error + unit) \<times> sink \<times> world) option" where
  "exportCSV env dn filt k w =
     (case csv_write exportColumns '''' of
        (Inl e, _) \<Rightarrow> Some (Inl e, k, w)
      | (Inr _, buf) \<Rightarrow>
          (case each env dn filt (\<lambda>e. csv_write (export_row e)) buf w of
             None \<Rightarrow> None
           | Some (Inl e, _, w') \<Rightarrow> Some (Inl e, k, w')
           | Some (Inr _, buf', w') \<Rightarrow> (case sink_write buf' k of (r, k') \<Rightarrow> Some (r, k', w'))))"

text \<open>\<open>encoder.Encode(e)\<close>: the fields in the order of the struct, those with omitempty only when set.\<close>

definition json_entry :: "audit_entry \<Rightarrow> string" where
  "json_entry e =
     (let opt = (\<lambda>k v. if v = '''' then [] else [(k, json_string v)]) in
      json_object ([(''id'', show_nat (aID e))] @ opt ''user_id'' (aUserID e) @ opt ''username'' (aUsername e)
        @ [(''action'', json_string (aAction e))] @ opt ''resource_type'' (aResourceType e)
        @ opt ''resource_id'' (aResourceID e) @ [(''result'', json_string (aResult e))]
        @ opt ''detail'' (json_any (aDetail e)) @ opt ''ip'' (aIP e) @ opt ''user_agent'' (aUserAgent e)
        @ [(''created_at'', json_string (rfc3339_nano (aCreatedAt e)))]))"

definition write_json_entry :: "audit_entry \<Rightarrow> (bool \<times> sink, export_error, unit) prog" where
  "write_json_entry e = (\<lambda>(first, k).
     case (if \<not> first then sink_write '','' k else (Inr (), k)) of
       (Inl err, k1) \<Rightarrow> (Inl err, (first, k1))
     | (Inr _, k1) \<Rightarrow> (case sink_write (json_entry e @ [newline]) k1 of (r, k2) \<Rightarrow> (r, (False, k2))))"

definition exportJSON :: "(nat \<Rightarrow> world \<Rightarrow> world) \<Rightarrow> (nat \<Rightarrow> bool) \<Rightarrow> audit_filter \<Rightarrow> sink \<Rightarrow> world
    \<Rightarrow> ((export_error + unit) \<times> sink \<times> world) option" where
  "exportJSON env dn filt k w =
     (case sink_write (''['' @ [newline]) k of
        (Inl e, k1) \<Rightarrow> Some (Inl e, k1, w)
      | (Inr _, k1) \<Rightarrow>
          (case each env dn filt write_json_entry (True, k1) w of
             None \<Rightarrow> None
           | Some (Inl e, (_, k2), w') \<Rightarrow> Some (Inl e, k2, w')
           | Some (Inr _, (_, k2), w') \<Rightarrow> (case sink_write ('']'' @ [newline]) k2 of (r, k3) \<Rightarrow> Some (r, k3, w'))))"

definition Export :: "(nat \<Rightarrow> world \<Rightarrow> world) \<Rightarrow> (nat \<Rightarrow> bool) \<Rightarrow> audit_filter \<Rightarrow> string \<Rightarrow> sink \<Rightarrow> world
    \<Rightarrow> ((export_error + unit) \<times> sink \<times> world) option" where
  "Export env dn filt format k w =
     (let f = to_lower (trim_space format) in
      if f = ''csv'' then exportCSV env dn filt k w
      else if f = ''json'' then exportJSON env dn filt k w
      else Some (Inl ErrUnknownExportFormat, k, w))"

section \<open>The loop returns\<close>

definition matching :: "audit_filter \<Rightarrow> world \<Rightarrow> audit_entry list" where
  "matching f w = rev (sort_key aID (filter (auditWhere f) (wAudit w)))"

lemma length_matching_le: "length (matching f w) \<le> length (wAudit w)"
  by (simp add: matching_def)

lemma auditWhere_page [simp]: "auditWhere (f\<lparr>fLimit := l\<rparr>) = auditWhere f" "auditWhere (f\<lparr>fOffset := i\<rparr>) = auditWhere f"
  by (simp_all add: fun_eq_iff auditWhere_def)

lemma matching_page [simp]: "matching (f\<lparr>fLimit := l\<rparr>) w = matching f w" "matching (f\<lparr>fOffset := i\<rparr>) w = matching f w"
  by (simp_all add: matching_def)

lemma Audit_List_run:
  assumes "Audit_List f w = (r, w1)"
  shows "wAudit w1 = wAudit w" "r = Inr batch \<Longrightarrow> batch = take (nat (audit_limit f)) (drop (nat (fOffset f)) (matching f w))"
  using assms by (auto simp: Audit_List_def db_def readE_def throwE_def matching_def auditWhere_def split: list.splits if_splits)

lemma audit_limit_batch: "fLimit f = int exportBatch \<Longrightarrow> nat (audit_limit f) = exportBatch"
  by (simp add: audit_limit_def exportBatch_def maxAuditLimit_def)

text \<open>From the round on in which the trail stops growing, the rows still to read run out.\<close>

lemma each_from_returns:
  assumes quiet: "\<forall>j\<ge>k. \<forall>w. length (wAudit (env j w)) \<le> length (wAudit w)"
    and "fLimit page = int exportBatch" "0 \<le> fOffset page"
  shows "\<exists>r. each_from env dn fn page k out w = Some r"
  using assms
proof (induction "length (wAudit w) - nat (fOffset page)" arbitrary: page k out w rule: less_induct)
  case less
  obtain r w1 where list: "Audit_List page (env k w) = (r, w1)" by fastforce
  note run = Audit_List_run [OF list]
  show ?case
  proof (cases r)
    case (Inl e)
    then show ?thesis using list by (subst each_from.simps) simp
  next
    case (Inr batch)
    obtain r' out1 where fn: "forE fn batch out = (r', out1)" by fastforce
    show ?thesis
    proof (cases "dn k \<or> isl r' \<or> length batch < exportBatch")
      case True
      then show ?thesis using list Inr fn by (subst each_from.simps) (auto split: sum.split)
    next
      case False
      let ?page = "page\<lparr>fOffset := fOffset page + int (length batch)\<rparr>"
      have "length batch = exportBatch" "nat (fOffset page) + length batch \<le> length (matching page (env k w))"
        using False run(2) [OF Inr] less.prems(2) by (auto simp: audit_limit_batch exportBatch_def min_def split: if_splits)
      moreover have "length (matching page (env k w)) \<le> length (wAudit w)" "length (wAudit w1) \<le> length (wAudit w)"
        using less.prems(1) length_matching_le [of page "env k w"] run(1) order_trans by fastforce+
      ultimately have "length (wAudit w1) - nat (fOffset ?page) < length (wAudit w) - nat (fOffset page)"
        using less.prems(3) by (auto simp: exportBatch_def nat_add_distrib)
      then have "\<exists>r. each_from env dn fn ?page (Suc k) out1 w1 = Some r"
        using less.prems by (intro less.hyps) auto
      then show ?thesis using list Inr fn False
        by (subst each_from.simps) (auto split: sum.split simp: isl_def)
    qed
  qed
qed


lemma each_from_next:
  assumes "\<And>n out1 w1. \<exists>r. each_from env dn fn (page\<lparr>fOffset := fOffset page + int n\<rparr>) (Suc k) out1 w1 = Some r"
  shows "\<exists>r. each_from env dn fn page k out w = Some r"
  using assms by (subst each_from.simps) (auto split: prod.split sum.split)

lemma each_from_returns_eventually:
  assumes quiet: "\<forall>j\<ge>K. \<forall>w. length (wAudit (env j w)) \<le> length (wAudit w)"
    and "fLimit page = int exportBatch" "0 \<le> fOffset page"
  shows "\<exists>r. each_from env dn fn page k out w = Some r"
  using assms(2,3)
proof (induction "K - k" arbitrary: page k out w)
  case 0
  then show ?case using quiet by (intro each_from_returns) auto
next
  case (Suc d)
  show ?case
    by (rule each_from_next, rule Suc.hyps(1)) (use Suc.hyps(2) Suc.prems in auto)
qed

section \<open>A quiet trail is exported whole\<close>

definition accepts :: "('x \<Rightarrow> ('o, 'e, unit) prog) \<Rightarrow> ('x \<Rightarrow> 'o \<Rightarrow> 'o) \<Rightarrow> ('o \<Rightarrow> bool) \<Rightarrow> bool" where
  "accepts fn g ok \<longleftrightarrow> (\<forall>x out. ok out \<longrightarrow> fn x out = (Inr (), g x out) \<and> ok (g x out))"

lemma forE_accepts:
  assumes "accepts fn g ok" "ok out"
  shows "forE fn xs out = (Inr (), fold g xs out)" "ok (fold g xs out)"
  using assms by (induction xs arbitrary: out) (auto simp: accepts_def returnE_run thenE_run)

lemma Audit_List_quiet:
  assumes "wFaults w = []"
  shows "Audit_List f w = (Inr (take (nat (audit_limit f)) (drop (nat (fOffset f)) (matching f w))), w)"
  using assms by (simp add: Audit_List_def db_def readE_def matching_def)

lemma each_from_quiet:
  assumes "accepts fn g ok" "ok out" "wFaults w = []" "fLimit page = int exportBatch" "fOffset page = int n"
  shows "each_from (\<lambda>_ w. w) (\<lambda>_. False) fn page k out w = Some (Inr (), fold g (drop n (matching page w)) out, w)"
  using assms(2,4,5)
proof (induction "length (matching page w) - n" arbitrary: n page k out rule: less_induct)
  case less
  let ?rest = "drop n (matching page w)"
  let ?batch = "take exportBatch ?rest"
  have list: "Audit_List page w = (Inr ?batch, w)"
    using assms(3) less.prems by (simp add: Audit_List_quiet audit_limit_batch)
  note fn = forE_accepts [OF assms(1) less.prems(1), of ?batch]
  show ?case
  proof (cases "length ?batch < exportBatch")
    case True
    then have "?batch = ?rest" by simp
    then show ?thesis using list fn(1) True by (subst each_from.simps) simp
  next
    case False
    then have len: "length ?batch = exportBatch" "n + exportBatch \<le> length (matching page w)"
      by (auto simp: exportBatch_def)
    let ?page = "page\<lparr>fOffset := fOffset page + int (length ?batch)\<rparr>"
    have "each_from (\<lambda>_ w. w) (\<lambda>_. False) fn ?page (Suc k) (fold g ?batch out) w
        = Some (Inr (), fold g (drop (n + exportBatch) (matching ?page w)) (fold g ?batch out), w)"
      by (rule less.hyps) (use len fn(2) less.prems in \<open>auto simp: exportBatch_def\<close>)
    moreover have "fold g (drop (n + exportBatch) (matching page w)) (fold g ?batch out) = fold g ?rest out"
      by (metis add.commute append_take_drop_id comp_apply drop_drop fold_append)
    ultimately show ?thesis using list fn(1) False by (subst each_from.simps) simp
  qed
qed

lemma each_quiet:
  assumes "accepts fn g ok" "ok out" "wFaults w = []"
  shows "each (\<lambda>_ w. w) (\<lambda>_. False) f fn out w = Some (Inr (), fold g (matching f w) out, w)"
  unfolding each_def using each_from_quiet [OF assms, of "f\<lparr>fLimit := int exportBatch, fOffset := 0\<rparr>" 0 0] by simp

lemma csv_write_accepts: "accepts (\<lambda>e. csv_write (row e)) (\<lambda>e buf. buf @ csv_record (row e)) (\<lambda>_. True)"
  by (simp add: accepts_def csv_write_def modifyE_run)

lemma fold_append_concat: "fold (\<lambda>e buf. buf @ f e) xs buf = buf @ concat (map f xs)"
  by (induction xs arbitrary: buf) auto

lemma exportCSV_quiet:
  assumes "wFaults w = []" "skFaults k = []"
  shows "exportCSV (\<lambda>_ w. w) (\<lambda>_. False) f k w
    = Some (Inr (), k\<lparr>skText := skText k @ concat (map csv_record (exportColumns # map export_row (matching f w)))\<rparr>, w)"
  using assms each_quiet [OF csv_write_accepts [of export_row] _ assms(1)]
  by (simp add: exportCSV_def csv_write_def modifyE_run sink_write_def fold_append_concat o_def)

section \<open>Properties\<close>

text \<open>
  C32: an export returns. However other requests write to the trail in the meantime,
  statements fail and the body refuses writes, once the trail no longer grows the loop runs
  out of pages and returns a result.
\<close>

theorem Export_returns:
  assumes "\<forall>j\<ge>K. \<forall>w. length (wAudit (env j w)) \<le> length (wAudit w)"
  shows "\<exists>r k' w'. Export env dn filt format k w = Some (r, k', w')"
proof -
  have each: "\<exists>r. each env dn filt fn out w = Some r" for fn :: "audit_entry \<Rightarrow> ('o, export_error, unit) prog" and out
    unfolding each_def by (rule each_from_returns_eventually [OF assms]) simp_all
  have "\<exists>r. exportCSV env dn filt k w = Some r"
    using each [of "\<lambda>e. csv_write (export_row e)"] unfolding exportCSV_def
    by (auto simp: split: prod.split sum.split option.split) (metis option.distinct(1))
  moreover have "\<exists>r. exportJSON env dn filt k w = Some r"
    using each [of write_json_entry] unfolding exportJSON_def
    by (auto simp: split: prod.split sum.split option.split) (metis option.distinct(1))
  ultimately show ?thesis by (auto simp: Export_def Let_def split_paired_Ex)
qed


definition sample_entry :: audit_entry where
  "sample_entry = \<lparr>aID = 7, aUserID = ''u1'', aUsername = ''ada'', aAction = ''stack.up'', aResourceType = ''stack'',
     aResourceID = ''s1'', aResult = ''ok'', aDetail = AMap [(''note'', AString ''a,b'')], aIP = ''10.0.0.1'',
     aUserAgent = ''curl'', aCreatedAt = 63650000000000000000\<rparr>"

definition sample_trail :: world where
  "sample_trail = \<lparr>wUsers = [], wSessions = [], wTokens = [], wAttempts = [], wAudit = [sample_entry], wAuditSeq = 7,
     wNow = 0, wEntropy = [], wFaults = []\<rparr>"

definition no_filter :: audit_filter where
  "no_filter = \<lparr>fUserID = '''', fAction = '''', fResourceType = '''', fResourceID = '''', fResult = '''',
     fFrom = 0, fTo = 0, fLimit = 0, fOffset = 0\<rparr>"

theorem Export_returns_witness:
  "\<exists>r k' w'. Export (\<lambda>j w. if j < 3 then w\<lparr>wAudit := wAudit w @ [sample_entry]\<rparr> else w) (\<lambda>_. False) no_filter ''csv''
     \<lparr>skText = '''', skFaults = [True]\<rparr> sample_trail = Some (r, k', w')"
  by (rule Export_returns [of 3]) simp

text \<open>
  C33: an export of a trail that nobody writes to meanwhile is complete and readable. The
  CSV text that reaches the client reads back, by the rules of RFC 4180, as the header and
  one record per matching entry, newest first, whatever page the filter asks for and
  whatever commas, quotes and line breaks the entries hold.
\<close>

theorem Export_CSV_complete:
  assumes "to_lower (trim_space format) = ''csv''" "wFaults w = []" "skFaults k = []" "skText k = ''''"
  shows "\<exists>text. Export (\<lambda>_ w. w) (\<lambda>_. False) filt format k w = Some (Inr (), k\<lparr>skText := text\<rparr>, w)
     \<and> csv_parse text = Some (exportColumns # map export_row (rev (sort_key aID (filter (auditWhere filt) (wAudit w)))))"
proof -
  let ?rows = "exportColumns # map export_row (matching filt w)"
  have "[] \<notin> set ?rows" by (auto simp: exportColumns_def export_row_def)
  then have "csv_parse (concat (map csv_record ?rows)) = Some ?rows" by (rule csv_parse_records)
  then show ?thesis using exportCSV_quiet [OF assms(2,3), of filt] assms
    by (intro exI [of _ "concat (map csv_record ?rows)"]) (simp add: Export_def matching_def)
qed

theorem Export_CSV_complete_witness:
  "\<exists>text. Export (\<lambda>_ w. w) (\<lambda>_. False) no_filter '' csv'' \<lparr>skText = '''', skFaults = []\<rparr> sample_trail
       = Some (Inr (), \<lparr>skText = text, skFaults = []\<rparr>, sample_trail)
     \<and> csv_parse text = Some [exportColumns, export_row sample_entry]"
  using Export_CSV_complete [of "'' csv''" sample_trail "\<lparr>skText = '''', skFaults = []\<rparr>" no_filter]
  by (simp add: sample_trail_def no_filter_def auditWhere_def is_zero_def trim_space_def trim_def trim_left_def
      trim_right_def is_space_def to_lower_def lower_char_def is_upper_def)

end
