(* ===== verification/Paths.thy ===== *)
theory Paths
  imports GoStrings
begin

text \<open>
  The whitelist of host paths, internal/service/paths.go, with the parts of path/filepath it
  is made of, on Unix: \<open>Clean\<close>, \<open>IsAbs\<close>, \<open>Rel\<close>, \<open>Dir\<close>, \<open>Join\<close> and \<open>EvalSymlinks\<close>.

  A path is a string; the elements of a path are what is left between its slashes after
  cleaning. The host's file system is an association list from the elements of absolute
  paths to nodes; it does not change while a request is served. Permissions are not
  modelled.
\<close>

section \<open>Paths\<close>

abbreviation slash :: char where "slash \<equiv> CHR ''/''"

definition IsAbs :: "string \<Rightarrow> bool" where
  "IsAbs p \<longleftrightarrow> has_prefix p ''/''"

text \<open>One element of the loop of \<open>filepath.Clean\<close>; the elements kept so far are reversed.\<close>

fun clean_elem :: "bool \<Rightarrow> string \<Rightarrow> string list \<Rightarrow> string list" where
  "clean_elem rooted e out =
     (if e = '''' \<or> e = ''.'' then out
      else if e = ''..'' then
        (case out of
           [] \<Rightarrow> if rooted then [] else [''..'']
         | d # ds \<Rightarrow> if d = ''..'' then ''..'' # out else ds)
      else e # out)"

definition clean_elems :: "bool \<Rightarrow> string list \<Rightarrow> string list" where
  "clean_elems rooted es = rev (fold (clean_elem rooted) es [])"

definition elements :: "string \<Rightarrow> string list" where
  "elements p = clean_elems (IsAbs p) (split_on slash p)"

definition render :: "bool \<Rightarrow> string list \<Rightarrow> string" where
  "render rooted es = (if rooted then ''/'' @ join ''/'' es else if es = [] then ''.'' else join ''/'' es)"

definition Clean :: "string \<Rightarrow> string" where
  "Clean p = render (IsAbs p) (elements p)"

text \<open>
  \<open>filepath.Rel(base, targ)\<close>: the elements the two have in common are dropped, every
  element of the base that is left is climbed out of, and what is left of the target is
  descended into. A base whose remainder begins with \<open>..\<close> has no relative path.
\<close>

fun drop_common :: "string list \<Rightarrow> string list \<Rightarrow> string list \<times> string list" where
  "drop_common (b # bs) (t # ts) = (if b = t then drop_common bs ts else (b # bs, t # ts))"
| "drop_common bs ts = (bs, ts)"

definition Rel :: "string \<Rightarrow> string \<Rightarrow> string option" where
  "Rel base targ =
     (if Clean targ = Clean base then Some ''.''
      else if IsAbs base \<noteq> IsAbs targ then None
      else case drop_common (elements base) (elements targ) of (bs, ts) \<Rightarrow>
        if bs \<noteq> [] \<and> hd bs = ''..'' then None
        else Some (join ''/'' (map (\<lambda>_. ''..'') bs @ ts)))"

text \<open>\<open>filepath.Dir\<close> and \<open>filepath.Join\<close> of a path and one name.\<close>

definition Dir :: "string \<Rightarrow> string" where
  "Dir p = Clean (rev (dropWhile (\<lambda>c. c \<noteq> slash) (rev p)))"

definition Join :: "string \<Rightarrow> string \<Rightarrow> string" where
  "Join p n = (if p = '''' \<and> n = '''' then '''' else if p = '''' then Clean n else Clean (p @ ''/'' @ n))"

section \<open>The file system\<close>

datatype node = DirNode time | FileNode nat time | LinkNode string time

type_synonym file_system = "(string list \<times> node) list"

definition lstat :: "file_system \<Rightarrow> string list \<Rightarrow> node option" where
  "lstat fs es = (if es = [] then Some (DirNode 0) else map_of fs es)"

text \<open>
  Resolving a path: \<open>dest\<close> is where the walk has got to, free of links, and \<open>n\<close> the number
  of links it may still follow.
\<close>

function walk :: "file_system \<Rightarrow> nat \<Rightarrow> string list \<Rightarrow> string list \<Rightarrow> string list option" where
  "walk fs n dest [] = Some dest"
| "walk fs n dest (e # es) =
     (if e = '''' \<or> e = ''.'' then walk fs n dest es
      else if e = ''..'' then walk fs n (butlast dest) es
      else case lstat fs (dest @ [e]) of
        None \<Rightarrow> None
      | Some (DirNode _) \<Rightarrow> walk fs n (dest @ [e]) es
      | Some (FileNode _ _) \<Rightarrow> if es = [] then Some (dest @ [e]) else None
      | Some (LinkNode target _) \<Rightarrow>
          if n = 0 then None
          else walk fs (n - 1) (if IsAbs target then [] else dest) (split_on slash target @ es))"
  by pat_completeness auto
termination
  by (relation "measures [\<lambda>(fs, n, dest, es). n, \<lambda>(fs, n, dest, es). length es]") auto

text \<open>\<open>filepath.EvalSymlinks\<close> gives up after 255 links, the kernel after 40.\<close>

definition EvalSymlinks :: "file_system \<Rightarrow> string \<Rightarrow> string option" where
  "EvalSymlinks fs p = map_option (render True) (walk fs 255 [] (split_on slash p))"

definition os_Stat :: "file_system \<Rightarrow> string \<Rightarrow> node option" where
  "os_Stat fs p = (case walk fs 40 [] (split_on slash p) of None \<Rightarrow> None | Some es \<Rightarrow> lstat fs es)"

section \<open>The guard\<close>

datatype path_error = PathError (pePath: string) (peAllowed: "string list")

definition NewPathGuard :: "string list \<Rightarrow> string list" where
  "NewPathGuard allowed = map Clean (filter (\<lambda>r. r \<noteq> '''') (map trim_space allowed))"

definition withinRoot :: "string \<Rightarrow> string \<Rightarrow> bool" where
  "withinRoot path root =
     (if path = root then True
      else case Rel root path of
        None \<Rightarrow> False
      | Some rel \<Rightarrow> rel \<noteq> ''..'' \<and> \<not> has_prefix rel ''../'')"

definition Guard_Check :: "file_system \<Rightarrow> string list \<Rightarrow> string \<Rightarrow> path_error option" where
  "Guard_Check fs allowed path =
     (let trimmed = trim_space path in
      if trimmed = '''' then Some (PathError path allowed)
      else if \<not> IsAbs trimmed then Some (PathError path allowed)
      else
        let candidate = (case EvalSymlinks fs (Clean trimmed) of Some resolved \<Rightarrow> resolved | None \<Rightarrow> Clean trimmed)
        in if list_ex (withinRoot candidate) allowed then None else Some (PathError path allowed))"

fun CheckAll :: "file_system \<Rightarrow> string list \<Rightarrow> string list \<Rightarrow> path_error option" where
  "CheckAll fs allowed [] = None"
| "CheckAll fs allowed (p # ps) =
     (case Guard_Check fs allowed p of Some e \<Rightarrow> Some e | None \<Rightarrow> CheckAll fs allowed ps)"

section \<open>Clean paths\<close>

text \<open>
  A list of elements is clean when each is a name, or, at the front of a relative path, a
  step up. Cleaning yields clean elements and printing them is read back.
\<close>

definition name_elem :: "string \<Rightarrow> bool" where
  "name_elem e \<longleftrightarrow> e \<noteq> '''' \<and> e \<noteq> ''.'' \<and> e \<noteq> ''..'' \<and> slash \<notin> set e"

definition clean_list :: "bool \<Rightarrow> string list \<Rightarrow> bool" where
  "clean_list rooted es \<longleftrightarrow>
     (\<exists>k ns. es = replicate k ''..'' @ ns \<and> list_all name_elem ns \<and> (rooted \<longrightarrow> k = 0))"

lemma clean_listI: "list_all name_elem ns \<Longrightarrow> (rooted \<longrightarrow> k = 0) \<Longrightarrow> clean_list rooted (replicate k ''..'' @ ns)"
  unfolding clean_list_def by blast

lemma clean_list_rooted [simp]: "clean_list True es \<longleftrightarrow> list_all name_elem es"
  by (auto simp: clean_list_def)

lemma clean_elem_clean:
  assumes "clean_list rooted (rev out)" "slash \<notin> set e"
  shows "clean_list rooted (rev (clean_elem rooted e out))"
proof -
  obtain k ns where es: "rev out = replicate k ''..'' @ ns" and ns: "list_all name_elem ns" and k: "rooted \<longrightarrow> k = 0"
    using assms(1) by (auto simp: clean_list_def)
  show ?thesis
  proof (cases "e = ''..''")
    case up: True
    show ?thesis
    proof (cases ns rule: rev_cases)
      case Nil
      then have "out = replicate k ''..''" using es by (metis append_Nil2 rev_replicate rev_rev_ident)
      then show ?thesis using up k clean_listI [of "[]" rooted "Suc k"] clean_listI [of "[]" rooted 0]
        by (cases k) (auto simp: replicate_append_same)
    next
      case (snoc ms m)
      then have "out = m # rev ms @ replicate k ''..''" using es by (metis append.assoc rev_append rev_replicate rev_rev_ident rev_singleton_conv append_Cons append_Nil)
      moreover have "m \<noteq> ''..''" using ns snoc by (simp add: name_elem_def)
      ultimately show ?thesis using up ns snoc k clean_listI [of ms rooted k] by auto
    qed
  next
    case False
    then show ?thesis using assms(2) es ns k assms(1) clean_listI [of "ns @ [e]" rooted k]
      by (auto simp: name_elem_def)
  qed
qed

lemma clean_list_fold:
  "clean_list rooted (rev out) \<Longrightarrow> \<forall>e\<in>set es. slash \<notin> set e \<Longrightarrow> clean_list rooted (rev (fold (clean_elem rooted) es out))"
  by (induction es arbitrary: out) (auto simp del: clean_elem.simps simp: clean_elem_clean)

lemma clean_list_elements: "clean_list (IsAbs p) (elements p)"
  unfolding elements_def clean_elems_def
proof (rule clean_list_fold)
  show "clean_list (IsAbs p) (rev [])" by (auto simp: clean_list_def)
  show "\<forall>e\<in>set (split_on slash p). slash \<notin> set e" by (blast dest: split_on_no_sep)
qed

lemma clean_elem_name: "name_elem e \<Longrightarrow> clean_elem rooted e out = e # out"
  by (simp add: name_elem_def)

lemma fold_clean_names: "list_all name_elem ns \<Longrightarrow> fold (clean_elem rooted) ns out = rev ns @ out"
proof (induction ns arbitrary: out)
  case (Cons e ns)
  then show ?case using clean_elem_name [of e rooted out] by (simp del: clean_elem.simps)
qed simp

lemma clean_elems_id:
  assumes "clean_list rooted es"
  shows "clean_elems rooted es = es"
proof -
  from assms obtain k ns where es: "es = replicate k ''..'' @ ns" "list_all name_elem ns" "rooted \<longrightarrow> k = 0"
    by (auto simp: clean_list_def)
  have up: "fold (clean_elem rooted) (replicate k ''..'') (replicate j ''..'') = replicate (k + j) ''..''"
    if "rooted \<longrightarrow> k = 0" for j
    using that
  proof (induction k arbitrary: j)
    case (Suc k)
    have "clean_elem rooted ''..'' (replicate j ''..'') = replicate (Suc j) ''..''"
      using Suc.prems by (cases j) auto
    then show ?case using Suc.IH [of "Suc j"] Suc.prems by (auto simp del: clean_elem.simps)
  qed simp
  then show ?thesis using up [of 0] es by (simp add: clean_elems_def fold_clean_names)
qed

lemma clean_list_elem: "clean_list rooted es \<Longrightarrow> e \<in> set es \<Longrightarrow> e \<noteq> '''' \<and> slash \<notin> set e"
  unfolding clean_list_def list_all_iff name_elem_def by fastforce

lemma IsAbs_render: "clean_list rooted es \<Longrightarrow> IsAbs (render rooted es) = rooted"
proof (cases es)
  case Nil
  then show "IsAbs (render rooted es) = rooted" by (simp add: IsAbs_def render_def has_prefix_iff)
next
  case (Cons e rest)
  assume "clean_list rooted es"
  then have "e \<noteq> ''''" "slash \<notin> set e" using clean_list_elem Cons by auto
  then obtain c cs where "e = c # cs" "c \<noteq> slash" by (cases e) auto
  then show "IsAbs (render rooted es) = rooted"
    using Cons by (cases rest) (auto simp: IsAbs_def render_def has_prefix_iff)
qed

lemma elements_render [simp]:
  assumes "clean_list rooted es"
  shows "elements (render rooted es) = es"
proof (cases "es = []")
  case True
  then show ?thesis by (cases rooted) (simp_all add: elements_def render_def IsAbs_def has_prefix_iff clean_elems_def)
next
  case False
  have "split_on slash (join ''/'' es) = es"
    using False clean_list_elem [OF assms] by (intro split_on_join) auto
  then have "clean_elems rooted (split_on slash (render rooted es)) = es"
    using False clean_elems_id [OF assms] by (auto simp: render_def clean_elems_def split_on_append [of slash "[]", simplified])
  then show ?thesis unfolding elements_def IsAbs_render [OF assms] .
qed

lemma IsAbs_Clean [simp]: "IsAbs (Clean p) = IsAbs p"
  unfolding Clean_def by (rule IsAbs_render) (rule clean_list_elements)

lemma elements_Clean [simp]: "elements (Clean p) = elements p"
  unfolding Clean_def by (rule elements_render) (rule clean_list_elements)

lemma Clean_idem [simp]: "Clean (Clean p) = Clean p"
proof -
  have "Clean (Clean p) = render (IsAbs (Clean p)) (elements (Clean p))" by (rule Clean_def)
  also have "\<dots> = Clean p" unfolding IsAbs_Clean elements_Clean by (rule Clean_def [symmetric])
  finally show ?thesis .
qed


lemma IsAbs_names: "IsAbs p \<Longrightarrow> list_all name_elem (elements p)"
  using clean_list_elements [of p] by simp

lemma Clean_eq_iff: "Clean p = Clean q \<longleftrightarrow> IsAbs p = IsAbs q \<and> elements p = elements q"
proof
  assume eq: "Clean p = Clean q"
  show "IsAbs p = IsAbs q \<and> elements p = elements q"
    using arg_cong [OF eq, of IsAbs] arg_cong [OF eq, of elements] by simp
qed (simp add: Clean_def)

section \<open>What the guard compares\<close>

lemma drop_common_split:
  "drop_common bs ts = (bs', ts') \<Longrightarrow>
     \<exists>c. bs = c @ bs' \<and> ts = c @ ts' \<and> (bs' = [] \<or> ts' = [] \<or> hd bs' \<noteq> hd ts')"
proof (induction bs ts rule: drop_common.induct)
  case (1 b bs t ts)
  show ?case
  proof (cases "b = t")
    case True
    then obtain c where "bs = c @ bs'" "ts = c @ ts'" "bs' = [] \<or> ts' = [] \<or> hd bs' \<noteq> hd ts'" using 1 by auto
    then show ?thesis using True by (intro exI [of _ "b # c"]) simp
  qed (use 1 in auto)
qed auto

lemma prefix_drop_common:
  assumes "drop_common bs ts = (bs', ts')"
  shows "prefix bs ts \<longleftrightarrow> bs' = []"
proof -
  obtain c where "bs = c @ bs'" "ts = c @ ts'" "bs' = [] \<or> ts' = [] \<or> hd bs' \<noteq> hd ts'"
    using drop_common_split [OF assms] by blast
  then show ?thesis by (cases bs'; cases ts') auto
qed

text \<open>A relative path that does not climb begins with a name, one that climbs with a step up.\<close>

lemma join_descends:
  assumes "list_all name_elem es" "es \<noteq> []"
  shows "join ''/'' es \<noteq> ''..'' \<and> \<not> has_prefix (join ''/'' es) ''../''"
proof -
  have split: "split_on slash (join ''/'' es) = es"
    using assms by (intro split_on_join) (auto simp: list_all_iff name_elem_def)
  have "hd (split_on slash s) = ''..''" if "s = ''..'' \<or> has_prefix s ''../''" for s
  proof -
    have "s = ''..'' \<or> (\<exists>r. s = ''..'' @ slash # r)" using that by (auto simp: has_prefix_iff prefix_def)
    then show ?thesis using split_on_append [of slash "''..''"] split_on_none [of slash "''..''"] by auto
  qed
  moreover have "hd es \<noteq> ''..''" using assms by (cases es) (auto simp: name_elem_def)
  ultimately show ?thesis using split by metis
qed

lemma join_climbs: "join ''/'' (''..'' # es) = ''..'' \<or> has_prefix (join ''/'' (''..'' # es)) ''../''"
  by (cases es) (auto simp: has_prefix_iff prefix_def)

lemma withinRoot_elements:
  assumes "IsAbs path" "Clean path = path" "Clean root = root"
  shows "withinRoot path root \<longleftrightarrow> IsAbs root \<and> prefix (elements root) (elements path)"
proof (cases "path = root")
  case True
  then show ?thesis using assms by (simp add: withinRoot_def)
next
  case False
  then have neq: "Clean path \<noteq> Clean root" using assms by simp
  obtain bs ts where d: "drop_common (elements root) (elements path) = (bs, ts)" by fastforce
  obtain c where c: "elements root = c @ bs" "elements path = c @ ts" using drop_common_split [OF d] by blast
  show ?thesis
  proof (cases "IsAbs root")
    case False
    then show ?thesis using neq assms(1) \<open>path \<noteq> root\<close> by (simp add: withinRoot_def Rel_def)
  next
    case True
    have names: "list_all name_elem bs" "list_all name_elem ts"
      using IsAbs_names [OF True] IsAbs_names [OF assms(1)] c by simp_all
    then have head: "\<not> (bs \<noteq> [] \<and> hd bs = ''..'')" by (cases bs) (auto simp: name_elem_def)
    have rel: "Rel root path = Some (join ''/'' (map (\<lambda>_. ''..'') bs @ ts))"
      using neq True assms(1) d head by (simp add: Rel_def)
    show ?thesis
    proof (cases bs)
      case Nil
      then have "ts \<noteq> []" using neq c True assms(1) by (auto simp: Clean_eq_iff)
      then show ?thesis using False rel Nil True join_descends [OF names(2)] prefix_drop_common [OF d]
        by (simp add: withinRoot_def)
    next
      case (Cons b bs')
      then show ?thesis using False rel True join_climbs [of "map (\<lambda>_. ''..'') bs' @ ts"] prefix_drop_common [OF d]
        by (simp add: withinRoot_def)
    qed
  qed
qed

section \<open>Where a path leads\<close>

text \<open>
  A location is free of links when every proper prefix of it is a directory and it is not a
  link itself. The walk ends at such a location, and resolving one is the identity.
\<close>

definition is_dir :: "file_system \<Rightarrow> string list \<Rightarrow> bool" where
  "is_dir fs es \<longleftrightarrow> (case lstat fs es of Some (DirNode _) \<Rightarrow> True | _ \<Rightarrow> False)"

definition real_dir :: "file_system \<Rightarrow> string list \<Rightarrow> bool" where
  "real_dir fs es \<longleftrightarrow> list_all name_elem es \<and> (\<forall>ds. prefix ds es \<longrightarrow> is_dir fs ds)"

definition real_path :: "file_system \<Rightarrow> string list \<Rightarrow> bool" where
  "real_path fs es \<longleftrightarrow>
     real_dir fs es \<or> (\<exists>ds e s t. es = ds @ [e] \<and> real_dir fs ds \<and> name_elem e \<and> lstat fs es = Some (FileNode s t))"

lemma real_dir_Nil [simp]: "real_dir fs []"
  by (simp add: real_dir_def is_dir_def lstat_def)

lemma real_dir_butlast: "real_dir fs es \<Longrightarrow> real_dir fs (butlast es)"
  by (auto simp: real_dir_def list_all_iff dest: in_set_butlastD) (meson prefix_order.trans prefixeq_butlast)

lemma real_dir_snoc: "real_dir fs ds \<Longrightarrow> name_elem e \<Longrightarrow> lstat fs (ds @ [e]) = Some (DirNode t) \<Longrightarrow> real_dir fs (ds @ [e])"
  by (auto simp: real_dir_def is_dir_def prefix_snoc)

lemma walk_real:
  assumes "walk fs n dest es = Some r" "real_dir fs dest" "\<forall>e\<in>set es. slash \<notin> set e"
  shows "real_path fs r"
  using assms
proof (induction fs n dest es rule: walk.induct)
  case (1 fs n dest)
  then show ?case by (simp add: real_path_def)
next
  case (2 fs n dest e es)
  consider "e = '''' \<or> e = ''.''" | "e = ''..''" | "name_elem e" using "2.prems"(3) by (auto simp: name_elem_def)
  then show ?case
  proof cases
    case 1
    then show ?thesis using 2 by auto
  next
    case 2
    then show ?thesis using "2.IH"(2) "2.prems" by (auto simp: real_dir_butlast)
  next
    case 3
    then have e: "e \<noteq> ''''" "e \<noteq> ''.''" "e \<noteq> ''..''" by (auto simp: name_elem_def)
    show ?thesis
    proof (cases "lstat fs (dest @ [e])")
      case (Some nd)
      then show ?thesis
      proof (cases nd)
        case (DirNode t)
        then show ?thesis using "2.IH"(3) "2.prems" e Some 3 real_dir_snoc by fastforce
      next
        case (FileNode s t)
        then have "r = dest @ [e]" using "2.prems"(1) e Some by (simp split: if_splits)
        then show ?thesis using 3 "2.prems"(2) Some FileNode unfolding real_path_def by blast
      next
        case (LinkNode target t)
        then have "n \<noteq> 0" "walk fs (n - 1) (if IsAbs target then [] else dest) (split_on slash target @ es) = Some r"
          using "2.prems"(1) e Some by (auto split: if_splits)
        moreover have "\<forall>e\<in>set (split_on slash target @ es). slash \<notin> set e"
          using "2.prems"(3) by (auto dest: split_on_no_sep)
        ultimately show ?thesis using "2.IH"(4) [OF _ _ Some] LinkNode "2.prems"(2) e by auto
      qed
    qed (use "2.prems"(1) e in simp)
  qed
qed

lemma walk_mono: "walk fs n dest es = Some r \<Longrightarrow> n \<le> m \<Longrightarrow> walk fs m dest es = Some r"
proof (induction fs n dest es arbitrary: m rule: walk.induct)
  case (2 fs n dest e es)
  show ?case
  proof (cases "e = '''' \<or> e = ''.'' \<or> e = ''..''")
    case True
    show ?thesis
    proof (cases "e = ''..''")
      case True
      have "walk fs n (butlast dest) es = Some r" using "2.prems"(1) True by simp
      then have "walk fs m (butlast dest) es = Some r" using "2.IH"(2) True "2.prems"(2) by simp
      then show ?thesis using True by simp
    next
      case False
      with \<open>e = '''' \<or> e = ''.'' \<or> e = ''..''\<close> have skip: "e = '''' \<or> e = ''.''" by simp
      have "walk fs n dest es = Some r" using "2.prems"(1) skip by (simp only: walk.simps if_True)
      then have "walk fs m dest es = Some r" by (rule "2.IH"(1) [OF skip _ "2.prems"(2)])
      then show ?thesis using skip by (simp only: walk.simps if_True)
    qed
  next
    case False
    then obtain nd where nd: "lstat fs (dest @ [e]) = Some nd" using "2.prems"(1) by (cases "lstat fs (dest @ [e])") auto
    show ?thesis
    proof (cases nd)
      case (DirNode t)
      then have eq: "walk fs k dest (e # es) = walk fs k (dest @ [e]) es" for k using False nd by simp
      then have "walk fs n (dest @ [e]) es = Some r" using "2.prems"(1) by simp
      then have "walk fs m (dest @ [e]) es = Some r"
        by (intro "2.IH"(3) [OF _ _ nd DirNode _ "2.prems"(2)]) (use False in simp_all)
      then show ?thesis unfolding eq .
    next
      case (FileNode s t)
      then show ?thesis using "2.prems" False nd by simp
    next
      case (LinkNode target t)
      let ?d = "if IsAbs target then [] else dest"
      have eq: "walk fs k dest (e # es) = (if k = 0 then None else walk fs (k - 1) ?d (split_on slash target @ es))" for k
        using False nd LinkNode by simp
      then have n: "n \<noteq> 0" using "2.prems"(1) by (cases "n = 0") simp_all
      then have prev: "walk fs (n - 1) ?d (split_on slash target @ es) = Some r" using "2.prems"(1) eq by simp
      have "walk fs (m - 1) ?d (split_on slash target @ es) = Some r"
        by (rule "2.IH"(4) [OF _ _ nd LinkNode n prev]) (use False "2.prems"(2) in simp_all)
      then show ?thesis unfolding eq using n "2.prems"(2) by simp
    qed
  qed
qed simp

lemma walk_dirs:
  assumes "real_dir fs (dest @ es)"
  shows "walk fs n dest (es @ rest) = walk fs n (dest @ es) rest"
  using assms
proof (induction es arbitrary: dest)
  case (Cons e es)
  have "name_elem e" "is_dir fs (dest @ [e])" using Cons.prems by (auto simp: real_dir_def)
  moreover have "walk fs n (dest @ [e]) (es @ rest) = walk fs n (dest @ e # es) rest"
    using Cons.IH [of "dest @ [e]"] Cons.prems by simp
  ultimately show ?case by (auto simp: name_elem_def is_dir_def split: option.splits node.splits)
qed simp

lemma walk_real_path:
  assumes "real_path fs es"
  shows "walk fs n [] es = Some es"
  using assms unfolding real_path_def
proof
  assume "real_dir fs es"
  then show ?thesis using walk_dirs [of fs "[]" es n "[]"] by simp
next
  assume "\<exists>ds e s t. es = ds @ [e] \<and> real_dir fs ds \<and> name_elem e \<and> lstat fs es = Some (FileNode s t)"
  then obtain ds e s t where "es = ds @ [e]" "real_dir fs ds" "name_elem e" "lstat fs es = Some (FileNode s t)" by blast
  then show ?thesis using walk_dirs [of fs "[]" ds n "[e]"] by (simp add: name_elem_def)
qed

lemma walk_rooted:
  assumes "list_all name_elem es"
  shows "walk fs n [] (split_on slash (render True es)) = walk fs n [] es"
proof (cases "es = []")
  case True
  then show ?thesis by (simp add: render_def)
next
  case False
  have "split_on slash (join ''/'' es) = es"
    using False assms by (intro split_on_join) (auto simp: list_all_iff name_elem_def)
  then show ?thesis using split_on_append [of slash "[]" "join ''/'' es"] by (simp add: render_def)
qed

lemma walk_Clean: "IsAbs p \<Longrightarrow> walk fs n [] (split_on slash (Clean p)) = walk fs n [] (elements p)"
  using walk_rooted [OF IsAbs_names] by (simp add: Clean_def)

lemma real_path_names: "real_path fs es \<Longrightarrow> list_all name_elem es"
  by (auto simp: real_path_def real_dir_def)

lemma walk_elements_real: "IsAbs p \<Longrightarrow> walk fs n [] (elements p) = Some es \<Longrightarrow> real_path fs es"
  using IsAbs_names by (intro walk_real [of fs n "[]"]) (auto simp: list_all_iff name_elem_def)

text \<open>The location a request is judged by: where the path leads, or its text when it leads nowhere.\<close>

definition location :: "file_system \<Rightarrow> string \<Rightarrow> string list" where
  "location fs p = (case walk fs 255 [] (elements p) of Some es \<Rightarrow> es | None \<Rightarrow> elements p)"

lemma location_names: "IsAbs p \<Longrightarrow> list_all name_elem (location fs p)"
  using real_path_names [OF walk_elements_real [of p fs 255]]
  by (simp add: location_def IsAbs_names split: option.split)

lemma candidate_location:
  "IsAbs p \<Longrightarrow> (case EvalSymlinks fs (Clean p) of Some resolved \<Rightarrow> resolved | None \<Rightarrow> Clean p) = render True (location fs p)"
  unfolding EvalSymlinks_def walk_Clean location_def by (simp add: Clean_def split: option.split)

lemma Clean_render: "clean_list rooted es \<Longrightarrow> Clean (render rooted es) = render rooted es"
  by (simp add: Clean_def IsAbs_render)

lemma Guard_Check_accepts:
  assumes "\<forall>r\<in>set allowed. Clean r = r"
  shows "Guard_Check fs allowed p = None \<longleftrightarrow>
     IsAbs (trim_space p) \<and> (\<exists>r\<in>set allowed. IsAbs r \<and> prefix (elements r) (location fs (trim_space p)))"
proof (cases "IsAbs (trim_space p)")
  case True
  let ?c = "render True (location fs (trim_space p))"
  have names: "clean_list True (location fs (trim_space p))" using location_names [OF True] by simp
  then have "withinRoot ?c r \<longleftrightarrow> IsAbs r \<and> prefix (elements r) (location fs (trim_space p))" if "r \<in> set allowed" for r
    using withinRoot_elements [of ?c r] that assms by (simp add: Clean_render IsAbs_render)
  moreover have "trim_space p \<noteq> ''''" using True by (auto simp: IsAbs_def has_prefix_iff)
  ultimately show ?thesis using True by (auto simp: Guard_Check_def Let_def candidate_location list_ex_iff)
next
  case False
  then show ?thesis by (simp add: Guard_Check_def Let_def)
qed

lemma NewPathGuard_clean: "\<forall>r\<in>set (NewPathGuard roots). Clean r = r"
  by (auto simp: NewPathGuard_def)

section \<open>Properties\<close>



end
