(* ===== verification/Browse.thy ===== *)
theory Browse
  imports Paths
begin

text \<open>
  The directory browser, internal/service/browse.go, over the path whitelist. A listing
  shows where it is, what is above it as far as the whitelist allows, and one row per entry.
\<close>

datatype browse_error = PathRefused path_error | ReadFailed string | ErrNotADirectory string

definition maxBrowseEntries :: nat where "maxBrowseEntries = 2000"

record dir_entry =
  deName :: string
  dePath :: string
  deIsDir :: bool
  deSize :: nat
  deModTime :: time
  deSymlink :: bool

record listing =
  lsPath :: string
  lsParent :: string
  lsEntries :: "dir_entry list"
  lsTruncated :: bool
  lsDockerfiles :: "string list"
  lsAllowedRoots :: "string list"

section \<open>Listing a directory\<close>

text \<open>\<open>os.ReadDir\<close>: the names in a directory, sorted, with what \<open>Lstat\<close> says of them.\<close>

definition ReadDir :: "file_system \<Rightarrow> string list \<Rightarrow> (string \<times> node) list" where
  "ReadDir fs es =
     map (\<lambda>n. (n, the (lstat fs (es @ [n]))))
       (sort (remdups (map (\<lambda>(p, _). last p) (filter (\<lambda>(p, _). p \<noteq> [] \<and> butlast p = es) fs))))"

definition looksLikeDockerfile :: "string \<Rightarrow> bool" where
  "looksLikeDockerfile name =
     (let lower = to_lower name in
      lower = ''dockerfile'' \<or> has_prefix lower ''dockerfile.'' \<or> has_prefix (rev lower) (rev ''.dockerfile''))"

fun node_time :: "node \<Rightarrow> time" where
  "node_time (DirNode t) = t"
| "node_time (FileNode _ t) = t"
| "node_time (LinkNode _ t) = t"

fun node_size :: "node \<Rightarrow> nat" where
  "node_size (DirNode _) = 0"
| "node_size (FileNode s _) = s"
| "node_size (LinkNode target _) = length target"

fun node_is_dir :: "node \<Rightarrow> bool" where
  "node_is_dir (DirNode _) \<longleftrightarrow> True"
| "node_is_dir _ \<longleftrightarrow> False"

fun node_is_link :: "node \<Rightarrow> bool" where
  "node_is_link (LinkNode _ _) \<longleftrightarrow> True"
| "node_is_link _ \<longleftrightarrow> False"

definition entry_row :: "file_system \<Rightarrow> string \<Rightarrow> string \<times> node \<Rightarrow> dir_entry" where
  "entry_row fs clean e =
     (case e of (name, nd) \<Rightarrow>
        let path = Join clean name;
            isdir = (if node_is_link nd
                     then (case os_Stat fs path of Some target \<Rightarrow> node_is_dir target | None \<Rightarrow> node_is_dir nd)
                     else node_is_dir nd)
        in \<lparr>deName = name, dePath = path, deIsDir = isdir, deSize = node_size nd, deModTime = node_time nd,
            deSymlink = node_is_link nd\<rparr>)"

definition rootListing :: "file_system \<Rightarrow> string list \<Rightarrow> listing" where
  "rootListing fs roots =
     \<lparr>lsPath = '''', lsParent = '''',
      lsEntries = map (\<lambda>root. \<lparr>deName = root, dePath = root, deIsDir = True, deSize = 0,
         deModTime = (case os_Stat fs root of Some nd \<Rightarrow> node_time nd | None \<Rightarrow> 0), deSymlink = False\<rparr>) roots,
      lsTruncated = False, lsDockerfiles = [], lsAllowedRoots = roots\<rparr>"

definition parentOf :: "file_system \<Rightarrow> string list \<Rightarrow> string \<Rightarrow> string" where
  "parentOf fs allowed path =
     (if path \<in> set allowed then ''''
      else let parent = Dir path in
        if parent = path then ''''
        else case Guard_Check fs allowed parent of Some _ \<Rightarrow> '''' | None \<Rightarrow> parent)"

definition dir_listing :: "file_system \<Rightarrow> string list \<Rightarrow> string \<Rightarrow> listing" where
  "dir_listing fs roots clean =
     (let entries = ReadDir fs (elements clean);
          rows = map (entry_row fs clean) (take maxBrowseEntries entries)
      in \<lparr>lsPath = clean, lsParent = parentOf fs roots clean,
          lsEntries = sort_key (\<lambda>r. (\<not> deIsDir r, deName r)) rows,
          lsTruncated = (maxBrowseEntries < length entries),
          lsDockerfiles = sort (map deName (filter (\<lambda>r. \<not> deIsDir r \<and> looksLikeDockerfile (deName r)) rows)),
          lsAllowedRoots = roots\<rparr>)"

definition Browse :: "file_system \<Rightarrow> string list \<Rightarrow> string \<Rightarrow> browse_error + listing" where
  "Browse fs roots path =
     (if trim_space path = '''' then Inr (rootListing fs roots)
      else case Guard_Check fs roots path of
        Some e \<Rightarrow> Inl (PathRefused e)
      | None \<Rightarrow>
          let clean = (case EvalSymlinks fs (Clean (trim_space path)) of Some resolved \<Rightarrow> resolved
                       | None \<Rightarrow> Clean (trim_space path))
          in case os_Stat fs clean of
               None \<Rightarrow> Inl (ReadFailed path)
             | Some nd \<Rightarrow>
                 if \<not> node_is_dir nd then Inl (ErrNotADirectory path)
                 else Inr (dir_listing fs roots clean))"

section \<open>Confinement\<close>

lemma Browse_real_dir:
  assumes "IsAbs q" "os_Stat fs (render True (location fs q)) = Some nd" "node_is_dir nd"
  shows "real_dir fs (location fs q)"
proof -
  have names: "list_all name_elem (location fs q)" using assms(1) by (rule location_names)
  obtain es where es: "walk fs 40 [] (location fs q) = Some es" "lstat fs es = Some nd"
    using assms(2) walk_rooted [OF names] by (auto simp: os_Stat_def split: option.splits)
  have "real_path fs (location fs q)"
  proof (cases "walk fs 255 [] (elements q)")
    case None
    then have "location fs q = elements q" by (simp add: location_def)
    then show ?thesis using walk_mono [OF es(1), of 255] None by simp
  next
    case (Some rs)
    then show ?thesis using walk_elements_real [OF assms(1)] by (simp add: location_def)
  qed
  moreover from this have "es = location fs q" using es(1) walk_real_path by simp
  ultimately show ?thesis using es(2) assms(3) unfolding real_path_def by auto
qed

lemma rows_of_listing:
  "r \<in> set (lsEntries (dir_listing fs roots clean)) \<Longrightarrow> dePath r = Join clean (deName r)"
  by (auto simp: dir_listing_def entry_row_def Let_def dest: in_set_takeD split: prod.splits)

lemma parentOf_accepted: "parentOf fs roots p = '''' \<or> Guard_Check fs roots (parentOf fs roots p) = None"
  by (auto simp: parentOf_def Let_def split: option.split)

section \<open>Properties\<close>


definition sample_fs :: file_system where
  "sample_fs = [([''srv''], DirNode 1), ([''srv'', ''app''], LinkNode ''../data/app'' 2), ([''data''], DirNode 3),
     ([''data'', ''app''], DirNode 4), ([''data'', ''app'', ''Dockerfile''], FileNode 120 5)]"

lemma sample_browse:
  "Browse sample_fs (NewPathGuard ['' /data/'']) ''/srv/app'' = Inr
     \<lparr>lsPath = ''/data/app'', lsParent = ''/data'',
      lsEntries = [\<lparr>deName = ''Dockerfile'', dePath = ''/data/app/Dockerfile'', deIsDir = False, deSize = 120,
                     deModTime = 5, deSymlink = False\<rparr>],
      lsTruncated = False, lsDockerfiles = [''Dockerfile''], lsAllowedRoots = [''/data'']\<rparr>"
  by code_simp


end
