(* ===== verification/Spec_Types.thy ===== *)
theory Spec_Types
  imports Runes Floats
begin

text \<open>
  The definition of a container as an operator writes it, the types of internal/docker/spec.go,
  and the engine's own structures it is turned into (the Docker SDK's Config, HostConfig and
  NetworkingConfig, of which only the fields the code sets are kept). A Go map is an
  association list without repeated keys; a nil pointer is \<open>None\<close>; \<open>float64\<close> is a rational that
  is rounded after each operation. Also what the code uses of package strings on letters
  outside ASCII, and \<open>time.ParseDuration\<close>.
\<close>

section \<open>Case and text outside ASCII\<close>

text \<open>
  \<open>strings.ToLower(s) == t\<close> and \<open>strings.EqualFold(s, t)\<close> for an ASCII text \<open>t\<close> without upper
  case letters. Two letters outside ASCII have an ASCII lower case, U+0130 and U+212A; two
  fold to an ASCII letter, U+017F and U+212A. Every other rune outside ASCII is equal to no
  ASCII letter under either.
\<close>

definition runes :: "string \<Rightarrow> rune list" where
  "runes s = map snd (range_string s)"

definition lower_rune :: "rune \<Rightarrow> rune" where
  "lower_rune r = (if 65 \<le> r \<and> r \<le> 90 then r + 32 else if r = 0x130 then 0x69 else if r = 0x212A then 0x6B else r)"

definition fold_rune :: "rune \<Rightarrow> rune" where
  "fold_rune r = (if 65 \<le> r \<and> r \<le> 90 then r + 32 else if r = 0x17F then 0x73 else if r = 0x212A then 0x6B else r)"

definition lower_is :: "string \<Rightarrow> string \<Rightarrow> bool" where
  "lower_is s t \<longleftrightarrow> map lower_rune (runes s) = map of_char t"

definition fold_is :: "string \<Rightarrow> string \<Rightarrow> bool" where
  "fold_is s t \<longleftrightarrow> map fold_rune (runes s) = map of_char t"

section \<open>Durations\<close>

definition unit_nanos :: "string \<Rightarrow> nat option" where
  "unit_nanos u =
     (if u = ''ns'' then Some 1
      else if u = ''us'' \<or> u = [CHR 0xC2, CHR 0xB5, CHR ''s''] \<or> u = [CHR 0xCE, CHR 0xBC, CHR ''s''] then Some 1000
      else if u = ''ms'' then Some 1000000
      else if u = ''s'' then Some 1000000000
      else if u = ''m'' then Some 60000000000
      else if u = ''h'' then Some 3600000000000
      else None)"

text \<open>
  \<open>leadingInt\<close> fails when the number exceeds \<open>2^63\<close>; \<open>leadingFraction\<close> keeps the digits
  that fit and drops the rest.
\<close>

definition leadingInt :: "string \<Rightarrow> (nat \<times> string) option" where
  "leadingInt s =
     (let ds = takeWhile is_digit s; v = digits_val ds
      in if 2 ^ 63 < v then None else Some (v, dropWhile is_digit s))"

fun leadingFraction :: "string \<Rightarrow> nat \<Rightarrow> nat \<Rightarrow> bool \<Rightarrow> nat \<times> nat \<times> string" where
  "leadingFraction [] x k overflow = (x, k, [])"
| "leadingFraction (c # s) x k overflow =
     (if \<not> is_digit c then (x, k, c # s)
      else if overflow then leadingFraction s x k True
      else if (2 ^ 63 - 1) div 10 < x then leadingFraction s x k True
      else let y = x * 10 + digit_val c in
        if 2 ^ 63 < y then leadingFraction s x k True
        else leadingFraction s y (k + 1) False)"

definition duration_term :: "string \<Rightarrow> (nat \<times> string) option" where
  "duration_term s =
     (case s of
        [] \<Rightarrow> None
      | c # _ \<Rightarrow>
          if \<not> (c = CHR ''.'' \<or> is_digit c) then None
          else case leadingInt s of
            None \<Rightarrow> None
          | Some (v, s1) \<Rightarrow>
              let pre = (length s1 < length s);
                  dot = (s1 \<noteq> [] \<and> hd s1 = CHR ''.'');
                  (f, k, s2) = (if dot then leadingFraction (tl s1) 0 0 False else (0, 0, s1));
                  post = (dot \<and> length s2 < length (tl s1));
                  u = takeWhile (\<lambda>c. \<not> (c = CHR ''.'' \<or> is_digit c)) s2;
                  rest = dropWhile (\<lambda>c. \<not> (c = CHR ''.'' \<or> is_digit c)) s2
              in if \<not> pre \<and> \<not> post then None
                 else if u = [] then None
                 else case unit_nanos u of
                   None \<Rightarrow> None
                 | Some un \<Rightarrow>
                     if 2 ^ 63 div un < v then None
                     else let w = v * un
                                + (if 0 < f then nat \<lfloor>fl (fl (of_nat f) * fl (of_nat un / 10 ^ k))\<rfloor> else 0)
                          in if 2 ^ 63 < w then None else Some (w, rest))"

lemma leadingFraction_rest: "leadingFraction s x k ov = (y, j, rest) \<Longrightarrow> length rest \<le> length s"
  by (induction s x k ov arbitrary: y j rest rule: leadingFraction.induct)
    (fastforce simp: Let_def split: if_splits)+

lemma dropWhile_shorter: "takeWhile p s \<noteq> [] \<Longrightarrow> length (dropWhile p s) < length s"
  by (cases s) (auto simp: less_Suc_eq_le length_dropWhile_le split: if_splits)

lemma duration_term_shorter:
  assumes "duration_term s = Some (v, rest)"
  shows "length rest < length s"
proof -
  let ?p = "\<lambda>c. \<not> (c = CHR ''.'' \<or> is_digit c)"
  obtain w s1 where s1: "leadingInt s = Some (w, s1)"
    using assms by (auto simp: duration_term_def split: list.splits if_splits option.splits)
  obtain f k s2 where s2: "(if s1 \<noteq> [] \<and> hd s1 = CHR ''.'' then leadingFraction (tl s1) 0 0 False else (0, 0, s1)) = (f, k, s2)"
    by (metis prod_cases3)
  have "takeWhile ?p s2 \<noteq> []" "rest = dropWhile ?p s2"
    using assms s1 s2 by (auto simp: duration_term_def Let_def split: list.splits if_splits option.splits)
  then have "length rest < length s2" using dropWhile_shorter [of ?p s2] by simp
  also have "length s2 \<le> length s1"
    using s2 leadingFraction_rest [of "tl s1" 0 0 False f k s2] by (auto split: if_splits)
  also have "length s1 \<le> length s" using s1 by (auto simp: leadingInt_def Let_def length_dropWhile_le split: if_splits)
  finally show ?thesis .
qed

function duration_terms :: "string \<Rightarrow> nat \<Rightarrow> nat option" where
  "duration_terms s d =
     (if s = [] then Some d
      else case duration_term s of
        None \<Rightarrow> None
      | Some (v, rest) \<Rightarrow> if 2 ^ 63 < d + v then None else duration_terms rest (d + v))"
  by pat_completeness auto
termination
  by (relation "measure (\<lambda>(s, d). length s)") (auto dest: duration_term_shorter)

definition ParseDuration :: "string \<Rightarrow> duration option" where
  "ParseDuration s0 =
     (let neg = (s0 \<noteq> [] \<and> hd s0 = CHR ''-'');
          s = (if s0 \<noteq> [] \<and> (hd s0 = CHR ''-'' \<or> hd s0 = CHR ''+'') then tl s0 else s0)
      in if s = ''0'' then Some 0
         else if s = [] then None
         else case duration_terms s 0 of
           None \<Rightarrow> None
         | Some d \<Rightarrow> if neg then Some (- int d) else if 2 ^ 63 - 1 < d then None else Some (int d))"

section \<open>The operator's definition\<close>

type_synonym str_map = "(string \<times> string) list"

record env_var = evKey :: string evValue :: string

record port_mapping =
  pmHostIP :: string
  pmHostPort :: string
  pmContainerPort :: int
  pmProtocol :: string

record mount_spec =
  msType :: string
  msSource :: string
  msDestination :: string
  msReadOnly :: bool
  msTmpfsSize :: int
  msBindPropagation :: string
  msCreateHostPath :: bool

record restart_policy = rpName :: string rpMaxRetries :: int

record resources =
  rsCPUs :: rat
  rsCPUShares :: int
  rsCPUSetCPUs :: string
  rsMemory :: int
  rsMemoryReservation :: int
  rsMemorySwap :: int
  rsPidsLimit :: int
  rsShmSize :: int

record network_spec =
  nsName :: string
  nsAliases :: "string list"
  nsIPv4Address :: string
  nsIPv6Address :: string
  nsExtraHosts :: "string list"
  nsDNS :: "string list"
  nsDNSSearch :: "string list"
  nsDNSOptions :: "string list"
  nsMacAddress :: string

record health_spec =
  hsTest :: "string list"
  hsInterval :: string
  hsTimeout :: string
  hsStartPeriod :: string
  hsRetries :: int
  hsDisable :: bool

record logging_spec = lgDriver :: string lgOptions :: str_map

record security_spec =
  scPrivileged :: bool
  scCapAdd :: "string list"
  scCapDrop :: "string list"
  scSecurityOpt :: "string list"
  scDevices :: "string list"
  scReadOnlyRootFS :: bool
  scSysctls :: str_map

record container_spec =
  csName :: string
  csImage :: string
  csPullPolicy :: string
  csCommand :: "string list"
  csEntrypoint :: "string list"
  csWorkingDir :: string
  csUser :: string
  csHostname :: string
  csDomainName :: string
  csTTY :: bool
  csOpenStdin :: bool
  csEnv :: "env_var list"
  csLabels :: str_map
  csPorts :: "port_mapping list"
  csMounts :: "mount_spec list"
  csRestartPolicy :: restart_policy
  csResources :: resources
  csNetwork :: network_spec
  csHealthCheck :: "health_spec option"
  csLogging :: logging_spec
  csSecurity :: security_spec
  csAutoRemove :: bool
  csInit :: bool
  csStart :: bool

definition MountTypeBind :: string where "MountTypeBind = ''bind''"
definition MountTypeVolume :: string where "MountTypeVolume = ''volume''"
definition MountTypeTmpfs :: string where "MountTypeTmpfs = ''tmpfs''"
definition PullMissing :: string where "PullMissing = ''missing''"
definition PullAlways :: string where "PullAlways = ''always''"
definition PullNever :: string where "PullNever = ''never''"

section \<open>The engine's definition\<close>

type_synonym port = "string \<times> nat"

record port_binding = pbHostIP :: string pbHostPort :: string

datatype mount_type = TypeBind | TypeVolume

record bind_options = boPropagation :: string boCreateMountpoint :: bool

record engine_mount =
  emType :: mount_type
  emSource :: string
  emTarget :: string
  emReadOnly :: bool
  emBindOptions :: "bind_options option"

record device_mapping =
  dmPathOnHost :: string
  dmPathInContainer :: string
  dmCgroupPermissions :: string

record health_config =
  hcTest :: "string list"
  hcInterval :: duration
  hcTimeout :: duration
  hcStartPeriod :: duration
  hcRetries :: int

record engine_resources =
  erCPUShares :: int
  erCpusetCpus :: string
  erMemory :: int
  erMemoryReservation :: int
  erMemorySwap :: int
  erNanoCPUs :: int
  erPidsLimit :: "int option"

record engine_config =
  ecImage :: string
  ecWorkingDir :: string
  ecUser :: string
  ecHostname :: string
  ecDomainname :: string
  ecTty :: bool
  ecOpenStdin :: bool
  ecLabels :: str_map
  ecEnv :: "string list"
  ecCmd :: "string list"
  ecEntrypoint :: "string list"
  ecHealthcheck :: "health_config option"
  ecExposedPorts :: "port list"

record host_config =
  hfPortBindings :: "(port \<times> port_binding list) list"
  hfMounts :: "engine_mount list"
  hfTmpfs :: str_map
  hfRestartPolicy :: restart_policy
  hfAutoRemove :: bool
  hfPrivileged :: bool
  hfReadonlyRootfs :: bool
  hfCapAdd :: "string list"
  hfCapDrop :: "string list"
  hfSecurityOpt :: "string list"
  hfSysctls :: str_map
  hfExtraHosts :: "string list"
  hfDNS :: "string list"
  hfDNSSearch :: "string list"
  hfDNSOptions :: "string list"
  hfResources :: engine_resources
  hfInit :: "bool option"
  hfLogConfig :: "(string \<times> str_map) option"
  hfDevices :: "device_mapping list"
  hfNetworkMode :: string

record endpoint_settings =
  epAliases :: "string list"
  epMacAddress :: string
  epIPAM :: "(string \<times> string) option"

record create_spec =
  crName :: string
  crConfig :: "engine_config option"
  crHostConfig :: "host_config option"
  crNetworking :: "(string \<times> endpoint_settings) option"

text \<open>A SpecError is kept with its field; the message is text for the operator.\<close>

datatype spec_error = SpecError (specField: string)

end
