(* ===== verification/Spec.thy ===== *)
theory Spec
  imports Spec_Types
begin

text \<open>
  internal/docker/spec.go: the conversion of an operator's container definition into the
  engine's, with the checks it makes on the way, and the list of host paths it would mount.
  \<open>nat.NewPort\<close> of the Docker SDK gives the port of a protocol and a number; it fails on no
  number between 1 and 65535, the only ones it is called with.
\<close>

type_synonym 'a checked = "spec_error + 'a"

definition okE :: "'a checked \<Rightarrow> ('a \<Rightarrow> 'b checked) \<Rightarrow> 'b checked" where
  "okE m f = (case m of Inl e \<Rightarrow> Inl e | Inr x \<Rightarrow> f x)"

lemma okE_Inr: "okE m f = Inr y \<longleftrightarrow> (\<exists>x. m = Inr x \<and> f x = Inr y)"
  by (cases m) (simp_all add: okE_def)

section \<open>Building the engine's definition\<close>

definition buildEnv :: "env_var list \<Rightarrow> string list" where
  "buildEnv vars =
     sort (map (\<lambda>v. trim_space (evKey v) @ ''='' @ evValue v) (filter (\<lambda>v. trim_space (evKey v) \<noteq> '''') vars))"

definition validatePortValue :: "string \<Rightarrow> unit checked" where
  "validatePortValue value =
     (case str_cut (CHR ''-'') value of
        (start, end_, isRange) \<Rightarrow>
          let bad = (\<lambda>part. if part = '''' then isRange
                            else case atoi part of None \<Rightarrow> True | Some n \<Rightarrow> n < 1 \<or> 65535 < n)
          in if bad start \<or> bad end_ then Inl (SpecError ''ports'') else Inr ())"

definition port_proto :: "port_mapping \<Rightarrow> string option" where
  "port_proto p =
     (let q = trim_space (pmProtocol p) in
      if q = '''' \<or> lower_is q ''tcp'' then Some ''tcp''
      else if lower_is q ''udp'' then Some ''udp''
      else if lower_is q ''sctp'' then Some ''sctp''
      else None)"

definition add_binding :: "port \<Rightarrow> port_binding \<Rightarrow> (port \<times> port_binding list) list \<Rightarrow> (port \<times> port_binding list) list" where
  "add_binding port b bs =
     (if port \<in> fst ` set bs then map (\<lambda>(p, l). (p, if p = port then l @ [b] else l)) bs else bs @ [(port, [b])])"

fun buildPorts_from :: "port_mapping list \<Rightarrow> port list \<Rightarrow> (port \<times> port_binding list) list
    \<Rightarrow> (port list \<times> (port \<times> port_binding list) list) checked" where
  "buildPorts_from [] exposed bindings = Inr (exposed, bindings)"
| "buildPorts_from (p # ps) exposed bindings =
     (if pmContainerPort p < 1 \<or> 65535 < pmContainerPort p then Inl (SpecError ''ports'')
      else case port_proto p of
        None \<Rightarrow> Inl (SpecError ''ports'')
      | Some proto \<Rightarrow>
          let port = (proto, nat (pmContainerPort p));
              exposed' = List.insert port exposed;
              hostPort = trim_space (pmHostPort p);
              hostIP = trim_space (pmHostIP p)
          in if hostPort = '''' \<and> hostIP = '''' then buildPorts_from ps exposed' bindings
             else okE (if hostPort \<noteq> '''' then validatePortValue hostPort else Inr ()) (\<lambda>_.
               buildPorts_from ps exposed' (add_binding port \<lparr>pbHostIP = hostIP, pbHostPort = hostPort\<rparr> bindings)))"

definition buildPorts :: "port_mapping list \<Rightarrow> (port list \<times> (port \<times> port_binding list) list) checked" where
  "buildPorts ports = buildPorts_from ports [] []"

text \<open>The options of a tmpfs mount, and one row of the mount table.\<close>

definition tmpfs_opts :: "mount_spec \<Rightarrow> string" where
  "tmpfs_opts m =
     (if msReadOnly m then ''ro'' else ''rw'') @ (if 0 < msTmpfsSize m then '',size='' @ itoa (msTmpfsSize m) else '''')"

definition bind_mount :: "mount_spec \<Rightarrow> string \<Rightarrow> string \<Rightarrow> engine_mount" where
  "bind_mount m source dest =
     \<lparr>emType = TypeBind, emSource = source, emTarget = dest, emReadOnly = msReadOnly m,
      emBindOptions =
        (if msBindPropagation m \<noteq> '''' \<or> msCreateHostPath m
         then Some \<lparr>boPropagation = msBindPropagation m, boCreateMountpoint = msCreateHostPath m\<rparr> else None)\<rparr>"

definition map_set :: "string \<Rightarrow> string \<Rightarrow> str_map \<Rightarrow> str_map" where
  "map_set k v m = filter (\<lambda>e. fst e \<noteq> k) m @ [(k, v)]"

fun buildMounts_from :: "mount_spec list \<Rightarrow> engine_mount list \<Rightarrow> str_map \<Rightarrow> (engine_mount list \<times> str_map) checked" where
  "buildMounts_from [] mounts tmpfs = Inr (mounts, tmpfs)"
| "buildMounts_from (m # ms) mounts tmpfs =
     (let dest = trim_space (msDestination m); kind = trim_space (msType m); source = trim_space (msSource m) in
      if dest = '''' then Inl (SpecError ''mounts'')
      else if \<not> has_prefix dest ''/'' then Inl (SpecError ''mounts'')
      else if lower_is kind MountTypeTmpfs then buildMounts_from ms mounts (map_set dest (tmpfs_opts m) tmpfs)
      else if lower_is kind MountTypeBind then
        (if source = '''' then Inl (SpecError ''mounts'')
         else if \<not> has_prefix source ''/'' then Inl (SpecError ''mounts'')
         else buildMounts_from ms (mounts @ [bind_mount m source dest]) tmpfs)
      else if lower_is kind MountTypeVolume \<or> kind = '''' then
        buildMounts_from ms
          (mounts @ [\<lparr>emType = TypeVolume, emSource = source, emTarget = dest, emReadOnly = msReadOnly m, emBindOptions = None\<rparr>])
          tmpfs
      else Inl (SpecError ''mounts''))"

definition buildMounts :: "mount_spec list \<Rightarrow> (engine_mount list \<times> str_map) checked" where
  "buildMounts specs = buildMounts_from specs [] []"

definition buildRestartPolicy :: "restart_policy \<Rightarrow> restart_policy checked" where
  "buildRestartPolicy policy =
     (let name = (if trim_space (rpName policy) = '''' then ''no'' else trim_space (rpName policy)) in
      if name \<in> {''no'', ''always'', ''unless-stopped''} then
        (if rpMaxRetries policy \<noteq> 0 then Inl (SpecError ''restart_policy'')
         else Inr \<lparr>rpName = name, rpMaxRetries = 0\<rparr>)
      else if name = ''on-failure'' then
        (if rpMaxRetries policy < 0 then Inl (SpecError ''restart_policy'')
         else Inr \<lparr>rpName = name, rpMaxRetries = rpMaxRetries policy\<rparr>)
      else Inl (SpecError ''restart_policy''))"

definition nanoCPUsPerCore :: rat where "nanoCPUsPerCore = 1000000000"

definition buildResources :: "resources \<Rightarrow> engine_resources" where
  "buildResources r =
     \<lparr>erCPUShares = rsCPUShares r, erCpusetCpus = rsCPUSetCPUs r, erMemory = rsMemory r,
      erMemoryReservation = rsMemoryReservation r, erMemorySwap = rsMemorySwap r,
      erNanoCPUs = (if 0 < rsCPUs r then \<lfloor>fl (rsCPUs r * nanoCPUsPerCore)\<rfloor> else 0),
      erPidsLimit = (if 0 < rsPidsLimit r then Some (rsPidsLimit r) else None)\<rparr>"

text \<open>
  \<open>strings.Trim(p, "rwm") != ""\<close> holds exactly when some character of \<open>p\<close> is none of the three.
\<close>

definition buildDevice :: "string \<Rightarrow> device_mapping checked" where
  "buildDevice entry =
     (let parts = split_on (CHR '':'') entry; host = hd parts in
      if 3 < length parts then Inl (SpecError ''devices'')
      else if \<not> has_prefix host ''/'' then Inl (SpecError ''devices'')
      else
        let inside = (if 1 < length parts \<and> parts ! 1 \<noteq> '''' then parts ! 1 else host)
        in if 2 < length parts \<and> parts ! 2 \<noteq> '''' then
             (if trim (\<lambda>c. c = CHR ''r'' \<or> c = CHR ''w'' \<or> c = CHR ''m'') (parts ! 2) \<noteq> '''' then Inl (SpecError ''devices'')
              else Inr \<lparr>dmPathOnHost = host, dmPathInContainer = inside, dmCgroupPermissions = parts ! 2\<rparr>)
           else Inr \<lparr>dmPathOnHost = host, dmPathInContainer = inside, dmCgroupPermissions = ''rwm''\<rparr>)"

fun buildDevices :: "string list \<Rightarrow> device_mapping list checked" where
  "buildDevices [] = Inr []"
| "buildDevices (raw # rs) =
     (if trim_space raw = '''' then buildDevices rs
      else okE (buildDevice (trim_space raw)) (\<lambda>d. okE (buildDevices rs) (\<lambda>ds. Inr (d # ds))))"

definition parseSpecDuration :: "string \<Rightarrow> string \<Rightarrow> duration checked" where
  "parseSpecDuration field value =
     (let trimmed = trim_space value in
      if trimmed = '''' then Inr 0
      else case ParseDuration trimmed of
        None \<Rightarrow> Inl (SpecError field)
      | Some d \<Rightarrow> if d < 0 then Inl (SpecError field) else Inr d)"

definition health_test :: "string list \<Rightarrow> string list" where
  "health_test test =
     (if length test = 1 then [''CMD-SHELL'', hd test]
      else if hd test \<noteq> ''CMD'' \<and> hd test \<noteq> ''CMD-SHELL'' \<and> hd test \<noteq> ''NONE'' then ''CMD'' # test
      else test)"

definition buildHealthCheck :: "health_spec option \<Rightarrow> health_config option checked" where
  "buildHealthCheck spec =
     (case spec of
        None \<Rightarrow> Inr None
      | Some h \<Rightarrow>
          if hsDisable h
          then Inr (Some \<lparr>hcTest = [''NONE''], hcInterval = 0, hcTimeout = 0, hcStartPeriod = 0, hcRetries = 0\<rparr>)
          else if hsTest h = [] then Inl (SpecError ''health_check'')
          else
            okE (parseSpecDuration ''health_check.interval'' (hsInterval h)) (\<lambda>interval.
            okE (parseSpecDuration ''health_check.timeout'' (hsTimeout h)) (\<lambda>timeout.
            okE (parseSpecDuration ''health_check.start_period'' (hsStartPeriod h)) (\<lambda>startPeriod.
            if hsRetries h < 0 then Inl (SpecError ''health_check.retries'')
            else Inr (Some \<lparr>hcTest = health_test (hsTest h), hcInterval = interval, hcTimeout = timeout,
                    hcStartPeriod = startPeriod, hcRetries = hsRetries h\<rparr>)))))"

definition buildNetworking :: "network_spec \<Rightarrow> (string \<times> endpoint_settings) option" where
  "buildNetworking n =
     (let name = trim_space (nsName n) in
      if name = '''' then None
      else if nsAliases n = [] \<and> nsIPv4Address n = '''' \<and> nsIPv6Address n = '''' \<and> nsMacAddress n = '''' then None
      else Some (name, \<lparr>epAliases = nsAliases n, epMacAddress = nsMacAddress n,
             epIPAM = (if nsIPv4Address n \<noteq> '''' \<or> nsIPv6Address n \<noteq> ''''
                       then Some (nsIPv4Address n, nsIPv6Address n) else None)\<rparr>))"

definition BuildCreateSpec :: "container_spec \<Rightarrow> create_spec checked" where
  "BuildCreateSpec s =
     (if trim_space (csImage s) = '''' then Inl (SpecError ''image'')
      else
        okE (buildHealthCheck (csHealthCheck s)) (\<lambda>health.
        okE (buildPorts (csPorts s)) (\<lambda>(exposed, bindings).
        okE (buildMounts (csMounts s)) (\<lambda>(mounts, tmpfs).
        okE (buildRestartPolicy (csRestartPolicy s)) (\<lambda>restart.
        okE (buildDevices (scDevices (csSecurity s))) (\<lambda>devices.
        Inr \<lparr>crName = trim_space (csName s),
             crConfig = Some \<lparr>ecImage = trim_space (csImage s), ecWorkingDir = csWorkingDir s, ecUser = csUser s,
               ecHostname = csHostname s, ecDomainname = csDomainName s, ecTty = csTTY s, ecOpenStdin = csOpenStdin s,
               ecLabels = csLabels s, ecEnv = buildEnv (csEnv s), ecCmd = csCommand s, ecEntrypoint = csEntrypoint s,
               ecHealthcheck = health, ecExposedPorts = exposed\<rparr>,
             crHostConfig = Some \<lparr>hfPortBindings = bindings, hfMounts = mounts, hfTmpfs = tmpfs, hfRestartPolicy = restart,
               hfAutoRemove = csAutoRemove s, hfPrivileged = scPrivileged (csSecurity s),
               hfReadonlyRootfs = scReadOnlyRootFS (csSecurity s), hfCapAdd = scCapAdd (csSecurity s),
               hfCapDrop = scCapDrop (csSecurity s), hfSecurityOpt = scSecurityOpt (csSecurity s),
               hfSysctls = scSysctls (csSecurity s), hfExtraHosts = nsExtraHosts (csNetwork s), hfDNS = nsDNS (csNetwork s),
               hfDNSSearch = nsDNSSearch (csNetwork s), hfDNSOptions = nsDNSOptions (csNetwork s),
               hfResources = buildResources (csResources s), hfInit = (if csInit s then Some True else None),
               hfLogConfig = (if lgDriver (csLogging s) \<noteq> '''' then Some (lgDriver (csLogging s), lgOptions (csLogging s)) else None),
               hfDevices = devices, hfNetworkMode = trim_space (nsName (csNetwork s))\<rparr>,
             crNetworking = buildNetworking (csNetwork s)\<rparr>))))))"

definition BindSources :: "container_spec \<Rightarrow> string list" where
  "BindSources s =
     map (\<lambda>m. trim_space (msSource m))
       (filter (\<lambda>m. fold_is (trim_space (msType m)) MountTypeBind \<and> trim_space (msSource m) \<noteq> '''') (csMounts s))"

end
