(* ===== verification/Engine.thy ===== *)
theory Engine
  imports Spec
begin

text \<open>
  The interface to the Docker engine: the types of internal/docker/types.go, the errors of
  errors.go and the operations of \<open>docker.Client\<close>, without the raw inspect payloads, the
  engine-wide reports and the log, stats, exec, event and build streams. The engine itself is
  not part of the repository; a client is a record of functions on a state that the model
  leaves open. A pull hands back two channels: what they deliver is the call's result.
\<close>

section \<open>Errors\<close>

datatype kind = KindUnknown | KindNotFound | KindConflict | KindInvalid | KindPermission | KindUnavailable | KindCanceled

record docker_error =
  deKind :: kind
  deOp :: string
  deResource :: string
  deID :: string
  deMessage :: string

definition NewError :: "kind \<Rightarrow> string \<Rightarrow> string \<Rightarrow> string \<Rightarrow> string \<Rightarrow> docker_error" where
  "NewError k op res i msg = \<lparr>deKind = k, deOp = op, deResource = res, deID = i, deMessage = msg\<rparr>"

definition Error_text :: "docker_error \<Rightarrow> string" where
  "Error_text e = deOp e @ (if deID e \<noteq> [] then '' '' @ deID e else []) @ '': '' @ deMessage e"

definition IsNotFound :: "docker_error \<Rightarrow> bool" where
  "IsNotFound e \<longleftrightarrow> deKind e = KindNotFound"

definition IsConflict :: "docker_error \<Rightarrow> bool" where
  "IsConflict e \<longleftrightarrow> deKind e = KindConflict"

section \<open>What the engine reports\<close>

record port_info =
  piIP :: string
  piPrivatePort :: nat
  piPublicPort :: nat
  piType :: string

record container =
  ctID :: string
  ctName :: string
  ctNames :: "string list"
  ctImage :: string
  ctImageID :: string
  ctCommand :: string
  ctCreated :: time
  ctState :: string
  ctStatus :: string
  ctHealth :: string
  ctPorts :: "port_info list"
  ctLabels :: str_map
  ctNetworks :: "string list"
  ctMounts :: "string list"
  ctSizeRW :: int
  ctSizeRootFS :: int

record ipam_config =
  ipSubnet :: string
  ipGateway :: string
  ipRange :: string
  ipAuxAddress :: string

record network =
  nwID :: string
  nwName :: string
  nwDriver :: string
  nwScope :: string
  nwCreated :: time
  nwInternal :: bool
  nwAttachable :: bool
  nwIngress :: bool
  nwEnableIPv6 :: bool
  nwIPAM :: "ipam_config list"
  nwLabels :: str_map
  nwContainerCount :: int

record volume =
  vlName :: string
  vlDriver :: string
  vlMountpoint :: string
  vlScope :: string
  vlCreatedAt :: time
  vlLabels :: str_map
  vlOptions :: str_map
  vlSize :: int
  vlRefCount :: int

record image =
  imID :: string
  imParentID :: string
  imRepoTags :: "string list"
  imRepoDigests :: "string list"
  imCreated :: time
  imSize :: int
  imSharedSize :: int
  imLabels :: str_map
  imContainers :: int
  imDangling :: bool

text \<open>Of a ContainerDetail, the container itself and what the in-memory engine sets of the rest.\<close>

record container_detail =
  cdContainer :: container
  cdRestartCount :: int
  cdCmd :: "string list"
  cdEnv :: "string list"
  cdWorkingDir :: string
  cdPid :: int
  cdStartedAt :: time
  cdFinishedAt :: time
  cdExitCode :: int

record prune_report =
  prDeleted :: "string list"
  prSpaceReclaimed :: int

record image_deleted = idDeleted :: string idUntagged :: string

record pull_event =
  pvID :: string
  pvStatus :: string
  pvCurrent :: int
  pvTotal :: int
  pvError :: string

text \<open>What the two channels of a pull deliver before they are closed.\<close>

record pull_stream =
  psEvents :: "pull_event list"
  psErrs :: "docker_error list"

section \<open>Options\<close>

record list_options =
  loAll :: bool
  loSize :: bool
  loLabel :: "string list"
  loStatus :: "string list"
  loName :: string

record network_options =
  noName :: string
  noDriver :: string
  noInternal :: bool
  noAttachable :: bool
  noEnableIPv6 :: bool
  noIPAM :: "ipam_config list"
  noOptions :: str_map
  noLabels :: str_map

record volume_options =
  voName :: string
  voDriver :: string
  voDriverOpts :: str_map
  voLabels :: str_map

record connect_options =
  coAliases :: "string list"
  coIPv4Address :: string
  coIPv6Address :: string

record registry_auth =
  raUsername :: string
  raPassword :: string
  raServerAddress :: string

section \<open>The client\<close>

type_synonym ('d, 'a) call = "('d, docker_error, 'a) prog"

record list_images_options =
  liAll :: bool
  liDangling :: "bool option"
  liLabel :: "string list"

record remove_options = xoForce :: bool xoRemoveVolumes :: bool

record remove_image_options = xiForce :: bool xiNoPrune :: bool

record 'd docker_client =
  ListContainers :: "list_options \<Rightarrow> ('d, container list) call"
  InspectContainer :: "string \<Rightarrow> ('d, container_detail) call"
  StartContainer :: "string \<Rightarrow> ('d, unit) call"
  StopContainer :: "string \<Rightarrow> int option \<Rightarrow> ('d, unit) call"
  RestartContainer :: "string \<Rightarrow> int option \<Rightarrow> ('d, unit) call"
  RemoveContainer :: "string \<Rightarrow> remove_options \<Rightarrow> ('d, unit) call"
  PauseContainer :: "string \<Rightarrow> ('d, unit) call"
  UnpauseContainer :: "string \<Rightarrow> ('d, unit) call"
  KillContainer :: "string \<Rightarrow> string \<Rightarrow> ('d, unit) call"
  RenameContainer :: "string \<Rightarrow> string \<Rightarrow> ('d, unit) call"
  PruneContainers :: "('d, prune_report) call"
  CreateContainer :: "create_spec \<Rightarrow> ('d, string) call"
  RawInspectConfig :: "string \<Rightarrow> ('d, create_spec) call"
  PullImage :: "string \<Rightarrow> ('d, unit) call"
  ListImages :: "list_images_options \<Rightarrow> ('d, image list) call"
  PullImageProgress :: "string \<Rightarrow> registry_auth option \<Rightarrow> ('d, pull_stream) call"
  RemoveImage :: "string \<Rightarrow> remove_image_options \<Rightarrow> ('d, image_deleted list) call"
  PruneImages :: "bool \<Rightarrow> ('d, prune_report) call"
  TagImage :: "string \<Rightarrow> string \<Rightarrow> ('d, unit) call"
  ListVolumes :: "('d, volume list) call"
  CreateVolume :: "volume_options \<Rightarrow> ('d, volume) call"
  InspectVolume :: "string \<Rightarrow> ('d, volume) call"
  RemoveVolume :: "string \<Rightarrow> bool \<Rightarrow> ('d, unit) call"
  PruneVolumes :: "('d, prune_report) call"
  ListNetworks :: "('d, network list) call"
  CreateNetwork :: "network_options \<Rightarrow> ('d, network) call"
  InspectNetwork :: "string \<Rightarrow> ('d, network) call"
  RemoveNetwork :: "string \<Rightarrow> ('d, unit) call"
  PruneNetworks :: "('d, prune_report) call"
  ConnectNetwork :: "string \<Rightarrow> string \<Rightarrow> connect_options \<Rightarrow> ('d, unit) call"
  DisconnectNetwork :: "string \<Rightarrow> string \<Rightarrow> bool \<Rightarrow> ('d, unit) call"

end
