(* ===== verification/Host.thy ===== *)
theory Host
  imports Service_Auth Paths Engine Tasks
begin

text \<open>
  The state the services that act on the host run in: the world of the identity half, the
  tables of the other repositories and the engine. Programs of the identity half and calls
  of the engine are lifted into it. A statement on one of the new tables takes its fault
  from the same source as the others.
\<close>

record registry =
  ryID :: string
  ryName :: string
  ryServer :: string
  ryUsername :: string
  ryPassword :: string
  ryEmail :: string
  ryCreatedAt :: time
  ryUpdatedAt :: time
  ryLastUsedAt :: time
  ryHasPassword :: bool

datatype stack_source = StackSourceEditor | StackSourceFile | StackSourceGit | OtherSource string

datatype stack_status = StackCreated | StackDeploying | StackDeployed | StackFailed | StackStopped

record stack =
  skID :: string
  skName :: string
  skSource :: stack_source
  skPath :: string
  skGitURL :: string
  skGitRef :: string
  skGitCommit :: string
  skCompose :: string
  skEnv :: string
  skWorkingDir :: string
  skStatus :: stack_status
  skLastError :: string
  skLastDeployedAt :: time
  skCreatedBy :: string
  skCreatedByID :: string
  skCreatedAt :: time
  skUpdatedAt :: time

text \<open>One line of a deploy's progress. The lines sent so far are part of the state.\<close>

datatype stack_event_kind = StackEventStep | StackEventLog | StackEventWarn | StackEventDone

record stack_event =
  seKind :: stack_event_kind
  seService :: string
  seMessage :: string
  seContainer :: string

record 'd host =
  hWorld :: world
  hRegistries :: "registry list"
  hStacks :: "stack list"
  hTasks :: "task_registry option"
  hEvents :: "stack_event list"
  hEngine :: 'd

text \<open>A reason not to deploy a service: the service, the field at fault and the text.\<close>

record problem =
  pbService :: string
  pbField :: string
  pbMessage :: string

datatype host_error =
    EStore go_error
  | EDocker docker_error
  | ESpec spec_error
  | EPath path_error
  | PrivilegedError "string list"
  | ErrRegistryNotFound
  | ErrRegistryExists
  | ErrRegistryInvalid
  | ErrEmptyID
  | ErrEmptyName
  | ErrBatchOptions
  | ErrUnknownAction string
  | ErrStackNotFound
  | EBusy claim_error
  | ErrNoSuchService string
  | ErrComposeSource
  | ErrGitURL
  | EParse string
  | StackRefused "problem list"
  | ErrMissing string string
  | EBuild string
  | ECanceled
  | EIn string host_error

type_synonym ('d, 'a) act = "('d host, host_error, 'a) prog"

text \<open>
  The text of an error, which the audit trail and a stack's last failure keep. It is the
  source's for an engine's error and a refused deploy; the others are told apart by a word.
\<close>

definition problem_text :: "problem \<Rightarrow> string" where
  "problem_text p = pbService p @ '' ('' @ pbField p @ ''): '' @ pbMessage p"

fun err_text :: "host_error \<Rightarrow> string" where
  "err_text (EDocker e) = Error_text e"
| "err_text (PrivilegedError os) = join '', '' os @ '' may only be set by a user with the privileged permission''"
| "err_text (StackRefused ps) = ''this stack cannot be deployed: '' @ join ''; '' (map problem_text ps)"
| "err_text (ErrMissing what name) = what @ '' '' @ name @ '' is declared external but does not exist''"
| "err_text (ErrUnknownAction a) = ''unknown action '' @ a"
| "err_text (ErrNoSuchService s) = ''no such service in this stack: '' @ s"
| "err_text (EParse msg) = msg"
| "err_text (EBuild msg) = msg"
| "err_text (EStore _) = ''store''"
| "err_text (ESpec e) = specField e"
| "err_text (EPath e) = pePath e"
| "err_text ErrRegistryNotFound = ''registry not found''"
| "err_text ErrRegistryExists = ''a registry with this name or server already exists''"
| "err_text ErrRegistryInvalid = ''invalid registry''"
| "err_text ErrEmptyID = ''container id is required''"
| "err_text ErrEmptyName = ''a name is required''"
| "err_text ErrBatchOptions = ''force and volumes apply only to the remove action''"
| "err_text ErrStackNotFound = ''stack not found''"
| "err_text (EBusy _) = ''this stack is already being deployed''"
| "err_text ErrComposeSource = ''the compose file of this stack could not be read''"
| "err_text ErrGitURL = ''this is not a git URL Iskele will clone''"
| "err_text ECanceled = ''context canceled''"
| "err_text (EIn what e) = what @ '': '' @ err_text e"

text \<open>\<open>docker.Message\<close>: the engine's own words for an error that wraps one of the engine.\<close>

fun docker_cause :: "host_error \<Rightarrow> docker_error option" where
  "docker_cause (EDocker e) = Some e"
| "docker_cause (EIn _ e) = docker_cause e"
| "docker_cause _ = None"

definition docker_Message :: "host_error \<Rightarrow> string" where
  "docker_Message e = (case docker_cause e of Some d \<Rightarrow> deMessage d | None \<Rightarrow> err_text e)"

definition err_of :: "host_error + 'a \<Rightarrow> string option" where
  "err_of r = (case r of Inl e \<Rightarrow> Some (err_text e) | Inr _ \<Rightarrow> None)"

definition on_world :: "'a io \<Rightarrow> ('d, 'a) act" where
  "on_world m = (\<lambda>h. case m (hWorld h) of
       (Inl e, w) \<Rightarrow> (Inl (EStore e), h\<lparr>hWorld := w\<rparr>)
     | (Inr x, w) \<Rightarrow> (Inr x, h\<lparr>hWorld := w\<rparr>))"

definition on_engine :: "('d, 'a) call \<Rightarrow> ('d, 'a) act" where
  "on_engine m = (\<lambda>h. case m (hEngine h) of
       (Inl e, d) \<Rightarrow> (Inl (EDocker e), h\<lparr>hEngine := d\<rparr>)
     | (Inr x, d) \<Rightarrow> (Inr x, h\<lparr>hEngine := d\<rparr>))"

definition from_checked :: "spec_error + 'a \<Rightarrow> ('d, 'a) act" where
  "from_checked r = (case r of Inl e \<Rightarrow> throwE (ESpec e) | Inr x \<Rightarrow> returnE x)"

text \<open>One statement: it may fail, and then has no effect.\<close>

definition hdb :: "('d, 'a) act \<Rightarrow> ('d, 'a) act" where
  "hdb m = (\<lambda>h. case wFaults (hWorld h) of
       [] \<Rightarrow> m h
     | f # fs \<Rightarrow> (if f then throwE (EStore DriverError) else m) (h\<lparr>hWorld := (hWorld h)\<lparr>wFaults := fs\<rparr>\<rparr>))"

text \<open>Numbers and booleans in the detail of an audit entry.\<close>

definition a_int :: "int \<Rightarrow> any" where "a_int n = AOther (itoa n)"
definition a_bool :: "bool \<Rightarrow> any" where "a_bool b = AOther (if b then ''true'' else ''false'')"

text \<open>An engine call whose failure is a value.\<close>

definition try_engine :: "('d, 'a) call \<Rightarrow> ('d, docker_error + 'a) act" where
  "try_engine m = (\<lambda>h. case m (hEngine h) of (r, d) \<Rightarrow> (Inr r, h\<lparr>hEngine := d\<rparr>))"

text \<open>A call whose outcome is noted before it is returned, and one entry of the audit trail.\<close>

definition audited :: "('d, 'a) act \<Rightarrow> (host_error + 'a \<Rightarrow> ('d, unit) act) \<Rightarrow> ('d, 'a) act" where
  "audited m note_outcome = attemptE m (\<lambda>r. thenE (note_outcome r) (case r of Inl e \<Rightarrow> throwE e | Inr x \<Rightarrow> returnE x))"

definition audit_note :: "actor \<Rightarrow> request_meta \<Rightarrow> string \<Rightarrow> string \<Rightarrow> string \<Rightarrow> string option \<Rightarrow> detail option \<Rightarrow> ('d, unit) act" where
  "audit_note who meta action rtype rid err det =
     on_world (Record True \<lparr>evActor = who, evAction = action, evResourceType = rtype, evResourceID = rid, evErr = err,
       evDetail = det, evIP = rmIP meta, evUserAgent = rmUserAgent meta\<rparr>)"

text \<open>An error of the store replaced by the service's own.\<close>

definition map_err :: "go_error \<Rightarrow> host_error \<Rightarrow> ('d, 'a) act \<Rightarrow> ('d, 'a) act" where
  "map_err from_e to_e m = attemptE m (\<lambda>r. case r of
       Inl e \<Rightarrow> throwE (if e = EStore from_e then to_e else e)
     | Inr x \<Rightarrow> returnE x)"

text \<open>An error with what was being done put in front of it.\<close>

definition wrap_err :: "string \<Rightarrow> ('d, 'a) act \<Rightarrow> ('d, 'a) act" where
  "wrap_err what m = attemptE m (\<lambda>r. case r of Inl e \<Rightarrow> throwE (EIn what e) | Inr x \<Rightarrow> returnE x)"

section \<open>Frames\<close>

text \<open>What is lifted from one half leaves the other alone.\<close>

lemma frames_on_world [simp]: "hEngine (snd (on_world m h)) = hEngine h" "hRegistries (snd (on_world m h)) = hRegistries h"
  "hStacks (snd (on_world m h)) = hStacks h" "hTasks (snd (on_world m h)) = hTasks h" "hEvents (snd (on_world m h)) = hEvents h"
  by (simp_all add: on_world_def split: prod.split sum.split)

lemma frames_on_engine [simp]: "hWorld (snd (on_engine m h)) = hWorld h" "hRegistries (snd (on_engine m h)) = hRegistries h"
  "hStacks (snd (on_engine m h)) = hStacks h" "hTasks (snd (on_engine m h)) = hTasks h" "hEvents (snd (on_engine m h)) = hEvents h"
  by (simp_all add: on_engine_def split: prod.split sum.split)

lemma on_engine_Inr:
  "on_engine m h = (Inr x, h') \<longleftrightarrow> m (hEngine h) = (Inr x, hEngine h') \<and> h' = h\<lparr>hEngine := hEngine h'\<rparr>"
  by (auto simp: on_engine_def split: prod.split sum.split)

lemma from_checked_run: "from_checked r h = (case r of Inl e \<Rightarrow> (Inl (ESpec e), h) | Inr x \<Rightarrow> (Inr x, h))"
  by (simp add: from_checked_def returnE_def throwE_def split: sum.split)

definition keeps_engine :: "('d, 'a) act \<Rightarrow> bool" where
  "keeps_engine m \<longleftrightarrow> frames hEngine m"

lemma keeps_engineD: "keeps_engine m \<Longrightarrow> m h = (r, h') \<Longrightarrow> hEngine h' = hEngine h"
  unfolding keeps_engine_def by (rule framesD)

lemma keeps_engine_iff: "keeps_engine m \<longleftrightarrow> (\<forall>v. keeps (\<lambda>h. hEngine h = v) m)"
  by (simp add: keeps_engine_def frames_iff_keeps)

lemma keeps_on_world [keeps_intros]: "keeps (\<lambda>h. hEngine h = v) (on_world m)"
  by (rule keepsI) simp

lemma keeps_from_checked [keeps_intros]: "keeps I (from_checked r)"
  unfolding from_checked_def by (intro keeps_intros)

lemma keeps_hdb_engine [keeps_intros]:
  "keeps (\<lambda>h. hEngine h = v) m \<Longrightarrow> keeps (\<lambda>h. hEngine h = v) (hdb m)"
  by (rule keepsI) (auto simp: hdb_def keeps_def throwE_def split: list.split)

lemma keeps_audit_note [keeps_intros]: "keeps (\<lambda>h. hEngine h = v) (audit_note who meta a t i e d)"
  unfolding audit_note_def by (rule keeps_on_world)

lemma keeps_audited [keeps_intros]:
  "keeps I m \<Longrightarrow> (\<And>r. keeps I (f r)) \<Longrightarrow> keeps I (audited m f)"
  unfolding audited_def by (intro keeps_intros)

lemma keeps_map_err [keeps_intros]: "keeps I m \<Longrightarrow> keeps I (map_err a b m)"
  unfolding map_err_def by (intro keeps_intros)

lemma keeps_wrap_err [keeps_intros]: "keeps I m \<Longrightarrow> keeps I (wrap_err p m)"
  unfolding wrap_err_def by (intro keeps_intros)

text \<open>Noting an outcome neither fails nor touches the engine: the outcome is the call's.\<close>

lemma Record_succeeds: "\<exists>w'. Record True e w = (Inr (), w')"
  by (simp add: Record_def prog_simps now_def)

lemma audit_note_run:
  obtains w where "audit_note who meta a t i e d h = (Inr (), h\<lparr>hWorld := w\<rparr>)"
  using Record_succeeds unfolding audit_note_def on_world_def by (metis (mono_tags, lifting) old.prod.case sum.case(2))

lemma audited_run:
  assumes "m h = (r, h1)"
  obtains w where "audited m (\<lambda>r. audit_note who meta a t (i r) (e r) (d r)) h = (r, h1\<lparr>hWorld := w\<rparr>)"
proof -
  obtain w where "audit_note who meta a t (i r) (e r) (d r) h1 = (Inr (), h1\<lparr>hWorld := w\<rparr>)" by (rule audit_note_run)
  then have "audited m (\<lambda>r. audit_note who meta a t (i r) (e r) (d r)) h = (r, h1\<lparr>hWorld := w\<rparr>)"
    using assms by (cases r) (simp_all add: audited_def attemptE_run thenE_run returnE_run throwE_run)
  then show thesis by (rule that)
qed

section \<open>Sample values\<close>

definition sample_meta :: request_meta where "sample_meta = \<lparr>rmIP = '''', rmUserAgent = ''''\<rparr>"

definition sample_actor :: actor where
  "sample_actor = \<lparr>acUserID = ''u1'', acUsername = ''ada'', acRole = RoleAdmin, acTokenID = ''''\<rparr>"

end
