(* ===== verification/Engine_Contract.thy ===== *)
theory Engine_Contract
  imports Engine
begin

text \<open>
  What the services rely on of an engine. A client's state is seen as the containers that
  exist, by name, and the names of the networks and volumes; a call that fails changes
  nothing of that, and a call that succeeds changes what its name says. A container is
  addressed by its ID. An engine may derive the ID of a new container from its name
  (\<open>issues n i\<close>); creating one needs that no container holds such an ID.
\<close>

record engine_view =
  vwHeld :: "string \<rightharpoonup> container"
  vwNets :: "string set"
  vwVols :: "string set"

definition put :: "string \<Rightarrow> container \<Rightarrow> engine_view \<Rightarrow> engine_view" where
  "put n c v = v\<lparr>vwHeld := (vwHeld v)(n \<mapsto> c)\<rparr>"

definition clear :: "string \<Rightarrow> engine_view \<Rightarrow> engine_view" where
  "clear n v = v\<lparr>vwHeld := (vwHeld v)(n := None)\<rparr>"

lemma put_sel [simp]:
  "vwHeld (put n c v) = (vwHeld v)(n \<mapsto> c)" "vwNets (put n c v) = vwNets v" "vwVols (put n c v) = vwVols v"
  by (simp_all add: put_def)

lemma clear_sel [simp]:
  "vwHeld (clear n v) = (vwHeld v)(n := None)" "vwNets (clear n v) = vwNets v" "vwVols (clear n v) = vwVols v"
  by (simp_all add: clear_def)

text \<open>A listing of every container that carries a label.\<close>

definition by_label :: "string \<Rightarrow> string \<Rightarrow> list_options" where
  "by_label k v = \<lparr>loAll = True, loSize = False, loLabel = [k @ ''='' @ v], loStatus = [], loName = ''''\<rparr>"

definition carries :: "string \<Rightarrow> string \<Rightarrow> container \<Rightarrow> bool" where
  "carries k v c \<longleftrightarrow> map_of (ctLabels c) k = Some v"

definition spec_labels :: "create_spec \<Rightarrow> str_map" where
  "spec_labels s = (case crConfig s of None \<Rightarrow> [] | Some cfg \<Rightarrow> ecLabels cfg)"

definition in_state :: "string \<Rightarrow> container \<Rightarrow> container" where
  "in_state s c = c\<lparr>ctState := s\<rparr>"

lemma in_state_sel [simp]:
  "ctID (in_state s c) = ctID c" "ctName (in_state s c) = ctName c" "ctLabels (in_state s c) = ctLabels c" "ctState (in_state s c) = s"
  by (simp_all add: in_state_def)

locale engine_contract =
  fixes dc :: "'d docker_client"
    and view :: "'d \<Rightarrow> engine_view"
    and inv :: "'d \<Rightarrow> bool"
    and good :: "string \<Rightarrow> bool"
    and issues :: "string \<Rightarrow> string \<Rightarrow> bool"
  assumes held_name: "inv d \<Longrightarrow> vwHeld (view d) n = Some c \<Longrightarrow> ctName c = n"
    and list_law: "inv d \<Longrightarrow> CHR ''='' \<notin> set k \<Longrightarrow> ListContainers dc (by_label k v) d = (rl, d')
      \<Longrightarrow> inv d' \<and> view d' = view d
        \<and> (\<forall>cs. rl = Inr cs \<longrightarrow> distinct (map ctName cs) \<and> set cs = {c. \<exists>n. vwHeld (view d) n = Some c \<and> carries k v c})"
    and start_law: "inv d \<Longrightarrow> vwHeld (view d) n = Some c \<Longrightarrow> StartContainer dc (ctID c) d = (r, d')
      \<Longrightarrow> inv d' \<and> view d' = (if isl r then view d else put n (in_state ''running'' c) (view d))"
    and stop_law: "inv d \<Longrightarrow> vwHeld (view d) n = Some c \<Longrightarrow> StopContainer dc (ctID c) t d = (r, d')
      \<Longrightarrow> inv d' \<and> view d' = (if isl r then view d else put n (in_state ''exited'' c) (view d))"
    and restart_law: "inv d \<Longrightarrow> vwHeld (view d) n = Some c \<Longrightarrow> RestartContainer dc (ctID c) t d = (r, d')
      \<Longrightarrow> inv d' \<and> view d' = (if isl r then view d else put n (in_state ''running'' c) (view d))"
    and remove_law: "inv d \<Longrightarrow> vwHeld (view d) n = Some c \<Longrightarrow> RemoveContainer dc (ctID c) x d = (r, d')
      \<Longrightarrow> inv d' \<and> (case r of Inl e \<Rightarrow> view d' = view d \<and> \<not> IsNotFound e | Inr _ \<Rightarrow> view d' = clear n (view d))"
    and rename_law: "inv d \<Longrightarrow> vwHeld (view d) n = Some c \<Longrightarrow> vwHeld (view d) m = None \<Longrightarrow> good m
      \<Longrightarrow> RenameContainer dc (ctID c) m d = (r, d')
      \<Longrightarrow> inv d' \<and> view d' = (if isl r then view d else put m (c\<lparr>ctName := m, ctNames := [m]\<rparr>) (clear n (view d)))"
    and create_law: "inv d \<Longrightarrow> vwHeld (view d) (crName s) = None \<Longrightarrow> good (crName s)
      \<Longrightarrow> \<forall>m c. vwHeld (view d) m = Some c \<longrightarrow> \<not> issues (crName s) (ctID c)
      \<Longrightarrow> CreateContainer dc s d = (rk, d')
      \<Longrightarrow> inv d' \<and> (case rk of
            Inl _ \<Rightarrow> view d' = view d
          | Inr i \<Rightarrow> \<exists>c. view d' = put (crName s) c (view d) \<and> ctID c = i \<and> ctName c = crName s \<and> ctLabels c = spec_labels s
              \<and> (\<forall>m. m \<noteq> crName s \<longrightarrow> \<not> issues m i))"
    and inspect_law: "inv d \<Longrightarrow> vwHeld (view d) n = Some c \<Longrightarrow> RawInspectConfig dc (ctID c) d = (ri, d')
      \<Longrightarrow> inv d' \<and> view d' = view d \<and> (\<forall>s. ri = Inr s \<longrightarrow> crName s = n)"
    and quiet_laws: "inv d \<Longrightarrow> ConnectNetwork dc net i o' d = (r, d') \<Longrightarrow> inv d' \<and> view d' = view d"
      "inv d \<Longrightarrow> PullImageProgress dc ref auth d = (r', d') \<Longrightarrow> inv d' \<and> view d' = view d"
      "inv d \<Longrightarrow> PullImage dc ref d = (r, d') \<Longrightarrow> inv d' \<and> view d' = view d"
    and networks_law: "inv d \<Longrightarrow> ListNetworks dc d = (rn, d')
      \<Longrightarrow> inv d' \<and> view d' = view d \<and> (\<forall>ns. rn = Inr ns \<longrightarrow> nwName ` set ns = vwNets (view d))"
    and network_law: "inv d \<Longrightarrow> CreateNetwork dc no d = (rc, d')
      \<Longrightarrow> inv d' \<and> view d' = (if isl rc then view d else (view d)\<lparr>vwNets := insert (noName no) (vwNets (view d))\<rparr>)"
    and volumes_law: "inv d \<Longrightarrow> ListVolumes dc d = (rv, d')
      \<Longrightarrow> inv d' \<and> view d' = view d \<and> (\<forall>vs. rv = Inr vs \<longrightarrow> vlName ` set vs = vwVols (view d))"
    and volume_law: "inv d \<Longrightarrow> CreateVolume dc vo d = (rw, d')
      \<Longrightarrow> inv d' \<and> view d' = (if isl rw then view d else (view d)\<lparr>vwVols := insert (voName vo) (vwVols (view d))\<rparr>)"
    and remove_network_law: "inv d \<Longrightarrow> RemoveNetwork dc i d = (r, d')
      \<Longrightarrow> inv d' \<and> (\<exists>N \<subseteq> vwNets (view d). view d' = (view d)\<lparr>vwNets := N\<rparr>)"
    and remove_volume_law: "inv d \<Longrightarrow> RemoveVolume dc i force d = (r, d')
      \<Longrightarrow> inv d' \<and> (\<exists>V \<subseteq> vwVols (view d). vwVols (view d) - {i} \<subseteq> V \<and> view d' = (view d)\<lparr>vwVols := V\<rparr>)"

text \<open>An engine whose forced removals succeed.\<close>

locale forcing_engine = engine_contract +
  assumes forced_law: "inv d \<Longrightarrow> vwHeld (view d) n = Some c \<Longrightarrow> xoForce x
    \<Longrightarrow> \<not> isl (fst (RemoveContainer dc (ctID c) x d))"

end
