(* ===== verification/Fake_Engine.thy ===== *)
theory Fake_Engine
  imports Engine_Contract
begin

text \<open>
  The in-memory engine, internal/docker/fake/fake.go, the implementation of \<open>docker.Client\<close> the
  repository holds: its state, the failure that can be injected per operation, the record of
  calls, and every operation of the client interface of theory Engine. A lock is held
  throughout each step, so an operation is one transition. The map of raw inspect payloads is
  left out, and of a recorded call its option value; an injected failure is an engine error.
\<close>

section \<open>State\<close>

record fake_call = fcOp :: string fcID :: string

record fake =
  fkContainers :: "container list"
  fkDetails :: "(string \<times> container_detail) list"
  fkImages :: "image list"
  fkVolumes :: "volume list"
  fkNetworks :: "network list"
  fkPullEvents :: "pull_event list option"
  fkErrs :: "(string \<times> docker_error) list"
  fkCalls :: "fake_call list"
  fkClosed :: bool

definition OpListContainers :: string where "OpListContainers = ''ListContainers''"
definition OpInspectContainer :: string where "OpInspectContainer = ''InspectContainer''"
definition OpStartContainer :: string where "OpStartContainer = ''StartContainer''"
definition OpStopContainer :: string where "OpStopContainer = ''StopContainer''"
definition OpRestartContainer :: string where "OpRestartContainer = ''RestartContainer''"
definition OpRemoveContainer :: string where "OpRemoveContainer = ''RemoveContainer''"
definition OpPruneContainers :: string where "OpPruneContainers = ''PruneContainers''"
definition OpListImages :: string where "OpListImages = ''ListImages''"
definition OpListVolumes :: string where "OpListVolumes = ''ListVolumes''"
definition OpListNetworks :: string where "OpListNetworks = ''ListNetworks''"
definition OpClose :: string where "OpClose = ''Close''"
definition OpPauseContainer :: string where "OpPauseContainer = ''PauseContainer''"
definition OpUnpauseContainer :: string where "OpUnpauseContainer = ''UnpauseContainer''"
definition OpKillContainer :: string where "OpKillContainer = ''KillContainer''"
definition OpRenameContainer :: string where "OpRenameContainer = ''RenameContainer''"
definition OpCreateContainer :: string where "OpCreateContainer = ''CreateContainer''"
definition OpInspectConfig :: string where "OpInspectConfig = ''RawInspectConfig''"
definition OpPullImage :: string where "OpPullImage = ''PullImage''"
definition OpPullImageProgress :: string where "OpPullImageProgress = ''PullImageProgress''"
definition OpRemoveImage :: string where "OpRemoveImage = ''RemoveImage''"
definition OpPruneImages :: string where "OpPruneImages = ''PruneImages''"
definition OpTagImage :: string where "OpTagImage = ''TagImage''"
definition OpCreateVolume :: string where "OpCreateVolume = ''CreateVolume''"
definition OpInspectVolume :: string where "OpInspectVolume = ''InspectVolume''"
definition OpRemoveVolume :: string where "OpRemoveVolume = ''RemoveVolume''"
definition OpPruneVolumes :: string where "OpPruneVolumes = ''PruneVolumes''"
definition OpCreateNetwork :: string where "OpCreateNetwork = ''CreateNetwork''"
definition OpInspectNetwork :: string where "OpInspectNetwork = ''InspectNetwork''"
definition OpRemoveNetwork :: string where "OpRemoveNetwork = ''RemoveNetwork''"
definition OpPruneNetworks :: string where "OpPruneNetworks = ''PruneNetworks''"
definition OpConnectNetwork :: string where "OpConnectNetwork = ''ConnectNetwork''"
definition OpDisconnectNetwork :: string where "OpDisconnectNetwork = ''DisconnectNetwork''"

definition Fail :: "string \<Rightarrow> docker_error option \<Rightarrow> fake \<Rightarrow> fake" where
  "Fail op err c =
     (case err of
        None \<Rightarrow> c\<lparr>fkErrs := filter (\<lambda>e. fst e \<noteq> op) (fkErrs c)\<rparr>
      | Some e \<Rightarrow> c\<lparr>fkErrs := (op, e) # filter (\<lambda>e. fst e \<noteq> op) (fkErrs c)\<rparr>)"

definition CallsFor :: "string \<Rightarrow> fake \<Rightarrow> fake_call list" where
  "CallsFor op c = filter (\<lambda>k. fcOp k = op) (fkCalls c)"

definition Fake_Reset :: "fake \<Rightarrow> fake" where
  "Fake_Reset c = c\<lparr>fkCalls := [], fkErrs := []\<rparr>"

type_synonym 'a fake_op = "(fake, 'a) call"

text \<open>A call is logged; an injected error ends it there.\<close>

definition fake_record :: "string \<Rightarrow> string \<Rightarrow> unit fake_op" where
  "fake_record op i = (\<lambda>c.
     let c' = c\<lparr>fkCalls := fkCalls c @ [\<lparr>fcOp = op, fcID = i\<rparr>]\<rparr>
     in case map_of (fkErrs c) op of Some e \<Rightarrow> (Inl e, c') | None \<Rightarrow> (Inr (), c'))"

definition goes_by :: "string \<Rightarrow> container \<Rightarrow> bool" where
  "goes_by i ct \<longleftrightarrow> ctID ct = i \<or> ctName ct = i"

definition containerExists :: "string \<Rightarrow> fake \<Rightarrow> bool" where
  "containerExists i c \<longleftrightarrow> list_ex (goes_by i) (fkContainers c)"

definition notFound :: "string \<Rightarrow> string \<Rightarrow> docker_error" where
  "notFound op i = NewError KindNotFound op ''container'' i (''no such container: '' @ i)"

text \<open>The first element that satisfies a predicate is changed, or taken out.\<close>

fun update_first :: "('a \<Rightarrow> bool) \<Rightarrow> ('a \<Rightarrow> 'a) \<Rightarrow> 'a list \<Rightarrow> 'a list" where
  "update_first p f [] = []"
| "update_first p f (x # xs) = (if p x then f x # xs else x # update_first p f xs)"

fun remove_first :: "('a \<Rightarrow> bool) \<Rightarrow> 'a list \<Rightarrow> 'a list" where
  "remove_first p [] = []"
| "remove_first p (x # xs) = (if p x then xs else x # remove_first p xs)"

definition on_detail :: "string \<Rightarrow> (container \<Rightarrow> container) \<Rightarrow> (string \<times> container_detail) list \<Rightarrow> (string \<times> container_detail) list" where
  "on_detail i f ds = map (\<lambda>(k, d). (k, if k = i then d\<lparr>cdContainer := f (cdContainer d)\<rparr> else d)) ds"

text \<open>The first container of that ID or name, changed in the list and in its detail.\<close>

definition change_container :: "string \<Rightarrow> (container \<Rightarrow> container) \<Rightarrow> fake \<Rightarrow> fake" where
  "change_container i f c =
     (case find (goes_by i) (fkContainers c) of
        None \<Rightarrow> c
      | Some ct \<Rightarrow> c\<lparr>fkContainers := update_first (goes_by i) f (fkContainers c), fkDetails := on_detail (ctID ct) f (fkDetails c)\<rparr>)"

definition setState :: "string \<Rightarrow> string \<Rightarrow> fake \<Rightarrow> fake" where
  "setState i state = change_container i (\<lambda>ct. ct\<lparr>ctState := state\<rparr>)"

section \<open>Containers\<close>

definition matchesLabels :: "str_map \<Rightarrow> string list \<Rightarrow> bool" where
  "matchesLabels labels filters =
     list_all (\<lambda>flt. case str_cut (CHR ''='') flt of (key, val, hasValue) \<Rightarrow>
       (case map_of labels key of None \<Rightarrow> False | Some got \<Rightarrow> \<not> hasValue \<or> got = val)) filters"

definition listed :: "list_options \<Rightarrow> container \<Rightarrow> bool" where
  "listed opts ct \<longleftrightarrow> (loAll opts \<or> ctState ct = ''running'') \<and> matchesLabels (ctLabels ct) (loLabel opts)
     \<and> (loName opts = '''' \<or> contains (ctName ct) (loName opts))"

definition Fake_ListContainers :: "list_options \<Rightarrow> container list fake_op" where
  "Fake_ListContainers opts = thenE (fake_record OpListContainers '''') (readE (\<lambda>c. filter (listed opts) (fkContainers c)))"

definition Fake_InspectContainer :: "string \<Rightarrow> container_detail fake_op" where
  "Fake_InspectContainer i = thenE (fake_record OpInspectContainer i) (\<lambda>c.
     case map_of (fkDetails c) i of None \<Rightarrow> (Inl (notFound ''container.inspect'' i), c) | Some d \<Rightarrow> (Inr d, c))"

definition lifecycle :: "string \<Rightarrow> string \<Rightarrow> string \<Rightarrow> string \<Rightarrow> unit fake_op" where
  "lifecycle op verb state i = thenE (fake_record op i) (\<lambda>c.
     if \<not> containerExists i c then (Inl (notFound verb i), c) else (Inr (), setState i state c))"

definition Fake_StartContainer :: "string \<Rightarrow> unit fake_op" where
  "Fake_StartContainer i = lifecycle OpStartContainer ''container.start'' ''running'' i"

definition Fake_StopContainer :: "string \<Rightarrow> int option \<Rightarrow> unit fake_op" where
  "Fake_StopContainer i t = lifecycle OpStopContainer ''container.stop'' ''exited'' i"

definition Fake_RestartContainer :: "string \<Rightarrow> int option \<Rightarrow> unit fake_op" where
  "Fake_RestartContainer i t = lifecycle OpRestartContainer ''container.restart'' ''running'' i"

definition Fake_PauseContainer :: "string \<Rightarrow> unit fake_op" where
  "Fake_PauseContainer i = lifecycle OpPauseContainer ''container.pause'' ''paused'' i"

definition Fake_UnpauseContainer :: "string \<Rightarrow> unit fake_op" where
  "Fake_UnpauseContainer i = lifecycle OpUnpauseContainer ''container.unpause'' ''running'' i"

definition Fake_KillContainer :: "string \<Rightarrow> string \<Rightarrow> unit fake_op" where
  "Fake_KillContainer i signal = lifecycle OpKillContainer ''container.kill'' ''exited'' i"

definition spared :: "container \<Rightarrow> bool" where
  "spared ct \<longleftrightarrow> ctState ct = ''running'' \<or> ctState ct = ''paused''"

definition Fake_PruneContainers :: "prune_report fake_op" where
  "Fake_PruneContainers = thenE (fake_record OpPruneContainers '''') (\<lambda>c.
     let gone = filter (\<lambda>ct. \<not> spared ct) (fkContainers c)
     in (Inr \<lparr>prDeleted = map ctID gone, prSpaceReclaimed = sum_list (map ctSizeRW gone)\<rparr>,
         c\<lparr>fkContainers := filter spared (fkContainers c)\<rparr>))"

definition Fake_RemoveContainer :: "string \<Rightarrow> remove_options \<Rightarrow> unit fake_op" where
  "Fake_RemoveContainer i opts = thenE (fake_record OpRemoveContainer i) (\<lambda>c.
     case find (goes_by i) (fkContainers c) of
       None \<Rightarrow> (Inl (notFound ''container.remove'' i), c)
     | Some ct \<Rightarrow>
         if ctState ct = ''running'' \<and> \<not> xoForce opts then
           (Inl (NewError KindConflict ''container.remove'' ''container'' i
              (''cannot remove container '' @ i @ '': container is running: stop the container before removing or force remove'')), c)
         else (Inr (), c\<lparr>fkContainers := remove_first (goes_by i) (fkContainers c),
                        fkDetails := filter (\<lambda>e. fst e \<noteq> ctID ct) (fkDetails c)\<rparr>))"

definition Fake_RenameContainer :: "string \<Rightarrow> string \<Rightarrow> unit fake_op" where
  "Fake_RenameContainer i newName = thenE (fake_record OpRenameContainer i) (\<lambda>c.
     case find (goes_by i) (fkContainers c) of
       None \<Rightarrow> (Inl (notFound ''container.rename'' i), c)
     | Some ct \<Rightarrow>
         (Inr (), c\<lparr>fkContainers := update_first (goes_by i) (\<lambda>ct. ct\<lparr>ctName := newName, ctNames := [newName]\<rparr>) (fkContainers c),
                    fkDetails := on_detail (ctID ct) (\<lambda>ct. ct\<lparr>ctName := newName\<rparr>) (fkDetails c)\<rparr>))"

definition created_id :: "string \<Rightarrow> string" where
  "created_id n = ''created-'' @ n"

definition created_container :: "create_spec \<Rightarrow> container" where
  "created_container spec =
     \<lparr>ctID = created_id (crName spec), ctName = crName spec, ctNames = [crName spec],
      ctImage = (case crConfig spec of None \<Rightarrow> '''' | Some cfg \<Rightarrow> ecImage cfg),
      ctImageID = '''', ctCommand = '''', ctCreated = 0, ctState = ''created'', ctStatus = ''Created'', ctHealth = '''',
      ctPorts = [], ctLabels = (case crConfig spec of None \<Rightarrow> [] | Some cfg \<Rightarrow> ecLabels cfg),
      ctNetworks = [], ctMounts = [], ctSizeRW = -1, ctSizeRootFS = -1\<rparr>"

definition new_detail :: "container \<Rightarrow> container_detail" where
  "new_detail ct = \<lparr>cdContainer = ct, cdRestartCount = 0, cdCmd = [], cdEnv = [], cdWorkingDir = '''', cdPid = 0,
     cdStartedAt = 0, cdFinishedAt = 0, cdExitCode = 0\<rparr>"

definition Fake_CreateContainer :: "create_spec \<Rightarrow> string fake_op" where
  "Fake_CreateContainer spec = thenE (fake_record OpCreateContainer (crName spec)) (\<lambda>c.
     let created = created_container spec; i = ctID created
     in (Inr i, c\<lparr>fkContainers := fkContainers c @ [created],
                 fkDetails := (i, new_detail created) # filter (\<lambda>e. fst e \<noteq> i) (fkDetails c)\<rparr>))"

definition Fake_RawInspectConfig :: "string \<Rightarrow> create_spec fake_op" where
  "Fake_RawInspectConfig i = thenE (fake_record OpInspectConfig i) (\<lambda>c.
     case find (goes_by i) (fkContainers c) of
       None \<Rightarrow> (Inl (notFound ''container.inspect'' i), c)
     | Some ct \<Rightarrow> (Inr \<lparr>crName = ctName ct, crConfig = None, crHostConfig = None, crNetworking = None\<rparr>, c))"

section \<open>Images\<close>

definition Fake_PullImage :: "string \<Rightarrow> unit fake_op" where
  "Fake_PullImage ref = fake_record OpPullImage ref"

definition Fake_ListImages :: "list_images_options \<Rightarrow> image list fake_op" where
  "Fake_ListImages opts = thenE (fake_record OpListImages '''') (readE fkImages)"

definition defaultPullEvents :: "pull_event list" where
  "defaultPullEvents =
     [\<lparr>pvID = '''', pvStatus = ''Pulling from library/nginx'', pvCurrent = 0, pvTotal = 0, pvError = ''''\<rparr>,
      \<lparr>pvID = ''layer1'', pvStatus = ''Downloading'', pvCurrent = 512, pvTotal = 1024, pvError = ''''\<rparr>,
      \<lparr>pvID = ''layer1'', pvStatus = ''Download complete'', pvCurrent = 1024, pvTotal = 1024, pvError = ''''\<rparr>,
      \<lparr>pvID = '''', pvStatus = ''Status: Downloaded newer image'', pvCurrent = 0, pvTotal = 0, pvError = ''''\<rparr>]"

definition SetPullEvents :: "pull_event list option \<Rightarrow> fake \<Rightarrow> fake" where
  "SetPullEvents events c = c\<lparr>fkPullEvents := events\<rparr>"

text \<open>The replay sends events up to and including the first that carries an error.\<close>

fun replay :: "pull_event list \<Rightarrow> pull_stream" where
  "replay [] = \<lparr>psEvents = [], psErrs = []\<rparr>"
| "replay (e # es) =
     (if pvError e \<noteq> '''' then \<lparr>psEvents = [e], psErrs = [NewError KindUnknown ''image.pull'' ''image'' (pvID e) (pvError e)]\<rparr>
      else let s = replay es in s\<lparr>psEvents := e # psEvents s\<rparr>)"

definition Fake_PullImageProgress :: "string \<Rightarrow> registry_auth option \<Rightarrow> pull_stream fake_op" where
  "Fake_PullImageProgress ref auth = attemptE (fake_record OpPullImageProgress ref) (\<lambda>r c. case r of
       Inl e \<Rightarrow> (Inr \<lparr>psEvents = [], psErrs = [e]\<rparr>, c)
     | Inr _ \<Rightarrow> (Inr (replay (case fkPullEvents c of None \<Rightarrow> defaultPullEvents | Some evs \<Rightarrow> evs)), c))"

definition image_is :: "string \<Rightarrow> image \<Rightarrow> bool" where
  "image_is i img \<longleftrightarrow> imID img = i \<or> i \<in> set (imRepoTags img)"

definition Fake_RemoveImage :: "string \<Rightarrow> remove_image_options \<Rightarrow> image_deleted list fake_op" where
  "Fake_RemoveImage i opts = thenE (fake_record OpRemoveImage i) (\<lambda>c.
     case find (image_is i) (fkImages c) of
       None \<Rightarrow> (Inl (NewError KindNotFound ''image.remove'' ''image'' i (''no such image: '' @ i)), c)
     | Some img \<Rightarrow>
         if 0 < imContainers img \<and> \<not> xiForce opts
         then (Inl (NewError KindConflict ''image.remove'' ''image'' i ''image is in use by a container''), c)
         else (Inr [\<lparr>idDeleted = imID img, idUntagged = ''''\<rparr>], c\<lparr>fkImages := remove_first (image_is i) (fkImages c)\<rparr>))"

definition removable :: "bool \<Rightarrow> image \<Rightarrow> bool" where
  "removable all img \<longleftrightarrow> imDangling img \<or> (all \<and> imContainers img \<le> 0)"

definition Fake_PruneImages :: "bool \<Rightarrow> prune_report fake_op" where
  "Fake_PruneImages all = thenE (fake_record OpPruneImages '''') (\<lambda>c.
     let gone = filter (removable all) (fkImages c)
     in (Inr \<lparr>prDeleted = map imID gone, prSpaceReclaimed = sum_list (map imSize gone)\<rparr>,
         c\<lparr>fkImages := filter (\<lambda>img. \<not> removable all img) (fkImages c)\<rparr>))"

definition Fake_TagImage :: "string \<Rightarrow> string \<Rightarrow> unit fake_op" where
  "Fake_TagImage i ref = thenE (fake_record OpTagImage i) (\<lambda>c.
     if list_ex (image_is i) (fkImages c)
     then (Inr (), c\<lparr>fkImages := update_first (image_is i) (\<lambda>img. img\<lparr>imRepoTags := imRepoTags img @ [ref], imDangling := False\<rparr>) (fkImages c)\<rparr>)
     else (Inl (NewError KindNotFound ''image.tag'' ''image'' i (''no such image: '' @ i)), c))"

section \<open>Volumes\<close>

definition orDefault :: "string \<Rightarrow> string \<Rightarrow> string" where
  "orDefault val fallback = (if val = '''' then fallback else val)"

text \<open>2 January 2026, 03:04:05 UTC\<close>

definition fixture_time :: time where "fixture_time = 63902919845 * second"

definition Fake_ListVolumes :: "volume list fake_op" where
  "Fake_ListVolumes = thenE (fake_record OpListVolumes '''') (readE fkVolumes)"

definition created_volume :: "volume_options \<Rightarrow> volume" where
  "created_volume opts =
     \<lparr>vlName = voName opts, vlDriver = orDefault (voDriver opts) ''local'',
      vlMountpoint = ''/var/lib/docker/volumes/'' @ voName opts @ ''/_data'', vlScope = ''local'', vlCreatedAt = fixture_time,
      vlLabels = voLabels opts, vlOptions = voDriverOpts opts, vlSize = -1, vlRefCount = -1\<rparr>"

definition Fake_CreateVolume :: "volume_options \<Rightarrow> volume fake_op" where
  "Fake_CreateVolume opts = thenE (fake_record OpCreateVolume (voName opts)) (\<lambda>c.
     case find (\<lambda>v. vlName v = voName opts) (fkVolumes c) of
       Some v \<Rightarrow> (Inr v, c)
     | None \<Rightarrow> (Inr (created_volume opts), c\<lparr>fkVolumes := fkVolumes c @ [created_volume opts]\<rparr>))"

definition Fake_InspectVolume :: "string \<Rightarrow> volume fake_op" where
  "Fake_InspectVolume name = thenE (fake_record OpInspectVolume name) (\<lambda>c.
     case find (\<lambda>v. vlName v = name) (fkVolumes c) of
       Some v \<Rightarrow> (Inr v, c)
     | None \<Rightarrow> (Inl (NewError KindNotFound ''volume.inspect'' ''volume'' name (''no such volume: '' @ name)), c))"

definition Fake_RemoveVolume :: "string \<Rightarrow> bool \<Rightarrow> unit fake_op" where
  "Fake_RemoveVolume name force = thenE (fake_record OpRemoveVolume name) (\<lambda>c.
     case find (\<lambda>v. vlName v = name) (fkVolumes c) of
       None \<Rightarrow> (Inl (NewError KindNotFound ''volume.remove'' ''volume'' name (''no such volume: '' @ name)), c)
     | Some v \<Rightarrow>
         if 0 < vlRefCount v \<and> \<not> force
         then (Inl (NewError KindConflict ''volume.remove'' ''volume'' name ''volume is in use''), c)
         else (Inr (), c\<lparr>fkVolumes := remove_first (\<lambda>v. vlName v = name) (fkVolumes c)\<rparr>))"

definition Fake_PruneVolumes :: "prune_report fake_op" where
  "Fake_PruneVolumes = thenE (fake_record OpPruneVolumes '''') (\<lambda>c.
     (Inr \<lparr>prDeleted = map vlName (filter (\<lambda>v. vlRefCount v \<le> 0) (fkVolumes c)), prSpaceReclaimed = 0\<rparr>,
      c\<lparr>fkVolumes := filter (\<lambda>v. \<not> vlRefCount v \<le> 0) (fkVolumes c)\<rparr>))"

section \<open>Networks\<close>

definition network_is :: "string \<Rightarrow> network \<Rightarrow> bool" where
  "network_is i n \<longleftrightarrow> nwID n = i \<or> nwName n = i"

definition Fake_ListNetworks :: "network list fake_op" where
  "Fake_ListNetworks = thenE (fake_record OpListNetworks '''') (readE fkNetworks)"

definition created_network :: "network_options \<Rightarrow> network" where
  "created_network opts =
     \<lparr>nwID = ''net-'' @ noName opts, nwName = noName opts, nwDriver = orDefault (noDriver opts) ''bridge'', nwScope = ''local'',
      nwCreated = fixture_time, nwInternal = noInternal opts, nwAttachable = noAttachable opts, nwIngress = False,
      nwEnableIPv6 = noEnableIPv6 opts, nwIPAM = noIPAM opts, nwLabels = noLabels opts, nwContainerCount = 0\<rparr>"

definition Fake_CreateNetwork :: "network_options \<Rightarrow> network fake_op" where
  "Fake_CreateNetwork opts = thenE (fake_record OpCreateNetwork (noName opts)) (\<lambda>c.
     if list_ex (\<lambda>n. nwName n = noName opts) (fkNetworks c)
     then (Inl (NewError KindConflict ''network.create'' ''network'' (noName opts) (''network with name '' @ noName opts @ '' already exists'')), c)
     else (Inr (created_network opts), c\<lparr>fkNetworks := fkNetworks c @ [created_network opts]\<rparr>))"

definition Fake_InspectNetwork :: "string \<Rightarrow> network fake_op" where
  "Fake_InspectNetwork i = thenE (fake_record OpInspectNetwork i) (\<lambda>c.
     case find (network_is i) (fkNetworks c) of
       Some n \<Rightarrow> (Inr n, c)
     | None \<Rightarrow> (Inl (NewError KindNotFound ''network.inspect'' ''network'' i (''no such network: '' @ i)), c))"

definition Fake_RemoveNetwork :: "string \<Rightarrow> unit fake_op" where
  "Fake_RemoveNetwork i = thenE (fake_record OpRemoveNetwork i) (\<lambda>c.
     case find (network_is i) (fkNetworks c) of
       None \<Rightarrow> (Inl (NewError KindNotFound ''network.remove'' ''network'' i (''no such network: '' @ i)), c)
     | Some n \<Rightarrow>
         if 0 < nwContainerCount n
         then (Inl (NewError KindConflict ''network.remove'' ''network'' i ''network has active endpoints''), c)
         else (Inr (), c\<lparr>fkNetworks := remove_first (network_is i) (fkNetworks c)\<rparr>))"

definition unused_network :: "network \<Rightarrow> bool" where
  "unused_network n \<longleftrightarrow> nwName n \<notin> {''bridge'', ''host'', ''none''} \<and> nwContainerCount n = 0"

definition Fake_PruneNetworks :: "prune_report fake_op" where
  "Fake_PruneNetworks = thenE (fake_record OpPruneNetworks '''') (\<lambda>c.
     (Inr \<lparr>prDeleted = map nwName (filter unused_network (fkNetworks c)), prSpaceReclaimed = 0\<rparr>,
      c\<lparr>fkNetworks := filter (\<lambda>n. \<not> unused_network n) (fkNetworks c)\<rparr>))"

text \<open>Every network of that ID or name is counted, not only the first.\<close>

definition attach :: "string \<Rightarrow> string \<Rightarrow> string \<Rightarrow> string \<Rightarrow> (network \<Rightarrow> network) \<Rightarrow> unit fake_op" where
  "attach op verb networkID containerID count =
     thenE (fake_record op networkID)
     (thenE (bindE (Fake_InspectNetwork networkID) (\<lambda>_. returnE ()))
     (\<lambda>c. if \<not> containerExists containerID c then (Inl (notFound verb containerID), c)
          else (Inr (), c\<lparr>fkNetworks := update_where (network_is networkID) count (fkNetworks c)\<rparr>)))"

definition Fake_ConnectNetwork :: "string \<Rightarrow> string \<Rightarrow> connect_options \<Rightarrow> unit fake_op" where
  "Fake_ConnectNetwork networkID containerID opts =
     attach OpConnectNetwork ''network.connect'' networkID containerID (\<lambda>n. n\<lparr>nwContainerCount := nwContainerCount n + 1\<rparr>)"

definition Fake_DisconnectNetwork :: "string \<Rightarrow> string \<Rightarrow> bool \<Rightarrow> unit fake_op" where
  "Fake_DisconnectNetwork networkID containerID force =
     attach OpDisconnectNetwork ''network.disconnect'' networkID containerID
       (\<lambda>n. if 0 < nwContainerCount n then n\<lparr>nwContainerCount := nwContainerCount n - 1\<rparr> else n)"

definition Fake_Close :: "unit fake_op" where
  "Fake_Close = thenE (fake_record OpClose '''') (modifyE (\<lambda>c. c\<lparr>fkClosed := True\<rparr>))"

definition fake_client :: "fake docker_client" where
  "fake_client =
     \<lparr>ListContainers = Fake_ListContainers, InspectContainer = Fake_InspectContainer, StartContainer = Fake_StartContainer,
      StopContainer = Fake_StopContainer, RestartContainer = Fake_RestartContainer, RemoveContainer = Fake_RemoveContainer,
      PauseContainer = Fake_PauseContainer, UnpauseContainer = Fake_UnpauseContainer, KillContainer = Fake_KillContainer,
      RenameContainer = Fake_RenameContainer, PruneContainers = Fake_PruneContainers, CreateContainer = Fake_CreateContainer,
      RawInspectConfig = Fake_RawInspectConfig, PullImage = Fake_PullImage, ListImages = Fake_ListImages,
      PullImageProgress = Fake_PullImageProgress, RemoveImage = Fake_RemoveImage, PruneImages = Fake_PruneImages,
      TagImage = Fake_TagImage, ListVolumes = Fake_ListVolumes, CreateVolume = Fake_CreateVolume,
      InspectVolume = Fake_InspectVolume, RemoveVolume = Fake_RemoveVolume, PruneVolumes = Fake_PruneVolumes,
      ListNetworks = Fake_ListNetworks, CreateNetwork = Fake_CreateNetwork, InspectNetwork = Fake_InspectNetwork,
      RemoveNetwork = Fake_RemoveNetwork, PruneNetworks = Fake_PruneNetworks, ConnectNetwork = Fake_ConnectNetwork,
      DisconnectNetwork = Fake_DisconnectNetwork\<rparr>"

section \<open>The engine the tests start from\<close>

definition fixture_web :: container where
  "fixture_web =
     \<lparr>ctID = ''c1000000000000000000000000000000000000000000000000000000000000a'', ctName = ''web'', ctNames = [''web''],
      ctImage = ''nginx:1.27'', ctImageID = ''sha256:img1'', ctCommand = ''nginx -g '' @ CHR 0x27 # ''daemon off;'' @ [CHR 0x27],
      ctCreated = fixture_time, ctState = ''running'', ctStatus = ''Up 2 hours (healthy)'', ctHealth = ''healthy'',
      ctPorts = [\<lparr>piIP = ''0.0.0.0'', piPrivatePort = 80, piPublicPort = 8080, piType = ''tcp''\<rparr>],
      ctLabels = [(''app'', ''web'')], ctNetworks = [''bridge''], ctMounts = [''/usr/share/nginx/html''],
      ctSizeRW = -1, ctSizeRootFS = -1\<rparr>"

definition fixture_worker :: container where
  "fixture_worker =
     \<lparr>ctID = ''c2000000000000000000000000000000000000000000000000000000000000b'', ctName = ''worker'', ctNames = [''worker''],
      ctImage = ''alpine:3.20'', ctImageID = ''sha256:img2'', ctCommand = ''sh'', ctCreated = fixture_time - hour,
      ctState = ''exited'', ctStatus = ''Exited (0) 5 minutes ago'', ctHealth = '''', ctPorts = [], ctLabels = [],
      ctNetworks = [], ctMounts = [], ctSizeRW = -1, ctSizeRootFS = -1\<rparr>"

definition New_fake :: fake where
  "New_fake =
     \<lparr>fkContainers = [fixture_web, fixture_worker],
      fkDetails =
        [(ctID fixture_web, \<lparr>cdContainer = fixture_web, cdRestartCount = 0, cdCmd = [''nginx'', ''-g'', ''daemon off;''],
            cdEnv = [''PATH=/usr/local/sbin:/usr/local/bin''], cdWorkingDir = ''/'', cdPid = 4242, cdStartedAt = fixture_time,
            cdFinishedAt = 0, cdExitCode = 0\<rparr>),
         (ctID fixture_worker, \<lparr>cdContainer = fixture_worker, cdRestartCount = 2, cdCmd = [], cdEnv = [], cdWorkingDir = '''',
            cdPid = 0, cdStartedAt = fixture_time - hour, cdFinishedAt = fixture_time - 30 * minute, cdExitCode = 0\<rparr>)],
      fkImages = [\<lparr>imID = ''sha256:img1'', imParentID = '''', imRepoTags = [''nginx:1.27''], imRepoDigests = [], imCreated = fixture_time,
         imSize = 142000000, imSharedSize = 0, imLabels = [], imContainers = 1, imDangling = False\<rparr>],
      fkVolumes = [\<lparr>vlName = ''web-data'', vlDriver = ''local'', vlMountpoint = ''/var/lib/docker/volumes/web-data/_data'', vlScope = ''local'',
         vlCreatedAt = fixture_time, vlLabels = [], vlOptions = [], vlSize = -1, vlRefCount = -1\<rparr>],
      fkNetworks = [\<lparr>nwID = ''n100000000000000000000000000000000000000000000000000000000000000'', nwName = ''bridge'', nwDriver = ''bridge'',
         nwScope = ''local'', nwCreated = fixture_time, nwInternal = False, nwAttachable = False, nwIngress = False, nwEnableIPv6 = False,
         nwIPAM = [\<lparr>ipSubnet = ''172.17.0.0/16'', ipGateway = ''172.17.0.1'', ipRange = '''', ipAuxAddress = ''''\<rparr>], nwLabels = [], nwContainerCount = 0\<rparr>],
      fkPullEvents = None, fkErrs = [], fkCalls = [], fkClosed = False\<rparr>"

end
