(* ===== verification/Fake_Laws.thy ===== *)
theory Fake_Laws
  imports Fake_Engine
begin

text \<open>
  The in-memory engine keeps the contract of theory Engine_Contract, in states where containers
  have distinct IDs and names, an ID looks like one, a name does not, and no failure injected
  into removal claims that there is no such container. Its IDs are derived from names, so
  \<open>issues\<close> is that derivation.
\<close>

definition is_hex :: "char \<Rightarrow> bool" where
  "is_hex c \<longleftrightarrow> is_digit c \<or> (97 \<le> (of_char c :: nat) \<and> (of_char c :: nat) \<le> 102)"

definition id_like :: "string \<Rightarrow> bool" where
  "id_like s \<longleftrightarrow> has_prefix s ''created-'' \<or> (12 \<le> length s \<and> list_all is_hex s)"

definition plain_name :: "string \<Rightarrow> bool" where
  "plain_name s \<longleftrightarrow> \<not> id_like s"

definition derived_id :: "string \<Rightarrow> string \<Rightarrow> bool" where
  "derived_id n i \<longleftrightarrow> i = created_id n"

definition by_name :: "container list \<Rightarrow> string \<rightharpoonup> container" where
  "by_name cs = map_of (map (\<lambda>c. (ctName c, c)) cs)"

definition fake_view :: "fake \<Rightarrow> engine_view" where
  "fake_view c = \<lparr>vwHeld = by_name (fkContainers c), vwNets = nwName ` set (fkNetworks c), vwVols = vlName ` set (fkVolumes c)\<rparr>"

definition tidy :: "container list \<Rightarrow> bool" where
  "tidy cs \<longleftrightarrow> distinct (map ctID cs) \<and> distinct (map ctName cs) \<and> list_all (\<lambda>c. id_like (ctID c) \<and> plain_name (ctName c)) cs"

text \<open>With \<open>b\<close> a failure may be injected into removal too.\<close>

definition fake_ok :: "bool \<Rightarrow> fake \<Rightarrow> bool" where
  "fake_ok b c \<longleftrightarrow> tidy (fkContainers c)
     \<and> (case map_of (fkErrs c) OpRemoveContainer of None \<Rightarrow> True | Some e \<Rightarrow> b \<and> \<not> IsNotFound e)"

section \<open>Containers by name\<close>

lemma tidyD:
  assumes "tidy cs"
  shows "distinct (map ctID cs)" "distinct (map ctName cs)" "c \<in> set cs \<Longrightarrow> id_like (ctID c)" "c \<in> set cs \<Longrightarrow> plain_name (ctName c)"
  using assms by (auto simp: tidy_def list_all_iff)

lemma tidy_filter: "tidy cs \<Longrightarrow> tidy (filter P cs)"
  by (auto simp: tidy_def list_all_iff distinct_map_filter)

lemma by_name_Some: "distinct (map ctName cs) \<Longrightarrow> by_name cs n = Some c \<longleftrightarrow> c \<in> set cs \<and> ctName c = n"
  by (induction cs) (auto simp: by_name_def image_iff)

lemma by_name_None: "by_name cs n = None \<longleftrightarrow> n \<notin> ctName ` set cs"
  by (induction cs) (auto simp: by_name_def)

text \<open>Maps from names are equal when they hold the same containers.\<close>

lemma by_name_eqI:
  assumes "distinct (map ctName cs)" "\<And>n c. m n = Some c \<longleftrightarrow> c \<in> set cs \<and> ctName c = n"
  shows "by_name cs = m"
proof
  show "by_name cs n = m n" for n
    using by_name_Some [OF assms(1), of n] assms(2) [of n] by (metis option.exhaust)
qed

lemma by_name_append:
  assumes "distinct (map ctName cs)" "ctName c \<notin> ctName ` set cs"
  shows "by_name (cs @ [c]) = (by_name cs)(ctName c \<mapsto> c)"
  using assms by (intro by_name_eqI) (auto simp: by_name_Some image_iff split: if_splits)

text \<open>Among tidy containers an ID addresses one container, which is the one a name search finds.\<close>

lemma goes_by_id:
  assumes "tidy cs" "c \<in> set cs" "x \<in> set cs"
  shows "goes_by (ctID c) x \<longleftrightarrow> x = c"
proof -
  have "ctName x \<noteq> ctID c" using tidyD(3,4) [OF assms(1)] assms(2,3) unfolding plain_name_def by metis
  then show ?thesis using tidyD(1) [OF assms(1)] assms(2,3) by (auto simp: goes_by_def distinct_map dest: inj_onD)
qed

lemma goes_by_name:
  assumes "tidy cs" "c \<in> set cs" "x \<in> set cs"
  shows "goes_by (ctName c) x \<longleftrightarrow> x = c"
proof -
  have "ctID x \<noteq> ctName c" using tidyD(3,4) [OF assms(1)] assms(2,3) unfolding plain_name_def by metis
  then show ?thesis using tidyD(2) [OF assms(1)] assms(2,3) by (auto simp: goes_by_def distinct_map dest: inj_onD)
qed

lemma tidy_distinct: "tidy cs \<Longrightarrow> distinct cs"
  using tidyD(1) by (simp add: distinct_map)

text \<open>The first element that satisfies a predicate, where only one does.\<close>

lemma sole_first:
  assumes "distinct cs" "c \<in> set cs" "\<forall>x\<in>set cs. P x \<longleftrightarrow> x = c"
  shows "find P cs = Some c" "update_first P f cs = map (\<lambda>x. if x = c then f x else x) cs" "remove_first P cs = filter (\<lambda>x. x \<noteq> c) cs"
proof -
  show "find P cs = Some c" using assms(2,3) by (metis find_SomeD find_eq_None not_Some_eq)
  show "update_first P f cs = map (\<lambda>x. if x = c then f x else x) cs" using assms(1,3)
    by (induction cs) (auto intro: map_idI [symmetric])
  show "remove_first P cs = filter (\<lambda>x. x \<noteq> c) cs" using assms(1,3)
    by (induction cs) (auto intro: filter_True [symmetric])
qed

lemma last_first:
  assumes "\<forall>x\<in>set cs. \<not> P x" "P y"
  shows "find P (cs @ [y]) = Some y" "update_first P f (cs @ [y]) = cs @ [f y]" "remove_first P (cs @ [y]) = cs"
  using assms by (induction cs) auto

lemma by_id:
  assumes "tidy cs" "c \<in> set cs"
  shows "find (goes_by (ctID c)) cs = Some c" "update_first (goes_by (ctID c)) f cs = map (\<lambda>x. if x = c then f x else x) cs"
    "remove_first (goes_by (ctID c)) cs = filter (\<lambda>x. x \<noteq> c) cs"
  using sole_first [OF tidy_distinct [OF assms(1)] assms(2), of "goes_by (ctID c)"] goes_by_id [OF assms] by blast+

lemma addressed_by_name:
  assumes "tidy cs" "c \<in> set cs"
  shows "find (goes_by (ctName c)) cs = Some c" "update_first (goes_by (ctName c)) f cs = map (\<lambda>x. if x = c then f x else x) cs"
  using sole_first [OF tidy_distinct [OF assms(1)] assms(2), of "goes_by (ctName c)"] goes_by_name [OF assms] by blast+

lemmas find_id = by_id(1) and update_first_id = by_id(2) and remove_first_id = by_id(3)

lemma containerExists_id: "tidy (fkContainers c) \<Longrightarrow> ct \<in> set (fkContainers c) \<Longrightarrow> containerExists (ctID ct) c"
  by (auto simp: containerExists_def list_ex_iff goes_by_def)

lemma same_name:
  assumes "distinct (map ctName cs)" "a \<in> set cs" "b \<in> set cs" "ctName a = ctName b"
  shows "a = b"
  using assms by (auto simp: distinct_map dest: inj_onD)

lemma by_name_remove:
  assumes "distinct (map ctName cs)" "c \<in> set cs"
  shows "by_name (filter (\<lambda>x. x \<noteq> c) cs) = (by_name cs)(ctName c := None)"
  using assms same_name [OF assms(1)]
  by (intro by_name_eqI) (auto simp: by_name_Some distinct_map_filter split: if_splits)

lemma by_name_change:
  assumes "distinct (map ctName cs)" "c \<in> set cs" "ctName (f c) = ctName c"
  shows "by_name (map (\<lambda>x. if x = c then f x else x) cs) = (by_name cs)(ctName c \<mapsto> f c)"
proof (rule by_name_eqI)
  have "map ctName (map (\<lambda>x. if x = c then f x else x) cs) = map ctName cs" using assms(3) by auto
  then show "distinct (map ctName (map (\<lambda>x. if x = c then f x else x) cs))" using assms(1) by (simp only:)
  show "((by_name cs)(ctName c \<mapsto> f c)) n = Some d
      \<longleftrightarrow> d \<in> set (map (\<lambda>x. if x = c then f x else x) cs) \<and> ctName d = n" for n d
    using assms same_name [OF assms(1)] by (auto simp: by_name_Some image_iff split: if_splits)
qed

lemma tidy_change:
  assumes "tidy cs" "c \<in> set cs" "ctID (f c) = ctID c" "ctName (f c) = ctName c"
  shows "tidy (map (\<lambda>x. if x = c then f x else x) cs)"
proof -
  have "map ctID (map (\<lambda>x. if x = c then f x else x) cs) = map ctID cs"
    "map ctName (map (\<lambda>x. if x = c then f x else x) cs) = map ctName cs"
    using assms(3,4) by auto
  moreover have "list_all (\<lambda>c. id_like (ctID c) \<and> plain_name (ctName c)) (map (\<lambda>x. if x = c then f x else x) cs)"
    using assms by (auto simp: tidy_def list_all_iff)
  ultimately show ?thesis using tidyD(1,2) [OF assms(1)] unfolding tidy_def by (simp only: simp_thms)
qed

section \<open>Running the operations\<close>

definition logged :: "string \<Rightarrow> string \<Rightarrow> fake \<Rightarrow> fake" where
  "logged op i c = c\<lparr>fkCalls := fkCalls c @ [\<lparr>fcOp = op, fcID = i\<rparr>]\<rparr>"

lemma logged_sel [simp]:
  "fkContainers (logged op i c) = fkContainers c" "fkNetworks (logged op i c) = fkNetworks c" "fkVolumes (logged op i c) = fkVolumes c"
  "fkErrs (logged op i c) = fkErrs c" "fake_view (logged op i c) = fake_view c" "fake_ok b (logged op i c) \<longleftrightarrow> fake_ok b c"
  "containerExists x (logged op i c) \<longleftrightarrow> containerExists x c"
  by (simp_all add: logged_def fake_view_def fake_ok_def containerExists_def)

text \<open>An operation logs itself, and goes on unless a failure was injected into it.\<close>

lemma after_record:
  "thenE (fake_record op i) m c = (case map_of (fkErrs c) op of Some e \<Rightarrow> (Inl e, logged op i c) | None \<Rightarrow> m (logged op i c))"
  by (simp add: thenE_run fake_record_def logged_def Let_def split: option.split)

lemma after_recordE:
  assumes "thenE (fake_record op i) m c = (r, c')"
  obtains (injected) e where "map_of (fkErrs c) op = Some e" "r = Inl e" "c' = logged op i c"
  | (ran) "m (logged op i c) = (r, c')"
proof (cases "map_of (fkErrs c) op")
  case None
  then show thesis using assms ran unfolding after_record by simp
next
  case (Some e)
  then show thesis using assms injected unfolding after_record by simp
qed

lemma held_in: "fake_ok b c \<Longrightarrow> vwHeld (fake_view c) n = Some ct \<longleftrightarrow> ct \<in> set (fkContainers c) \<and> ctName ct = n"
  using tidyD(2) by (auto simp: fake_ok_def fake_view_def by_name_Some)

lemma fake_view_containers: "fake_view (c\<lparr>fkContainers := cs, fkDetails := ds\<rparr>) = (fake_view c)\<lparr>vwHeld := by_name cs\<rparr>"
  by (simp add: fake_view_def)

lemma change_law:
  assumes "fake_ok b c" "ct \<in> set (fkContainers c)" "ctID (f ct) = ctID ct" "ctName (f ct) = ctName ct"
  shows "fake_ok b (change_container (ctID ct) f c)" "fake_view (change_container (ctID ct) f c) = put (ctName ct) (f ct) (fake_view c)"
proof -
  have t: "tidy (fkContainers c)" using assms(1) by (simp add: fake_ok_def)
  have c: "change_container (ctID ct) f c = c\<lparr>fkContainers := map (\<lambda>x. if x = ct then f x else x) (fkContainers c),
      fkDetails := on_detail (ctID ct) f (fkDetails c)\<rparr>"
    using find_id [OF t assms(2)] update_first_id [OF t assms(2)] by (simp add: change_container_def)
  show "fake_ok b (change_container (ctID ct) f c)"
    using tidy_change [where f = f, OF t assms(2-4)] assms(1) unfolding c by (simp add: fake_ok_def)
  show "fake_view (change_container (ctID ct) f c) = put (ctName ct) (f ct) (fake_view c)"
    using by_name_change [where f = f, OF tidyD(2) [OF t] assms(2,4)] unfolding c fake_view_containers
    by (simp add: put_def fake_view_def)
qed

lemma lifecycle_law:
  assumes "fake_ok b c" "vwHeld (fake_view c) n = Some ct" "lifecycle op verb s (ctID ct) c = (r, c')"
  shows "fake_ok b c' \<and> fake_view c' = (if isl r then fake_view c else put n (in_state s ct) (fake_view c))"
proof -
  have ct: "ct \<in> set (fkContainers c)" "ctName ct = n" using held_in [OF assms(1)] assms(2) by auto
  have ex: "containerExists (ctID ct) c" using containerExists_id [of c ct] ct(1) assms(1) by (simp add: fake_ok_def)
  show ?thesis using assms(3) unfolding lifecycle_def
  proof (cases rule: after_recordE)
    case ran
    with ex have "r = Inr ()" "c' = change_container (ctID ct) (in_state s) (logged op (ctID ct) c)"
      by (auto simp: setState_def in_state_def [abs_def])
    then show ?thesis using change_law [of b "logged op (ctID ct) c" ct "in_state s"] assms(1) ct by simp
  qed (use assms(1) in simp)
qed

lemma remove_fake:
  assumes "fake_ok b c" "vwHeld (fake_view c) n = Some ct" "Fake_RemoveContainer (ctID ct) x c = (r, c')"
  shows "fake_ok b c' \<and> (case r of Inl e \<Rightarrow> fake_view c' = fake_view c \<and> \<not> IsNotFound e | Inr _ \<Rightarrow> fake_view c' = clear n (fake_view c))"
proof -
  have t: "tidy (fkContainers c)" using assms(1) by (simp add: fake_ok_def)
  have ct: "ct \<in> set (fkContainers c)" "ctName ct = n" using held_in [OF assms(1)] assms(2) by auto
  show ?thesis using assms(3) unfolding Fake_RemoveContainer_def
  proof (cases rule: after_recordE)
    case injected
    then show ?thesis using assms(1) by (simp add: fake_ok_def)
  next
    case ran
    show ?thesis
    proof (cases "ctState ct = ''running'' \<and> \<not> xoForce x")
      case True
      then show ?thesis using ran find_id [OF t ct(1)] assms(1) by (auto simp: IsNotFound_def NewError_def)
    next
      case False
      then have r: "r = Inr ()" "c' = (logged OpRemoveContainer (ctID ct) c)\<lparr>fkContainers := filter (\<lambda>x. x \<noteq> ct) (fkContainers c),
          fkDetails := filter (\<lambda>e. fst e \<noteq> ctID ct) (fkDetails (logged OpRemoveContainer (ctID ct) c))\<rparr>"
        using ran find_id [OF t ct(1)] remove_first_id [OF t ct(1)] by auto
      have "by_name (filter (\<lambda>x. x \<noteq> ct) (fkContainers c)) = (by_name (fkContainers c))(n := None)"
        using by_name_remove [OF tidyD(2) [OF t] ct(1)] ct(2) by simp
      then show ?thesis using tidy_filter [OF t] assms(1) unfolding r
        by (simp add: fake_view_def clear_def fake_ok_def)
    qed
  qed
qed

lemma tidy_append:
  assumes "tidy cs" "ctID c \<notin> ctID ` set cs" "ctName c \<notin> ctName ` set cs" "id_like (ctID c)" "plain_name (ctName c)"
  shows "tidy (cs @ [c])"
  using assms by (auto simp: tidy_def)

lemma create_fake:
  assumes "fake_ok b c" "vwHeld (fake_view c) (crName s) = None" "plain_name (crName s)"
    and fresh: "\<forall>m ct. vwHeld (fake_view c) m = Some ct \<longrightarrow> \<not> derived_id (crName s) (ctID ct)"
    and "Fake_CreateContainer s c = (r, c')"
  shows "fake_ok b c' \<and> (case r of
        Inl _ \<Rightarrow> fake_view c' = fake_view c
      | Inr i \<Rightarrow> \<exists>ct. fake_view c' = put (crName s) ct (fake_view c) \<and> ctID ct = i \<and> ctName ct = crName s \<and> ctLabels ct = spec_labels s
          \<and> (\<forall>m. m \<noteq> crName s \<longrightarrow> \<not> derived_id m i))"
  using assms(5) unfolding Fake_CreateContainer_def
proof (cases rule: after_recordE)
  case ran
  let ?k = "created_container s"
  have k: "ctName ?k = crName s" "ctID ?k = created_id (crName s)" "ctLabels ?k = spec_labels s"
    by (simp_all add: created_container_def spec_labels_def)
  have t: "tidy (fkContainers c)" using assms(1) by (simp add: fake_ok_def)
  have new: "ctName ?k \<notin> ctName ` set (fkContainers c)"
    using assms(2) by (simp add: fake_view_def by_name_None k(1))
  have "ctID ?k \<notin> ctID ` set (fkContainers c)"
    using fresh held_in [OF assms(1)] by (fastforce simp: derived_id_def k(2))
  moreover have "id_like (ctID ?k)" by (simp add: id_like_def k(2) has_prefix_def created_id_def)
  ultimately have t': "tidy (fkContainers c @ [?k])"
    using tidy_append [OF t _ new] assms(3) by (simp add: k(1))
  have r: "r = Inr (ctID ?k)" "fkContainers c' = fkContainers c @ [?k]" "fkErrs c' = fkErrs c"
    "fkNetworks c' = fkNetworks c" "fkVolumes c' = fkVolumes c"
    using ran by (auto simp: Let_def)
  have "fake_view c' = put (crName s) ?k (fake_view c)"
    using by_name_append [OF tidyD(2) [OF t] new] by (simp add: fake_view_def put_def r k(1))
  then show ?thesis using assms(1) t' k unfolding r(1)
    by (auto simp: fake_ok_def r derived_id_def created_id_def)
qed (use assms(1) in simp)

lemma tidy_renamed:
  assumes "tidy cs" "c \<in> set cs" "m \<notin> ctName ` set cs" "plain_name m"
  shows "tidy (map (\<lambda>x. if x = c then x\<lparr>ctName := m, ctNames := [m]\<rparr> else x) cs)" (is "tidy ?ds")
proof -
  have "inj_on (ctName \<circ> (\<lambda>x. if x = c then x\<lparr>ctName := m, ctNames := [m]\<rparr> else x)) (set cs)"
    using assms(3) same_name [OF tidyD(2) [OF assms(1)]] by (auto simp: inj_on_def)
  then have "distinct (map ctName ?ds)" using tidy_distinct [OF assms(1)] by (simp add: distinct_map)
  moreover have "map ctID ?ds = map ctID cs" by auto
  then have "distinct (map ctID ?ds)" using tidyD(1) [OF assms(1)] by (simp only:)
  ultimately show ?thesis using assms by (auto simp: tidy_def list_all_iff)
qed

lemma rename_fake:
  assumes "fake_ok b c" "vwHeld (fake_view c) n = Some ct" "vwHeld (fake_view c) m = None" "plain_name m"
    and "Fake_RenameContainer (ctID ct) m c = (r, c')"
  shows "fake_ok b c' \<and> fake_view c' = (if isl r then fake_view c else put m (ct\<lparr>ctName := m, ctNames := [m]\<rparr>) (clear n (fake_view c)))"
  using assms(5) unfolding Fake_RenameContainer_def
proof (cases rule: after_recordE)
  case ran
  let ?f = "\<lambda>ct. ct\<lparr>ctName := m, ctNames := [m]\<rparr>" and ?cs = "fkContainers c"
  let ?ds = "map (\<lambda>x. if x = ct then ?f x else x) ?cs"
  have t: "tidy ?cs" using assms(1) by (simp add: fake_ok_def)
  have ct: "ct \<in> set ?cs" "ctName ct = n" using held_in [OF assms(1)] assms(2) by auto
  have m: "m \<notin> ctName ` set ?cs" using assms(3) by (simp add: fake_view_def by_name_None)
  have r: "r = Inr ()" "fkContainers c' = ?ds" "fkErrs c' = fkErrs c" "fkNetworks c' = fkNetworks c" "fkVolumes c' = fkVolumes c"
    using ran find_id [OF t ct(1)] update_first_id [OF t ct(1), of ?f] by auto
  have tidy: "tidy ?ds" by (rule tidy_renamed [OF t ct(1) m assms(4)])
  moreover have "by_name ?ds = (by_name ?cs)(n := None, m \<mapsto> ?f ct)"
    using tidyD(2) [OF tidy] ct m same_name [OF tidyD(2) [OF t]]
    by (intro by_name_eqI) (auto simp: by_name_Some [OF tidyD(2) [OF t]] image_iff split: if_splits)
  ultimately show ?thesis using assms(1) by (simp add: r fake_ok_def fake_view_def put_def clear_def)
qed (use assms(1) in simp)

lemma list_fake:
  assumes "fake_ok b c" "CHR ''='' \<notin> set k" "Fake_ListContainers (by_label k v) c = (r, c')"
  shows "fake_ok b c' \<and> fake_view c' = fake_view c
    \<and> (\<forall>cs. r = Inr cs \<longrightarrow> distinct (map ctName cs) \<and> set cs = {ct. \<exists>n. vwHeld (fake_view c) n = Some ct \<and> carries k v ct})"
  using assms(3) unfolding Fake_ListContainers_def
proof (cases rule: after_recordE)
  case ran
  have "str_cut (CHR ''='') (k @ ''='' @ v) = (k, v, True)" using str_cut_append [OF assms(2), of v] by simp
  then have "listed (by_label k v) ct = carries k v ct" for ct
    by (auto simp: listed_def by_label_def matchesLabels_def carries_def split: option.split)
  then have "r = Inr (filter (carries k v) (fkContainers c))" "c' = logged OpListContainers [] c"
    using ran by (simp_all add: readE_run cong: filter_cong)
  moreover have "distinct (map ctName (filter (carries k v) (fkContainers c)))"
    using assms(1) tidyD(2) [of "fkContainers c"] by (simp add: fake_ok_def distinct_map_filter)
  moreover have "set (filter (carries k v) (fkContainers c)) = {ct. \<exists>n. vwHeld (fake_view c) n = Some ct \<and> carries k v ct}"
    using held_in [OF assms(1)] by auto
  ultimately show ?thesis using assms(1) by simp
qed (use assms(1) in simp)

text \<open>Calls that leave the containers alone.\<close>

lemma record_fake: "fake_ok b c \<Longrightarrow> fake_record op i c = (r, c') \<Longrightarrow> fake_ok b c' \<and> fake_view c' = fake_view c"
  using logged_sel(5) [of op i c] logged_sel(6) [of b op i c]
  by (auto simp: fake_record_def Let_def logged_def split: option.splits)

lemma inspect_fake:
  assumes "fake_ok b c" "vwHeld (fake_view c) n = Some ct" "Fake_RawInspectConfig (ctID ct) c = (r, c')"
  shows "fake_ok b c' \<and> fake_view c' = fake_view c \<and> (\<forall>s. r = Inr s \<longrightarrow> crName s = n)"
proof -
  have "find (goes_by (ctID ct)) (fkContainers c) = Some ct" "ctName ct = n"
    using held_in [OF assms(1)] assms(1,2) find_id by (auto simp: fake_ok_def)
  then show ?thesis using assms(3) unfolding Fake_RawInspectConfig_def
    by (elim after_recordE) (use assms(1) in auto)
qed

lemma keeps_record [keeps_intros]: "keeps (\<lambda>c. fake_ok b c \<and> fake_view c = v) (fake_record op i)"
  by (rule keepsI) (metis (no_types, lifting) record_fake prod.collapse)

lemma keeps_read: "(\<And>c. snd (m c) = c) \<Longrightarrow> keeps I m"
  by (rule keepsI) simp

lemma keeps_inspect [keeps_intros]: "keeps (\<lambda>c. fake_ok b c \<and> fake_view c = v) (Fake_InspectNetwork i)"
  unfolding Fake_InspectNetwork_def by (intro keeps_intros keeps_read) (simp split: option.split)

lemma networks_change:
  "fake_ok b (c\<lparr>fkNetworks := ns\<rparr>) \<longleftrightarrow> fake_ok b c"
  "nwName ` set ns = nwName ` set (fkNetworks c) \<Longrightarrow> fake_view (c\<lparr>fkNetworks := ns\<rparr>) = fake_view c"
  by (simp_all add: fake_ok_def fake_view_def)

lemma attach_fake:
  assumes "fake_ok b c" "\<And>n. nwName (count n) = nwName n" "attach op verb net i count c = (r, c')"
  shows "fake_ok b c' \<and> fake_view c' = fake_view c"
proof -
  have "map nwName (update_where P count ns) = map nwName ns" for P ns by (simp add: update_where_def assms(2))
  then have names: "nwName ` set (update_where P count ns) = nwName ` set ns" for P ns by (metis set_map)
  have "keeps (\<lambda>c'. fake_ok b c' \<and> fake_view c' = fake_view c) (attach op verb net i count)"
    unfolding attach_def
    by (intro keeps_intros keepsI) (auto simp: networks_change names simp del: set_update_where)
  from keeps_run [OF this _ assms(3)] assms(1) show ?thesis by simp
qed

lemma pull_fake: "fake_ok b c \<Longrightarrow> Fake_PullImageProgress ref auth c = (r, c') \<Longrightarrow> fake_ok b c' \<and> fake_view c' = fake_view c"
  using record_fake [of b c OpPullImageProgress ref]
  by (auto simp: Fake_PullImageProgress_def attemptE_run split: prod.splits sum.splits)

lemma networks_fake:
  "fake_ok b c \<Longrightarrow> Fake_ListNetworks c = (r, c') \<Longrightarrow> fake_ok b c' \<and> fake_view c' = fake_view c
    \<and> (\<forall>ns. r = Inr ns \<longrightarrow> nwName ` set ns = vwNets (fake_view c))"
  unfolding Fake_ListNetworks_def by (erule after_recordE) (auto simp: readE_run, auto simp: fake_view_def)

lemma volumes_fake:
  "fake_ok b c \<Longrightarrow> Fake_ListVolumes c = (r, c') \<Longrightarrow> fake_ok b c' \<and> fake_view c' = fake_view c
    \<and> (\<forall>vs. r = Inr vs \<longrightarrow> vlName ` set vs = vwVols (fake_view c))"
  unfolding Fake_ListVolumes_def by (erule after_recordE) (auto simp: readE_run, auto simp: fake_view_def)

lemma network_fake:
  assumes "fake_ok b c" "Fake_CreateNetwork no c = (r, c')"
  shows "fake_ok b c' \<and> fake_view c' = (if isl r then fake_view c else (fake_view c)\<lparr>vwNets := insert (noName no) (vwNets (fake_view c))\<rparr>)"
  using assms(2) unfolding Fake_CreateNetwork_def
  by (cases rule: after_recordE)
    (use assms(1) in \<open>auto simp: fake_ok_def fake_view_def created_network_def split: if_splits\<close>)

lemma volume_fake:
  assumes "fake_ok b c" "Fake_CreateVolume vo c = (r, c')"
  shows "fake_ok b c' \<and> fake_view c' = (if isl r then fake_view c else (fake_view c)\<lparr>vwVols := insert (voName vo) (vwVols (fake_view c))\<rparr>)"
  using assms(2) unfolding Fake_CreateVolume_def
proof (cases rule: after_recordE)
  case ran
  show ?thesis
  proof (cases "find (\<lambda>v. vlName v = voName vo) (fkVolumes c)")
    case None
    then show ?thesis using ran assms(1) by (auto simp: fake_ok_def fake_view_def created_volume_def)
  next
    case (Some v)
    then have "voName vo \<in> vlName ` set (fkVolumes c)" by (force dest: find_SomeD)
    then show ?thesis using Some ran assms(1) by (auto simp: fake_view_def insert_absorb)
  qed
qed (use assms(1) in simp)

lemma fake_client_ops [simp]:
  "ListContainers fake_client = Fake_ListContainers"
  "InspectContainer fake_client = Fake_InspectContainer"
  "StartContainer fake_client = Fake_StartContainer"
  "StopContainer fake_client = Fake_StopContainer"
  "RestartContainer fake_client = Fake_RestartContainer"
  "RemoveContainer fake_client = Fake_RemoveContainer"
  "RenameContainer fake_client = Fake_RenameContainer"
  "CreateContainer fake_client = Fake_CreateContainer"
  "RawInspectConfig fake_client = Fake_RawInspectConfig"
  "PullImage fake_client = Fake_PullImage"
  "PullImageProgress fake_client = Fake_PullImageProgress"
  "ListVolumes fake_client = Fake_ListVolumes"
  "CreateVolume fake_client = Fake_CreateVolume"
  "ListNetworks fake_client = Fake_ListNetworks"
  "CreateNetwork fake_client = Fake_CreateNetwork"
  "ConnectNetwork fake_client = Fake_ConnectNetwork"
  "RemoveNetwork fake_client = Fake_RemoveNetwork"
  "RemoveVolume fake_client = Fake_RemoveVolume"
  by (simp_all add: fake_client_def)

lemma set_remove_first: "set (remove_first P xs) \<subseteq> set xs" "x \<in> set xs \<Longrightarrow> \<not> P x \<Longrightarrow> x \<in> set (remove_first P xs)"
  by (induction xs) auto

lemma remove_network_fake:
  assumes "fake_ok b c" "Fake_RemoveNetwork i c = (r, c')"
  shows "fake_ok b c' \<and> (\<exists>N \<subseteq> vwNets (fake_view c). fake_view c' = (fake_view c)\<lparr>vwNets := N\<rparr>)"
  using assms(2) unfolding Fake_RemoveNetwork_def
proof (cases rule: after_recordE)
  case injected
  then show ?thesis using assms(1) by (intro conjI exI [of _ "vwNets (fake_view c)"]) simp_all
next
  case ran
  then have "c' = logged OpRemoveNetwork i c \<or> c' = (logged OpRemoveNetwork i c)\<lparr>fkNetworks := remove_first (network_is i) (fkNetworks c)\<rparr>"
    by (auto simp: logged_def split: option.splits if_splits)
  moreover have "nwName ` set (remove_first (network_is i) (fkNetworks c)) \<subseteq> nwName ` set (fkNetworks c)"
    by (rule image_mono [OF set_remove_first(1)])
  moreover have "fake_ok b c'" using calculation(1) assms(1) by (auto simp: fake_ok_def logged_def)
  moreover have "fake_view c' = (fake_view c)\<lparr>vwNets := nwName ` set (fkNetworks c')\<rparr>"
    using calculation(1) by (auto simp: fake_view_def logged_def)
  moreover have "set (fkNetworks c') = set (fkNetworks c) \<or> set (fkNetworks c') = set (remove_first (network_is i) (fkNetworks c))"
    using calculation(1) by (auto simp: logged_def)
  ultimately show ?thesis by (intro conjI exI [of _ "nwName ` set (fkNetworks c')"]) (auto simp: fake_view_def)
qed

lemma remove_volume_fake:
  assumes "fake_ok b c" "Fake_RemoveVolume i force c = (r, c')"
  shows "fake_ok b c' \<and> (\<exists>V \<subseteq> vwVols (fake_view c). vwVols (fake_view c) - {i} \<subseteq> V \<and> fake_view c' = (fake_view c)\<lparr>vwVols := V\<rparr>)"
  using assms(2) unfolding Fake_RemoveVolume_def
proof (cases rule: after_recordE)
  case injected
  then show ?thesis using assms(1) by (intro conjI exI [of _ "vwVols (fake_view c)"]) auto
next
  case ran
  let ?V = "remove_first (\<lambda>v. vlName v = i) (fkVolumes c)"
  from ran have "c' = logged OpRemoveVolume i c \<or> c' = (logged OpRemoveVolume i c)\<lparr>fkVolumes := ?V\<rparr>"
    by (auto simp: logged_def split: option.splits if_splits)
  moreover have "vlName ` set ?V \<subseteq> vlName ` set (fkVolumes c)" by (rule image_mono [OF set_remove_first(1)])
  moreover have "vlName ` set (fkVolumes c) - {i} \<subseteq> vlName ` set ?V"
    using set_remove_first(2) [of _ "fkVolumes c" "\<lambda>v. vlName v = i"] by auto
  moreover have "fake_ok b c'" using calculation(1) assms(1) by (auto simp: fake_ok_def logged_def)
  moreover have "fake_view c' = (fake_view c)\<lparr>vwVols := vlName ` set (fkVolumes c')\<rparr>"
    using calculation(1) by (auto simp: fake_view_def logged_def)
  moreover have "set (fkVolumes c') = set (fkVolumes c) \<or> set (fkVolumes c') = set ?V" using calculation(1) by (auto simp: logged_def)
  ultimately show ?thesis by (intro conjI exI [of _ "vlName ` set (fkVolumes c')"]) (auto simp: fake_view_def)
qed

interpretation mem: engine_contract fake_client fake_view "fake_ok b" plain_name derived_id for b
proof (unfold_locales, goal_cases)
  case 1 then show ?case unfolding fake_client_ops by (rule held_in [THEN iffD1, THEN conjunct2])
next
  case 2 then show ?case unfolding fake_client_ops by (rule list_fake)
next
  case 3 then show ?case unfolding fake_client_ops Fake_StartContainer_def by (rule lifecycle_law)
next
  case 4 then show ?case unfolding fake_client_ops Fake_StopContainer_def by (rule lifecycle_law)
next
  case 5 then show ?case unfolding fake_client_ops Fake_RestartContainer_def by (rule lifecycle_law)
next
  case 6 then show ?case unfolding fake_client_ops by (rule remove_fake)
next
  case 7 then show ?case unfolding fake_client_ops by (rule rename_fake)
next
  case 8 then show ?case unfolding fake_client_ops by (rule create_fake)
next
  case 9 then show ?case unfolding fake_client_ops by (rule inspect_fake)
next
  case 10 then show ?case unfolding fake_client_ops Fake_ConnectNetwork_def by - (rule attach_fake, simp_all)
next
  case 11 then show ?case unfolding fake_client_ops by (rule pull_fake)
next
  case 12 then show ?case unfolding fake_client_ops Fake_PullImage_def by (rule record_fake)
next
  case 13 then show ?case unfolding fake_client_ops by (rule networks_fake)
next
  case 14 then show ?case unfolding fake_client_ops by (rule network_fake)
next
  case 15 then show ?case unfolding fake_client_ops by (rule volumes_fake)
next
  case 16 then show ?case unfolding fake_client_ops by (rule volume_fake)
next
  case 17 then show ?case unfolding fake_client_ops by (rule remove_network_fake)
next
  case 18 then show ?case unfolding fake_client_ops by (rule remove_volume_fake)
qed

interpretation mem_forced: forcing_engine fake_client fake_view "fake_ok False" plain_name derived_id
proof
  fix d :: fake and n c and x :: remove_options
  assume ok: "fake_ok False d" and held: "vwHeld (fake_view d) n = Some c" and force: "xoForce x"
  have "find (goes_by (ctID c)) (fkContainers d) = Some c"
    using held_in [OF ok] ok held find_id by (auto simp: fake_ok_def)
  moreover have "map_of (fkErrs d) OpRemoveContainer = None" using ok by (auto simp: fake_ok_def split: option.splits)
  ultimately show "\<not> isl (fst (RemoveContainer fake_client (ctID c) x d))"
    using force by (simp add: Fake_RemoveContainer_def after_record)
qed

end
