(* ===== verification/Containers.thy ===== *)
theory Containers
  imports Host Text_Formats Fake_Laws
begin

text \<open>
  The container service: internal/service/container.go and, of stream.go, the batch, the
  lifecycle verbs and the redeploy. Every operation takes the engine's client. A call of Go
  that returns a value next to an error returns the pair of both here.
\<close>

section \<open>One container\<close>

definition normalizeID :: "string \<Rightarrow> host_error + string" where
  "normalizeID i = (let t = trim_space i in if t = '''' then Inl ErrEmptyID else Inr t)"

definition Container_List :: "'d docker_client \<Rightarrow> list_options \<Rightarrow> ('d, container list) act" where
  "Container_List dc opts = on_engine (ListContainers dc opts)"

definition Container_Get :: "'d docker_client \<Rightarrow> string \<Rightarrow> ('d, container_detail) act" where
  "Container_Get dc i = (case normalizeID i of Inl e \<Rightarrow> throwE e | Inr j \<Rightarrow> on_engine (InspectContainer dc j))"

definition Container_record :: "string \<Rightarrow> string \<Rightarrow> detail option \<Rightarrow> actor \<Rightarrow> request_meta \<Rightarrow> (string \<Rightarrow> ('d, unit) act) \<Rightarrow> ('d, unit) act" where
  "Container_record action i det who meta fn =
     (case normalizeID i of
        Inl e \<Rightarrow> throwE e
      | Inr j \<Rightarrow> audited (fn j) (\<lambda>r. audit_note who meta action ''container'' j (err_of r) det))"

definition timeoutDetail :: "int option \<Rightarrow> detail option" where
  "timeoutDetail timeout = map_option (\<lambda>t. [(''timeout'', a_int t)]) timeout"

definition Container_Start :: "'d docker_client \<Rightarrow> string \<Rightarrow> actor \<Rightarrow> request_meta \<Rightarrow> ('d, unit) act" where
  "Container_Start dc i who meta = Container_record ''container.start'' i None who meta (\<lambda>j. on_engine (StartContainer dc j))"

definition Container_Stop :: "'d docker_client \<Rightarrow> string \<Rightarrow> int option \<Rightarrow> actor \<Rightarrow> request_meta \<Rightarrow> ('d, unit) act" where
  "Container_Stop dc i timeout who meta =
     Container_record ''container.stop'' i (timeoutDetail timeout) who meta (\<lambda>j. on_engine (StopContainer dc j timeout))"

definition Container_Restart :: "'d docker_client \<Rightarrow> string \<Rightarrow> int option \<Rightarrow> actor \<Rightarrow> request_meta \<Rightarrow> ('d, unit) act" where
  "Container_Restart dc i timeout who meta =
     Container_record ''container.restart'' i (timeoutDetail timeout) who meta (\<lambda>j. on_engine (RestartContainer dc j timeout))"

definition Container_Remove :: "'d docker_client \<Rightarrow> string \<Rightarrow> remove_options \<Rightarrow> actor \<Rightarrow> request_meta \<Rightarrow> ('d, unit) act" where
  "Container_Remove dc i opts who meta =
     Container_record ''container.remove'' i (Some [(''force'', a_bool (xoForce opts)), (''volumes'', a_bool (xoRemoveVolumes opts))]) who meta
       (\<lambda>j. on_engine (RemoveContainer dc j opts))"

definition Container_Pause :: "'d docker_client \<Rightarrow> string \<Rightarrow> actor \<Rightarrow> request_meta \<Rightarrow> ('d, unit) act" where
  "Container_Pause dc i who meta = Container_record ''container.pause'' i None who meta (\<lambda>j. on_engine (PauseContainer dc j))"

definition Container_Unpause :: "'d docker_client \<Rightarrow> string \<Rightarrow> actor \<Rightarrow> request_meta \<Rightarrow> ('d, unit) act" where
  "Container_Unpause dc i who meta = Container_record ''container.unpause'' i None who meta (\<lambda>j. on_engine (UnpauseContainer dc j))"

definition Container_Kill :: "'d docker_client \<Rightarrow> string \<Rightarrow> string \<Rightarrow> actor \<Rightarrow> request_meta \<Rightarrow> ('d, unit) act" where
  "Container_Kill dc i signal who meta =
     Container_record ''container.kill'' i (if signal \<noteq> '''' then Some [(''signal'', AString signal)] else None) who meta
       (\<lambda>j. on_engine (KillContainer dc j signal))"

definition Container_Rename :: "'d docker_client \<Rightarrow> string \<Rightarrow> string \<Rightarrow> actor \<Rightarrow> request_meta \<Rightarrow> ('d, unit) act" where
  "Container_Rename dc i newName who meta =
     (let name = trim_space newName in
      if name = '''' then throwE ErrEmptyID
      else Container_record ''container.rename'' i (Some [(''name'', AString name)]) who meta (\<lambda>j. on_engine (RenameContainer dc j name)))"

text \<open>A prune reports nothing when it fails; the entry then counts zero.\<close>

definition no_report :: prune_report where
  "no_report = \<lparr>prDeleted = [], prSpaceReclaimed = 0\<rparr>"

definition report_of :: "host_error + prune_report \<Rightarrow> prune_report" where
  "report_of r = (case r of Inl _ \<Rightarrow> no_report | Inr x \<Rightarrow> x)"

definition Container_Prune :: "'d docker_client \<Rightarrow> actor \<Rightarrow> request_meta \<Rightarrow> ('d, prune_report) act" where
  "Container_Prune dc who meta =
     audited (on_engine (PruneContainers dc)) (\<lambda>r. audit_note who meta ''container.prune'' ''container'' '''' (err_of r)
       (Some [(''deleted'', a_int (int (length (prDeleted (report_of r))))), (''space_reclaimed'', a_int (prSpaceReclaimed (report_of r)))]))"

section \<open>Several containers\<close>

record batch_result =
  brID :: string
  brOK :: bool
  brError :: string
  brCode :: string

definition kindCode :: "docker_error \<Rightarrow> string" where
  "kindCode e = (case deKind e of
       KindNotFound \<Rightarrow> ''NOT_FOUND''
     | KindConflict \<Rightarrow> ''CONFLICT''
     | KindUnavailable \<Rightarrow> ''DOCKER_UNAVAILABLE''
     | KindPermission \<Rightarrow> ''FORBIDDEN''
     | KindInvalid \<Rightarrow> ''BAD_REQUEST''
     | _ \<Rightarrow> ''DOCKER_ERROR'')"

definition actionFunc :: "'d docker_client \<Rightarrow> string \<Rightarrow> remove_options \<Rightarrow> (string \<Rightarrow> ('d, unit) call) option" where
  "actionFunc dc action opts =
     (if action = ''start'' then Some (StartContainer dc)
      else if action = ''stop'' then Some (\<lambda>i. StopContainer dc i None)
      else if action = ''restart'' then Some (\<lambda>i. RestartContainer dc i None)
      else if action = ''pause'' then Some (PauseContainer dc)
      else if action = ''unpause'' then Some (UnpauseContainer dc)
      else if action = ''kill'' then Some (\<lambda>i. KillContainer dc i '''')
      else if action = ''remove'' then Some (\<lambda>i. RemoveContainer dc i opts)
      else None)"

definition batch_outcome :: "string \<Rightarrow> docker_error + unit \<Rightarrow> batch_result" where
  "batch_outcome i r =
     (case r of
        Inl e \<Rightarrow> \<lparr>brID = i, brOK = False, brError = deMessage e, brCode = kindCode e\<rparr>
      | Inr _ \<Rightarrow> \<lparr>brID = i, brOK = True, brError = '''', brCode = ''''\<rparr>)"

definition batchError :: "batch_result \<Rightarrow> string option" where
  "batchError b = (if brOK b then None else Some (brError b))"

fun batch_loop :: "(string \<Rightarrow> ('d, unit) call) \<Rightarrow> string \<Rightarrow> detail \<Rightarrow> actor \<Rightarrow> request_meta \<Rightarrow> string list \<Rightarrow> ('d, batch_result list) act" where
  "batch_loop app action det who meta [] = returnE []"
| "batch_loop app action det who meta (i # is) =
     bindE (try_engine (app i)) (\<lambda>r.
     let b = batch_outcome i r in
     thenE (audit_note who meta (''container.'' @ action) ''container'' i (batchError b) (Some det))
     (bindE (batch_loop app action det who meta is) (\<lambda>bs. returnE (b # bs))))"

definition Batch :: "'d docker_client \<Rightarrow> string list \<Rightarrow> string \<Rightarrow> remove_options \<Rightarrow> actor \<Rightarrow> request_meta \<Rightarrow> ('d, batch_result list) act" where
  "Batch dc ids action opts who meta =
     (if ids = [] then throwE ErrEmptyID
      else if action \<noteq> ''remove'' \<and> (xoForce opts \<or> xoRemoveVolumes opts) then throwE ErrBatchOptions
      else case actionFunc dc action opts of
        None \<Rightarrow> throwE (ErrUnknownAction action)
      | Some app \<Rightarrow>
          batch_loop app action
            (if action = ''remove'' then [(''batch'', a_bool True), (''force'', a_bool (xoForce opts)), (''volumes'', a_bool (xoRemoveVolumes opts))]
             else [(''batch'', a_bool True)]) who meta ids)"

section \<open>Redeploy\<close>

record redeploy_result =
  rdOldID :: string
  rdNewID :: string
  rdImage :: string
  rdRolledBack :: bool

definition specImage :: "create_spec \<Rightarrow> string" where
  "specImage spec = (case crConfig spec of None \<Rightarrow> '''' | Some cfg \<Rightarrow> ecImage cfg)"

text \<open>\<open>time.Now().UTC().Format("20060102150405")\<close>\<close>

definition compact_time :: "time \<Rightarrow> string" where
  "compact_time t = filter is_digit (date_time t)"

definition parked_name :: "string \<Rightarrow> time \<Rightarrow> string" where
  "parked_name n t = n @ ''_old_'' @ compact_time t"

lemma parked_name_neq [simp]: "parked_name n t \<noteq> n" "n \<noteq> parked_name n t"
  by (simp_all add: parked_name_def)

definition auditRedeploy :: "actor \<Rightarrow> request_meta \<Rightarrow> string \<Rightarrow> redeploy_result \<Rightarrow> docker_error option \<Rightarrow> ('d, unit) act" where
  "auditRedeploy who meta i res err =
     audit_note who meta ''container.redeploy'' ''container'' i (map_option Error_text err)
       (Some [(''image'', AString (rdImage res)), (''new_id'', AString (rdNewID res)), (''rolled_back'', a_bool (rdRolledBack res))])"

definition rollback :: "'d docker_client \<Rightarrow> string \<Rightarrow> string \<Rightarrow> ('d, bool) act" where
  "rollback dc i originalName =
     (if originalName = '''' then returnE False
      else bindE (try_engine (RenameContainer dc i originalName)) (\<lambda>r.
        if isl r then returnE False
        else bindE (try_engine (StartContainer dc i)) (\<lambda>s. returnE (\<not> isl s))))"

text \<open>The container is stopped and its name is freed; a conflict on the stop is not a failure.\<close>

definition park :: "'d docker_client \<Rightarrow> string \<Rightarrow> string \<Rightarrow> ('d, docker_error option) act" where
  "park dc i parked =
     bindE (try_engine (StopContainer dc i None)) (\<lambda>r. case r of
       Inl e \<Rightarrow> if \<not> IsConflict e then returnE (Some e)
                else bindE (try_engine (RenameContainer dc i parked)) (\<lambda>s. returnE (case s of Inl e \<Rightarrow> Some e | Inr _ \<Rightarrow> None))
     | Inr _ \<Rightarrow> bindE (try_engine (RenameContainer dc i parked)) (\<lambda>s. returnE (case s of Inl e \<Rightarrow> Some e | Inr _ \<Rightarrow> None)))"

definition restore :: "'d docker_client \<Rightarrow> string \<Rightarrow> string \<Rightarrow> redeploy_result \<Rightarrow> docker_error \<Rightarrow> actor \<Rightarrow> request_meta
    \<Rightarrow> ('d, redeploy_result \<times> host_error option) act" where
  "restore dc i name res e who meta =
     bindE (rollback dc i name) (\<lambda>rolled.
     let res' = res\<lparr>rdRolledBack := rolled\<rparr> in
     thenE (auditRedeploy who meta i res' (Some e)) (returnE (res', Some (EDocker e))))"

definition replace :: "'d docker_client \<Rightarrow> string \<Rightarrow> create_spec \<Rightarrow> string \<Rightarrow> redeploy_result \<Rightarrow> actor \<Rightarrow> request_meta
    \<Rightarrow> ('d, redeploy_result \<times> host_error option) act" where
  "replace dc i spec parked res who meta =
     bindE (try_engine (CreateContainer dc spec)) (\<lambda>rc. case rc of
       Inl e \<Rightarrow> restore dc i (crName spec) res e who meta
     | Inr newID \<Rightarrow>
         bindE (try_engine (StartContainer dc newID)) (\<lambda>rs. case rs of
           Inl e \<Rightarrow>
             bindE (try_engine (RemoveContainer dc newID \<lparr>xoForce = True, xoRemoveVolumes = False\<rparr>)) (\<lambda>_.
             restore dc i (crName spec) res e who meta)
         | Inr _ \<Rightarrow>
             bindE (try_engine (RemoveContainer dc i \<lparr>xoForce = True, xoRemoveVolumes = False\<rparr>)) (\<lambda>rr.
             thenE (case rr of
                 Inl e \<Rightarrow> audit_note who meta ''container.remove'' ''container'' i (Some (Error_text e))
                   (Some [(''note'', AString ''the replaced container could not be removed''), (''parked_as'', AString parked)])
               | Inr _ \<Rightarrow> returnE ())
             (let res' = res\<lparr>rdNewID := newID\<rparr>
              in thenE (auditRedeploy who meta i res' None) (returnE (res', None))))))"

definition Redeploy :: "'d docker_client \<Rightarrow> string \<Rightarrow> actor \<Rightarrow> request_meta \<Rightarrow> ('d, redeploy_result \<times> host_error option) act" where
  "Redeploy dc i0 who meta =
     (let none = \<lparr>rdOldID = '''', rdNewID = '''', rdImage = '''', rdRolledBack = False\<rparr> in
      case normalizeID i0 of
        Inl e \<Rightarrow> returnE (none, Some e)
      | Inr i \<Rightarrow>
          bindE (try_engine (RawInspectConfig dc i)) (\<lambda>ri. case ri of
            Inl e \<Rightarrow> returnE (none, Some (EDocker e))
          | Inr spec \<Rightarrow>
              let res = \<lparr>rdOldID = i, rdNewID = '''', rdImage = specImage spec, rdRolledBack = False\<rparr> in
              thenE (if rdImage res \<noteq> '''' then
                  bindE (try_engine (PullImage dc (rdImage res))) (\<lambda>rp. case rp of
                    Inl e \<Rightarrow> audit_note who meta ''image.pull'' ''image'' (rdImage res) (Some (Error_text e)) None
                  | Inr _ \<Rightarrow> returnE ())
                else returnE ())
              (bindE (on_world now) (\<lambda>t.
               let parked = parked_name (crName spec) t in
               if crName spec = '''' then replace dc i spec parked res who meta
               else bindE (park dc i parked) (\<lambda>err. case err of
                 Some e \<Rightarrow> returnE (res, Some (EDocker e))
               | None \<Rightarrow> replace dc i spec parked res who meta)))))"

section \<open>Weakest preconditions of engine calls\<close>

lemma wp_try_engine:
  "wp (try_engine m) Q E h = (case m (hEngine h) of (r, d) \<Rightarrow> Q r (h\<lparr>hEngine := d\<rparr>))"
  by (simp add: wp_def try_engine_def split: prod.split)

lemma wp_audit_note: "(\<And>w. Q () (h\<lparr>hWorld := w\<rparr>)) \<Longrightarrow> wp (audit_note who meta a t i e d) Q E h"
  by (rule audit_note_run [of who meta a t i e d h]) (simp add: wp_def)

text \<open>A new name next to which the original waits, at any instant.\<close>

definition parkable :: "(string \<Rightarrow> bool) \<Rightarrow> engine_view \<Rightarrow> string \<Rightarrow> bool" where
  "parkable good v n \<longleftrightarrow> (\<forall>t. vwHeld v (parked_name n t) = None \<and> good (parked_name n t))"

text \<open>
  What a redeploy of container \<open>c\<close>, called \<open>n\<close>, may leave behind: on success a running
  container of that name, on failure the original, back in place when it was rolled back.
\<close>

definition redeployed :: "engine_view \<Rightarrow> string \<Rightarrow> container \<Rightarrow> engine_view \<Rightarrow> redeploy_result \<times> host_error option \<Rightarrow> bool" where
  "redeployed v n c v' out \<longleftrightarrow>
     (case snd out of
        None \<Rightarrow> \<exists>b. vwHeld v' n = Some b \<and> ctState b = ''running'' \<and> ctID b = rdNewID (fst out)
      | Some _ \<Rightarrow> \<exists>m b. vwHeld v' m = Some b \<and> ctID b = ctID c \<and> (rdRolledBack (fst out) \<longrightarrow> m = n \<and> ctState b = ''running''))
     \<and> (\<forall>m. m \<noteq> n \<longrightarrow> (\<forall>t. m \<noteq> parked_name n t) \<longrightarrow> vwHeld v' m = vwHeld v m)"

lemma wp_host_now: "(\<And>t. Q t h) \<Longrightarrow> wp (on_world now) Q E h"
  by (simp add: wp_def on_world_def now_def readE_run)

context forcing_engine
begin

lemma redeployed_failed:
  assumes "vwHeld v' m = Some b" "ctID b = ctID c" "rdRolledBack res \<Longrightarrow> m = n \<and> ctState b = ''running''"
    and "\<And>m. m \<noteq> n \<Longrightarrow> (\<forall>t. m \<noteq> parked_name n t) \<Longrightarrow> vwHeld v' m = vwHeld v m"
  shows "redeployed v n c v' (res, Some e)"
  using assms by (auto simp: redeployed_def)

lemma wp_noted:
  assumes "inv (hEngine h)" "redeployed v n c (view (hEngine h)) (res, err)"
  shows "wp (thenE (auditRedeploy who meta i res e) (returnE (res, err)))
    (\<lambda>out h'. inv (hEngine h') \<and> redeployed v n c (view (hEngine h')) out) (\<lambda>_ _. False) h"
  unfolding auditRedeploy_def wp_thenE by (rule wp_audit_note) (simp add: wp_returnE assms)

lemma wp_restore:
  assumes "inv (hEngine h)" "vwHeld (view (hEngine h)) p = Some b" "vwHeld (view (hEngine h)) n = None" "good n" "ctID b = ctID c"
    and same: "\<And>m. m \<noteq> n \<Longrightarrow> (\<forall>t. m \<noteq> parked_name n t) \<Longrightarrow> vwHeld (view (hEngine h)) m = vwHeld v m"
    and p: "p = parked_name n t0" and res: "\<not> rdRolledBack res"
  shows "wp (restore dc (ctID c) n res e who meta) (\<lambda>out h'. inv (hEngine h') \<and> redeployed v n c (view (hEngine h')) out) (\<lambda>_ _. False) h"
proof -
  let ?b = "b\<lparr>ctName := n, ctNames := [n]\<rparr>" and ?Q = "\<lambda>out h'. inv (hEngine h') \<and> redeployed v n c (view (hEngine h')) out"
  let ?note = "\<lambda>rolled. thenE (auditRedeploy who meta (ctID c) (res\<lparr>rdRolledBack := rolled\<rparr>) (Some e))
      (returnE (res\<lparr>rdRolledBack := rolled\<rparr>, Some (EDocker e)))"
  obtain r d where r: "RenameContainer dc (ctID c) n (hEngine h) = (r, d)" by fastforce
  have rn: "inv d" "view d = (if isl r then view (hEngine h) else put n ?b (clear p (view (hEngine h))))"
    using rename_law [OF assms(1-4)] r assms(5) by simp_all
  obtain s d' where s: "StartContainer dc (ctID c) d = (s, d')" by fastforce
  have there: "vwHeld (view d) n = Some ?b" if "\<not> isl r" using rn that by simp
  have st: "inv d'" "view d' = (if isl s then view d else put n (in_state ''running'' ?b) (view d))" if "\<not> isl r"
    using start_law [OF rn(1) there] s assms(5) that by simp_all
  have kept: "wp (?note False) ?Q (\<lambda>_ _. False) (h\<lparr>hEngine := d\<rparr>)" if "isl r"
    using rn that assms(2,5) same by (intro wp_noted redeployed_failed [of _ p b]) auto
  have unstarted: "wp (?note False) ?Q (\<lambda>_ _. False) (h\<lparr>hEngine := d'\<rparr>)" if "\<not> isl r" "isl s"
    using rn st that assms(5) same p by (intro wp_noted redeployed_failed [of _ n ?b]) auto
  have restored: "wp (?note True) ?Q (\<lambda>_ _. False) (h\<lparr>hEngine := d'\<rparr>)" if "\<not> isl r" "\<not> isl s"
    using rn st that assms(5) same p by (intro wp_noted redeployed_failed [of _ n "in_state ''running'' ?b"]) auto
  have nameless: "wp (?note False) ?Q (\<lambda>_ _. False) h"
    using assms(1,2,5) same by (intro wp_noted redeployed_failed [of _ p b]) auto
  show ?thesis unfolding restore_def rollback_def Let_def wp_bindE wp_if
    using r s kept unstarted restored nameless by (cases "isl s") (auto simp: wp_bindE wp_if wp_try_engine wp_returnE)
qed

lemma wp_replace:
  assumes "inv (hEngine h)" "vwHeld (view (hEngine h)) p = Some b" "vwHeld (view (hEngine h)) n = None" "good n" "ctID b = ctID c"
    and same: "\<And>m. m \<noteq> n \<Longrightarrow> (\<forall>t. m \<noteq> parked_name n t) \<Longrightarrow> vwHeld (view (hEngine h)) m = vwHeld v m"
    and p: "p = parked_name n t0" and res: "\<not> rdRolledBack res"
    and spec: "crName spec = n" and fresh: "\<And>m x. vwHeld (view (hEngine h)) m = Some x \<Longrightarrow> \<not> issues n (ctID x)"
  shows "wp (replace dc (ctID c) spec parked res who meta) (\<lambda>out h'. inv (hEngine h') \<and> redeployed v n c (view (hEngine h')) out) (\<lambda>_ _. False) h"
proof -
  let ?Q = "\<lambda>out h'. inv (hEngine h') \<and> redeployed v n c (view (hEngine h')) out" and ?x = "\<lparr>xoForce = True, xoRemoveVolumes = False\<rparr>"
  obtain rc d where rc: "CreateContainer dc spec (hEngine h) = (rc, d)" by fastforce
  have free: "vwHeld (view (hEngine h)) (crName spec) = None" "good (crName spec)"
    "\<forall>m x. vwHeld (view (hEngine h)) m = Some x \<longrightarrow> \<not> issues (crName spec) (ctID x)"
    using assms(3,4) fresh spec by auto
  note cl = create_law [OF assms(1) free rc]
  show ?thesis
  proof (cases rc)
    case (Inl e)
    have "wp (restore dc (ctID c) n res e who meta) ?Q (\<lambda>_ _. False) (h\<lparr>hEngine := d\<rparr>)"
      using cl Inl assms(2-5) same p res by (intro wp_restore [where p = p and b = b]) auto
    then show ?thesis using rc Inl spec by (simp add: replace_def wp_bindE wp_try_engine)
  next
    case (Inr i)
    then obtain k where k: "inv d" "view d = put n k (view (hEngine h))" "ctID k = i" using cl spec by auto
    have held: "vwHeld (view d) n = Some k" "vwHeld (view d) p = Some b" using k(2) assms(2) p by auto
    obtain rs d1 where rs: "StartContainer dc i d = (rs, d1)" by fastforce
    have st: "inv d1" "view d1 = (if isl rs then view d else put n (in_state ''running'' k) (view d))"
      using start_law [OF k(1) held(1)] k(3) rs by simp_all
    show ?thesis
    proof (cases rs)
      case (Inl e)
      obtain rr d2 where rr: "RemoveContainer dc i ?x d1 = (rr, d2)" by fastforce
      have h1: "vwHeld (view d1) n = Some k" using st Inl held by simp
      have "\<not> isl rr" using forced_law [OF st(1) h1, of ?x] rr k(3) by simp
      then have "inv d2" "view d2 = clear n (view d1)" using remove_law [OF st(1) h1, of ?x rr d2] rr k(3) by (cases rr; simp)+
      then have "wp (restore dc (ctID c) n res e who meta) ?Q (\<lambda>_ _. False) (h\<lparr>hEngine := d2\<rparr>)"
        using st Inl k(2) assms(2-5) same p res by (intro wp_restore [where p = p and b = b]) auto
      then show ?thesis using rc rs rr Inr Inl spec by (simp add: replace_def wp_bindE wp_try_engine)
    next
      case (Inr u)
      obtain rr d2 where rr: "RemoveContainer dc (ctID c) ?x d1 = (rr, d2)" by fastforce
      have h1: "vwHeld (view d1) p = Some b" "vwHeld (view d1) n = Some (in_state ''running'' k)" using st Inr held p by auto
      have "inv d2" "view d2 = view d1 \<or> view d2 = clear p (view d1)"
        using remove_law [OF st(1) h1(1), of ?x rr d2] rr assms(5) by (cases rr; simp)+
      moreover have "vwHeld (view d2) n = Some (in_state ''running'' k)" "\<And>m. m \<noteq> p \<Longrightarrow> vwHeld (view d2) m = vwHeld (view d1) m"
        using calculation(2) h1(2) p by (elim disjE; simp)+
      moreover have "vwHeld (view d1) m = vwHeld (view (hEngine h)) m" if "m \<noteq> n" for m using st Inr k(2) that by simp
      ultimately have "inv d2" "redeployed v n c (view d2) (res\<lparr>rdNewID := i\<rparr>, None)"
        using k(3) same p by (simp_all add: redeployed_def)
      then have fin: "wp (thenE (auditRedeploy who meta (ctID c) (res\<lparr>rdNewID := i\<rparr>) None) (returnE (res\<lparr>rdNewID := i\<rparr>, None))) ?Q
          (\<lambda>_ _. False) h'" if "hEngine h' = d2" for h'
        using that by (intro wp_noted) simp_all
      show ?thesis using rc rs rr Inr \<open>rc = Inr i\<close> spec fin
        by (auto simp: replace_def wp_bindE wp_try_engine wp_thenE wp_returnE Let_def intro!: wp_audit_note split: sum.split)
    qed
  qed
qed

lemma wp_park:
  assumes "inv (hEngine h)" "vwHeld (view (hEngine h)) n = Some c" "vwHeld (view (hEngine h)) p = None" "good p"
    and parked: "\<And>h' b. inv (hEngine h') \<Longrightarrow> view (hEngine h') = put p b (clear n (view (hEngine h))) \<Longrightarrow> ctID b = ctID c \<Longrightarrow> Q None h'"
    and unparked: "\<And>h' b e. inv (hEngine h') \<Longrightarrow> view (hEngine h') = put n b (view (hEngine h)) \<Longrightarrow> ctID b = ctID c \<Longrightarrow> Q (Some e) h'"
  shows "wp (park dc (ctID c) p) Q E h"
proof -
  have id: "put n c (view (hEngine h)) = view (hEngine h)" using assms(2) by (simp add: put_def fun_upd_idem)
  obtain r d where r: "StopContainer dc (ctID c) None (hEngine h) = (r, d)" by fastforce
  have "\<exists>b. inv d \<and> view d = put n b (view (hEngine h)) \<and> ctID b = ctID c"
    using stop_law [OF assms(1,2) r] id by (metis in_state_sel(1))
  then obtain b where b: "inv d" "view d = put n b (view (hEngine h))" "ctID b = ctID c" by blast
  obtain s d' where s: "RenameContainer dc (ctID c) p d = (s, d')" by fastforce
  have ne: "p \<noteq> n" using assms(2,3) by auto
  have "vwHeld (view d) n = Some b" "vwHeld (view d) p = None" using b(2) assms(3) ne by auto
  from rename_law [OF b(1) this assms(4)] s b(3)
  have s': "inv d'" "view d' = (if isl s then view d else put p (b\<lparr>ctName := p, ctNames := [p]\<rparr>) (clear n (view d)))" by simp_all
  have clr: "clear n (view d) = clear n (view (hEngine h))" using b(2) by (simp add: clear_def put_def)
  have "Q (Some e) (h\<lparr>hEngine := d\<rparr>)" for e using b by (intro unparked [of _ b]) simp_all
  moreover have "Q (case s of Inl e \<Rightarrow> Some e | Inr _ \<Rightarrow> None) (h\<lparr>hEngine := d'\<rparr>)"
    using s' b clr by (cases s) (auto intro!: unparked [of _ b] parked [of _ "b\<lparr>ctName := p, ctNames := [p]\<rparr>"])
  ultimately show ?thesis using r s
    by (cases r) (simp_all add: park_def wp_bindE wp_try_engine wp_if wp_returnE)
qed

lemma Redeploy_safe:
  assumes "inv (hEngine h)" "vwHeld (view (hEngine h)) n = Some c" "n \<noteq> []" "good n" "ctID c \<noteq> []" "trim_space (ctID c) = ctID c"
    and "parkable good (view (hEngine h)) n"
    and fresh: "\<And>m x. vwHeld (view (hEngine h)) m = Some x \<Longrightarrow> \<not> issues n (ctID x)"
  shows "wp (Redeploy dc (ctID c) who meta)
    (\<lambda>out h'. inv (hEngine h') \<and> redeployed (view (hEngine h)) n c (view (hEngine h')) out) (\<lambda>_ _. False) h"
proof -
  let ?v = "view (hEngine h)" and ?Q = "\<lambda>out h'. inv (hEngine h') \<and> redeployed (view (hEngine h)) n c (view (hEngine h')) out"
  have norm: "normalizeID (ctID c) = Inr (ctID c)" using assms(5,6) by (simp add: normalizeID_def Let_def)
  have unchanged: "redeployed ?v n c ?v (res, Some e)" if "\<not> rdRolledBack res" for res e
    using that assms(2) by (intro redeployed_failed [of _ n c]) simp_all
  have go: "wp (bindE (park dc (ctID c) (parked_name n t)) (\<lambda>err. case err of
        Some e \<Rightarrow> returnE (res, Some (EDocker e))
      | None \<Rightarrow> replace dc (ctID c) spec (parked_name n t) res who meta)) ?Q (\<lambda>_ _. False) h'"
    if "inv (hEngine h')" "view (hEngine h') = ?v" "crName spec = n" "\<not> rdRolledBack res" for h' spec res t
    unfolding wp_bindE
  proof (rule wp_park [OF that(1), of n])
    let ?p = "parked_name n t"
    show "vwHeld (view (hEngine h')) n = Some c" using that(2) assms(2) by simp
    show "vwHeld (view (hEngine h')) ?p = None" "good ?p" using assms(7) that(2) by (simp_all add: parkable_def)
    fix h'' :: "'a host" and b :: container and e
    assume i: "inv (hEngine h'')" and b: "ctID b = ctID c"
    show "wp (case Some e of Some e \<Rightarrow> returnE (res, Some (EDocker e)) | None \<Rightarrow> replace dc (ctID c) spec ?p res who meta) ?Q (\<lambda>_ _. False) h''"
      if "view (hEngine h'') = put n b (view (hEngine h'))"
      using i b that \<open>view (hEngine h') = ?v\<close> \<open>\<not> rdRolledBack res\<close>
      by (auto simp: wp_returnE intro!: redeployed_failed [of _ n b])
    show "wp (case None of Some e \<Rightarrow> returnE (res, Some (EDocker e)) | None \<Rightarrow> replace dc (ctID c) spec ?p res who meta) ?Q (\<lambda>_ _. False) h''"
      if "view (hEngine h'') = put ?p b (clear n (view (hEngine h')))"
      unfolding option.case
    proof (rule wp_replace [where p = ?p and b = b])
      fix m x assume "vwHeld (view (hEngine h'')) m = Some x"
      then have "x = b \<or> vwHeld ?v m = Some x" using that \<open>view (hEngine h') = ?v\<close> by (auto split: if_splits)
      then show "\<not> issues n (ctID x)" using fresh b assms(2) by metis
    qed (use i b that \<open>view (hEngine h') = ?v\<close> \<open>crName spec = n\<close> \<open>\<not> rdRolledBack res\<close> assms(4) in auto)
  qed
  obtain ri d where ri: "RawInspectConfig dc (ctID c) (hEngine h) = (ri, d)" by fastforce
  have d: "inv d" "view d = ?v" "\<And>spec. ri = Inr spec \<Longrightarrow> crName spec = n" using inspect_law [OF assms(1,2) ri] by auto
  have pull: "inv d'' \<and> view d'' = ?v" if "PullImage dc ref d = (r, d'')" for ref r d''
    using quiet_laws(3) [OF d(1) that] d(2) by simp
  have rest: "wp (bindE (on_world now) (\<lambda>t. let parked = parked_name (crName spec) t in
        if crName spec = [] then replace dc (ctID c) spec parked res who meta
        else bindE (park dc (ctID c) parked) (\<lambda>err. case err of
          Some e \<Rightarrow> returnE (res, Some (EDocker e))
        | None \<Rightarrow> replace dc (ctID c) spec parked res who meta))) ?Q (\<lambda>_ _. False) h'"
    if "inv (hEngine h')" "view (hEngine h') = ?v" "crName spec = n" "\<not> rdRolledBack res" for h' spec res
    unfolding wp_bindE [of "on_world now"] Let_def
    by (rule wp_host_now) (use go [OF that] that(3) assms(3) in simp)
  show ?thesis
  proof (cases ri)
    case (Inl e)
    then show ?thesis using ri d unchanged by (simp add: Redeploy_def norm Let_def wp_bindE wp_try_engine wp_returnE)
  next
    case (Inr spec)
    let ?res = "\<lparr>rdOldID = ctID c, rdNewID = [], rdImage = specImage spec, rdRolledBack = False\<rparr>"
    have r: "wp (bindE (on_world now) (\<lambda>t. let parked = parked_name (crName spec) t in
          if crName spec = [] then replace dc (ctID c) spec parked ?res who meta
          else bindE (park dc (ctID c) parked) (\<lambda>err. case err of
            Some e \<Rightarrow> returnE (?res, Some (EDocker e))
          | None \<Rightarrow> replace dc (ctID c) spec parked ?res who meta))) ?Q (\<lambda>_ _. False) h'"
      if "inv (hEngine h')" "view (hEngine h') = ?v" for h'
      using rest [OF that d(3) [OF Inr], of ?res] by simp
    obtain rp d2 where rp: "PullImage dc (specImage spec) d = (rp, d2)" by fastforce
    show ?thesis unfolding Redeploy_def norm sum.case wp_bindE [of "try_engine _"] wp_try_engine ri prod.case Inr Let_def [of "\<lparr>rdOldID = _, rdNewID = _, rdImage = _, rdRolledBack = _\<rparr>"]
      wp_thenE wp_if redeploy_result.select_convs
      using rp r pull [OF rp] d(1,2)
      by (auto simp: wp_bindE [of "try_engine _"] wp_try_engine wp_returnE intro!: wp_audit_note split: sum.split)
  qed
qed

end

section \<open>A redeploy leaves a container to work with\<close>

text \<open>
  C18: Redeploying a container by its ID on the in-memory engine, with failures injected into
  any operation but removal: the call returns; if it reports success a running container of the
  same name is there, under the ID it reports, and if it reports an error the original still
  exists, running under its own name when the result says it was rolled back. No container
  other than the one redeployed and the name it waits under is touched.
\<close>

theorem Redeploy_replaces:
  assumes "fake_ok False (hEngine h)" and "c \<in> set (fkContainers (hEngine h))" and "ctName c \<noteq> ''''"
    and "ctID c \<noteq> ''''" and "trim_space (ctID c) = ctID c"
    and "parkable plain_name (fake_view (hEngine h)) (ctName c)"
    and "list_all (\<lambda>x. ctID x \<noteq> created_id (ctName c)) (fkContainers (hEngine h))"
  shows "\<exists>out h'. Redeploy fake_client (ctID c) who meta h = (Inr out, h')
    \<and> redeployed (fake_view (hEngine h)) (ctName c) c (fake_view (hEngine h')) out"
proof -
  have held: "vwHeld (fake_view (hEngine h)) m = Some x \<longleftrightarrow> x \<in> set (fkContainers (hEngine h)) \<and> ctName x = m" for m x
    by (rule held_in [OF assms(1)])
  have c: "vwHeld (fake_view (hEngine h)) (ctName c) = Some c" using held assms(2) by blast
  have plain: "plain_name (ctName c)" using assms(1,2) by (auto simp: fake_ok_def tidy_def list_all_iff)
  have fresh: "\<not> derived_id (ctName c) (ctID x)" if "vwHeld (fake_view (hEngine h)) m = Some x" for m x
    using that held assms(7) by (auto simp: derived_id_def list_all_iff)
  have "wp (Redeploy fake_client (ctID c) who meta)
      (\<lambda>out h'. fake_ok False (hEngine h') \<and> redeployed (fake_view (hEngine h)) (ctName c) c (fake_view (hEngine h')) out) (\<lambda>_ _. False) h"
    by (rule mem_forced.Redeploy_safe [OF assms(1) c assms(3) plain assms(4,5,6) fresh])
  then show ?thesis by (auto simp: wp_def split: prod.splits sum.splits)
qed

definition fake_host :: "fake \<Rightarrow> fake host" where
  "fake_host d = \<lparr>hWorld = entropy_world [], hRegistries = [], hStacks = [], hTasks = None, hEvents = [], hEngine = d\<rparr>"

lemma New_fake_ok: "fake_ok False New_fake" "fkContainers New_fake = [fixture_web, fixture_worker]"
  by code_simp+

lemma web_parkable: "parkable plain_name (fake_view New_fake) ''web''"
proof -
  have "vwHeld (fake_view New_fake) (parked_name ''web'' t) = None" for t
    by (auto simp: fake_view_def New_fake_ok(2) by_name_None parked_name_def fixture_web_def fixture_worker_def)
  moreover have "plain_name (parked_name ''web'' t)" for t
    by (simp add: plain_name_def id_like_def parked_name_def has_prefix_def is_hex_def is_digit_def)
  ultimately show ?thesis by (simp add: parkable_def)
qed

theorem Redeploy_replaces_witness:
  "\<exists>out h'. Redeploy fake_client (ctID fixture_web) sample_actor sample_meta (fake_host New_fake) = (Inr out, h')
    \<and> redeployed (fake_view New_fake) ''web'' fixture_web (fake_view (hEngine h')) out"
proof -
  have h: "hEngine (fake_host New_fake) = New_fake" by (simp add: fake_host_def)
  have n: "ctName fixture_web = ''web''" by (simp add: fixture_web_def)
  have "fixture_web \<in> set (fkContainers New_fake)" "ctID fixture_web \<noteq> ''''" "trim_space (ctID fixture_web) = ctID fixture_web"
    "list_all (\<lambda>x. ctID x \<noteq> created_id ''web'') (fkContainers New_fake)"
    by code_simp+
  then show ?thesis
    using Redeploy_replaces [of "fake_host New_fake" fixture_web sample_actor sample_meta, unfolded h n] New_fake_ok(1) web_parkable by simp
qed

lemma quiet_call: "fkErrs d = [] \<Longrightarrow> thenE (fake_record op i) m d = m (logged op i d)"
  by (simp add: after_record)

text \<open>
  The engine calls of a redeploy addressed by name: the last one removes the replacement.
\<close>

lemma redeploy_calls_by_name:
  assumes "tidy (fkContainers d)" "fkErrs d = []" "c \<in> set (fkContainers d)" "ctName c = n" "p \<notin> ctName ` set (fkContainers d)"
    and "plain_name p" "\<forall>x\<in>set (fkContainers d). ctID x \<noteq> created_id n"
  obtains d1 d2 d3 d4 d5 d6 where
    "Fake_RawInspectConfig n d = (Inr \<lparr>crName = n, crConfig = None, crHostConfig = None, crNetworking = None\<rparr>, d1)"
    "Fake_StopContainer n None d1 = (Inr (), d2)" "Fake_RenameContainer n p d2 = (Inr (), d3)"
    "Fake_CreateContainer \<lparr>crName = n, crConfig = None, crHostConfig = None, crNetworking = None\<rparr> d3 = (Inr (created_id n), d4)"
    "Fake_StartContainer (created_id n) d4 = (Inr (), d5)"
    "Fake_RemoveContainer n \<lparr>xoForce = True, xoRemoveVolumes = False\<rparr> d5 = (Inr (), d6)"
    "\<forall>x\<in>set (fkContainers d6). ctName x \<noteq> n"
    "\<exists>x\<in>set (fkContainers d6). ctName x = p \<and> ctID x = ctID c \<and> ctState x = ''exited''"
proof -
  let ?cs = "fkContainers d" and ?s = "\<lparr>crName = n, crConfig = None, crHostConfig = None, crNetworking = None\<rparr> :: create_spec"
  let ?ren = "\<lambda>x. x\<lparr>ctName := p, ctNames := [p]\<rparr>" and ?i = "created_id n"
  define c1 where "c1 = in_state ''exited'' c"
  define cs1 where "cs1 = map (\<lambda>x. if x = c then in_state ''exited'' x else x) ?cs"
  define cs2 where "cs2 = map (\<lambda>x. if x = c1 then ?ren x else x) cs1"
  define k where "k = created_container ?s"
  have t1: "tidy cs1" unfolding cs1_def by (rule tidy_change [OF assms(1,3)]) simp_all
  have c1: "c1 \<in> set cs1" "ctName c1 = n" using assms(3,4) by (auto simp: c1_def cs1_def)
  have p1: "p \<notin> ctName ` set cs1" using assms(5) by (auto simp: cs1_def)
  have t2: "tidy cs2" unfolding cs2_def by (rule tidy_renamed [OF t1 c1(1) p1 assms(6)])
  have ids: "\<forall>x\<in>set cs2. ctID x \<noteq> ?i" using assms(7) by (auto simp: cs2_def cs1_def)
  have ne: "p \<noteq> n" using p1 c1 by auto
  have names: "\<forall>x\<in>set cs2. ctName x \<noteq> n"
    using same_name [OF tidyD(2) [OF t1]] c1 ne by (auto simp: cs2_def)
  have plain_n: "plain_name n" using tidyD(4) [OF t1 c1(1)] c1(2) by simp
  have none: "\<forall>x\<in>set cs2. \<not> goes_by n x" using tidyD(3) [OF t2] names plain_n by (auto simp: goes_by_def plain_name_def)
  have "id_like ?i" by (simp add: id_like_def has_prefix_def created_id_def)
  then have "\<forall>x\<in>set cs2. ctName x \<noteq> ?i" using tidyD(4) [OF t2] by (metis plain_name_def)
  then have none': "\<forall>x\<in>set cs2. \<not> goes_by ?i x" using ids by (auto simp: goes_by_def)
  have k: "goes_by ?i k" "goes_by n k" "ctID k = ?i" "ctName k = n" by (simp_all add: k_def created_container_def goes_by_def)
  define d1 where "d1 = logged OpInspectConfig n d"
  define d2 where "d2 = setState n ''exited'' (logged OpStopContainer n d1)"
  define d3 where "d3 = snd (Fake_RenameContainer n p d2)"
  define d4 where "d4 = snd (Fake_CreateContainer ?s d3)"
  define d5 where "d5 = snd (Fake_StartContainer ?i d4)"
  define d6 where "d6 = snd (Fake_RemoveContainer n \<lparr>xoForce = True, xoRemoveVolumes = False\<rparr> d5)"
  note found = addressed_by_name [OF assms(1,3), unfolded assms(4)] addressed_by_name [OF t1 c1(1), unfolded c1(2)]
  have s1: "Fake_RawInspectConfig n d = (Inr ?s, d1)" "fkContainers d1 = ?cs" "fkErrs d1 = []"
    using assms(2,4) found(1) by (simp_all add: Fake_RawInspectConfig_def quiet_call d1_def)
  have ex1: "containerExists n d1" using assms(3,4) s1(2) by (auto simp: containerExists_def list_ex_iff goes_by_def)
  have s2: "Fake_StopContainer n None d1 = (Inr (), d2)" "fkContainers d2 = cs1" "fkErrs d2 = []"
    using s1(2,3) ex1 found(1,2)
    by (simp_all add: Fake_StopContainer_def lifecycle_def quiet_call d2_def setState_def change_container_def cs1_def in_state_def)
  have s3: "Fake_RenameContainer n p d2 = (Inr (), d3)" "fkContainers d3 = cs2" "fkErrs d3 = []"
    using s2(2,3) found(3) found(4) [of ?ren] by (simp_all add: Fake_RenameContainer_def quiet_call d3_def cs2_def)
  have s4: "Fake_CreateContainer ?s d3 = (Inr ?i, d4)" "fkContainers d4 = cs2 @ [k]" "fkErrs d4 = []"
    using s3(2,3) k(3) by (simp_all add: Fake_CreateContainer_def quiet_call d4_def k_def Let_def)
  have ex4: "containerExists ?i d4" using s4(2) k(1) by (simp add: containerExists_def)
  have s5: "Fake_StartContainer ?i d4 = (Inr (), d5)" "fkContainers d5 = cs2 @ [in_state ''running'' k]" "fkErrs d5 = []"
    using s4(2,3) ex4 last_first [where P = "goes_by ?i", OF none' k(1)]
    by (simp_all add: Fake_StartContainer_def lifecycle_def quiet_call d5_def setState_def change_container_def in_state_def)
  have "goes_by n (in_state ''running'' k)" using k(2) by (simp add: goes_by_def)
  from last_first [where P = "goes_by n", OF none this]
  have s6: "Fake_RemoveContainer n \<lparr>xoForce = True, xoRemoveVolumes = False\<rparr> d5 = (Inr (), d6)" "fkContainers d6 = cs2"
    using s5(2,3) by (simp_all add: Fake_RemoveContainer_def quiet_call d6_def)
  have "?ren c1 \<in> set cs2" using c1(1) by (auto simp: cs2_def)
  then have "\<exists>x\<in>set cs2. ctName x = p \<and> ctID x = ctID c \<and> ctState x = ''exited''" by (rule bexI [rotated]) (simp add: c1_def)
  with names show thesis using that [OF s1(1) s2(1) s3(1) s4(1) s5(1) s6(1)] s6(2) by simp
qed

text \<open>
  C19: The same call addressed by the container's name, which the engine accepts as well as an ID,
  reports success on an engine without failures and leaves no container of that name: when the
  original is to be removed the name is the replacement's, so the replacement is removed, and
  the original stays stopped under the name it was parked under.
\<close>

theorem Redeploy_by_name_removes_replacement:
  assumes "fake_ok False (hEngine h)" and "fkErrs (hEngine h) = []" and "c \<in> set (fkContainers (hEngine h))" and "ctName c \<noteq> ''''"
    and "trim_space (ctName c) = ctName c" and "parkable plain_name (fake_view (hEngine h)) (ctName c)"
    and "list_all (\<lambda>x. ctID x \<noteq> created_id (ctName c)) (fkContainers (hEngine h))"
  shows "\<exists>h'. Redeploy fake_client (ctName c) who meta h
         = (Inr (\<lparr>rdOldID = ctName c, rdNewID = created_id (ctName c), rdImage = '''', rdRolledBack = False\<rparr>, None), h')
     \<and> by_name (fkContainers (hEngine h')) (ctName c) = None
     \<and> list_ex (\<lambda>x. ctID x = ctID c \<and> ctState x = ''exited'') (fkContainers (hEngine h'))"
proof -
  let ?n = "ctName c" and ?p = "parked_name (ctName c) (wNow (hWorld h))" and ?x = "\<lparr>xoForce = True, xoRemoveVolumes = False\<rparr>"
  have park: "?p \<notin> ctName ` set (fkContainers (hEngine h))" "plain_name ?p"
    using assms(6) by (simp_all add: parkable_def fake_view_def by_name_None)
  obtain d1 d2 d3 d4 d5 d6 where calls:
    "Fake_RawInspectConfig ?n (hEngine h) = (Inr \<lparr>crName = ?n, crConfig = None, crHostConfig = None, crNetworking = None\<rparr>, d1)"
    "Fake_StopContainer ?n None d1 = (Inr (), d2)" "Fake_RenameContainer ?n ?p d2 = (Inr (), d3)"
    "Fake_CreateContainer \<lparr>crName = ?n, crConfig = None, crHostConfig = None, crNetworking = None\<rparr> d3 = (Inr (created_id ?n), d4)"
    "Fake_StartContainer (created_id ?n) d4 = (Inr (), d5)" "Fake_RemoveContainer ?n ?x d5 = (Inr (), d6)"
    and gone: "\<forall>x\<in>set (fkContainers d6). ctName x \<noteq> ?n"
    and left: "\<exists>x\<in>set (fkContainers d6). ctName x = ?p \<and> ctID x = ctID c \<and> ctState x = ''exited''"
    by (rule redeploy_calls_by_name [OF _ assms(2,3) refl park]) (use assms(1,7) in \<open>auto simp: fake_ok_def list_all_iff\<close>)
  let ?res = "\<lparr>rdOldID = ?n, rdNewID = created_id ?n, rdImage = [], rdRolledBack = False\<rparr>"
  obtain w where w: "auditRedeploy who meta ?n ?res None (h\<lparr>hEngine := d6\<rparr>) = (Inr (), h\<lparr>hEngine := d6, hWorld := w\<rparr>)"
    unfolding auditRedeploy_def by (rule audit_note_run)
  have n: "normalizeID ?n = Inr ?n" using assms(4,5) by (simp add: normalizeID_def Let_def)
  have img: "specImage \<lparr>crName = ?n, crConfig = None, crHostConfig = None, crNetworking = None\<rparr> = []" by (simp add: specImage_def)
  have t: "on_world now (h\<lparr>hEngine := d1\<rparr>) = (Inr (wNow (hWorld h)), h\<lparr>hEngine := d1\<rparr>)"
    by (simp add: on_world_def now_def readE_run)
  have "Redeploy fake_client ?n who meta h = (Inr (?res, None), h\<lparr>hEngine := d6, hWorld := w\<rparr>)"
    using calls w t assms(4)
    by (simp add: Redeploy_def n img Let_def bindE_run thenE_run returnE_run try_engine_def park_def replace_def)
  moreover have "by_name (fkContainers d6) ?n = None" using gone by (auto simp: by_name_None)
  moreover have "list_ex (\<lambda>x. ctID x = ctID c \<and> ctState x = ''exited'') (fkContainers d6)"
    using left by (auto simp: list_ex_iff)
  ultimately show ?thesis by (intro exI [of _ "h\<lparr>hEngine := d6, hWorld := w\<rparr>"]) simp
qed

theorem Redeploy_by_name_removes_replacement_witness:
  "\<exists>res h'. Redeploy fake_client ''web'' sample_actor sample_meta (fake_host New_fake) = (Inr (res, None), h')
     \<and> by_name (fkContainers (hEngine h')) ''web'' = None"
proof -
  have h: "hEngine (fake_host New_fake) = New_fake" by (simp add: fake_host_def)
  have n: "ctName fixture_web = ''web''" by (simp add: fixture_web_def)
  have "fkErrs New_fake = []" "fixture_web \<in> set (fkContainers New_fake)" "trim_space ''web'' = ''web''"
    "list_all (\<lambda>x. ctID x \<noteq> created_id ''web'') (fkContainers New_fake)"
    by code_simp+
  then show ?thesis
    using Redeploy_by_name_removes_replacement [of "fake_host New_fake" fixture_web sample_actor sample_meta, unfolded h n]
      New_fake_ok(1) web_parkable by fastforce
qed

section \<open>A batch goes through the whole list\<close>

fun run_all :: "(string \<Rightarrow> ('d, unit) call) \<Rightarrow> string list \<Rightarrow> 'd \<Rightarrow> (docker_error + unit) list \<times> 'd" where
  "run_all app [] d = ([], d)"
| "run_all app (i # is) d = (case app i d of (r, d1) \<Rightarrow> case run_all app is d1 of (rs, d2) \<Rightarrow> (r # rs, d2))"

lemma Record_appends:
  assumes "wFaults w = []"
  obtains w' where "Record True e w = (Inr (), w')" "wFaults w' = []" "length (wAudit w') = Suc (length (wAudit w))"
  using assms by (auto simp: Record_def prog_simps now_def Audit_Append_def Let_def db_def readE_def event_entry_def split: if_splits)

lemma audit_note_quiet:
  assumes "wFaults (hWorld h) = []"
  shows "\<exists>w. audit_note who meta a t i e d h = (Inr (), h\<lparr>hWorld := w\<rparr>) \<and> wFaults w = [] \<and> length (wAudit w) = Suc (length (wAudit (hWorld h)))"
proof -
  obtain w where "Record True \<lparr>evActor = who, evAction = a, evResourceType = t, evResourceID = i, evErr = e, evDetail = d,
      evIP = rmIP meta, evUserAgent = rmUserAgent meta\<rparr> (hWorld h) = (Inr (), w)" "wFaults w = []" "length (wAudit w) = Suc (length (wAudit (hWorld h)))"
    by (rule Record_appends [OF assms])
  then show ?thesis by (intro exI [of _ w]) (simp add: audit_note_def on_world_def)
qed

lemma batch_loop_run:
  assumes "run_all app ids (hEngine h) = (rs, d)" "wFaults (hWorld h) = []"
  shows "\<exists>w. batch_loop app action det who meta ids h = (Inr (map2 batch_outcome ids rs), h\<lparr>hEngine := d, hWorld := w\<rparr>)
    \<and> length rs = length ids \<and> wFaults w = [] \<and> length (wAudit w) = length (wAudit (hWorld h)) + length ids"
  using assms
proof (induction ids arbitrary: h rs)
  case Nil
  then show ?case by (intro exI [of _ "hWorld h"]) (simp add: returnE_run)
next
  case (Cons i ids)
  obtain r d1 where r: "app i (hEngine h) = (r, d1)" by fastforce
  obtain rs' where rs: "run_all app ids d1 = (rs', d)" "rs = r # rs'" using Cons.prems(1) r by (auto split: prod.splits)
  obtain w1 where w1: "audit_note who meta (''container.'' @ action) ''container'' i (batchError (batch_outcome i r)) (Some det) (h\<lparr>hEngine := d1\<rparr>)
      = (Inr (), h\<lparr>hEngine := d1, hWorld := w1\<rparr>)" "wFaults w1 = []" "length (wAudit w1) = Suc (length (wAudit (hWorld h)))"
    using audit_note_quiet [of "h\<lparr>hEngine := d1\<rparr>" who meta "''container.'' @ action" "''container''" i "batchError (batch_outcome i r)" "Some det"]
      Cons.prems(2) by auto
  obtain w where w: "batch_loop app action det who meta ids (h\<lparr>hEngine := d1, hWorld := w1\<rparr>)
      = (Inr (map2 batch_outcome ids rs'), h\<lparr>hEngine := d, hWorld := w\<rparr>)" "length rs' = length ids" "wFaults w = []"
      "length (wAudit w) = length (wAudit w1) + length ids"
    using Cons.IH [of "h\<lparr>hEngine := d1, hWorld := w1\<rparr>" rs'] rs(1) w1(2) by auto
  have "batch_loop app action det who meta (i # ids) h = (Inr (map2 batch_outcome (i # ids) rs), h\<lparr>hEngine := d, hWorld := w\<rparr>)"
    using r w1(1) w(1) by (simp add: bindE_run thenE_run returnE_run try_engine_def Let_def rs(2))
  then show ?case using w(2-4) w1(3) rs(2) by auto
qed

text \<open>
  C20: A batch over a list of containers applies its action to each of them, in order and whatever
  happened to those before, and returns one result for each, which tells whether the engine
  did it and otherwise with which message; on a database that answers every one of them is in
  the audit trail once. The options of a removal are refused for any other action, and an
  unknown action is an error, before anything is done.
\<close>

theorem Batch_each:
  "ids \<noteq> [] \<and> wFaults (hWorld h) = [] \<longrightarrow>
     (case actionFunc dc action opts of
        None \<Rightarrow> isl (fst (Batch dc ids action opts who meta h)) \<and> snd (Batch dc ids action opts who meta h) = h
      | Some app \<Rightarrow>
          if action \<noteq> ''remove'' \<and> (xoForce opts \<or> xoRemoveVolumes opts)
          then Batch dc ids action opts who meta h = (Inl ErrBatchOptions, h)
          else \<exists>w. Batch dc ids action opts who meta h
                  = (Inr (map2 batch_outcome ids (fst (run_all app ids (hEngine h)))), h\<lparr>hEngine := snd (run_all app ids (hEngine h)), hWorld := w\<rparr>)
                \<and> length (wAudit w) = length (wAudit (hWorld h)) + length ids)"
proof (cases "actionFunc dc action opts")
  case None
  then show ?thesis by (simp add: Batch_def throwE_run)
next
  case (Some app)
  obtain rs d where rs: "run_all app ids (hEngine h) = (rs, d)" by fastforce
  have "wFaults (hWorld h) = [] \<Longrightarrow> \<exists>w. batch_loop app action det who meta ids h
      = (Inr (map2 batch_outcome ids rs), h\<lparr>hEngine := d, hWorld := w\<rparr>) \<and> length (wAudit w) = length (wAudit (hWorld h)) + length ids" for det
    using batch_loop_run [OF rs] by blast
  then show ?thesis using Some rs by (auto simp: Batch_def throwE_run)
qed

theorem Batch_each_witness:
  "\<exists>w. Batch fake_client [''web'', ''gone'', ''worker''] ''stop'' \<lparr>xoForce = False, xoRemoveVolumes = False\<rparr> sample_actor sample_meta (fake_host New_fake)
     = (Inr (map2 batch_outcome [''web'', ''gone'', ''worker''] (fst (run_all (\<lambda>i. Fake_StopContainer i None) [''web'', ''gone'', ''worker''] New_fake))),
        (fake_host New_fake)\<lparr>hEngine := snd (run_all (\<lambda>i. Fake_StopContainer i None) [''web'', ''gone'', ''worker''] New_fake), hWorld := w\<rparr>)
   \<and> length (wAudit w) = 3"
proof -
  have a: "actionFunc fake_client ''stop'' opts = Some (\<lambda>i. Fake_StopContainer i None)" for opts by (simp add: actionFunc_def)
  have "wFaults (hWorld (fake_host New_fake)) = []" "wAudit (hWorld (fake_host New_fake)) = []" "hEngine (fake_host New_fake) = New_fake"
    by (simp_all add: fake_host_def entropy_world_def)
  then show ?thesis
    using Batch_each [of "[''web'', ''gone'', ''worker'']" "fake_host New_fake" fake_client "''stop''" "\<lparr>xoForce = False, xoRemoveVolumes = False\<rparr>"
        sample_actor sample_meta, unfolded a] by (simp add: numeral_3_eq_3 del: run_all.simps)
qed

end
