(* ===== verification/Registries.thy ===== *)
theory Registries
  imports Host
begin

text \<open>
  Registry credentials: internal/store/registries.go and internal/service/registry.go. The
  columns server and name are unique; the password column holds what the secret box made of
  it. A registry service without a repository, which knows no credential, is \<open>None\<close>.
\<close>

section \<open>The repository\<close>

definition strip_prefix :: "string \<Rightarrow> string \<Rightarrow> string" where
  "strip_prefix p s = (if has_prefix s p then drop (length p) s else s)"

definition strip_slash :: "string \<Rightarrow> string" where
  "strip_slash s = (if s \<noteq> [] \<and> last s = CHR ''/'' then butlast s else s)"

definition NormalizeRegistryServer :: "string \<Rightarrow> string" where
  "NormalizeRegistryServer server =
     (let s = strip_slash (strip_prefix ''http://'' (strip_prefix ''https://'' (trim_space (to_lower server)))) in
      if s \<in> {'''', ''docker.io'', ''index.docker.io'', ''registry-1.docker.io'', ''registry.hub.docker.com''}
      then ''docker.io'' else s)"

definition RegistryServerForImage :: "string \<Rightarrow> string" where
  "RegistryServerForImage ref =
     (case str_cut (CHR ''/'') (trim_space ref) of
        (head, _, found) \<Rightarrow>
          if \<not> found then ''docker.io''
          else if head = ''localhost'' \<or> list_ex (\<lambda>c. c = CHR ''.'' \<or> c = CHR '':'') head then NormalizeRegistryServer head
          else ''docker.io'')"

definition unique_registry :: "registry \<Rightarrow> registry list \<Rightarrow> bool" where
  "unique_registry r rs \<longleftrightarrow> ryServer r \<notin> ryServer ` set rs \<and> ryName r \<notin> ryName ` set rs"

definition Registries_Create :: "registry \<Rightarrow> ('d, registry) act" where
  "Registries_Create reg =
     bindE (on_world now) (\<lambda>t.
     let r = reg\<lparr>ryCreatedAt := (if is_zero (ryCreatedAt reg) then t else ryCreatedAt reg), ryUpdatedAt := t,
                ryHasPassword := (ryPassword reg \<noteq> '''')\<rparr>
     in hdb (\<lambda>h.
          if ryID r \<in> ryID ` set (hRegistries h) \<or> \<not> unique_registry r (hRegistries h) then (Inl (EStore ErrConflict), h)
          else (Inr r, h\<lparr>hRegistries := hRegistries h @ [r]\<rparr>)))"

definition updated_registry :: "registry \<Rightarrow> registry \<Rightarrow> registry" where
  "updated_registry reg old =
     old\<lparr>ryName := ryName reg, ryServer := ryServer reg, ryUsername := ryUsername reg, ryEmail := ryEmail reg,
        ryUpdatedAt := ryUpdatedAt reg,
        ryPassword := (if ryPassword reg \<noteq> '''' then ryPassword reg else ryPassword old),
        ryHasPassword := (ryPassword reg \<noteq> '''' \<or> ryPassword old \<noteq> '''')\<rparr>"

definition Registries_Update :: "registry \<Rightarrow> ('d, registry) act" where
  "Registries_Update reg =
     bindE (on_world now) (\<lambda>t.
     let r = reg\<lparr>ryUpdatedAt := t\<rparr>
     in hdb (\<lambda>h.
          if ryID r \<notin> ryID ` set (hRegistries h) then (Inl (EStore ErrNotFound), h)
          else if \<not> unique_registry r (filter (\<lambda>o'. ryID o' \<noteq> ryID r) (hRegistries h)) then (Inl (EStore ErrConflict), h)
          else (Inr r, h\<lparr>hRegistries := update_where (\<lambda>o'. ryID o' = ryID r) (updated_registry r) (hRegistries h)\<rparr>)))"

definition Registries_find :: "(registry \<Rightarrow> bool) \<Rightarrow> ('d, registry) act" where
  "Registries_find p = hdb (\<lambda>h. case find p (hRegistries h) of None \<Rightarrow> (Inl (EStore ErrNotFound), h) | Some r \<Rightarrow> (Inr r, h))"

definition Registries_ByID :: "string \<Rightarrow> ('d, registry) act" where
  "Registries_ByID i = Registries_find (\<lambda>r. ryID r = i)"

definition Registries_ByServer :: "string \<Rightarrow> ('d, registry) act" where
  "Registries_ByServer s = Registries_find (\<lambda>r. ryServer r = s)"

definition Registries_List :: "('d, registry list) act" where
  "Registries_List = hdb (readE (\<lambda>h. sort_key (\<lambda>r. stamp (ryCreatedAt r)) (hRegistries h)))"

definition Registries_Delete :: "string \<Rightarrow> ('d, unit) act" where
  "Registries_Delete i =
     hdb (\<lambda>h. if i \<notin> ryID ` set (hRegistries h) then (Inl (EStore ErrNotFound), h)
              else (Inr (), h\<lparr>hRegistries := delete_where (\<lambda>r. ryID r = i) (hRegistries h)\<rparr>))"

definition TouchLastUsed :: "string \<Rightarrow> time \<Rightarrow> ('d, unit) act" where
  "TouchLastUsed i t =
     hdb (modifyE (\<lambda>h. h\<lparr>hRegistries := update_where (\<lambda>r. ryID r = i) (\<lambda>r. r\<lparr>ryLastUsedAt := t\<rparr>) (hRegistries h)\<rparr>))"

section \<open>The service\<close>

record registry_input =
  riName :: string
  riServer :: string
  riUsername :: string
  riPassword :: string
  riEmail :: string

definition hide_password :: "registry \<Rightarrow> registry" where
  "hide_password r = r\<lparr>ryPassword := ''''\<rparr>"

definition Registry_List :: "('d, registry list) act" where
  "Registry_List = bindE Registries_List (\<lambda>rs. returnE (map hide_password rs))"

definition Registry_Get :: "string \<Rightarrow> ('d, registry) act" where
  "Registry_Get i = bindE (map_err ErrNotFound ErrRegistryNotFound (Registries_ByID i)) (\<lambda>r. returnE (hide_password r))"

definition Registry_build :: "ext \<Rightarrow> secret_box \<Rightarrow> registry_input \<Rightarrow> ('d, registry) act" where
  "Registry_build X box inp =
     (let name = trim_space (riName inp); server = NormalizeRegistryServer (riServer inp) in
      if name = '''' then throwE ErrRegistryInvalid
      else if trim_space (riServer inp) = '''' then throwE ErrRegistryInvalid
      else if list_ex (\<lambda>c. c = CHR '' '' \<or> c = CHR ''/'' \<or> c = CHR 0x5C) server then throwE ErrRegistryInvalid
      else if riPassword inp \<noteq> '''' \<and> trim_space (riUsername inp) = '''' then throwE ErrRegistryInvalid
      else
        bindE (if riPassword inp \<noteq> '''' then on_world (Encrypt X box (riPassword inp)) else returnE '''') (\<lambda>enc.
        returnE \<lparr>ryID = '''', ryName = name, ryServer = server, ryUsername = trim_space (riUsername inp), ryPassword = enc,
           ryEmail = trim_space (riEmail inp), ryCreatedAt = 0, ryUpdatedAt = 0, ryLastUsedAt = 0, ryHasPassword = False\<rparr>))"

definition auditRegistry :: "actor \<Rightarrow> request_meta \<Rightarrow> string \<Rightarrow> registry \<Rightarrow> string option \<Rightarrow> ('d, unit) act" where
  "auditRegistry who meta action reg err =
     audit_note who meta action ''registry'' (ryID reg) err
       (Some [(''name'', AString (ryName reg)), (''server'', AString (ryServer reg)), (''username'', AString (ryUsername reg))])"

definition Registry_Create :: "ext \<Rightarrow> secret_box \<Rightarrow> registry_input \<Rightarrow> actor \<Rightarrow> request_meta \<Rightarrow> ('d, registry) act" where
  "Registry_Create X box inp who meta =
     bindE (Registry_build X box inp) (\<lambda>reg0.
     bindE (on_world NewID) (\<lambda>i.
     let reg = reg0\<lparr>ryID := i\<rparr> in
     bindE (audited (map_err ErrConflict ErrRegistryExists (Registries_Create reg))
              (\<lambda>r. auditRegistry who meta ''registry.create'' reg (err_of r))) (\<lambda>row.
     returnE (row\<lparr>ryPassword := '''', ryHasPassword := (riPassword inp \<noteq> '''')\<rparr>))))"

definition Registry_Update :: "ext \<Rightarrow> secret_box \<Rightarrow> string \<Rightarrow> registry_input \<Rightarrow> actor \<Rightarrow> request_meta \<Rightarrow> ('d, registry) act" where
  "Registry_Update X box i inp who meta =
     bindE (map_err ErrNotFound ErrRegistryNotFound (Registries_ByID i)) (\<lambda>existing.
     bindE (Registry_build X box inp) (\<lambda>reg0.
     let reg = reg0\<lparr>ryID := i\<rparr> in
     bindE (audited (map_err ErrConflict ErrRegistryExists (Registries_Update reg))
              (\<lambda>r. auditRegistry who meta ''registry.update'' reg (err_of r))) (\<lambda>row.
     returnE (row\<lparr>ryPassword := '''', ryCreatedAt := ryCreatedAt existing,
                  ryHasPassword := (riPassword inp \<noteq> '''' \<or> ryHasPassword existing)\<rparr>))))"

definition Registry_Delete :: "string \<Rightarrow> actor \<Rightarrow> request_meta \<Rightarrow> ('d, unit) act" where
  "Registry_Delete i who meta =
     bindE (map_err ErrNotFound ErrRegistryNotFound (Registries_ByID i)) (\<lambda>reg.
     map_err ErrNotFound ErrRegistryNotFound
       (audited (Registries_Delete i) (\<lambda>r. auditRegistry who meta ''registry.delete'' reg (err_of r))))"

definition AuthFor :: "ext \<Rightarrow> secret_box option \<Rightarrow> string \<Rightarrow> ('d, registry_auth option) act" where
  "AuthFor X svc imageRef =
     (case svc of
        None \<Rightarrow> returnE None
      | Some box \<Rightarrow>
          attemptE (Registries_ByServer (RegistryServerForImage imageRef)) (\<lambda>r. case r of
            Inl e \<Rightarrow> if e = EStore ErrNotFound then returnE None else throwE e
          | Inr reg \<Rightarrow>
              if ryUsername reg = '''' \<and> ryPassword reg = '''' then returnE None
              else
                case (if ryPassword reg \<noteq> '''' then Decrypt X box (ryPassword reg) else Inr '''') of
                  Inl e \<Rightarrow> throwE (EStore e)
                | Inr password \<Rightarrow>
                    bindE (on_world now) (\<lambda>t.
                    thenE (ignoreE (TouchLastUsed (ryID reg) t))
                    (returnE (Some \<lparr>raUsername = ryUsername reg, raPassword = password, raServerAddress = ryServer reg\<rparr>)))))"


section \<open>A stored credential is the one a pull uses\<close>

lemma hdb_quiet: "wFaults (hWorld h) = [] \<Longrightarrow> hdb m h = m h"
  by (simp add: hdb_def)

lemma Record_quiet:
  assumes "wFaults w = []"
  shows "\<exists>w'. Record True e w = (Inr (), w') \<and> wFaults w' = []"
  using assms by (auto simp: Record_def prog_simps now_def Audit_Append_def Let_def db_def readE_def split: if_splits)


lemma on_world_Inr:
  "on_world m h = (Inr x, h') \<longleftrightarrow> m (hWorld h) = (Inr x, hWorld h') \<and> h' = h\<lparr>hWorld := hWorld h'\<rparr>"
  by (auto simp: on_world_def split: prod.split sum.split)

lemma on_world_InrD: "on_world m h = (Inr x, h') \<Longrightarrow> m (hWorld h) = (Inr x, hWorld h')"
  by (simp add: on_world_Inr)

lemma quiet_entropy:
  assumes "wFaults w = []"
  shows "Encrypt X box s w = (r, w') \<Longrightarrow> wFaults w' = []" "NewID w = (r', w') \<Longrightarrow> wFaults w' = []"
proof -
  have b: "blind wEntropy_update (\<lambda>w. wFaults w = [])" by (simp add: blind_def)
  show "Encrypt X box s w = (r, w') \<Longrightarrow> wFaults w' = []"
    using keeps_run [OF keeps_entropy(8) [OF b], of w] assms by blast
  show "NewID w = (r', w') \<Longrightarrow> wFaults w' = []"
    using keeps_run [OF keeps_entropy(4) [OF b], of w] assms by blast
qed

lemma Registry_build_Inr:
  assumes "Registry_build X box inp h = (Inr reg, h')" "riPassword inp \<noteq> ''''"
  obtains enc where "on_world (Encrypt X box (riPassword inp)) h = (Inr enc, h')" "ryPassword reg = enc"
    "ryServer reg = NormalizeRegistryServer (riServer inp)" "ryUsername reg = trim_space (riUsername inp)"
  using assms unfolding Registry_build_def Let_def
  by (auto simp: prog_simps throwE_def split: if_splits prod.splits sum.splits)

lemma audited_create_quiet:
  assumes "audited (map_err ErrConflict ErrRegistryExists (Registries_Create reg)) (\<lambda>r. auditRegistry who meta a reg (err_of r)) h
      = (Inr row, h')" "wFaults (hWorld h) = []"
  shows "hRegistries h' = hRegistries h @ [row] \<and> ryServer reg \<notin> ryServer ` set (hRegistries h)
    \<and> ryServer row = ryServer reg \<and> ryPassword row = ryPassword reg \<and> ryUsername row = ryUsername reg
    \<and> wFaults (hWorld h') = []"
proof -
  obtain r h1 where r: "Registries_Create reg h = (r, h1)" by fastforce
  have q: "wFaults (hWorld h1) = []" "r = Inr x \<Longrightarrow> hRegistries h1 = hRegistries h @ [x]
      \<and> ryServer reg \<notin> ryServer ` set (hRegistries h) \<and> ryServer x = ryServer reg \<and> ryPassword x = ryPassword reg
      \<and> ryUsername x = ryUsername reg" for x
    using r assms(2) by (auto simp: Registries_Create_def Let_def prog_simps on_world_def now_def hdb_def unique_registry_def
        split: if_splits list.splits)
  obtain w2 where w2: "Record True \<lparr>evActor = who, evAction = a, evResourceType = ''registry'', evResourceID = ryID reg, evErr = None,
       evDetail = Some [(''name'', AString (ryName reg)), (''server'', AString (ryServer reg)), (''username'', AString (ryUsername reg))],
       evIP = rmIP meta, evUserAgent = rmUserAgent meta\<rparr> (hWorld h1) = (Inr (), w2)" "wFaults w2 = []"
    using Record_quiet [OF q(1)] by blast
  have "r = Inr row \<and> h' = h1\<lparr>hWorld := w2\<rparr>"
    using assms(1) r w2(1) unfolding audited_def map_err_def
    by (cases r) (auto simp: prog_simps auditRegistry_def audit_note_def err_of_def on_world_def throwE_def returnE_def split: prod.splits sum.splits)
  then show ?thesis using q(2) w2(2) by simp
qed

lemma Registry_Create_row:
  assumes "Registry_Create X box inp who meta h = (Inr reg, h')" "wFaults (hWorld h) = []" "riPassword inp \<noteq> ''''"
  obtains row w1 where "Encrypt X box (riPassword inp) (hWorld h) = (Inr (ryPassword row), w1)"
    "hRegistries h' = hRegistries h @ [row]" "ryServer row = NormalizeRegistryServer (riServer inp)"
    "ryServer row \<notin> ryServer ` set (hRegistries h)" "ryUsername row = trim_space (riUsername inp)" "wFaults (hWorld h') = []"
proof -
  obtain reg0 h1 where b: "Registry_build X box inp h = (Inr reg0, h1)"
    and rest: "bindE (on_world NewID) (\<lambda>i. let reg = reg0\<lparr>ryID := i\<rparr> in
        bindE (audited (map_err ErrConflict ErrRegistryExists (Registries_Create reg))
              (\<lambda>r. auditRegistry who meta ''registry.create'' reg (err_of r))) (\<lambda>row.
        returnE (row\<lparr>ryPassword := '''', ryHasPassword := (riPassword inp \<noteq> '''')\<rparr>))) h1 = (Inr reg, h')"
    using assms(1) unfolding Registry_Create_def by (rule bindE_InrE)
  obtain enc where enc: "on_world (Encrypt X box (riPassword inp)) h = (Inr enc, h1)" "ryPassword reg0 = enc"
    "ryServer reg0 = NormalizeRegistryServer (riServer inp)" "ryUsername reg0 = trim_space (riUsername inp)"
    using Registry_build_Inr [OF b assms(3)] by metis
  obtain i h2 where i: "on_world NewID h1 = (Inr i, h2)"
    and rest2: "bindE (audited (map_err ErrConflict ErrRegistryExists (Registries_Create (reg0\<lparr>ryID := i\<rparr>)))
              (\<lambda>r. auditRegistry who meta ''registry.create'' (reg0\<lparr>ryID := i\<rparr>) (err_of r))) (\<lambda>row.
        returnE (row\<lparr>ryPassword := '''', ryHasPassword := (riPassword inp \<noteq> '''')\<rparr>)) h2 = (Inr reg, h')"
    using rest unfolding Let_def by (rule bindE_InrE)
  obtain row h3 where row: "audited (map_err ErrConflict ErrRegistryExists (Registries_Create (reg0\<lparr>ryID := i\<rparr>)))
      (\<lambda>r. auditRegistry who meta ''registry.create'' (reg0\<lparr>ryID := i\<rparr>) (err_of r)) h2 = (Inr row, h3)"
    and "h' = h3" using rest2 by (elim bindE_InrE) (simp add: returnE_def)
  have e: "Encrypt X box (riPassword inp) (hWorld h) = (Inr enc, hWorld h1)"
    using enc(1) by (rule on_world_InrD)
  have "wFaults (hWorld h1) = []" by (rule quiet_entropy(1) [OF assms(2) e])
  then have q: "wFaults (hWorld h2) = []" by (rule quiet_entropy(2) [OF _ on_world_InrD [OF i]])
  have "hRegistries h1 = hRegistries h" "hRegistries h2 = hRegistries h1"
    using frames_on_world(2) [of "Encrypt X box (riPassword inp)" h] frames_on_world(2) [of NewID h1] enc(1) i by simp_all
  then show thesis
    using audited_create_quiet [OF row q] that [of row "hWorld h1"] e enc(2-4) \<open>h' = h3\<close> by simp
qed

lemma AuthFor_row:
  assumes "find (\<lambda>r. ryServer r = RegistryServerForImage ref) (hRegistries h) = Some row" "wFaults (hWorld h) = []"
    and "ryPassword row \<noteq> ''''" "Decrypt X box (ryPassword row) = Inr pw"
  shows "\<exists>h'. AuthFor X (Some box) ref h = (Inr (Some \<lparr>raUsername = ryUsername row, raPassword = pw, raServerAddress = ryServer row\<rparr>), h')"
  using assms by (simp add: AuthFor_def Registries_ByServer_def Registries_find_def hdb_def prog_simps on_world_def now_def)

lemma Registry_Create_hides: "Registry_Create X box inp who meta h = (Inr reg, h') \<Longrightarrow> ryPassword reg = ''''"
  unfolding Registry_Create_def by (auto simp: Let_def returnE_def elim!: bindE_InrE)

lemma find_last: "P x \<Longrightarrow> (\<And>y. y \<in> set xs \<Longrightarrow> \<not> P y) \<Longrightarrow> find P (xs @ [x]) = Some x"
  by (induction xs) auto


definition quiet_host :: "world \<Rightarrow> unit host" where
  "quiet_host w = \<lparr>hWorld = w, hRegistries = [], hStacks = [], hTasks = None, hEvents = [], hEngine = ()\<rparr>"

definition sample_registry :: registry_input where
  "sample_registry = \<lparr>riName = ''main'', riServer = ''https://reg.example.com/'', riUsername = '' bot '', riPassword = ''s3cret'', riEmail = ''''\<rparr>"

lemma sample_registry_created:
  "\<not> isl (fst (Registry_Create sample_ext [1, 2] sample_registry sample_actor \<lparr>rmIP = '''', rmUserAgent = ''''\<rparr>
     (quiet_host (entropy_world (replicate 64 7)))))"
  "RegistryServerForImage ''reg.example.com/team/app'' = ''reg.example.com''"
  "NormalizeRegistryServer ''https://reg.example.com/'' = ''reg.example.com''" "trim_space '' bot '' = ''bot''"
  by code_simp+


end
