(* ===== verification/Resources.thy ===== *)
theory Resources
  imports Containers Registries
begin

text \<open>
  The image, volume and network services: internal/service/resourceops.go and the listings of
  resources.go. A pull hands the engine's progress through; what its two channels deliver is
  the value returned, with the failure the audit entry carries.
\<close>

definition normalizeName :: "string \<Rightarrow> host_error + string" where
  "normalizeName name = (let t = trim_space name in if t = '''' then Inl ErrEmptyName else Inr t)"

text \<open>A call on a named resource, refused without a name, and noted in the trail.\<close>

definition named :: "string \<Rightarrow> (string \<Rightarrow> ('d, 'a) act) \<Rightarrow> ('d, 'a) act" where
  "named name f = (case normalizeName name of Inl e \<Rightarrow> throwE e | Inr n \<Rightarrow> f n)"

definition noted :: "actor \<Rightarrow> request_meta \<Rightarrow> string \<Rightarrow> string \<Rightarrow> string \<Rightarrow> (host_error + 'a \<Rightarrow> detail option) \<Rightarrow> ('d, 'a) act \<Rightarrow> ('d, 'a) act" where
  "noted who meta action rtype rid det m = audited m (\<lambda>r. audit_note who meta action rtype rid (err_of r) (det r))"

section \<open>Images\<close>

definition Image_List :: "'d docker_client \<Rightarrow> list_images_options \<Rightarrow> ('d, image list) act" where
  "Image_List dc opts = on_engine (ListImages dc opts)"

definition Image_Pull :: "ext \<Rightarrow> 'd docker_client \<Rightarrow> secret_box option \<Rightarrow> string \<Rightarrow> actor \<Rightarrow> request_meta \<Rightarrow> ('d, pull_event list) act" where
  "Image_Pull X dc svc ref0 who meta =
     (let ref = trim_space ref0 in
      if ref = '''' then throwE (ESpec (SpecError ''image''))
      else
        bindE (AuthFor X svc ref) (\<lambda>auth.
        bindE (on_engine (PullImageProgress dc ref auth)) (\<lambda>st.
        noted who meta ''image.pull'' ''image'' ref
          (\<lambda>_. Some [(''reference'', AString ref), (''authenticated'', a_bool (auth \<noteq> None))])
          (case psErrs st of [] \<Rightarrow> returnE (psEvents st) | e # _ \<Rightarrow> throwE (EDocker e)))))"

definition Image_Remove :: "'d docker_client \<Rightarrow> string \<Rightarrow> remove_image_options \<Rightarrow> actor \<Rightarrow> request_meta \<Rightarrow> ('d, image_deleted list) act" where
  "Image_Remove dc i opts who meta =
     named i (\<lambda>n. noted who meta ''image.remove'' ''image'' n
       (\<lambda>r. Some [(''force'', a_bool (xiForce opts)), (''deleted'', a_int (case r of Inl _ \<Rightarrow> 0 | Inr ds \<Rightarrow> int (length ds)))])
       (on_engine (RemoveImage dc n opts)))"

definition Image_Prune :: "'d docker_client \<Rightarrow> bool \<Rightarrow> actor \<Rightarrow> request_meta \<Rightarrow> ('d, prune_report) act" where
  "Image_Prune dc all who meta =
     noted who meta ''image.prune'' ''image'' ''''
       (\<lambda>r. Some [(''all'', a_bool all), (''deleted'', a_int (int (length (prDeleted (report_of r))))),
                  (''space_reclaimed'', a_int (prSpaceReclaimed (report_of r)))])
       (on_engine (PruneImages dc all))"

definition Image_Tag :: "'d docker_client \<Rightarrow> string \<Rightarrow> string \<Rightarrow> actor \<Rightarrow> request_meta \<Rightarrow> ('d, unit) act" where
  "Image_Tag dc i ref0 who meta =
     named i (\<lambda>n. let ref = trim_space ref0 in
       if ref = '''' then throwE (ESpec (SpecError ''tag''))
       else noted who meta ''image.tag'' ''image'' n (\<lambda>_. Some [(''tag'', AString ref)]) (on_engine (TagImage dc n ref)))"

section \<open>Volumes\<close>

definition Volume_List :: "'d docker_client \<Rightarrow> ('d, volume list) act" where
  "Volume_List dc = on_engine (ListVolumes dc)"

definition Volume_Create :: "'d docker_client \<Rightarrow> volume_options \<Rightarrow> actor \<Rightarrow> request_meta \<Rightarrow> ('d, volume) act" where
  "Volume_Create dc opts0 who meta =
     (let opts = opts0\<lparr>voName := trim_space (voName opts0)\<rparr> in
      noted who meta ''volume.create'' ''volume'' (voName opts)
        (\<lambda>_. Some [(''driver'', AString (voDriver opts)), (''options'', AStringMap (voDriverOpts opts))])
        (on_engine (CreateVolume dc opts)))"

definition Volume_Get :: "'d docker_client \<Rightarrow> string \<Rightarrow> ('d, volume) act" where
  "Volume_Get dc name = named name (\<lambda>n. on_engine (InspectVolume dc n))"

definition Volume_Remove :: "'d docker_client \<Rightarrow> string \<Rightarrow> bool \<Rightarrow> actor \<Rightarrow> request_meta \<Rightarrow> ('d, unit) act" where
  "Volume_Remove dc name force who meta =
     named name (\<lambda>n. noted who meta ''volume.remove'' ''volume'' n (\<lambda>_. Some [(''force'', a_bool force)]) (on_engine (RemoveVolume dc n force)))"

definition Volume_Prune :: "'d docker_client \<Rightarrow> actor \<Rightarrow> request_meta \<Rightarrow> ('d, prune_report) act" where
  "Volume_Prune dc who meta =
     noted who meta ''volume.prune'' ''volume'' ''''
       (\<lambda>r. Some [(''deleted'', AStrings (prDeleted (report_of r))), (''space_reclaimed'', a_int (prSpaceReclaimed (report_of r)))])
       (on_engine (PruneVolumes dc))"

section \<open>Networks\<close>

definition Network_List :: "'d docker_client \<Rightarrow> ('d, network list) act" where
  "Network_List dc = on_engine (ListNetworks dc)"

definition Network_Create :: "'d docker_client \<Rightarrow> network_options \<Rightarrow> actor \<Rightarrow> request_meta \<Rightarrow> ('d, network) act" where
  "Network_Create dc opts0 who meta =
     (let opts = opts0\<lparr>noName := trim_space (noName opts0)\<rparr> in
      if noName opts = '''' then throwE ErrEmptyName
      else noted who meta ''network.create'' ''network'' (noName opts)
        (\<lambda>_. Some [(''driver'', AString (noDriver opts)), (''internal'', a_bool (noInternal opts)), (''subnets'', a_int (int (length (noIPAM opts))))])
        (on_engine (CreateNetwork dc opts)))"

definition Network_Get :: "'d docker_client \<Rightarrow> string \<Rightarrow> ('d, network) act" where
  "Network_Get dc i = named i (\<lambda>n. on_engine (InspectNetwork dc n))"

definition Network_Remove :: "'d docker_client \<Rightarrow> string \<Rightarrow> actor \<Rightarrow> request_meta \<Rightarrow> ('d, unit) act" where
  "Network_Remove dc i who meta =
     named i (\<lambda>n. noted who meta ''network.remove'' ''network'' n (\<lambda>_. None) (on_engine (RemoveNetwork dc n)))"

definition Network_Prune :: "'d docker_client \<Rightarrow> actor \<Rightarrow> request_meta \<Rightarrow> ('d, prune_report) act" where
  "Network_Prune dc who meta =
     noted who meta ''network.prune'' ''network'' '''' (\<lambda>r. Some [(''deleted'', AStrings (prDeleted (report_of r)))]) (on_engine (PruneNetworks dc))"

definition Network_Connect :: "'d docker_client \<Rightarrow> string \<Rightarrow> string \<Rightarrow> connect_options \<Rightarrow> actor \<Rightarrow> request_meta \<Rightarrow> ('d, unit) act" where
  "Network_Connect dc networkID containerID opts who meta =
     named networkID (\<lambda>n. case normalizeID containerID of
       Inl e \<Rightarrow> throwE e
     | Inr c \<Rightarrow> noted who meta ''network.connect'' ''network'' n
         (\<lambda>_. Some [(''container'', AString c), (''aliases'', AStrings (coAliases opts))]) (on_engine (ConnectNetwork dc n c opts)))"

definition Network_Disconnect :: "'d docker_client \<Rightarrow> string \<Rightarrow> string \<Rightarrow> bool \<Rightarrow> actor \<Rightarrow> request_meta \<Rightarrow> ('d, unit) act" where
  "Network_Disconnect dc networkID containerID force who meta =
     named networkID (\<lambda>n. case normalizeID containerID of
       Inl e \<Rightarrow> throwE e
     | Inr c \<Rightarrow> noted who meta ''network.disconnect'' ''network'' n
         (\<lambda>_. Some [(''container'', AString c), (''force'', a_bool force)]) (on_engine (DisconnectNetwork dc n c force)))"

end
