(* ===== verification/Offline_Engine.thy ===== *)
theory Offline_Engine
  imports Engine_Contract
begin

text \<open>
  internal/docker/offline.go: the client that is installed when the daemon cannot be reached.
  Every call reports that, with the reason it was given; none has an effect.
\<close>

definition offline_reason :: "string \<Rightarrow> string" where
  "offline_reason reason = (if reason = '''' then ''not connected to the Docker daemon'' else reason)"

definition offline_err :: "string \<Rightarrow> string \<Rightarrow> string \<Rightarrow> docker_error" where
  "offline_err reason op resource = NewError KindUnavailable op resource '''' (offline_reason reason)"

definition offline_call :: "string \<Rightarrow> string \<Rightarrow> string \<Rightarrow> ('d, 'a) call" where
  "offline_call reason op resource = throwE (offline_err reason op resource)"

definition Offline :: "string \<Rightarrow> 'd docker_client" where
  "Offline reason =
     \<lparr>ListContainers = \<lambda>_. offline_call reason ''container.list'' ''container'',
      InspectContainer = \<lambda>_. offline_call reason ''container.inspect'' ''container'',
      StartContainer = \<lambda>_. offline_call reason ''container.start'' ''container'',
      StopContainer = \<lambda>_ _. offline_call reason ''container.stop'' ''container'',
      RestartContainer = \<lambda>_ _. offline_call reason ''container.restart'' ''container'',
      RemoveContainer = \<lambda>_ _. offline_call reason ''container.remove'' ''container'',
      PauseContainer = \<lambda>_. offline_call reason ''container.pause'' ''container'',
      UnpauseContainer = \<lambda>_. offline_call reason ''container.unpause'' ''container'',
      KillContainer = \<lambda>_ _. offline_call reason ''container.kill'' ''container'',
      RenameContainer = \<lambda>_ _. offline_call reason ''container.rename'' ''container'',
      PruneContainers = offline_call reason ''container.prune'' ''container'',
      CreateContainer = \<lambda>_. offline_call reason ''container.create'' ''container'',
      RawInspectConfig = \<lambda>_. offline_call reason ''container.inspect'' ''container'',
      PullImage = \<lambda>_. offline_call reason ''image.pull'' ''image'',
      ListImages = \<lambda>_. offline_call reason ''image.list'' ''image'',
      PullImageProgress = \<lambda>_ _. returnE \<lparr>psEvents = [], psErrs = [offline_err reason ''image.pull'' ''image'']\<rparr>,
      RemoveImage = \<lambda>_ _. offline_call reason ''image.remove'' ''image'',
      PruneImages = \<lambda>_. offline_call reason ''image.prune'' ''image'',
      TagImage = \<lambda>_ _. offline_call reason ''image.tag'' ''image'',
      ListVolumes = offline_call reason ''volume.list'' ''volume'',
      CreateVolume = \<lambda>_. offline_call reason ''volume.create'' ''volume'',
      InspectVolume = \<lambda>_. offline_call reason ''volume.inspect'' ''volume'',
      RemoveVolume = \<lambda>_ _. offline_call reason ''volume.remove'' ''volume'',
      PruneVolumes = offline_call reason ''volume.prune'' ''volume'',
      ListNetworks = offline_call reason ''network.list'' ''network'',
      CreateNetwork = \<lambda>_. offline_call reason ''network.create'' ''network'',
      InspectNetwork = \<lambda>_. offline_call reason ''network.inspect'' ''network'',
      RemoveNetwork = \<lambda>_. offline_call reason ''network.remove'' ''network'',
      PruneNetworks = offline_call reason ''network.prune'' ''network'',
      ConnectNetwork = \<lambda>_ _ _. offline_call reason ''network.connect'' ''network'',
      DisconnectNetwork = \<lambda>_ _ _. offline_call reason ''network.disconnect'' ''network''\<rparr>"

text \<open>It keeps the contract whatever it is told the engine holds: nothing it does succeeds.\<close>

interpretation offline: engine_contract "Offline reason" view "\<lambda>d. \<forall>n c. vwHeld (view d) n = Some c \<longrightarrow> ctName c = n" good issues
  for reason view good issues
  by unfold_locales
    (auto simp: Offline_def offline_call_def offline_err_def throwE_run returnE_run NewError_def IsNotFound_def)

end
