(* ===== verification/Creator.thy ===== *)
theory Creator
  imports Containers Registries
begin

text \<open>
  The create service, internal/service/create.go: the path whitelist and the privileged-option
  gate in front of creating a container, the pull policy, and the pull itself.
\<close>

section \<open>Draining a pull\<close>

text \<open>
  The loop takes from whichever of the two channels is ready. A channel is what it still
  delivers, or \<open>None\<close> once it was seen closed and set to nil; the sender closes both, so a
  receive never waits. \<open>sched\<close> says which channel is taken when both are ready, the events
  being \<open>True\<close>. The context does not end while the loop runs.
\<close>

definition take_event :: "pull_event list \<Rightarrow> pull_event list option" where
  "take_event vs = (case vs of [] \<Rightarrow> None | _ # vs' \<Rightarrow> Some vs')"

definition pending :: "'a list option \<Rightarrow> nat" where
  "pending c = (case c of None \<Rightarrow> 0 | Some xs \<Rightarrow> Suc (length xs))"

function drainPull :: "bool list \<Rightarrow> pull_event list option \<Rightarrow> docker_error list option \<Rightarrow> docker_error option" where
  "drainPull sched events errs =
     (case events of
        None \<Rightarrow>
          (case errs of
             None \<Rightarrow> None
           | Some [] \<Rightarrow> drainPull (tl sched) None None
           | Some (e # _) \<Rightarrow> Some e)
      | Some vs \<Rightarrow>
          (case errs of
             None \<Rightarrow> drainPull (tl sched) (take_event vs) None
           | Some es \<Rightarrow>
               if sched = [] \<or> hd sched then drainPull (tl sched) (take_event vs) (Some es)
               else case es of [] \<Rightarrow> drainPull (tl sched) (Some vs) None | e # _ \<Rightarrow> Some e))"
  by pat_completeness auto
termination
  by (relation "measure (\<lambda>(sched, events, errs). pending events + pending errs)")
    (auto simp: pending_def take_event_def split: list.splits)

declare drainPull.simps [simp del]

section \<open>The gates\<close>

definition isHostNamespace :: "string \<Rightarrow> bool" where
  "isHostNamespace name \<longleftrightarrow> lower_is (trim_space name) ''host''"

definition privileged_used :: "container_spec \<Rightarrow> string list" where
  "privileged_used spec =
     (if scPrivileged (csSecurity spec) then [''privileged''] else [])
     @ (if scCapAdd (csSecurity spec) \<noteq> [] then [''cap_add''] else [])
     @ (if scDevices (csSecurity spec) \<noteq> [] then [''devices''] else [])
     @ (if scSecurityOpt (csSecurity spec) \<noteq> [] then [''security_opt''] else [])
     @ (if scSysctls (csSecurity spec) \<noteq> [] then [''sysctls''] else [])
     @ (if isHostNamespace (nsName (csNetwork spec)) then [''network=host''] else [])"

definition checkPrivilegedOptions :: "container_spec \<Rightarrow> bool \<Rightarrow> host_error option" where
  "checkPrivilegedOptions spec allowed =
     (if allowed then None else if privileged_used spec = [] then None else Some (PrivilegedError (privileged_used spec)))"

section \<open>Creating\<close>

text \<open>The collaborators of the service, and of the stack service.\<close>

record 'd deps =
  dpExt :: ext
  dpClient :: "'d docker_client"
  dpRegistries :: "secret_box option"
  dpFS :: file_system
  dpPaths :: "string list"
  dpSched :: "bool list"

definition pull_drained :: "'d deps \<Rightarrow> string \<Rightarrow> ('d, unit) act" where
  "pull_drained D ref =
     bindE (AuthFor (dpExt D) (dpRegistries D) ref) (\<lambda>auth.
     bindE (on_engine (PullImageProgress (dpClient D) ref auth)) (\<lambda>st.
     case drainPull (dpSched D) (Some (psEvents st)) (Some (psErrs st)) of
       None \<Rightarrow> returnE ()
     | Some e \<Rightarrow> throwE (EDocker e)))"

definition ensureImage :: "'d deps \<Rightarrow> container_spec \<Rightarrow> ('d, unit) act" where
  "ensureImage D spec =
     (let policy = trim_space (csPullPolicy spec) in
      if lower_is policy PullNever then returnE ()
      else if lower_is policy PullAlways then pull_drained D (csImage spec)
      else if policy = '''' \<or> lower_is policy PullMissing then returnE ()
      else throwE (ESpec (SpecError ''pull_policy'')))"

record create_result =
  qrID :: string
  qrName :: string
  qrImage :: string
  qrStarted :: bool

definition no_result :: create_result where
  "no_result = \<lparr>qrID = '''', qrName = '''', qrImage = '''', qrStarted = False\<rparr>"

text \<open>The error before the container exists is the call's; a failed start comes with the result.\<close>

definition create :: "'d deps \<Rightarrow> container_spec \<Rightarrow> bool \<Rightarrow> ('d, create_result \<times> host_error option) act" where
  "create D spec privileged =
     (case CheckAll (dpFS D) (dpPaths D) (BindSources spec) of
        Some e \<Rightarrow> throwE (EPath e)
      | None \<Rightarrow>
          case checkPrivilegedOptions spec privileged of
            Some e \<Rightarrow> throwE e
          | None \<Rightarrow>
              bindE (from_checked (BuildCreateSpec spec)) (\<lambda>createSpec.
              thenE (ensureImage D spec)
              (bindE (on_engine (CreateContainer (dpClient D) createSpec)) (\<lambda>i.
               let result = \<lparr>qrID = i, qrName = crName createSpec, qrImage = csImage spec, qrStarted = False\<rparr> in
               if csStart spec then
                 bindE (try_engine (StartContainer (dpClient D) i)) (\<lambda>r. case r of
                   Inl e \<Rightarrow> returnE (result, Some (EDocker e))
                 | Inr _ \<Rightarrow> returnE (result\<lparr>qrStarted := True\<rparr>, None))
               else returnE (result, None)))))"

definition published_ports :: "port_mapping list \<Rightarrow> string list" where
  "published_ports ps = map (\<lambda>p. pmHostPort p @ '':'' @ itoa (pmContainerPort p)) (filter (\<lambda>p. pmHostPort p \<noteq> '''') ps)"

definition auditCreate :: "actor \<Rightarrow> request_meta \<Rightarrow> container_spec \<Rightarrow> create_result \<Rightarrow> string option \<Rightarrow> ('d, unit) act" where
  "auditCreate who meta spec result err =
     audit_note who meta ''container.create'' ''container'' (qrID result) err
       (Some ([(''name'', AString (csName spec)), (''image'', AString (csImage spec)),
               (''privileged'', a_bool (scPrivileged (csSecurity spec))), (''start'', a_bool (csStart spec)),
               (''binds'', AStrings (BindSources spec)), (''network'', AString (nsName (csNetwork spec)))]
              @ (if csPorts spec \<noteq> [] then [(''published_ports'', AStrings (published_ports (csPorts spec)))] else [])))"

definition create_outcome :: "host_error + (create_result \<times> host_error option) \<Rightarrow> create_result \<times> host_error option" where
  "create_outcome r = (case r of Inl e \<Rightarrow> (no_result, Some e) | Inr out \<Rightarrow> out)"

definition Create :: "'d deps \<Rightarrow> container_spec \<Rightarrow> bool \<Rightarrow> actor \<Rightarrow> request_meta \<Rightarrow> ('d, create_result \<times> host_error option) act" where
  "Create D spec privileged who meta =
     attemptE (create D spec privileged) (\<lambda>r.
     let out = create_outcome r in
     thenE (auditCreate who meta spec (fst out) (map_option err_text (snd out))) (returnE out))"

section \<open>A pull ends the same way in every order\<close>

lemma drainPull_no_errs: "drainPull sched events None = None"
proof (induction "pending events" arbitrary: sched events rule: less_induct)
  case less
  then show ?case
    by (cases events) (auto simp: drainPull.simps [of sched] pending_def take_event_def split: list.split)
qed

lemma drainPull_result: "drainPull sched events (Some es) = (case es of [] \<Rightarrow> None | e # _ \<Rightarrow> Some e)"
proof (induction "pending events" arbitrary: sched events rule: less_induct)
  case less
  show ?case
  proof (cases events)
    case None
    then show ?thesis by (simp add: drainPull.simps [of sched] drainPull_no_errs split: list.split)
  next
    case (Some vs)
    then have "drainPull (tl sched) (take_event vs) (Some es) = (case es of [] \<Rightarrow> None | e # _ \<Rightarrow> Some e)"
      by (intro less) (simp add: pending_def take_event_def split: list.split)
    then show ?thesis using Some by (simp add: drainPull.simps [of sched] drainPull_no_errs split: list.split)
  qed
qed

section \<open>What reaches the engine\<close>

text \<open>
  A definition the engine may be asked to create: without the privileged permission it has none
  of the options behind the gate, and each host path it binds passes the whitelist.
\<close>

definition within_gates :: "file_system \<Rightarrow> string list \<Rightarrow> bool \<Rightarrow> create_spec \<Rightarrow> bool" where
  "within_gates fs allowed privileged s =
     (case crHostConfig s of
        None \<Rightarrow> False
      | Some hc \<Rightarrow>
          (privileged \<or> \<not> hfPrivileged hc \<and> hfCapAdd hc = [] \<and> hfDevices hc = [] \<and> hfSecurityOpt hc = [] \<and> hfSysctls hc = []
             \<and> \<not> lower_is (hfNetworkMode hc) ''host'')
          \<and> list_all (\<lambda>m. emType m = TypeBind \<longrightarrow> Guard_Check fs allowed (emSource m) = None) (hfMounts hc))"

lemma lower_fold_bind:
  assumes "lower_is s MountTypeBind" "0x130 \<notin> set (runes s)"
  shows "fold_is s MountTypeBind"
proof -
  have "map fold_rune (runes s) = map lower_rune (runes s)"
  proof (rule map_cong [OF refl])
    fix r assume r: "r \<in> set (runes s)"
    then have "lower_rune r \<in> set (map of_char MountTypeBind)" using assms(1) by (metis lower_is_def list.set_map imageI)
    then have "lower_rune r < 128" by (auto simp: MountTypeBind_def)
    then show "fold_rune r = lower_rune r" using r assms(2) by (auto simp: fold_rune_def lower_rune_def split: if_splits)
  qed
  then show ?thesis using assms(1) unfolding lower_is_def fold_is_def by (simp only:)
qed

lemma buildMounts_binds:
  assumes "buildMounts_from ms acc tm = Inr (mounts, tmpfs)" "m \<in> set mounts" "m \<notin> set acc" "emType m = TypeBind"
  shows "\<exists>x\<in>set ms. lower_is (trim_space (msType x)) MountTypeBind \<and> emSource m = trim_space (msSource x) \<and> emSource m \<noteq> ''''"
  using assms(1,3)
proof (induction ms arbitrary: acc tm)
  case Nil
  then show ?case using assms(2) by simp
next
  case (Cons x ms)
  let ?bound = "\<lambda>y. lower_is (trim_space (msType x)) MountTypeBind \<and> emSource y = trim_space (msSource x) \<and> emSource y \<noteq> ''''"
  obtain acc' tm' where rec: "buildMounts_from ms acc' tm' = Inr (mounts, tmpfs)"
    and acc': "acc' = acc \<or> (\<exists>y. acc' = acc @ [y] \<and> (emType y = TypeBind \<longrightarrow> ?bound y))"
    using Cons.prems(1) by (auto simp: Let_def bind_mount_def split: if_splits)
  show ?case
  proof (cases "m \<in> set acc'")
    case True
    then have "?bound m" using acc' Cons.prems(2) assms(4) by auto
    then show ?thesis by auto
  next
    case False
    then show ?thesis using Cons.IH [OF rec] by auto
  qed
qed

lemma CheckAll_None: "CheckAll fs allowed ps = None \<longleftrightarrow> (\<forall>p\<in>set ps. Guard_Check fs allowed p = None)"
  by (induction ps) (auto split: option.split)

definition no_dotted_I :: "container_spec \<Rightarrow> bool" where
  "no_dotted_I spec \<longleftrightarrow> list_all (\<lambda>m. 0x130 \<notin> set (runes (trim_space (msType m)))) (csMounts spec)"

lemma BuildCreateSpec_host:
  assumes "BuildCreateSpec spec = Inr s"
  obtains hc mounts tmpfs where "crHostConfig s = Some hc" "buildMounts (csMounts spec) = Inr (mounts, tmpfs)" "hfMounts hc = mounts"
    "hfPrivileged hc = scPrivileged (csSecurity spec)" "hfCapAdd hc = scCapAdd (csSecurity spec)"
    "hfSecurityOpt hc = scSecurityOpt (csSecurity spec)" "hfSysctls hc = scSysctls (csSecurity spec)"
    "buildDevices (scDevices (csSecurity spec)) = Inr (hfDevices hc)" "hfNetworkMode hc = trim_space (nsName (csNetwork spec))"
proof -
  obtain health exposed bindings mounts tmpfs restart devices where parts:
    "buildMounts (csMounts spec) = Inr (mounts, tmpfs)" "buildDevices (scDevices (csSecurity spec)) = Inr devices"
    "crHostConfig s = Some \<lparr>hfPortBindings = bindings, hfMounts = mounts, hfTmpfs = tmpfs, hfRestartPolicy = restart,
       hfAutoRemove = csAutoRemove spec, hfPrivileged = scPrivileged (csSecurity spec),
       hfReadonlyRootfs = scReadOnlyRootFS (csSecurity spec), hfCapAdd = scCapAdd (csSecurity spec),
       hfCapDrop = scCapDrop (csSecurity spec), hfSecurityOpt = scSecurityOpt (csSecurity spec),
       hfSysctls = scSysctls (csSecurity spec), hfExtraHosts = nsExtraHosts (csNetwork spec), hfDNS = nsDNS (csNetwork spec),
       hfDNSSearch = nsDNSSearch (csNetwork spec), hfDNSOptions = nsDNSOptions (csNetwork spec),
       hfResources = buildResources (csResources spec), hfInit = (if csInit spec then Some True else None),
       hfLogConfig = (if lgDriver (csLogging spec) \<noteq> '''' then Some (lgDriver (csLogging spec), lgOptions (csLogging spec)) else None),
       hfDevices = devices, hfNetworkMode = trim_space (nsName (csNetwork spec))\<rparr>"
    using assms unfolding BuildCreateSpec_def by (auto simp: okE_Inr split: if_splits prod.splits)
  show thesis by (rule that [OF parts(3,1)]) (simp_all add: parts(2))
qed

lemma BuildCreateSpec_gated:
  assumes "BuildCreateSpec spec = Inr s" "checkPrivilegedOptions spec privileged = None"
    and "CheckAll fs allowed (BindSources spec) = None" "no_dotted_I spec"
  shows "within_gates fs allowed privileged s"
proof -
  obtain hc mounts tmpfs where hc: "crHostConfig s = Some hc" "buildMounts (csMounts spec) = Inr (mounts, tmpfs)" "hfMounts hc = mounts"
    "hfPrivileged hc = scPrivileged (csSecurity spec)" "hfCapAdd hc = scCapAdd (csSecurity spec)"
    "hfSecurityOpt hc = scSecurityOpt (csSecurity spec)" "hfSysctls hc = scSysctls (csSecurity spec)"
    "buildDevices (scDevices (csSecurity spec)) = Inr (hfDevices hc)" "hfNetworkMode hc = trim_space (nsName (csNetwork spec))"
    by (rule BuildCreateSpec_host [OF assms(1)])
  have "Guard_Check fs allowed (emSource m) = None" if mounted: "m \<in> set mounts" and bind: "emType m = TypeBind" for m
  proof -
    obtain x where x: "x \<in> set (csMounts spec)" "lower_is (trim_space (msType x)) MountTypeBind" "emSource m = trim_space (msSource x)" "emSource m \<noteq> ''''"
      using buildMounts_binds [OF hc(2) [unfolded buildMounts_def] mounted _ bind] by auto
    then have "fold_is (trim_space (msType x)) MountTypeBind"
      using assms(4) by (intro lower_fold_bind) (auto simp: no_dotted_I_def list_all_iff)
    then have "emSource m \<in> set (BindSources spec)" using x by (auto simp: BindSources_def)
    then show ?thesis using assms(3) by (simp add: CheckAll_None)
  qed
  moreover have "privileged \<or> \<not> hfPrivileged hc \<and> hfCapAdd hc = [] \<and> hfDevices hc = [] \<and> hfSecurityOpt hc = [] \<and> hfSysctls hc = []
      \<and> \<not> lower_is (hfNetworkMode hc) ''host''"
    using assms(2) hc(4-9) by (auto simp: checkPrivilegedOptions_def privileged_used_def isHostNamespace_def split: if_splits)
  ultimately show ?thesis using hc(1,3) by (simp add: within_gates_def list_all_iff)
qed

section \<open>The gates hold\<close>

text \<open>Everything of a client but its answer to a creation that is not within the gates.\<close>

definition gated_client :: "file_system \<Rightarrow> string list \<Rightarrow> bool \<Rightarrow> (create_spec \<Rightarrow> ('d, string) call) \<Rightarrow> 'd docker_client \<Rightarrow> 'd docker_client" where
  "gated_client fs allowed privileged bad dc =
     dc\<lparr>CreateContainer := \<lambda>s. if within_gates fs allowed privileged s then CreateContainer dc s else bad s\<rparr>"

lemma Create_gated:
  assumes "no_dotted_I spec"
  shows "Create D spec privileged who meta h
    = Create (D\<lparr>dpClient := gated_client (dpFS D) (dpPaths D) privileged bad (dpClient D)\<rparr>) spec privileged who meta h"
proof -
  let ?D = "D\<lparr>dpClient := gated_client (dpFS D) (dpPaths D) privileged bad (dpClient D)\<rparr>"
  have sel: "StartContainer (dpClient ?D) = StartContainer (dpClient D)" "PullImageProgress (dpClient ?D) = PullImageProgress (dpClient D)"
    by (simp_all add: gated_client_def)
  have "pull_drained ?D ref = pull_drained D ref" for ref using sel by (simp add: pull_drained_def)
  then have img: "ensureImage ?D spec = ensureImage D spec" by (simp add: ensureImage_def Let_def)
  have "create ?D spec privileged = create D spec privileged"
  proof (cases "CheckAll (dpFS D) (dpPaths D) (BindSources spec) = None \<and> checkPrivilegedOptions spec privileged = None")
    case True
    have make: "CreateContainer (dpClient ?D) s = CreateContainer (dpClient D) s" if "BuildCreateSpec spec = Inr s" for s
      using BuildCreateSpec_gated [OF that] True assms by (simp add: gated_client_def)
    show ?thesis
    proof (cases "BuildCreateSpec spec")
      case (Inl e)
      then show ?thesis using True by (simp add: create_def from_checked_def fun_eq_iff bindE_run throwE_run)
    next
      case (Inr s)
      then show ?thesis using True make [OF Inr] sel img by (simp add: create_def from_checked_def Let_def cong: if_cong)
    qed
  qed (auto simp: create_def split: option.splits)
  then show ?thesis by (simp add: Create_def)
qed


definition sample_spec :: container_spec where
  "sample_spec =
     \<lparr>csName = ''web'', csImage = ''nginx:1.27'', csPullPolicy = '''', csCommand = [], csEntrypoint = [], csWorkingDir = '''', csUser = '''',
      csHostname = '''', csDomainName = '''', csTTY = False, csOpenStdin = False, csEnv = [], csLabels = [], csPorts = [],
      csMounts = [\<lparr>msType = ''bind'', msSource = ''/srv/app/data'', msDestination = ''/data'', msReadOnly = False, msTmpfsSize = 0,
                    msBindPropagation = '''', msCreateHostPath = False\<rparr>],
      csRestartPolicy = \<lparr>rpName = '''', rpMaxRetries = 0\<rparr>,
      csResources = \<lparr>rsCPUs = 0, rsCPUShares = 0, rsCPUSetCPUs = '''', rsMemory = 0, rsMemoryReservation = 0, rsMemorySwap = 0,
                     rsPidsLimit = 0, rsShmSize = 0\<rparr>,
      csNetwork = \<lparr>nsName = '''', nsAliases = [], nsIPv4Address = '''', nsIPv6Address = '''', nsExtraHosts = [], nsDNS = [],
                   nsDNSSearch = [], nsDNSOptions = [], nsMacAddress = ''''\<rparr>,
      csHealthCheck = None, csLogging = \<lparr>lgDriver = '''', lgOptions = []\<rparr>,
      csSecurity = \<lparr>scPrivileged = False, scCapAdd = [], scCapDrop = [], scSecurityOpt = [], scDevices = [], scReadOnlyRootFS = False,
                    scSysctls = []\<rparr>,
      csAutoRemove = False, csInit = False, csStart = True\<rparr>"

definition sample_deps :: "fake deps" where
  "sample_deps = \<lparr>dpExt = sample_ext, dpClient = fake_client, dpRegistries = None, dpFS = [], dpPaths = [''/srv''], dpSched = []\<rparr>"


text \<open>
  A request the service refuses, because a bound path is outside the whitelist, an option
  needs a permission the caller lacks or the definition is malformed, is an error and leaves the
  engine and the stored credentials as they were, whatever the engine would have done.
\<close>

theorem Create_refusal:
  assumes "CheckAll (dpFS D) (dpPaths D) (BindSources spec) \<noteq> None \<or> (\<not> privileged \<and> privileged_used spec \<noteq> []) \<or> isl (BuildCreateSpec spec)"
  shows "\<exists>e w. Create D spec privileged who meta h = (Inr (no_result, Some e), h\<lparr>hWorld := w\<rparr>)"
proof -
  have "\<exists>e. create D spec privileged h = (Inl e, h)"
    using assms by (cases "BuildCreateSpec spec")
      (auto simp: create_def checkPrivilegedOptions_def from_checked_def bindE_run throwE_run split: option.split)
  then obtain e where e: "create D spec privileged h = (Inl e, h)" by blast
  obtain w where w: "auditCreate who meta spec no_result (Some (err_text e)) h = (Inr (), h\<lparr>hWorld := w\<rparr>)"
    unfolding auditCreate_def by (rule audit_note_run)
  have "Create D spec privileged who meta h = (Inr (no_result, Some e), h\<lparr>hWorld := w\<rparr>)"
    using e w by (simp add: Create_def attemptE_run create_outcome_def thenE_run returnE_run Let_def)
  then show ?thesis by blast
qed

theorem Create_refusal_witness:
  "\<exists>e w. Create (sample_deps\<lparr>dpPaths := [''/opt'']\<rparr>) sample_spec False sample_actor sample_meta (fake_host New_fake)
     = (Inr (no_result, Some e), (fake_host New_fake)\<lparr>hWorld := w\<rparr>)"
proof -
  have "CheckAll [] [''/opt''] (BindSources sample_spec) \<noteq> None" by code_simp
  then show ?thesis
    using Create_refusal [of "sample_deps\<lparr>dpPaths := [''/opt'']\<rparr>" sample_spec False sample_actor sample_meta "fake_host New_fake"]
    by (simp add: sample_deps_def)
qed

definition dotted_bind :: container_spec where
  "dotted_bind = sample_spec\<lparr>csMounts := [\<lparr>msType = [CHR ''B'', CHR 0xC4, CHR 0xB0, CHR ''N'', CHR ''D''], msSource = ''/etc'', msDestination = ''/data'',
     msReadOnly = False, msTmpfsSize = 0, msBindPropagation = '''', msCreateHostPath = False\<rparr>]\<rparr>"

text \<open>
  C17: The whitelist can be stepped around by the spelling of a mount type. The conversion lowers
  the type, and the lower case of U+0130 is the letter i, while the list of host paths to check
  compares by folding, under which it is not: such a mount of /etc is checked against nothing
  and is created as a bind.
\<close>

theorem dotted_bind_bypasses_whitelist:
  "CheckAll fs allowed (BindSources dotted_bind) = None \<and> checkPrivilegedOptions dotted_bind False = None
   \<and> (case BuildCreateSpec dotted_bind of
        Inl _ \<Rightarrow> False
      | Inr s \<Rightarrow> (case crHostConfig s of None \<Rightarrow> False | Some hc \<Rightarrow> map (\<lambda>m. (emType m, emSource m)) (hfMounts hc) = [(TypeBind, ''/etc'')]))"
proof (intro conjI)
  have "BindSources dotted_bind = []" by code_simp
  then show "CheckAll fs allowed (BindSources dotted_bind) = None" by simp
  show "checkPrivilegedOptions dotted_bind False = None" by code_simp
  show "case BuildCreateSpec dotted_bind of
        Inl _ \<Rightarrow> False
      | Inr s \<Rightarrow> (case crHostConfig s of None \<Rightarrow> False | Some hc \<Rightarrow> map (\<lambda>m. (emType m, emSource m)) (hfMounts hc) = [(TypeBind, ''/etc'')])"
    by code_simp
qed

end
