(* ===== verification/Compose.thy ===== *)
theory Compose
  imports Engine Text_Formats
begin

text \<open>
  The conversion of a compose project into what the engine can create, internal/compose/convert.go.
  A project is what the parser library hands over: of its types only the fields the conversion
  reads are kept, a map is an association list without repeated keys, an optional pointer an
  option, and a field that is only tested for presence a boolean. Sizes and counts are kept
  as numbers.
\<close>

section \<open>The parsed project\<close>

record port_config =
  pcHostIP :: string
  pcPublished :: string
  pcTarget :: nat
  pcProtocol :: string

record bind_config = bcPropagation :: string bcCreateHostPath :: bool

record volume_mount_config =
  vmType :: string
  vmSource :: string
  vmTarget :: string
  vmReadOnly :: bool
  vmBind :: "bind_config option"
  vmTmpfsSize :: "int option"

record limits_config = lcNanoCPUs :: rat lcMemoryBytes :: int lcPids :: int

record deploy_config =
  dyReplicas :: "int option"
  dyRestartCondition :: "string option"
  dyLimits :: "limits_config option"
  dyReservations :: "limits_config option"
  dyMode :: string
  dyConstraints :: "string list"
  dyUpdateConfig :: bool

record health_check_config =
  hkTest :: "string list"
  hkInterval :: "duration option"
  hkTimeout :: "duration option"
  hkStartPeriod :: "duration option"
  hkRetries :: "nat option"
  hkDisable :: bool

record device_config = dvSource :: string dvTarget :: string dvPermissions :: string

record attachment_config =
  atAliases :: "string list"
  atIpv4Address :: string
  atIpv6Address :: string

record build_config =
  bdContext :: string
  bdDockerfile :: string
  bdTarget :: string
  bdArgs :: "(string \<times> string option) list"

record service_config =
  svName :: string
  svImage :: string
  svCommand :: "string list"
  svEntrypoint :: "string list"
  svWorkingDir :: string
  svUser :: string
  svHostname :: string
  svDomainName :: string
  svTty :: bool
  svStdinOpen :: bool
  svInit :: "bool option"
  svContainerName :: string
  svEnvironment :: "(string \<times> string option) list"
  svLabels :: str_map
  svPorts :: "port_config list"
  svRestart :: string
  svDeploy :: "deploy_config option"
  svScale :: "int option"
  svDependsOn :: "string list"
  svCPUS :: rat
  svCPUShares :: int
  svCPUSet :: string
  svPidsLimit :: int
  svShmSize :: int
  svMemLimit :: int
  svMemReservation :: int
  svMemSwapLimit :: int
  svHealthCheck :: "health_check_config option"
  svLogging :: "(string \<times> str_map) option"
  svLogDriver :: string
  svLogOpt :: str_map
  svPrivileged :: bool
  svCapAdd :: "string list"
  svCapDrop :: "string list"
  svSecurityOpt :: "string list"
  svReadOnly :: bool
  svSysctls :: str_map
  svDevices :: "device_config list"
  svVolumes :: "volume_mount_config list"
  svTmpfs :: "string list"
  svNetworkMode :: string
  svNetworks :: "(string \<times> attachment_config option) list"
  svExtraHosts :: "string list"
  svDNS :: "string list"
  svDNSSearch :: "string list"
  svDNSOpts :: "string list"
  svMacAddress :: string
  svBuild :: "build_config option"
  svPullPolicy :: string
  svConfigs :: bool
  svSecrets :: bool
  svLinks :: bool
  svVolumesFrom :: bool
  svDevelop :: bool
  svExtends :: bool
  svProfiles :: bool
  svExternalLinks :: bool
  svCredentialSpec :: bool
  svModels :: bool
  svProvider :: bool
  svHooks :: bool

record network_config =
  nfName :: string
  nfExternal :: bool
  nfDriver :: string
  nfInternal :: bool
  nfAttachable :: bool
  nfEnableIPv6 :: "bool option"
  nfDriverOpts :: str_map
  nfLabels :: str_map
  nfIpamDriver :: string
  nfIpamConfig :: "(string \<times> string \<times> string) list"

record volume_config =
  vfName :: string
  vfExternal :: bool
  vfDriver :: string
  vfDriverOpts :: str_map
  vfLabels :: str_map

record project =
  pjName :: string
  pjServices :: "(string \<times> service_config) list"
  pjNetworks :: "(string \<times> network_config) list"
  pjVolumes :: "(string \<times> volume_config) list"
  pjConfigs :: bool
  pjSecrets :: bool

section \<open>Plans\<close>

definition LabelStack :: string where "LabelStack = ''com.iskele.stack''"
definition LabelService :: string where "LabelService = ''com.iskele.service''"
definition LabelReplica :: string where "LabelReplica = ''com.iskele.replica''"
definition LabelManaged :: string where "LabelManaged = ''com.iskele.managed''"
definition LabelComposeProject :: string where "LabelComposeProject = ''com.docker.compose.project''"
definition LabelComposeService :: string where "LabelComposeService = ''com.docker.compose.service''"
definition LabelComposeNumber :: string where "LabelComposeNumber = ''com.docker.compose.container-number''"

record warning = wnService :: string wnField :: string wnMessage :: string

record service_network =
  naName :: string
  naAliases :: "string list"
  naIPv4Address :: string
  naIPv6Address :: string

record build_plan =
  blContext :: string
  blDockerfile :: string
  blArgs :: str_map
  blTarget :: string
  blImage :: string

record service_plan =
  spName :: string
  spReplicas :: int
  spSpec :: container_spec
  spNetworks :: "service_network list"
  spDependsOn :: "string list"
  spBuild :: "build_plan option"

record network_plan =
  npName :: string
  npKey :: string
  npExternal :: bool
  npOptions :: network_options

record volume_plan =
  vpName :: string
  vpKey :: string
  vpExternal :: bool
  vpOptions :: volume_options

record conversion =
  cvServices :: "service_plan list"
  cvNetworks :: "network_plan list"
  cvVolumes :: "volume_plan list"
  cvWarnings :: "warning list"

text \<open>An error of the package, with its message.\<close>

datatype compose_error = Compose_Error (composeMessage: string)

section \<open>Texts\<close>

text \<open>
  \<open>fmt.Sprintf("%q", s)\<close> for a text without control characters and without unprintable letters.
\<close>

definition go_quote :: "string \<Rightarrow> string" where
  "go_quote s = [dquote] @ concat (map (\<lambda>c. if c = dquote \<or> c = CHR 0x5C then [CHR 0x5C, c] else [c]) s) @ [dquote]"

text \<open>\<open>time.Duration.String\<close>\<close>

definition frac_str :: "nat \<Rightarrow> nat \<Rightarrow> string" where
  "frac_str prec v =
     (let ds = trim_right (\<lambda>c. c = CHR ''0'') (pad_zeros prec (show_nat (v mod 10 ^ prec)))
      in if ds = [] then '''' else ''.'' @ ds)"

definition micro_sign :: string where "micro_sign = [CHR 0xC2, CHR 0xB5]"

definition duration_string :: "duration \<Rightarrow> string" where
  "duration_string d =
     (let u = nat \<bar>d\<bar>; sign = (if d < 0 then ''-'' else '''') in
      if u = 0 then ''0s''
      else if u < 1000 then sign @ show_nat u @ ''ns''
      else if u < 1000000 then sign @ show_nat (u div 1000) @ frac_str 3 u @ micro_sign @ ''s''
      else if u < 1000000000 then sign @ show_nat (u div 1000000) @ frac_str 6 u @ ''ms''
      else
        let s = u div 1000000000; m = s div 60; h = m div 60
        in sign @ (if 0 < h then show_nat h @ ''h'' else '''') @ (if 0 < m then show_nat (m mod 60) @ ''m'' else '''')
           @ show_nat (s mod 60) @ frac_str 9 u @ ''s'')"

section \<open>Services\<close>

definition replicasOf :: "service_config \<Rightarrow> int" where
  "replicasOf sv =
     (case Option.bind (svDeploy sv) dyReplicas of
        Some r \<Rightarrow> if 0 < r then r else (case svScale sv of Some n \<Rightarrow> if 0 < n then n else 1 | None \<Rightarrow> 1)
      | None \<Rightarrow> (case svScale sv of Some n \<Rightarrow> if 0 < n then n else 1 | None \<Rightarrow> 1))"

definition dependenciesOf :: "service_config \<Rightarrow> string list" where
  "dependenciesOf sv = sort (svDependsOn sv)"

definition convertEnvironment :: "(string \<times> string option) list \<Rightarrow> env_var list" where
  "convertEnvironment env =
     map (\<lambda>k. \<lparr>evKey = k, evValue = (case map_of env k of Some (Some v) \<Rightarrow> v | _ \<Rightarrow> '''')\<rparr>)
       (sort (map fst (filter (\<lambda>(k, v). v \<noteq> None) env)))"

definition map_put :: "string \<Rightarrow> string \<Rightarrow> str_map \<Rightarrow> str_map" where
  "map_put k v m = filter (\<lambda>e. fst e \<noteq> k) m @ [(k, v)]"

definition convertLabels :: "string \<Rightarrow> service_config \<Rightarrow> str_map" where
  "convertLabels project sv =
     map_put LabelComposeService (svName sv)
    (map_put LabelComposeProject project
    (map_put LabelManaged ''true''
    (map_put LabelService (svName sv)
    (map_put LabelStack project (svLabels sv)))))"

definition convertPort :: "port_config \<Rightarrow> port_mapping" where
  "convertPort p = \<lparr>pmHostIP = pcHostIP p, pmHostPort = pcPublished p, pmContainerPort = int (pcTarget p), pmProtocol = pcProtocol p\<rparr>"

definition convertPorts :: "service_config \<Rightarrow> port_mapping list \<times> warning list" where
  "convertPorts sv =
     (let ports = filter (\<lambda>p. pcTarget p \<noteq> 0) (svPorts sv)
      in (map convertPort ports,
          map (\<lambda>p. \<lparr>wnService = svName sv, wnField = ''ports'',
                   wnMessage = go_quote (pcPublished p) @ '' publishes a range; every port in it is exposed on the host''\<rparr>)
            (filter (\<lambda>p. CHR ''-'' \<in> set (pcPublished p)) ports)))"

definition on_failure :: string where "on_failure = ''on-failure''"

definition convertRestart :: "string \<Rightarrow> deploy_config option \<Rightarrow> string \<Rightarrow> restart_policy \<times> warning list" where
  "convertRestart restart0 deploy service =
     (let restart = (if restart0 = '''' then (case Option.bind deploy dyRestartCondition of Some c \<Rightarrow> c | None \<Rightarrow> restart0) else restart0);
          counted = has_prefix restart ''on-failure:'';
          name = (if counted then on_failure else restart);
          retries = (if counted then (case atoi (drop 11 restart) of Some n \<Rightarrow> n | None \<Rightarrow> 0) else 0)
      in if name = '''' \<or> name = ''no'' \<or> name = ''none'' then (\<lparr>rpName = ''no'', rpMaxRetries = 0\<rparr>, [])
         else if name = ''always'' \<or> name = ''any'' then (\<lparr>rpName = ''always'', rpMaxRetries = 0\<rparr>, [])
         else if name = ''unless-stopped'' then (\<lparr>rpName = ''unless-stopped'', rpMaxRetries = 0\<rparr>, [])
         else if name = on_failure then (\<lparr>rpName = on_failure, rpMaxRetries = retries\<rparr>, [])
         else (\<lparr>rpName = ''no'', rpMaxRetries = 0\<rparr>,
               [\<lparr>wnService = service, wnField = ''restart'',
                 wnMessage = go_quote restart @ '' is not a restart policy the engine knows; the container will not be restarted''\<rparr>]))"

definition convertResources :: "service_config \<Rightarrow> resources" where
  "convertResources sv =
     (let base = \<lparr>rsCPUs = (if 0 < svCPUS sv then svCPUS sv else 0), rsCPUShares = svCPUShares sv, rsCPUSetCPUs = svCPUSet sv,
            rsMemory = svMemLimit sv, rsMemoryReservation = svMemReservation sv, rsMemorySwap = svMemSwapLimit sv,
            rsPidsLimit = svPidsLimit sv, rsShmSize = svShmSize sv\<rparr>;
          limited = (\<lambda>l. base\<lparr>rsCPUs := (if 0 < lcNanoCPUs l then lcNanoCPUs l else rsCPUs base),
            rsMemory := (if 0 < lcMemoryBytes l then lcMemoryBytes l else rsMemory base),
            rsPidsLimit := (if 0 < lcPids l then lcPids l else rsPidsLimit base)\<rparr>);
          res = (case Option.bind (svDeploy sv) dyLimits of None \<Rightarrow> base | Some l \<Rightarrow> limited l)
      in case Option.bind (svDeploy sv) dyReservations of
           None \<Rightarrow> res
         | Some r \<Rightarrow> if 0 < lcMemoryBytes r then res\<lparr>rsMemoryReservation := lcMemoryBytes r\<rparr> else res)"

definition MaxInt32 :: int where "MaxInt32 = 2147483647"

definition convertHealthCheck :: "health_check_config option \<Rightarrow> health_spec option" where
  "convertHealthCheck check =
     (case check of
        None \<Rightarrow> None
      | Some c \<Rightarrow>
          let text = (\<lambda>d. case d of None \<Rightarrow> '''' | Some d \<Rightarrow> duration_string d) in
          Some (if hkDisable c
            then \<lparr>hsTest = [], hsInterval = '''', hsTimeout = '''', hsStartPeriod = '''', hsRetries = 0, hsDisable = True\<rparr>
            else \<lparr>hsTest = hkTest c, hsInterval = text (hkInterval c), hsTimeout = text (hkTimeout c),
                  hsStartPeriod = text (hkStartPeriod c),
                  hsRetries = (case hkRetries c of None \<Rightarrow> 0 | Some n \<Rightarrow> if int n < MaxInt32 then int n else MaxInt32),
                  hsDisable = False\<rparr>))"

definition convertLogging :: "service_config \<Rightarrow> logging_spec" where
  "convertLogging sv =
     (case svLogging sv of
        Some (driver, opts) \<Rightarrow> \<lparr>lgDriver = driver, lgOptions = opts\<rparr>
      | None \<Rightarrow> \<lparr>lgDriver = svLogDriver sv, lgOptions = svLogOpt sv\<rparr>)"

definition convertSecurity :: "service_config \<Rightarrow> security_spec" where
  "convertSecurity sv =
     \<lparr>scPrivileged = svPrivileged sv, scCapAdd = svCapAdd sv, scCapDrop = svCapDrop sv, scSecurityOpt = svSecurityOpt sv,
      scDevices = map (\<lambda>d. dvSource d @ '':'' @ dvTarget d @ '':'' @ dvPermissions d) (svDevices sv),
      scReadOnlyRootFS = svReadOnly sv, scSysctls = svSysctls sv\<rparr>"

definition plain_mount :: "volume_mount_config \<Rightarrow> mount_spec" where
  "plain_mount v = \<lparr>msType = '''', msSource = '''', msDestination = vmTarget v, msReadOnly = vmReadOnly v, msTmpfsSize = 0,
     msBindPropagation = '''', msCreateHostPath = False\<rparr>"

definition convertMount :: "str_map \<Rightarrow> string \<Rightarrow> volume_mount_config \<Rightarrow> compose_error + mount_spec" where
  "convertMount volumeNames service v =
     (if vmType v = ''bind'' then
        Inr (case vmBind v of
               None \<Rightarrow> (plain_mount v)\<lparr>msType := MountTypeBind, msSource := vmSource v\<rparr>
             | Some b \<Rightarrow> (plain_mount v)\<lparr>msType := MountTypeBind, msSource := vmSource v, msBindPropagation := bcPropagation b,
                           msCreateHostPath := bcCreateHostPath b\<rparr>)
      else if vmType v = ''volume'' then
        Inr ((plain_mount v)\<lparr>msType := MountTypeVolume,
               msSource := (case map_of volumeNames (vmSource v) of Some named \<Rightarrow> named | None \<Rightarrow> vmSource v)\<rparr>)
      else if vmType v = ''tmpfs'' then
        Inr ((plain_mount v)\<lparr>msType := MountTypeTmpfs, msTmpfsSize := (case vmTmpfsSize v of Some n \<Rightarrow> n | None \<Rightarrow> 0)\<rparr>)
      else Inl (Compose_Error (''service '' @ go_quote service @ '' mounts '' @ go_quote (vmTarget v)
             @ '', which Iskele does not support ('' @ vmType v @ '')'')))"

fun convertVolumesFor :: "str_map \<Rightarrow> string \<Rightarrow> volume_mount_config list \<Rightarrow> compose_error + mount_spec list" where
  "convertVolumesFor volumeNames service [] = Inr []"
| "convertVolumesFor volumeNames service (v # vs) =
     (case convertMount volumeNames service v of
        Inl e \<Rightarrow> Inl e
      | Inr m \<Rightarrow> (case convertVolumesFor volumeNames service vs of Inl e \<Rightarrow> Inl e | Inr ms \<Rightarrow> Inr (m # ms)))"

definition convertTmpfs :: "service_config \<Rightarrow> mount_spec list" where
  "convertTmpfs sv = map (\<lambda>target. \<lparr>msType = MountTypeTmpfs, msSource = '''', msDestination = target, msReadOnly = False,
     msTmpfsSize = 0, msBindPropagation = '''', msCreateHostPath = False\<rparr>) (svTmpfs sv)"

definition appendUnique :: "string list \<Rightarrow> string \<Rightarrow> string list" where
  "appendUnique values v = (if v \<in> set values then values else values @ [v])"

definition attachment :: "service_config \<Rightarrow> str_map \<Rightarrow> string \<Rightarrow> service_network" where
  "attachment sv networkNames key =
     (let name = (case map_of networkNames key of Some named \<Rightarrow> named | None \<Rightarrow> key) in
      case map_of (svNetworks sv) key of
        Some (Some c) \<Rightarrow> \<lparr>naName = name, naAliases = appendUnique (atAliases c) (svName sv),
                          naIPv4Address = atIpv4Address c, naIPv6Address = atIpv6Address c\<rparr>
      | _ \<Rightarrow> \<lparr>naName = name, naAliases = appendUnique [] (svName sv), naIPv4Address = '''', naIPv6Address = ''''\<rparr>)"

definition convertServiceNetworks :: "service_config \<Rightarrow> str_map \<Rightarrow> service_network list" where
  "convertServiceNetworks sv networkNames =
     (if svNetworkMode sv \<noteq> '''' then [] else map (attachment sv networkNames) (sort (map fst (svNetworks sv))))"

definition firstNetwork :: "service_config \<Rightarrow> service_network list \<Rightarrow> network_spec" where
  "firstNetwork sv attachments =
     (let none = \<lparr>nsName = '''', nsAliases = [], nsIPv4Address = '''', nsIPv6Address = '''', nsExtraHosts = [], nsDNS = [],
            nsDNSSearch = [], nsDNSOptions = [], nsMacAddress = ''''\<rparr> in
      if svNetworkMode sv \<noteq> '''' then none\<lparr>nsName := svNetworkMode sv\<rparr>
      else case attachments of
        [] \<Rightarrow> none
      | a # _ \<Rightarrow> none\<lparr>nsName := naName a, nsAliases := naAliases a, nsIPv4Address := naIPv4Address a, nsIPv6Address := naIPv6Address a\<rparr>)"

definition convertBuild :: "string \<Rightarrow> service_config \<Rightarrow> build_config \<Rightarrow> build_plan" where
  "convertBuild project sv b =
     \<lparr>blContext = bdContext b, blDockerfile = bdDockerfile b,
      blArgs = concat (map (\<lambda>(k, v). case v of None \<Rightarrow> [] | Some x \<Rightarrow> [(k, x)]) (bdArgs b)), blTarget = bdTarget b,
      blImage = (if svImage sv = '''' then project @ ''-'' @ svName sv @ '':latest'' else svImage sv)\<rparr>"

definition convertPullPolicy :: "string \<Rightarrow> string \<Rightarrow> string \<times> warning list" where
  "convertPullPolicy policy service =
     (if policy = ''always'' then (PullAlways, [])
      else if policy = ''never'' then (PullNever, [])
      else if policy = ''missing'' \<or> policy = ''if_not_present'' then (PullMissing, [])
      else if policy = ''build'' then
        (PullMissing, [\<lparr>wnService = service, wnField = ''pull_policy'',
           wnMessage = ''pull_policy: build only means something with a build section; the image is pulled if missing''\<rparr>])
      else (PullMissing, []))"

definition collectServiceWarnings :: "service_config \<Rightarrow> warning list" where
  "collectServiceWarnings sv =
     (let add = (\<lambda>b field message. if b then [\<lparr>wnService = svName sv, wnField = field, wnMessage = message\<rparr>] else []) in
      add (svConfigs sv) ''configs'' ''swarm-only; the container starts without the config file''
      @ add (svSecrets sv) ''secrets'' ''swarm-only; the container starts without the secret file''
      @ add (svLinks sv) ''links'' ''links are legacy; services on the same network already reach each other by name''
      @ add (svVolumesFrom sv) ''volumes_from'' ''not supported; mount the same volume in both services instead''
      @ add (svDevelop sv) ''develop'' ''watch mode is a compose CLI feature and has no effect here''
      @ (case svDeploy sv of
           None \<Rightarrow> []
         | Some d \<Rightarrow>
             add (dyMode d = ''global'') ''deploy.mode'' ''global mode is swarm-only; the service runs once''
             @ add (dyConstraints d \<noteq> []) ''deploy.placement'' ''placement constraints are swarm-only and are ignored''
             @ add (dyUpdateConfig d) ''deploy.update_config'' ''rolling updates are swarm-only and are ignored'')
      @ add (svExtends sv) ''extends'' ''resolved at parse time; the merged result is what deploys''
      @ add (svProfiles sv) ''profiles'' ''every service is deployed; Iskele does not select profiles''
      @ add (svExternalLinks sv) ''external_links'' ''not supported; attach both containers to the same network instead''
      @ add (svCredentialSpec sv) ''credential_spec'' ''Windows-only and ignored''
      @ add (svModels sv) ''models'' ''model runners are not supported''
      @ add (svProvider sv) ''provider'' ''provider services are not supported''
      @ add (svHooks sv) ''lifecycle hooks'' ''pre_start, post_start and pre_stop are compose CLI features and do not run here'')"

text \<open>The definition of a service but for its image and its pull policy, which depend on a build.\<close>

definition service_spec :: "string \<Rightarrow> service_config \<Rightarrow> mount_spec list \<Rightarrow> service_network list \<Rightarrow> container_spec" where
  "service_spec project sv mounts networks =
     \<lparr>csName = svContainerName sv, csImage = svImage sv, csPullPolicy = '''', csCommand = svCommand sv, csEntrypoint = svEntrypoint sv,
      csWorkingDir = svWorkingDir sv, csUser = svUser sv, csHostname = svHostname sv, csDomainName = svDomainName sv,
      csTTY = svTty sv, csOpenStdin = svStdinOpen sv, csEnv = convertEnvironment (svEnvironment sv),
      csLabels = convertLabels project sv, csPorts = fst (convertPorts sv), csMounts = mounts @ convertTmpfs sv,
      csRestartPolicy = fst (convertRestart (svRestart sv) (svDeploy sv) (svName sv)), csResources = convertResources sv,
      csNetwork = (firstNetwork sv networks)\<lparr>nsExtraHosts := svExtraHosts sv, nsDNS := svDNS sv, nsDNSSearch := svDNSSearch sv,
        nsDNSOptions := svDNSOpts sv, nsMacAddress := svMacAddress sv\<rparr>,
      csHealthCheck = convertHealthCheck (svHealthCheck sv), csLogging = convertLogging sv, csSecurity = convertSecurity sv,
      csAutoRemove = False, csInit = (svInit sv = Some True), csStart = True\<rparr>"

definition convertService :: "string \<Rightarrow> service_config \<Rightarrow> str_map \<Rightarrow> str_map \<Rightarrow> compose_error + (service_plan \<times> warning list)" where
  "convertService project sv networkNames volumeNames =
     (case convertVolumesFor volumeNames (svName sv) (svVolumes sv) of
        Inl e \<Rightarrow> Inl e
      | Inr mounts \<Rightarrow>
          let networks = convertServiceNetworks sv networkNames;
              spec = service_spec project sv mounts networks;
              build = map_option (convertBuild project sv) (svBuild sv);
              built = (case build of
                  None \<Rightarrow> spec
                | Some b \<Rightarrow> spec\<lparr>csImage := (if csImage spec = '''' then blImage b else csImage spec), csPullPolicy := PullNever\<rparr>);
              policy = (if svPullPolicy sv \<noteq> '''' \<and> build = None then convertPullPolicy (svPullPolicy sv) (svName sv)
                        else (csPullPolicy built, []))
          in if csImage built = '''' then
               Inl (Compose_Error (''service '' @ go_quote (svName sv) @ '' has neither an image nor a build context''))
             else
               Inr (\<lparr>spName = svName sv, spReplicas = replicasOf sv, spSpec = built\<lparr>csPullPolicy := fst policy\<rparr>,
                     spNetworks = networks, spDependsOn = dependenciesOf sv, spBuild = build\<rparr>,
                    snd (convertPorts sv) @ snd (convertRestart (svRestart sv) (svDeploy sv) (svName sv)) @ snd policy
                    @ collectServiceWarnings sv))"

section \<open>Networks and volumes\<close>

definition networkName :: "string \<Rightarrow> string \<Rightarrow> network_config \<Rightarrow> string" where
  "networkName project key n =
     (if nfName n \<noteq> '''' then nfName n else if nfExternal n then key else project @ ''_'' @ key)"

definition volumeName :: "string \<Rightarrow> string \<Rightarrow> volume_config \<Rightarrow> string" where
  "volumeName project key v =
     (if vfName v \<noteq> '''' then vfName v else if vfExternal v then key else project @ ''_'' @ key)"

definition resourceLabels :: "string \<Rightarrow> str_map \<Rightarrow> str_map" where
  "resourceLabels project own =
     map_put LabelComposeProject project (map_put LabelManaged ''true'' (map_put LabelStack project own))"

definition convertNetwork :: "string \<Rightarrow> string \<times> network_config \<Rightarrow> network_plan" where
  "convertNetwork project e = (case e of (key, n) \<Rightarrow>
     \<lparr>npName = networkName project key n, npKey = key, npExternal = nfExternal n,
      npOptions = \<lparr>noName = networkName project key n, noDriver = nfDriver n, noInternal = nfInternal n,
        noAttachable = nfAttachable n, noEnableIPv6 = (nfEnableIPv6 n = Some True),
        noIPAM = map (\<lambda>(subnet, gateway, range). \<lparr>ipSubnet = subnet, ipGateway = gateway, ipRange = range, ipAuxAddress = ''''\<rparr>)
          (nfIpamConfig n),
        noOptions = nfDriverOpts n, noLabels = resourceLabels project (nfLabels n)\<rparr>\<rparr>)"

definition convertNetworks :: "project \<Rightarrow> network_plan list \<times> warning list" where
  "convertNetworks p =
     (let nets = sort_key fst (pjNetworks p)
      in (map (convertNetwork (pjName p)) nets,
          map (\<lambda>(key, n). \<lparr>wnService = '''', wnField = ''networks.'' @ key @ ''.ipam.driver'',
                  wnMessage = ''a custom IPAM driver is passed through; the engine refuses it when the plugin is missing''\<rparr>)
            (filter (\<lambda>(key, n). nfIpamDriver n \<noteq> '''' \<and> nfIpamDriver n \<noteq> ''default'') nets)))"

definition convertVolume :: "string \<Rightarrow> string \<times> volume_config \<Rightarrow> volume_plan" where
  "convertVolume project e = (case e of (key, v) \<Rightarrow>
     \<lparr>vpName = volumeName project key v, vpKey = key, vpExternal = vfExternal v,
      vpOptions = \<lparr>voName = volumeName project key v, voDriver = vfDriver v, voDriverOpts = vfDriverOpts v,
        voLabels = resourceLabels project (vfLabels v)\<rparr>\<rparr>)"

definition convertVolumes :: "project \<Rightarrow> volume_plan list \<times> warning list" where
  "convertVolumes p =
     (map (convertVolume (pjName p)) (sort_key fst (pjVolumes p)),
      (if pjConfigs p then [\<lparr>wnService = '''', wnField = ''configs'',
         wnMessage = ''configs are a swarm feature; Iskele does not create them, and services referencing one start without it''\<rparr>] else [])
      @ (if pjSecrets p then [\<lparr>wnService = '''', wnField = ''secrets'',
         wnMessage = ''secrets are a swarm feature; use environment variables or a bind mount instead''\<rparr>] else []))"

section \<open>Projects\<close>

definition SortedServiceNames :: "project \<Rightarrow> string list" where
  "SortedServiceNames p = sort (map fst (pjServices p))"

fun convertServices :: "project \<Rightarrow> str_map \<Rightarrow> str_map \<Rightarrow> string list \<Rightarrow> compose_error + (service_plan list \<times> warning list)" where
  "convertServices p networkNames volumeNames [] = Inr ([], [])"
| "convertServices p networkNames volumeNames (name # names) =
     (case map_of (pjServices p) name of
        None \<Rightarrow> convertServices p networkNames volumeNames names
      | Some sv \<Rightarrow>
          (case convertService (pjName p) sv networkNames volumeNames of
             Inl e \<Rightarrow> Inl e
           | Inr (plan, ws) \<Rightarrow>
               (case convertServices p networkNames volumeNames names of
                  Inl e \<Rightarrow> Inl e
                | Inr (plans, ws') \<Rightarrow> Inr (plan # plans, ws @ ws'))))"

definition Convert :: "project \<Rightarrow> string list \<Rightarrow> compose_error + conversion" where
  "Convert p order =
     (let (networks, nws) = convertNetworks p; (volumes, vws) = convertVolumes p;
          order' = (if order = [] then SortedServiceNames p else order)
      in case convertServices p (map (\<lambda>n. (npKey n, npName n)) networks) (map (\<lambda>v. (vpKey v, vpName v)) volumes) order' of
           Inl e \<Rightarrow> Inl e
         | Inr (plans, ws) \<Rightarrow>
             Inr \<lparr>cvServices = plans, cvNetworks = networks, cvVolumes = volumes, cvWarnings = nws @ vws @ ws\<rparr>)"

definition ContainerName :: "string \<Rightarrow> string \<Rightarrow> int \<Rightarrow> string" where
  "ContainerName project service replica = project @ ''-'' @ service @ ''-'' @ itoa replica"

section \<open>Parsing\<close>

text \<open>
  The parser is the compose-go library: reading a .env text, loading a document under a project
  name with that environment and working directory (with the lines it logs meanwhile), finding
  a cycle of dependencies and visiting the services in dependency order.
\<close>

record compose_lib =
  dotenv :: "string \<Rightarrow> string + str_map"
  load :: "string \<Rightarrow> str_map \<Rightarrow> string \<Rightarrow> string \<Rightarrow> string list \<times> (string + project)"
  check_cycle :: "project \<Rightarrow> string option"
  dependency_order :: "project \<Rightarrow> string + string list"

record input =
  inName :: string
  inCompose :: string
  inEnv :: string
  inWorkingDir :: string

definition isNoise :: "string \<Rightarrow> bool" where
  "isNoise message \<longleftrightarrow> contains message ''the attribute `version` is obsolete''"

definition fieldOfWarning :: "string \<Rightarrow> string" where
  "fieldOfWarning message = (if contains message ''variable is not set'' then ''interpolation'' else ''compose'')"

definition captured :: "string list \<Rightarrow> warning list" where
  "captured lines =
     map (\<lambda>m. \<lparr>wnService = '''', wnField = fieldOfWarning m, wnMessage = m\<rparr>)
       (filter (\<lambda>m. m \<noteq> '''' \<and> \<not> isNoise m) (map trim_space lines))"

definition composeFileName :: string where "composeFileName = ''compose.yaml''"

text \<open>\<open>strings.ReplaceAll(s, old, '''')\<close> for a text \<open>old\<close> that is not empty, and \<open>strings.TrimPrefix\<close>.\<close>

function remove_all :: "string \<Rightarrow> string \<Rightarrow> string" where
  "remove_all old [] = []"
| "remove_all old (c # s) =
     (if old \<noteq> [] \<and> has_prefix (c # s) old then remove_all old (drop (length old) (c # s)) else c # remove_all old s)"
  by pat_completeness auto
termination
  by (relation "measure (\<lambda>(old, s). length s)") (auto simp: neq_Nil_conv)

definition trim_prefix :: "string \<Rightarrow> string \<Rightarrow> string" where
  "trim_prefix s p = (if has_prefix s p then drop (length p) s else s)"

definition cleanParseError :: "string \<Rightarrow> string" where
  "cleanParseError message =
     trim_prefix (remove_all (composeFileName @ '': '') message) (''validating '' @ composeFileName @ '': '')"

definition ParseEnv :: "compose_lib \<Rightarrow> string \<Rightarrow> compose_error + str_map" where
  "ParseEnv L content =
     (if trim_space content = '''' then Inr []
      else case dotenv L content of
        Inl e \<Rightarrow> Inl (Compose_Error (''the .env file could not be read: '' @ e))
      | Inr m \<Rightarrow> Inr m)"

definition Parse :: "compose_lib \<Rightarrow> input \<Rightarrow> warning list \<times> (compose_error + project)" where
  "Parse L i =
     (let name = trim_space (inName i) in
      if name = '''' then ([], Inl (Compose_Error ''a stack needs a name''))
      else case ParseEnv L (inEnv i) of
        Inl e \<Rightarrow> ([], Inl e)
      | Inr env \<Rightarrow>
          (case load L name env (inCompose i) (inWorkingDir i) of
             (lines, Inl e) \<Rightarrow> (captured lines, Inl (Compose_Error (cleanParseError e)))
           | (lines, Inr p) \<Rightarrow>
               (captured lines,
                if pjServices p = [] then Inl (Compose_Error ''this compose file defines no services'')
                else case check_cycle L p of
                  Some e \<Rightarrow> Inl (Compose_Error (''depends_on forms a cycle: '' @ e))
                | None \<Rightarrow> Inr p)))"

definition ServiceOrder :: "compose_lib \<Rightarrow> project \<Rightarrow> compose_error + string list" where
  "ServiceOrder L p =
     (case dependency_order L p of
        Inl e \<Rightarrow> Inl (Compose_Error (''depends_on could not be resolved: '' @ e))
      | Inr names \<Rightarrow> Inr names)"

end
