(* ===== verification/Spec_Json.thy ===== *)
theory Spec_Json
  imports Spec_Types Text_Formats Digests
begin

text \<open>
  The JSON text of a container definition, as \<open>json.Marshal\<close> writes it under the field tags of
  internal/docker/spec.go, and its SHA-256 digest. A field marked omitempty is left out when it
  is empty, zero, false or nil; a nil slice without that mark is written as null.
\<close>

section \<open>Floating-point numbers\<close>

text \<open>
  \<open>encoding/json\<close> writes a float64 with the fewest digits that read back as the same number,
  plainly for magnitudes from \<open>1e-6\<close> up to \<open>1e21\<close> and with an exponent outside.
  \<open>decade x\<close> is the exponent \<open>e\<close> with \<open>10^(e-1) \<le> x < 10^e\<close>, looked for among those of float64.
\<close>

definition decade :: "rat \<Rightarrow> int" where
  "decade x = (case filter (\<lambda>e. x < power_int 10 e) [-330..310] of [] \<Rightarrow> 310 | e # _ \<Rightarrow> e)"

definition shortest_digits :: "rat \<Rightarrow> string" where
  "shortest_digits x =
     (let e = decade x;
          digits = (\<lambda>n. show_nat (nat (round_even (x * power_int 10 (int n - e)))));
          exact = (\<lambda>n. fl (of_int (round_even (x * power_int 10 (int n - e))) * power_int 10 (e - int n)) = x)
      in digits (case filter exact [1..<17] of [] \<Rightarrow> 17 | n # _ \<Rightarrow> n))"

definition fixed_text :: "string \<Rightarrow> int \<Rightarrow> string" where
  "fixed_text ds e =
     (if e \<le> 0 then ''0.'' @ replicate (nat (- e)) CHR ''0'' @ ds
      else if length ds \<le> nat e then ds @ replicate (nat e - length ds) CHR ''0''
      else take (nat e) ds @ ''.'' @ drop (nat e) ds)"

definition exp_text :: "string \<Rightarrow> int \<Rightarrow> string" where
  "exp_text ds e =
     take 1 ds @ (if 1 < length ds then ''.'' @ drop 1 ds else '''') @ ''e'' @ (if e \<le> 0 then ''-'' else ''+'')
     @ (let a = show_nat (nat \<bar>e - 1\<bar>) in if e \<le> 0 then a else pad_zeros 2 a)"

definition json_float :: "rat \<Rightarrow> string" where
  "json_float x =
     (if x = 0 then ''0''
      else (if x < 0 then ''-'' else '''')
        @ (let y = \<bar>x\<bar>; ds = shortest_digits y
           in if y < 1 / 1000000 \<or> 1000000000000000000000 \<le> y then exp_text ds (decade y) else fixed_text ds (decade y)))"

section \<open>Fields\<close>

type_synonym json_field = "(string \<times> string) list"

definition j_str :: "string \<Rightarrow> string \<Rightarrow> json_field" where "j_str k s = [(k, json_string s)]"
definition j_str_opt :: "string \<Rightarrow> string \<Rightarrow> json_field" where "j_str_opt k s = (if s = '''' then [] else j_str k s)"
definition j_bool_opt :: "string \<Rightarrow> bool \<Rightarrow> json_field" where "j_bool_opt k b = (if b then [(k, ''true'')] else [])"
definition j_int :: "string \<Rightarrow> int \<Rightarrow> json_field" where "j_int k n = [(k, itoa n)]"
definition j_int_opt :: "string \<Rightarrow> int \<Rightarrow> json_field" where "j_int_opt k n = (if n = 0 then [] else j_int k n)"
definition j_list_opt :: "string \<Rightarrow> string list \<Rightarrow> json_field" where
  "j_list_opt k vs = (if vs = [] then [] else [(k, json_array vs)])"
definition j_strs_opt :: "string \<Rightarrow> string list \<Rightarrow> json_field" where "j_strs_opt k ss = j_list_opt k (map json_string ss)"
definition j_map_opt :: "string \<Rightarrow> str_map \<Rightarrow> json_field" where
  "j_map_opt k m = (if m = [] then [] else [(k, json_object (sort_key fst (map (\<lambda>(x, v). (x, json_string v)) m)))])"

section \<open>The definition\<close>

definition json_env :: "env_var \<Rightarrow> string" where
  "json_env v = json_object (j_str ''key'' (evKey v) @ j_str ''value'' (evValue v))"

definition json_port :: "port_mapping \<Rightarrow> string" where
  "json_port p = json_object (j_str_opt ''host_ip'' (pmHostIP p) @ j_str_opt ''host_port'' (pmHostPort p)
     @ j_int ''container_port'' (pmContainerPort p) @ j_str_opt ''protocol'' (pmProtocol p))"

definition json_mount :: "mount_spec \<Rightarrow> string" where
  "json_mount m = json_object (j_str ''type'' (msType m) @ j_str_opt ''source'' (msSource m) @ j_str ''destination'' (msDestination m)
     @ j_bool_opt ''read_only'' (msReadOnly m) @ j_int_opt ''tmpfs_size'' (msTmpfsSize m)
     @ j_str_opt ''bind_propagation'' (msBindPropagation m) @ j_bool_opt ''create_host_path'' (msCreateHostPath m))"

definition json_restart :: "restart_policy \<Rightarrow> string" where
  "json_restart r = json_object (j_str_opt ''name'' (rpName r) @ j_int_opt ''max_retries'' (rpMaxRetries r))"

definition json_resources :: "resources \<Rightarrow> string" where
  "json_resources r = json_object ((if rsCPUs r = 0 then [] else [(''cpus'', json_float (rsCPUs r))])
     @ j_int_opt ''cpu_shares'' (rsCPUShares r) @ j_str_opt ''cpuset_cpus'' (rsCPUSetCPUs r) @ j_int_opt ''memory'' (rsMemory r)
     @ j_int_opt ''memory_reservation'' (rsMemoryReservation r) @ j_int_opt ''memory_swap'' (rsMemorySwap r)
     @ j_int_opt ''pids_limit'' (rsPidsLimit r) @ j_int_opt ''shm_size'' (rsShmSize r))"

definition json_network :: "network_spec \<Rightarrow> string" where
  "json_network n = json_object (j_str_opt ''name'' (nsName n) @ j_strs_opt ''aliases'' (nsAliases n)
     @ j_str_opt ''ipv4_address'' (nsIPv4Address n) @ j_str_opt ''ipv6_address'' (nsIPv6Address n)
     @ j_strs_opt ''extra_hosts'' (nsExtraHosts n) @ j_strs_opt ''dns'' (nsDNS n) @ j_strs_opt ''dns_search'' (nsDNSSearch n)
     @ j_strs_opt ''dns_options'' (nsDNSOptions n) @ j_str_opt ''mac_address'' (nsMacAddress n))"

definition json_health :: "health_spec \<Rightarrow> string" where
  "json_health h = json_object ([(''test'', if hsTest h = [] then ''null'' else json_array (map json_string (hsTest h)))]
     @ j_str_opt ''interval'' (hsInterval h) @ j_str_opt ''timeout'' (hsTimeout h) @ j_str_opt ''start_period'' (hsStartPeriod h)
     @ j_int_opt ''retries'' (hsRetries h) @ j_bool_opt ''disable'' (hsDisable h))"

definition json_logging :: "logging_spec \<Rightarrow> string" where
  "json_logging l = json_object (j_str_opt ''driver'' (lgDriver l) @ j_map_opt ''options'' (lgOptions l))"

definition json_security :: "security_spec \<Rightarrow> string" where
  "json_security s = json_object (j_bool_opt ''privileged'' (scPrivileged s) @ j_strs_opt ''cap_add'' (scCapAdd s)
     @ j_strs_opt ''cap_drop'' (scCapDrop s) @ j_strs_opt ''security_opt'' (scSecurityOpt s) @ j_strs_opt ''devices'' (scDevices s)
     @ j_bool_opt ''read_only_root_fs'' (scReadOnlyRootFS s) @ j_map_opt ''sysctls'' (scSysctls s))"

definition json_spec :: "container_spec \<Rightarrow> string" where
  "json_spec s = json_object (j_str ''name'' (csName s) @ j_str ''image'' (csImage s) @ j_str_opt ''pull_policy'' (csPullPolicy s)
     @ j_strs_opt ''command'' (csCommand s) @ j_strs_opt ''entrypoint'' (csEntrypoint s) @ j_str_opt ''working_dir'' (csWorkingDir s)
     @ j_str_opt ''user'' (csUser s) @ j_str_opt ''hostname'' (csHostname s) @ j_str_opt ''domain_name'' (csDomainName s)
     @ j_bool_opt ''tty'' (csTTY s) @ j_bool_opt ''open_stdin'' (csOpenStdin s) @ j_list_opt ''env'' (map json_env (csEnv s))
     @ j_map_opt ''labels'' (csLabels s) @ j_list_opt ''ports'' (map json_port (csPorts s))
     @ j_list_opt ''mounts'' (map json_mount (csMounts s)) @ [(''restart_policy'', json_restart (csRestartPolicy s))]
     @ [(''resources'', json_resources (csResources s))] @ [(''network'', json_network (csNetwork s))]
     @ (case csHealthCheck s of None \<Rightarrow> [] | Some h \<Rightarrow> [(''health_check'', json_health h)])
     @ [(''logging'', json_logging (csLogging s))] @ [(''security'', json_security (csSecurity s))]
     @ j_bool_opt ''auto_remove'' (csAutoRemove s) @ j_bool_opt ''init'' (csInit s) @ j_bool_opt ''start'' (csStart s))"

end
