(* ===== verification/Stacks.thy ===== *)
theory Stacks
  imports Creator Compose Spec_Json "HOL-Library.Product_Lexorder"
begin

text \<open>
  Compose stacks: the repository internal/store/stacks.go and the service of
  internal/service/stack.go and stackup.go. A deploy runs in the goroutine the request started;
  here it runs to its end before the call returns, and the lines of progress it sends are
  appended to \<open>hEvents\<close>. A Go map is walked in the order of the list that stands for it, one
  of the orders the code may take.
\<close>

section \<open>The repository\<close>

fun Valid_source :: "stack_source \<Rightarrow> bool" where
  "Valid_source (OtherSource _) = False"
| "Valid_source _ = True"

definition Stacks_Create :: "stack \<Rightarrow> ('d, stack) act" where
  "Stacks_Create s0 =
     bindE (on_world now) (\<lambda>t.
     let s = s0\<lparr>skCreatedAt := (if is_zero (skCreatedAt s0) then t else skCreatedAt s0), skUpdatedAt := t\<rparr>
     in hdb (\<lambda>h.
          if skID s \<in> skID ` set (hStacks h) \<or> skName s \<in> skName ` set (hStacks h) then (Inl (EStore ErrConflict), h)
          else if \<not> Valid_source (skSource s) then (Inl (EStore DriverError), h)
          else (Inr s, h\<lparr>hStacks := hStacks h @ [s]\<rparr>)))"

definition put_stack :: "string \<Rightarrow> (stack \<Rightarrow> stack) \<Rightarrow> ('d, unit) act" where
  "put_stack i f = hdb (\<lambda>h.
     if i \<notin> skID ` set (hStacks h) then (Inl (EStore ErrNotFound), h)
     else (Inr (), h\<lparr>hStacks := update_where (\<lambda>s. skID s = i) f (hStacks h)\<rparr>))"

definition Stacks_Update :: "stack \<Rightarrow> ('d, stack) act" where
  "Stacks_Update s0 =
     bindE (on_world now) (\<lambda>t.
     let s = s0\<lparr>skUpdatedAt := t\<rparr> in
     if \<not> Valid_source (skSource s) then throwE (EStore DriverError)
     else thenE (put_stack (skID s) (\<lambda>old. old\<lparr>skSource := skSource s, skPath := skPath s, skGitURL := skGitURL s,
            skGitRef := skGitRef s, skGitCommit := skGitCommit s, skCompose := skCompose s, skEnv := skEnv s,
            skWorkingDir := skWorkingDir s, skUpdatedAt := t\<rparr>))
          (returnE s))"

definition SetStatus :: "string \<Rightarrow> stack_status \<Rightarrow> string \<Rightarrow> ('d, unit) act" where
  "SetStatus i status failure =
     bindE (on_world now) (\<lambda>t.
     put_stack i (\<lambda>s. s\<lparr>skStatus := status, skLastError := failure, skUpdatedAt := t,
       skLastDeployedAt := (if status = StackDeployed then t else skLastDeployedAt s)\<rparr>))"

definition Stacks_find :: "(stack \<Rightarrow> bool) \<Rightarrow> ('d, stack) act" where
  "Stacks_find p = hdb (\<lambda>h. case find p (hStacks h) of None \<Rightarrow> (Inl (EStore ErrNotFound), h) | Some s \<Rightarrow> (Inr s, h))"

definition Stacks_ByID :: "string \<Rightarrow> ('d, stack) act" where
  "Stacks_ByID i = Stacks_find (\<lambda>s. skID s = i)"

definition Stacks_ByName :: "string \<Rightarrow> ('d, stack) act" where
  "Stacks_ByName n = Stacks_find (\<lambda>s. skName s = n)"

definition Stacks_List :: "('d, stack list) act" where
  "Stacks_List = hdb (readE (\<lambda>h. rev (sort_key (\<lambda>s. stamp (skUpdatedAt s)) (rev (hStacks h)))))"

definition Stacks_Delete :: "string \<Rightarrow> ('d, unit) act" where
  "Stacks_Delete i =
     hdb (\<lambda>h. if i \<notin> skID ` set (hStacks h) then (Inl (EStore ErrNotFound), h)
              else (Inr (), h\<lparr>hStacks := delete_where (\<lambda>s. skID s = i) (hStacks h)\<rparr>))"

definition Deploying :: "('d, stack list) act" where
  "Deploying = hdb (readE (\<lambda>h. filter (\<lambda>s. skStatus s = StackDeploying) (hStacks h)))"

section \<open>Collaborators\<close>

text \<open>
  The host's files as the service reads them, and the git program: a checkout of a repository at
  a ref into a directory gives the commit, the ref and the files afterwards. The scheme of a URL
  is what \<open>net/url\<close> parses. The image builder delivers output lines and errors.
\<close>

record disk =
  dkRead :: "string \<Rightarrow> string option"
  dkFile :: "string \<Rightarrow> bool"

record git =
  gtScheme :: "string \<Rightarrow> string option"
  gtCheckout :: "string \<Rightarrow> string \<Rightarrow> string \<Rightarrow> string + (string \<times> string \<times> disk)"

record 'd stack_deps =
  sdDeps :: "'d deps"
  sdLib :: compose_lib
  sdDisk :: disk
  sdGit :: git
  sdStateDir :: string
  sdDone :: "nat \<Rightarrow> bool"
  sdBuilder :: "(build_plan \<Rightarrow> ('d, string list \<times> string list) act) option"

abbreviation sdClient :: "'d stack_deps \<Rightarrow> 'd docker_client" where
  "sdClient D \<equiv> dpClient (sdDeps D)"

definition emit :: "stack_event_kind \<Rightarrow> string \<Rightarrow> string \<Rightarrow> string \<Rightarrow> ('d, unit) act" where
  "emit kind service container message =
     modifyE (\<lambda>h. h\<lparr>hEvents := hEvents h @ [\<lparr>seKind = kind, seService = service, seMessage = message, seContainer = container\<rparr>]\<rparr>)"

section \<open>Plans\<close>

definition LabelConfigHash :: string where "LabelConfigHash = ''com.docker.compose.config-hash''"

definition withoutHashLabels :: "str_map \<Rightarrow> str_map" where
  "withoutHashLabels labels =
     filter (\<lambda>(k, v). \<not> (k = LabelConfigHash \<or> k = LabelReplica \<or> k = LabelComposeNumber)) labels"

definition configHash :: "container_spec \<Rightarrow> string" where
  "configHash spec = hex_encode (sha256 (bytes (json_spec (spec\<lparr>csName := '''', csLabels := withoutHashLabels (csLabels spec)\<rparr>))))"

definition plan_input :: "compose_lib \<Rightarrow> input \<Rightarrow> warning list \<times> (compose_error + conversion)" where
  "plan_input L i =
     (case Parse L i of
        (ws, Inl e) \<Rightarrow> (ws, Inl e)
      | (ws, Inr p) \<Rightarrow>
          (case ServiceOrder L p of
             Inl e \<Rightarrow> (ws, Inl e)
           | Inr order \<Rightarrow>
               (case Convert p order of
                  Inl e \<Rightarrow> (ws, Inl e)
                | Inr c \<Rightarrow> (ws @ cvWarnings c, Inr c))))"

definition stack_plan :: "'d stack_deps \<Rightarrow> stack \<Rightarrow> warning list \<times> (compose_error + conversion)" where
  "stack_plan D s =
     plan_input (sdLib D) \<lparr>inName = skName s, inCompose = skCompose s, inEnv = skEnv s, inWorkingDir = skWorkingDir s\<rparr>"

definition planned :: "'d stack_deps \<Rightarrow> stack \<Rightarrow> ('d, conversion) act" where
  "planned D s = (case snd (stack_plan D s) of Inl e \<Rightarrow> throwE (EParse (composeMessage e)) | Inr c \<Rightarrow> returnE c)"

definition path_problem :: "'d stack_deps \<Rightarrow> string \<Rightarrow> string \<Rightarrow> string \<Rightarrow> problem list" where
  "path_problem D service field path =
     (case Guard_Check (dpFS (sdDeps D)) (dpPaths (sdDeps D)) path of
        None \<Rightarrow> []
      | Some e \<Rightarrow> [\<lparr>pbService = service, pbField = field, pbMessage = err_text (EPath e)\<rparr>])"

definition problemsFor :: "'d stack_deps \<Rightarrow> service_plan \<Rightarrow> bool \<Rightarrow> problem list" where
  "problemsFor D plan privileged =
     concat (map (path_problem D (spName plan) ''volumes'') (BindSources (spSpec plan)))
     @ (case spBuild plan of None \<Rightarrow> [] | Some b \<Rightarrow> path_problem D (spName plan) ''build.context'' (blContext b))
     @ (case checkPrivilegedOptions (spSpec plan) privileged of
          None \<Rightarrow> []
        | Some e \<Rightarrow> [\<lparr>pbService = spName plan, pbField = ''security'', pbMessage = err_text e\<rparr>])
     @ (case BuildCreateSpec (spSpec plan) of
          Inr _ \<Rightarrow> []
        | Inl e \<Rightarrow> [\<lparr>pbService = spName plan, pbField = specField e, pbMessage = err_text (ESpec e)\<rparr>])"

definition label_of :: "container \<Rightarrow> string \<Rightarrow> string" where
  "label_of c k = (case map_of (ctLabels c) k of Some v \<Rightarrow> v | None \<Rightarrow> '''')"

definition containersOf :: "'d stack_deps \<Rightarrow> string \<Rightarrow> ('d, container list) act" where
  "containersOf D name = on_engine (ListContainers (sdClient D) (by_label LabelComposeProject name))"

section \<open>Deploying\<close>

record up_options =
  uoPrivileged :: bool
  uoPull :: bool
  uoRecreate :: bool
  uoServices :: "string list"

text \<open>The map from names to containers of a listing; a later entry replaces an earlier one.\<close>

definition byName :: "container list \<Rightarrow> (string \<times> container) list" where
  "byName cs = fold (\<lambda>c. AList.update (ctName c) c) cs []"

definition replicaLabels :: "str_map \<Rightarrow> int \<Rightarrow> string \<Rightarrow> str_map" where
  "replicaLabels labels replica hash =
     map_put LabelConfigHash hash (map_put LabelComposeNumber (itoa replica) (map_put LabelReplica (itoa replica) labels))"

definition replica_name :: "string \<Rightarrow> service_plan \<Rightarrow> int \<Rightarrow> string" where
  "replica_name stackName plan replica =
     (if csName (spSpec plan) = '''' then ContainerName stackName (spName plan) replica else csName (spSpec plan))"

definition removeContainer :: "'d stack_deps \<Rightarrow> string \<Rightarrow> ('d, unit) act" where
  "removeContainer D i =
     bindE (try_engine (RemoveContainer (sdClient D) i \<lparr>xoForce = True, xoRemoveVolumes = False\<rparr>)) (\<lambda>r. case r of
       Inl e \<Rightarrow> if IsNotFound e then returnE () else throwE (EDocker e)
     | Inr _ \<Rightarrow> returnE ())"

fun connect_rest :: "'d stack_deps \<Rightarrow> string \<Rightarrow> string \<Rightarrow> service_network list \<Rightarrow> ('d, unit) act" where
  "connect_rest D name i [] = returnE ()"
| "connect_rest D name i (a # as) =
     thenE (wrap_err (''attach '' @ name @ '' to '' @ naName a)
       (on_engine (ConnectNetwork (sdClient D) (naName a) i
          \<lparr>coAliases = naAliases a, coIPv4Address = naIPv4Address a, coIPv6Address = naIPv6Address a\<rparr>)))
     (connect_rest D name i as)"

definition createReplica :: "'d stack_deps \<Rightarrow> service_plan \<Rightarrow> string \<Rightarrow> int \<Rightarrow> string \<Rightarrow> ('d, string) act" where
  "createReplica D plan name replica hash =
     bindE (from_checked (BuildCreateSpec ((spSpec plan)\<lparr>csName := name, csLabels := replicaLabels (csLabels (spSpec plan)) replica hash\<rparr>)))
     (\<lambda>createSpec.
     bindE (on_engine (CreateContainer (sdClient D) createSpec)) (\<lambda>i.
     thenE (connect_rest D name i (tl (spNetworks plan)))
     (thenE (wrap_err (name @ '' was created but did not start'') (on_engine (StartContainer (sdClient D) i)))
     (returnE i))))"

text \<open>A container that is there is removed first.\<close>

definition recreate :: "'d stack_deps \<Rightarrow> service_plan \<Rightarrow> string \<Rightarrow> int \<Rightarrow> string \<Rightarrow> container option \<Rightarrow> ('d, unit) act" where
  "recreate D plan name replica hash current =
     thenE (case current of
         None \<Rightarrow> returnE ()
       | Some c \<Rightarrow> thenE (wrap_err (''replace '' @ name) (removeContainer D (ctID c)))
           (emit StackEventStep (spName plan) '''' (name @ '' removed for replacement'')))
     (bindE (createReplica D plan name replica hash) (\<lambda>i.
      emit StackEventStep (spName plan) i (name @ '' started'')))"

definition up_replica :: "'d stack_deps \<Rightarrow> string \<Rightarrow> service_plan \<Rightarrow> up_options \<Rightarrow> (string \<times> container) list \<Rightarrow> string \<Rightarrow> int
    \<Rightarrow> ('d, unit) act" where
  "up_replica D stackName plan opts held hash replica =
     (let name = replica_name stackName plan replica; current = map_of held name in
      case current of
        None \<Rightarrow> recreate D plan name replica hash None
      | Some c \<Rightarrow>
          if \<not> uoRecreate opts \<and> label_of c LabelConfigHash = hash then
            (if fold_is (ctState c) ''running'' then
               emit StackEventStep (spName plan) (ctID c) (name @ '' is up to date'')
             else bindE (try_engine (StartContainer (sdClient D) (ctID c))) (\<lambda>r. case r of
               Inr _ \<Rightarrow> emit StackEventStep (spName plan) (ctID c) (name @ '' started'')
             | Inl _ \<Rightarrow> recreate D plan name replica hash current))
          else recreate D plan name replica hash current)"

fun up_replicas :: "'d stack_deps \<Rightarrow> string \<Rightarrow> service_plan \<Rightarrow> up_options \<Rightarrow> (string \<times> container) list \<Rightarrow> string \<Rightarrow> int list
    \<Rightarrow> ('d, unit) act" where
  "up_replicas D stackName plan opts held hash [] = returnE ()"
| "up_replicas D stackName plan opts held hash (r # rs) =
     thenE (up_replica D stackName plan opts held hash r) (up_replicas D stackName plan opts held hash rs)"

definition surplus :: "service_plan \<Rightarrow> container \<Rightarrow> bool" where
  "surplus plan c \<longleftrightarrow>
     label_of c LabelService = spName plan
     \<and> (case atoi (label_of c LabelReplica) of None \<Rightarrow> False | Some number \<Rightarrow> spReplicas plan < number)"

fun removeSurplus :: "'d stack_deps \<Rightarrow> service_plan \<Rightarrow> (string \<times> container) list \<Rightarrow> ('d, unit) act" where
  "removeSurplus D plan [] = returnE ()"
| "removeSurplus D plan ((name, c) # held) =
     thenE (if \<not> surplus plan c then returnE ()
            else thenE (wrap_err (''remove surplus '' @ name) (removeContainer D (ctID c)))
              (emit StackEventStep (spName plan) '''' (name @ '' removed; the file asks for fewer replicas'')))
     (removeSurplus D plan held)"

definition pullFor :: "'d stack_deps \<Rightarrow> service_plan \<Rightarrow> bool \<Rightarrow> ('d, unit) act" where
  "pullFor D plan force =
     (if \<not> force \<and> csPullPolicy (spSpec plan) \<noteq> PullAlways then returnE ()
      else thenE (emit StackEventStep (spName plan) '''' (''pulling '' @ csImage (spSpec plan)))
             (pull_drained (sdDeps D) (csImage (spSpec plan))))"

text \<open>The output of a build is passed on line by line; its first error ends the deploy.\<close>

fun build_lines :: "string \<Rightarrow> string list \<Rightarrow> ('d, unit) act" where
  "build_lines service [] = returnE ()"
| "build_lines service (l # ls) =
     thenE (let line = trim_right (\<lambda>c. c = newline) l in if line = '''' then returnE () else emit StackEventLog service '''' line)
     (build_lines service ls)"

definition buildFor :: "'d stack_deps \<Rightarrow> service_plan \<Rightarrow> build_plan \<Rightarrow> ('d, unit) act" where
  "buildFor D plan b =
     (case sdBuilder D of
        None \<Rightarrow> throwE (EBuild (''service '' @ spName plan @ '' builds its image, but building is not available''))
      | Some run \<Rightarrow>
          thenE (emit StackEventStep (spName plan) '''' (''building '' @ blImage b))
          (bindE (run b) (\<lambda>(events, errs).
           thenE (build_lines (spName plan) events)
           (case errs of [] \<Rightarrow> returnE () | e # _ \<Rightarrow> throwE (EIn (''build '' @ blImage b) (EBuild e))))))"

definition upService :: "'d stack_deps \<Rightarrow> stack \<Rightarrow> service_plan \<Rightarrow> up_options \<Rightarrow> container list \<Rightarrow> ('d, unit) act" where
  "upService D s plan opts existing =
     thenE (case spBuild plan of Some b \<Rightarrow> buildFor D plan b | None \<Rightarrow> pullFor D plan (uoPull opts))
     (thenE (up_replicas D (skName s) plan opts (byName existing) (configHash (spSpec plan)) [1..spReplicas plan])
     (removeSurplus D plan (byName existing)))"

fun ensureNetworks_from :: "'d stack_deps \<Rightarrow> string set \<Rightarrow> network_plan list \<Rightarrow> ('d, unit) act" where
  "ensureNetworks_from D present [] = returnE ()"
| "ensureNetworks_from D present (p # ps) =
     thenE (if npName p \<in> present then returnE ()
            else if npExternal p then throwE (ErrMissing ''network'' (npName p))
            else thenE (wrap_err (''create network '' @ npName p)
                         (bindE (on_engine (CreateNetwork (sdClient D) (npOptions p))) (\<lambda>_. returnE ())))
                   (emit StackEventStep '''' '''' (''network '' @ npName p @ '' created'')))
     (ensureNetworks_from D present ps)"

definition ensureNetworks :: "'d stack_deps \<Rightarrow> network_plan list \<Rightarrow> ('d, unit) act" where
  "ensureNetworks D plans =
     (if plans = [] then returnE ()
      else bindE (on_engine (ListNetworks (sdClient D))) (\<lambda>existing. ensureNetworks_from D (nwName ` set existing) plans))"

fun ensureVolumes_from :: "'d stack_deps \<Rightarrow> string set \<Rightarrow> volume_plan list \<Rightarrow> ('d, unit) act" where
  "ensureVolumes_from D present [] = returnE ()"
| "ensureVolumes_from D present (p # ps) =
     thenE (if vpName p \<in> present then returnE ()
            else if vpExternal p then throwE (ErrMissing ''volume'' (vpName p))
            else thenE (wrap_err (''create volume '' @ vpName p)
                         (bindE (on_engine (CreateVolume (sdClient D) (vpOptions p))) (\<lambda>_. returnE ())))
                   (emit StackEventStep '''' '''' (''volume '' @ vpName p @ '' created'')))
     (ensureVolumes_from D present ps)"

definition ensureVolumes :: "'d stack_deps \<Rightarrow> volume_plan list \<Rightarrow> ('d, unit) act" where
  "ensureVolumes D plans =
     (if plans = [] then returnE ()
      else bindE (on_engine (ListVolumes (sdClient D))) (\<lambda>existing. ensureVolumes_from D (vlName ` set existing) plans))"

definition selectServices :: "service_plan list \<Rightarrow> string list \<Rightarrow> host_error + service_plan list" where
  "selectServices plans names =
     (case filter (\<lambda>n. n \<notin> spName ` set plans) names of
        n # _ \<Rightarrow> Inl (ErrNoSuchService n)
      | [] \<Rightarrow> Inr (foldr (\<lambda>p acc. if spName p \<in> set names then p # filter (\<lambda>q. spName q \<noteq> spName p) acc else acc) plans []))"

text \<open>
  The services one after the other; before the \<open>k\<close>-th the context may be found done. The number
  counts the services behind it.
\<close>

fun up_services :: "'d stack_deps \<Rightarrow> stack \<Rightarrow> up_options \<Rightarrow> container list \<Rightarrow> service_plan list \<Rightarrow> ('d, unit) act" where
  "up_services D s opts existing [] = returnE ()"
| "up_services D s opts existing (p # ps) =
     thenE (if sdDone D (length ps) then throwE ECanceled else returnE ())
     (thenE (wrap_err (''service '' @ spName p) (upService D s p opts existing))
     (up_services D s opts existing ps))"

fun emit_warnings :: "warning list \<Rightarrow> ('d, unit) act" where
  "emit_warnings [] = returnE ()"
| "emit_warnings (w # ws) =
     thenE (emit StackEventWarn (wnService w) '''' (wnField w @ '': '' @ wnMessage w)) (emit_warnings ws)"

definition selected :: "conversion \<Rightarrow> up_options \<Rightarrow> host_error + service_plan list" where
  "selected c opts = (if uoServices opts = [] then Inr (cvServices c) else selectServices (cvServices c) (uoServices opts))"

definition up :: "'d stack_deps \<Rightarrow> stack \<Rightarrow> up_options \<Rightarrow> ('d, unit) act" where
  "up D s opts =
     thenE (SetStatus (skID s) StackDeploying '''')
     (bindE (planned D s) (\<lambda>c.
      thenE (emit_warnings (fst (stack_plan D s)))
      (case selected c opts of
         Inl e \<Rightarrow> throwE e
       | Inr plans \<Rightarrow>
           let problems = concat (map (\<lambda>p. problemsFor D p (uoPrivileged opts)) plans) in
           if problems \<noteq> [] then throwE (StackRefused problems)
           else
             thenE (ensureNetworks D (cvNetworks c))
             (thenE (ensureVolumes D (cvVolumes c))
             (bindE (containersOf D (skName s)) (\<lambda>existing.
              thenE (up_services D s opts existing plans)
              (emit StackEventDone '''' '''' ''stack deployed'')))))))"

definition auditStack :: "actor \<Rightarrow> request_meta \<Rightarrow> string \<Rightarrow> stack \<Rightarrow> string option \<Rightarrow> ('d, unit) act" where
  "auditStack who meta action s err =
     audit_note who meta action ''stack'' (skID s) err
       (Some [(''name'', AString (skName s)), (''source'', AString (case skSource s of
          StackSourceEditor \<Rightarrow> ''editor'' | StackSourceFile \<Rightarrow> ''file'' | StackSourceGit \<Rightarrow> ''git'' | OtherSource x \<Rightarrow> x))])"

text \<open>Work done under the stack's claim, which is given back whichever way the work ends.\<close>

definition run_claimed :: "stack \<Rightarrow> string \<Rightarrow> actor \<Rightarrow> ('d, 'a) act \<Rightarrow> ('d, 'a) act" where
  "run_claimed s kind who work = (\<lambda>h.
     case claim (skID s) kind (skName s) (acUsername who) (wNow (hWorld h)) (hTasks h) of
       (Inl e, ts) \<Rightarrow> (Inl (EBusy e), h\<lparr>hTasks := ts\<rparr>)
     | (Inr _, ts) \<Rightarrow>
         (case work (h\<lparr>hTasks := ts\<rparr>) of
            (r, h') \<Rightarrow> (r, h'\<lparr>hTasks := claim_done (skID s) (wNow (hWorld h')) (hTasks h')\<rparr>)))"

definition Up :: "'d stack_deps \<Rightarrow> stack \<Rightarrow> up_options \<Rightarrow> actor \<Rightarrow> request_meta \<Rightarrow> ('d, unit) act" where
  "Up D s opts who meta =
     run_claimed s ''stack.up'' who
       (attemptE (up D s opts) (\<lambda>r.
        thenE (auditStack who meta ''stack.up'' s (err_of r))
        (case r of
           Inl e \<Rightarrow> thenE (ignoreE (SetStatus (skID s) StackFailed (docker_Message e))) (throwE e)
         | Inr _ \<Rightarrow> ignoreE (SetStatus (skID s) StackDeployed ''''))))"

section \<open>Taking down and acting\<close>

record action_result =
  arContainers :: "string list"
  arNetworks :: "string list"
  arVolumes :: "string list"
  arFailed :: "string list"

definition no_action :: action_result where
  "no_action = \<lparr>arContainers = [], arNetworks = [], arVolumes = [], arFailed = []\<rparr>"

definition failed_on :: "string \<Rightarrow> docker_error \<Rightarrow> action_result \<Rightarrow> action_result" where
  "failed_on name e res = res\<lparr>arFailed := arFailed res @ [name @ '': '' @ deMessage e]\<rparr>"

text \<open>One call per container, each outcome noted in the result.\<close>

fun each_container :: "(container \<Rightarrow> ('d, unit) call) \<Rightarrow> container list \<Rightarrow> action_result \<Rightarrow> ('d, action_result) act" where
  "each_container call [] res = returnE res"
| "each_container call (c # cs) res =
     bindE (try_engine (call c)) (\<lambda>r. case r of
       Inl e \<Rightarrow> each_container call cs (failed_on (ctName c) e res)
     | Inr _ \<Rightarrow> each_container call cs (res\<lparr>arContainers := arContainers res @ [ctName c]\<rparr>))"

text \<open>A forced removal for which a container that is gone already is no failure.\<close>

definition force_remove :: "'d docker_client \<Rightarrow> container \<Rightarrow> ('d, unit) call" where
  "force_remove dc c = (\<lambda>d. case RemoveContainer dc (ctID c) \<lparr>xoForce = True, xoRemoveVolumes = False\<rparr> d of
       (Inl e, d') \<Rightarrow> (if IsNotFound e then Inr () else Inl e, d')
     | (Inr _, d') \<Rightarrow> (Inr (), d'))"

fun down_networks :: "'d stack_deps \<Rightarrow> network_plan list \<Rightarrow> action_result \<Rightarrow> ('d, action_result) act" where
  "down_networks D [] res = returnE res"
| "down_networks D (p # ps) res =
     (if npExternal p then down_networks D ps res
      else bindE (try_engine (RemoveNetwork (sdClient D) (npName p))) (\<lambda>r. case r of
        Inl e \<Rightarrow> down_networks D ps (if IsNotFound e then res else failed_on (npName p) e res)
      | Inr _ \<Rightarrow> down_networks D ps (res\<lparr>arNetworks := arNetworks res @ [npName p]\<rparr>)))"

fun down_volumes :: "'d stack_deps \<Rightarrow> volume_plan list \<Rightarrow> action_result \<Rightarrow> ('d, action_result) act" where
  "down_volumes D [] res = returnE res"
| "down_volumes D (p # ps) res =
     (if vpExternal p then down_volumes D ps res
      else bindE (try_engine (RemoveVolume (sdClient D) (vpName p) False)) (\<lambda>r. case r of
        Inl e \<Rightarrow> down_volumes D ps (if IsNotFound e then res else failed_on (vpName p) e res)
      | Inr _ \<Rightarrow> down_volumes D ps (res\<lparr>arVolumes := arVolumes res @ [vpName p]\<rparr>)))"

record down_options = doVolumes :: bool doNetworks :: bool

definition down :: "'d stack_deps \<Rightarrow> stack \<Rightarrow> down_options \<Rightarrow> ('d, action_result) act" where
  "down D s opts =
     bindE (containersOf D (skName s)) (\<lambda>containers.
     bindE (each_container (force_remove (sdClient D)) containers no_action) (\<lambda>res.
     case snd (stack_plan D s) of
       Inl _ \<Rightarrow> returnE res
     | Inr c \<Rightarrow>
         bindE (if doNetworks opts then down_networks D (cvNetworks c) res else returnE res) (\<lambda>res.
         if doVolumes opts then down_volumes D (cvVolumes c) res else returnE res)))"

definition Down :: "'d stack_deps \<Rightarrow> stack \<Rightarrow> down_options \<Rightarrow> actor \<Rightarrow> request_meta \<Rightarrow> ('d, action_result) act" where
  "Down D s opts who meta =
     attemptE (down D s opts) (\<lambda>r.
     thenE (auditStack who meta ''stack.down'' s (err_of r))
     (case r of
        Inl e \<Rightarrow> throwE e
      | Inr res \<Rightarrow> thenE (ignoreE (SetStatus (skID s) StackStopped '''')) (returnE res)))"

datatype stack_action = StackStop | StackStart | StackRestart | OtherAction string

text \<open>
  A stable sort by the rank of a container's service, containers of unknown services last,
  equals by name: the order of the comparison in the source, as a key.
\<close>

definition service_rank :: "service_plan list \<Rightarrow> container \<Rightarrow> nat option" where
  "service_rank plans c = map_of (rev (zip (map spName plans) [0..<length plans])) (label_of c LabelService)"

definition container_key :: "service_plan list \<Rightarrow> bool \<Rightarrow> container \<Rightarrow> bool \<times> int \<times> string" where
  "container_key plans reverse c =
     (case service_rank plans c of
        None \<Rightarrow> (True, 0, ctName c)
      | Some r \<Rightarrow> (False, if reverse then - int r else int r, ctName c))"

definition orderContainers :: "'d stack_deps \<Rightarrow> stack \<Rightarrow> container list \<Rightarrow> bool \<Rightarrow> container list" where
  "orderContainers D s containers reverse =
     (case snd (stack_plan D s) of
        Inl _ \<Rightarrow> containers
      | Inr c \<Rightarrow> sort_key (container_key (cvServices c) reverse) containers)"

definition act_call :: "'d docker_client \<Rightarrow> stack_action \<Rightarrow> (container \<Rightarrow> ('d, unit) call) option" where
  "act_call dc action =
     (case action of
        StackStop \<Rightarrow> Some (\<lambda>c. StopContainer dc (ctID c) None)
      | StackStart \<Rightarrow> Some (\<lambda>c. StartContainer dc (ctID c))
      | StackRestart \<Rightarrow> Some (\<lambda>c. RestartContainer dc (ctID c) None)
      | OtherAction _ \<Rightarrow> None)"

definition action_word :: "stack_action \<Rightarrow> string" where
  "action_word action =
     (case action of StackStop \<Rightarrow> ''stop'' | StackStart \<Rightarrow> ''start'' | StackRestart \<Rightarrow> ''restart'' | OtherAction a \<Rightarrow> a)"

text \<open>An unknown action fails at the first container; a stack without containers does not notice.\<close>

definition act_on :: "'d stack_deps \<Rightarrow> stack \<Rightarrow> stack_action \<Rightarrow> ('d, action_result) act" where
  "act_on D s action =
     bindE (containersOf D (skName s)) (\<lambda>containers.
     case act_call (sdClient D) action of
       Some call \<Rightarrow> each_container call (orderContainers D s containers (action \<noteq> StackStart)) no_action
     | None \<Rightarrow> if containers = [] then returnE no_action else throwE (ErrUnknownAction (action_word action)))"

definition Act :: "'d stack_deps \<Rightarrow> stack \<Rightarrow> stack_action \<Rightarrow> actor \<Rightarrow> request_meta \<Rightarrow> ('d, action_result) act" where
  "Act D s action who meta =
     attemptE (act_on D s action) (\<lambda>r.
     thenE (auditStack who meta (''stack.'' @ action_word action) s (err_of r))
     (case r of
        Inl e \<Rightarrow> throwE e
      | Inr res \<Rightarrow>
          thenE (case action of
              StackStop \<Rightarrow> ignoreE (SetStatus (skID s) StackStopped '''')
            | OtherAction _ \<Rightarrow> returnE ()
            | _ \<Rightarrow> ignoreE (SetStatus (skID s) StackDeployed ''''))
          (returnE res)))"

section \<open>Pulling, scaling, reconciling\<close>

fun pull_services :: "'d stack_deps \<Rightarrow> service_plan list \<Rightarrow> ('d, unit) act" where
  "pull_services D [] = returnE ()"
| "pull_services D (p # ps) =
     thenE (case spBuild p of
         Some _ \<Rightarrow> emit StackEventWarn (spName p) '''' ''builds its image; nothing to pull''
       | None \<Rightarrow> wrap_err (''service '' @ spName p) (pullFor D p True))
     (pull_services D ps)"

definition stack_pull :: "'d stack_deps \<Rightarrow> stack \<Rightarrow> ('d, unit) act" where
  "stack_pull D s =
     bindE (planned D s) (\<lambda>c. thenE (pull_services D (cvServices c)) (emit StackEventDone '''' '''' ''images pulled''))"

definition Pull :: "'d stack_deps \<Rightarrow> stack \<Rightarrow> actor \<Rightarrow> request_meta \<Rightarrow> ('d, unit) act" where
  "Pull D s who meta =
     run_claimed s ''stack.pull'' who (audited (stack_pull D s) (\<lambda>r. auditStack who meta ''stack.pull'' s (err_of r)))"

definition scale :: "'d stack_deps \<Rightarrow> stack \<Rightarrow> string \<Rightarrow> int \<Rightarrow> up_options \<Rightarrow> ('d, unit) act" where
  "scale D s service replicas opts =
     (if replicas < 0 then throwE (ESpec (SpecError ''replicas''))
      else
        bindE (planned D s) (\<lambda>c.
        case find (\<lambda>p. spName p = service) (rev (cvServices c)) of
          None \<Rightarrow> throwE (ErrNoSuchService service)
        | Some target \<Rightarrow>
            let problems = problemsFor D target (uoPrivileged opts) in
            if problems \<noteq> [] then throwE (StackRefused problems)
            else
              bindE (containersOf D (skName s)) (\<lambda>existing.
              thenE (upService D s (target\<lparr>spReplicas := replicas\<rparr>) opts existing)
              (emit StackEventDone '''' '''' (service @ '' now runs '' @ itoa replicas @ '' container(s); the compose file still says ''
                 @ itoa (spReplicas target))))))"

definition Scale :: "'d stack_deps \<Rightarrow> stack \<Rightarrow> string \<Rightarrow> int \<Rightarrow> up_options \<Rightarrow> actor \<Rightarrow> request_meta \<Rightarrow> ('d, unit) act" where
  "Scale D s service replicas opts who meta =
     run_claimed s ''stack.scale'' who
       (audited (scale D s service replicas opts) (\<lambda>r. auditStack who meta ''stack.scale'' s (err_of r)))"

fun reconcile_from :: "stack list \<Rightarrow> nat \<Rightarrow> ('d, nat) act" where
  "reconcile_from [] n = returnE n"
| "reconcile_from (s # ss) n =
     attemptE (SetStatus (skID s) StackFailed ''iskeled restarted while this stack was deploying'') (\<lambda>r.
     reconcile_from ss (if isl r then n else n + 1))"

definition ReconcileDeploying :: "('d, nat) act" where
  "ReconcileDeploying = bindE Deploying (\<lambda>ss. reconcile_from ss 0)"

end
