(* ===== verification/Stack_Service.thy ===== *)
theory Stack_Service
  imports Stacks
begin

text \<open>
  The definition of a stack, internal/service/stack.go: where its compose file comes from,
  creating, editing, deleting and reading it, and the checks of internal/compose/git.go on a
  repository address.
\<close>

section \<open>Names and repositories\<close>

definition name_rune :: "rune \<Rightarrow> string" where
  "name_rune r =
     (if 97 \<le> r \<and> r \<le> 122 \<or> 48 \<le> r \<and> r \<le> 57 \<or> r = 45 \<or> r = 95 then [char_of r]
      else if r = 32 \<or> r = 46 then ''-'' else '''')"

definition normalizeStackName :: "string \<Rightarrow> string" where
  "normalizeStackName name =
     trim (\<lambda>c. c = CHR ''-'' \<or> c = CHR ''_'') (concat (map (name_rune \<circ> lower_rune) (runes (trim_space name))))"

definition lower_prefix :: "string \<Rightarrow> string \<Rightarrow> bool" where
  "lower_prefix s p \<longleftrightarrow> take (length p) (map lower_rune (runes s)) = map of_char p"

definition CheckGitURL :: "git \<Rightarrow> string \<Rightarrow> bool" where
  "CheckGitURL g raw =
     (let trimmed = trim_space raw in
      if trimmed = '''' then False
      else if has_prefix trimmed ''-'' then False
      else if lower_prefix trimmed ''ext::'' \<or> lower_prefix trimmed ''file://'' \<or> lower_prefix trimmed ''--upload-pack'' then False
      else if \<not> contains trimmed ''://'' then CHR '':'' \<in> set trimmed \<and> \<not> has_prefix trimmed ''/''
      else case gtScheme g trimmed of
        None \<Rightarrow> False
      | Some scheme \<Rightarrow> list_ex (lower_is scheme) [''http'', ''https'', ''ssh'', ''git''])"

definition ComposeFileIn :: "disk \<Rightarrow> string \<Rightarrow> string option" where
  "ComposeFileIn dk dir =
     find (dkFile dk) (map (Join dir) [''compose.yaml'', ''compose.yml'', ''docker-compose.yaml'', ''docker-compose.yml''])"

section \<open>Sources\<close>

definition loadFromFile :: "'d stack_deps \<Rightarrow> stack \<Rightarrow> host_error + stack" where
  "loadFromFile D s =
     (let path = trim_space (skPath s) in
      if path = '''' then Inl (ESpec (SpecError ''path''))
      else case Guard_Check (dpFS (sdDeps D)) (dpPaths (sdDeps D)) path of
        Some e \<Rightarrow> Inl (EPath e)
      | None \<Rightarrow>
          (case dkRead (sdDisk D) path of
             None \<Rightarrow> Inl ErrComposeSource
           | Some content \<Rightarrow>
               Inr (s\<lparr>skCompose := content, skWorkingDir := Dir path,
                 skEnv := (case dkRead (sdDisk D) (Join (Dir path) ''.env'') of Some e \<Rightarrow> e | None \<Rightarrow> skEnv s)\<rparr>)))"

definition git_compose_path :: "disk \<Rightarrow> stack \<Rightarrow> host_error + string" where
  "git_compose_path dk s =
     (let path = trim_space (skPath s) in
      if path = '''' then (case ComposeFileIn dk (skWorkingDir s) of None \<Rightarrow> Inl ErrComposeSource | Some p \<Rightarrow> Inr p)
      else if IsAbs path \<or> contains path ''../'' then Inl (ESpec (SpecError ''path''))
      else Inr (Join (skWorkingDir s) path))"

definition loadFromGit :: "'d stack_deps \<Rightarrow> stack \<Rightarrow> host_error + stack" where
  "loadFromGit D s =
     (if \<not> CheckGitURL (sdGit D) (skGitURL s) then Inl ErrGitURL
      else if skWorkingDir s = '''' then Inl (ESpec (SpecError ''source''))
      else case gtCheckout (sdGit D) (skGitURL s) (skGitRef s) (skWorkingDir s) of
        Inl _ \<Rightarrow> Inl ErrComposeSource
      | Inr (commit, ref, dk) \<Rightarrow>
          (case git_compose_path dk s of
             Inl e \<Rightarrow> Inl e
           | Inr path \<Rightarrow>
               (case dkRead dk path of
                  None \<Rightarrow> Inl ErrComposeSource
                | Some content \<Rightarrow>
                    Inr (s\<lparr>skGitCommit := commit, skGitRef := ref, skCompose := content,
                      skEnv := (if trim_space (skEnv s) = ''''
                                then (case dkRead dk (Join (Dir path) ''.env'') of Some e \<Rightarrow> e | None \<Rightarrow> skEnv s)
                                else skEnv s)\<rparr>))))"

definition loadSource :: "'d stack_deps \<Rightarrow> stack \<Rightarrow> host_error + stack" where
  "loadSource D s =
     (case skSource s of
        StackSourceEditor \<Rightarrow> if trim_space (skCompose s) = '''' then Inl (ESpec (SpecError ''compose'')) else Inr s
      | StackSourceFile \<Rightarrow> loadFromFile D s
      | StackSourceGit \<Rightarrow> loadFromGit D s
      | OtherSource _ \<Rightarrow> Inl (ESpec (SpecError ''source'')))"

definition loaded :: "host_error + 'a \<Rightarrow> ('d, 'a) act" where
  "loaded r = (case r of Inl e \<Rightarrow> throwE e | Inr x \<Rightarrow> returnE x)"

section \<open>The record\<close>

record stack_input =
  siName :: string
  siSource :: stack_source
  siCompose :: string
  siEnv :: string
  siPath :: string
  siGitURL :: string
  siGitRef :: string

definition no_stack :: stack where
  "no_stack = \<lparr>skID = '''', skName = '''', skSource = OtherSource '''', skPath = '''', skGitURL = '''', skGitRef = '''', skGitCommit = '''',
     skCompose = '''', skEnv = '''', skWorkingDir = '''', skStatus = StackCreated, skLastError = '''', skLastDeployedAt = 0,
     skCreatedBy = '''', skCreatedByID = '''', skCreatedAt = 0, skUpdatedAt = 0\<rparr>"

definition stackDir :: "'d stack_deps \<Rightarrow> string \<Rightarrow> string" where
  "stackDir D i = (if sdStateDir D = '''' then '''' else Join (sdStateDir D) i)"

definition stack_create :: "'d stack_deps \<Rightarrow> stack_input \<Rightarrow> actor \<Rightarrow> ('d, stack) act" where
  "stack_create D inp who =
     (let name = normalizeStackName (siName inp) in
      if name = '''' then throwE (ESpec (SpecError ''name''))
      else if \<not> Valid_source (siSource inp) then throwE (ESpec (SpecError ''source''))
      else
        bindE (on_world NewID) (\<lambda>i.
        bindE (loaded (loadSource D (no_stack\<lparr>skID := i, skName := name, skSource := siSource inp, skPath := trim_space (siPath inp),
            skGitURL := trim_space (siGitURL inp), skGitRef := trim_space (siGitRef inp), skCompose := siCompose inp,
            skEnv := siEnv inp, skCreatedBy := acUsername who, skCreatedByID := acUserID who, skWorkingDir := stackDir D i\<rparr>)))
        Stacks_Create))"

definition created_stack :: "host_error + stack \<Rightarrow> stack" where
  "created_stack r = (case r of Inl _ \<Rightarrow> no_stack | Inr s \<Rightarrow> s)"

definition Stack_Create :: "'d stack_deps \<Rightarrow> stack_input \<Rightarrow> actor \<Rightarrow> request_meta \<Rightarrow> ('d, stack) act" where
  "Stack_Create D inp who meta =
     audited (stack_create D inp who) (\<lambda>r. auditStack who meta ''stack.create'' (created_stack r) (err_of r))"

definition Stack_Get :: "string \<Rightarrow> ('d, stack) act" where
  "Stack_Get i = map_err ErrNotFound ErrStackNotFound (Stacks_ByID i)"

definition edited_stack :: "'d stack_deps \<Rightarrow> stack_input \<Rightarrow> stack \<Rightarrow> stack" where
  "edited_stack D inp s =
     s\<lparr>skSource := (if siSource inp = OtherSource '''' then skSource s else siSource inp), skCompose := siCompose inp,
       skEnv := siEnv inp, skPath := (if siPath inp = '''' then skPath s else trim_space (siPath inp)),
       skGitURL := (if siGitURL inp = '''' then skGitURL s else trim_space (siGitURL inp)),
       skGitRef := (if siGitRef inp = '''' then skGitRef s else trim_space (siGitRef inp)),
       skWorkingDir := (if skWorkingDir s = '''' then stackDir D (skID s) else skWorkingDir s)\<rparr>"

definition stack_update :: "'d stack_deps \<Rightarrow> string \<Rightarrow> stack_input \<Rightarrow> ('d, stack) act" where
  "stack_update D i inp =
     bindE (Stack_Get i) (\<lambda>s.
     if siSource inp \<noteq> OtherSource '''' \<and> siSource inp \<noteq> skSource s \<and> \<not> Valid_source (siSource inp)
     then throwE (ESpec (SpecError ''source''))
     else bindE (loaded (loadSource D (edited_stack D inp s))) Stacks_Update)"

definition Stack_Update :: "'d stack_deps \<Rightarrow> string \<Rightarrow> stack_input \<Rightarrow> actor \<Rightarrow> request_meta \<Rightarrow> ('d, stack) act" where
  "Stack_Update D i inp who meta =
     audited (stack_update D i inp) (\<lambda>r. auditStack who meta ''stack.update'' (created_stack r) (err_of r))"

text \<open>A deletion answers with the directory that is removed from disk along with the record, if any.\<close>

definition Stack_Delete :: "'d stack_deps \<Rightarrow> string \<Rightarrow> actor \<Rightarrow> request_meta \<Rightarrow> ('d, string option) act" where
  "Stack_Delete D i who meta =
     bindE (Stack_Get i) (\<lambda>s.
     thenE (audited (Stacks_Delete i) (\<lambda>r. auditStack who meta ''stack.delete'' s (err_of r)))
     (returnE (if skWorkingDir s \<noteq> '''' \<and> has_prefix (skWorkingDir s) (sdStateDir D) then Some (skWorkingDir s) else None)))"

definition Stack_List :: "('d, stack list) act" where
  "Stack_List = bindE Stacks_List (\<lambda>ss. returnE (map (\<lambda>s. s\<lparr>skEnv := ''''\<rparr>) ss))"

section \<open>Reading a stack\<close>

record service_status =
  ssName :: string
  ssReplicas :: int
  ssRunning :: nat
  ssImage :: string
  ssPorts :: "port_info list"
  ssContainers :: "container list"
  ssDrifted :: bool

definition status_of :: "container list \<Rightarrow> service_plan \<Rightarrow> service_status" where
  "status_of containers plan =
     (let own = filter (\<lambda>c. label_of c LabelService = spName plan) containers in
      \<lparr>ssName = spName plan, ssReplicas = spReplicas plan,
       ssRunning = length (filter (\<lambda>c. fold_is (ctState c) ''running'') own), ssImage = csImage (spSpec plan), ssPorts = concat (map ctPorts own), ssContainers = own,
       ssDrifted = (list_ex (\<lambda>c. label_of c LabelConfigHash \<noteq> configHash (spSpec plan)) own \<or> int (length own) \<noteq> spReplicas plan)\<rparr>)"

definition statusFor :: "conversion \<Rightarrow> container list \<Rightarrow> service_status list" where
  "statusFor c containers = sort_key ssName (map (status_of containers) (cvServices c))"

record stack_detail =
  sdtStack :: stack
  sdtServices :: "service_status list"
  sdtWarnings :: "warning list"
  sdtParseError :: string
  sdtEngineError :: string

definition Detail :: "'d stack_deps \<Rightarrow> string \<Rightarrow> ('d, stack_detail) act" where
  "Detail D i =
     bindE (Stack_Get i) (\<lambda>s.
     let ws = fst (stack_plan D s) in
     case snd (stack_plan D s) of
       Inl e \<Rightarrow> returnE \<lparr>sdtStack = s, sdtServices = [], sdtWarnings = ws, sdtParseError = composeMessage e, sdtEngineError = ''''\<rparr>
     | Inr c \<Rightarrow>
         attemptE (containersOf D (skName s)) (\<lambda>r. case r of
           Inl e \<Rightarrow> returnE \<lparr>sdtStack = s, sdtServices = statusFor c [], sdtWarnings = ws, sdtParseError = '''',
                      sdtEngineError = docker_Message e\<rparr>
         | Inr cs \<Rightarrow> returnE \<lparr>sdtStack = s, sdtServices = statusFor c cs, sdtWarnings = ws, sdtParseError = '''', sdtEngineError = ''''\<rparr>))"

record validation_report =
  vrValid :: bool
  vrError :: string
  vrServices :: "string list"
  vrWarnings :: "warning list"
  vrProblems :: "problem list"

definition workingDirFor :: "'d stack_deps \<Rightarrow> stack_input \<Rightarrow> string" where
  "workingDirFor D inp = (if siSource inp = StackSourceFile \<and> siPath inp \<noteq> '''' then Dir (siPath inp) else sdStateDir D)"

definition Validate :: "'d stack_deps \<Rightarrow> stack_input \<Rightarrow> bool \<Rightarrow> validation_report" where
  "Validate D inp privileged =
     (case plan_input (sdLib D) \<lparr>inName = siName inp, inCompose = siCompose inp, inEnv = siEnv inp, inWorkingDir = workingDirFor D inp\<rparr> of
        (ws, Inl e) \<Rightarrow> \<lparr>vrValid = False, vrError = composeMessage e, vrServices = [], vrWarnings = ws, vrProblems = []\<rparr>
      | (ws, Inr c) \<Rightarrow>
          let problems = concat (map (\<lambda>p. problemsFor D p privileged) (cvServices c)) in
          \<lparr>vrValid = (problems = []), vrError = '''', vrServices = map spName (cvServices c), vrWarnings = ws, vrProblems = problems\<rparr>)"

text \<open>The containers whose output a stack's log carries.\<close>

definition log_containers :: "string list \<Rightarrow> container list \<Rightarrow> host_error + container list" where
  "log_containers services cs =
     (let chosen = filter (\<lambda>c. services = [] \<or> label_of c LabelService \<in> set services) cs
      in if chosen = [] then Inl (ErrNoSuchService '''') else Inr chosen)"

end
