(* ===== verification/Stacks_Laws.thy ===== *)
theory Stacks_Laws
  imports Stacks
begin

text \<open>
  What a deploy does to the engine, shown for every engine that meets the contract: a deploy that
  succeeds leaves every replica the file asks for running from its current definition and none
  beyond, and a deploy touches no container of anyone else whichever way it ends.
\<close>

section \<open>Programs that leave the engine's containers alone\<close>

definition steady :: "('d \<Rightarrow> engine_view) \<Rightarrow> ('d \<Rightarrow> bool) \<Rightarrow> engine_view \<Rightarrow> 'd host \<Rightarrow> bool" where
  "steady view ok v h \<longleftrightarrow> ok (hEngine h) \<and> view (hEngine h) = v"

definition builds_apart :: "('d \<Rightarrow> engine_view) \<Rightarrow> ('d \<Rightarrow> bool) \<Rightarrow> 'd stack_deps \<Rightarrow> bool" where
  "builds_apart view ok D \<longleftrightarrow> (\<forall>run b v. sdBuilder D = Some run \<longrightarrow> keeps (steady view ok v) (run b))"

lemma wp_on_engine:
  "wp (on_engine m) Q E h = (case m (hEngine h) of (Inl e, d) \<Rightarrow> E (EDocker e) (h\<lparr>hEngine := d\<rparr>) | (Inr x, d) \<Rightarrow> Q x (h\<lparr>hEngine := d\<rparr>))"
  by (auto simp: wp_def on_engine_def split: prod.split sum.split)

lemma wp_wrap_err: "wp (wrap_err p m) Q E h = wp m Q (\<lambda>e. E (EIn p e)) h"
  by (simp add: wrap_err_def wp_def attemptE_run returnE_run throwE_run split: prod.split sum.split)

lemma wp_emit: "wp (emit k s c t) Q E h = Q () (h\<lparr>hEvents := hEvents h @ [\<lparr>seKind = k, seService = s, seMessage = t, seContainer = c\<rparr>]\<rparr>)"
  by (simp add: emit_def wp_modifyE)

lemma wp_keeps: "keeps I m \<Longrightarrow> I h \<Longrightarrow> wp m (\<lambda>_. I) (\<lambda>_. I) h"
  by (auto simp: wp_def keeps_def split: prod.splits sum.splits)

lemma keeps_engine_steady: "(\<And>x. keeps (\<lambda>h. hEngine h = x) m) \<Longrightarrow> keeps (steady view ok v) m"
  by (auto simp: keeps_def steady_def)

lemma keeps_engine_repo [keeps_intros]:
  "keeps (\<lambda>h. hEngine h = x) (put_stack i f)" "keeps (\<lambda>h. hEngine h = x) (SetStatus i st msg)"
  "keeps (\<lambda>h. hEngine h = x) (Registries_find p)"
  unfolding put_stack_def SetStatus_def Registries_find_def
  by (intro keeps_intros keeps_hdb_engine; rule keepsI; simp split: option.split)+

lemma keeps_engine_Touch [keeps_intros]: "keeps (\<lambda>h. hEngine h = x) (TouchLastUsed i t)"
  unfolding TouchLastUsed_def by (intro keeps_intros) simp

lemma keeps_engine_AuthFor [keeps_intros]: "keeps (\<lambda>h. hEngine h = x) (AuthFor X svc ref)"
  unfolding AuthFor_def Registries_ByServer_def Let_def
  by (intro keeps_intros)

lemma keeps_steady_emit [keeps_intros]: "keeps (steady view ok v) (emit k s c t)"
  by (rule keepsI) (simp add: emit_def modifyE_run steady_def)

lemma keeps_steady_parts [keeps_intros]:
  "keeps (steady view ok v) (SetStatus i st msg)" "keeps (steady view ok v) (AuthFor X svc ref)"
  "keeps (steady view ok v) (audit_note who meta a t j e d)"
  by (rule keeps_engine_steady, intro keeps_intros)+

lemma keeps_emit_warnings [keeps_intros]: "keeps (steady view ok v) (emit_warnings ws)"
  by (induction ws) (simp_all add: keeps_intros)

lemma keeps_build_lines [keeps_intros]: "keeps (steady view ok v) (build_lines s ls)"
  by (induction ls) (auto simp: Let_def intro!: keeps_intros)

lemma keeps_on_engine_steady: "(\<And>d r d'. ok d \<Longrightarrow> m d = (r, d') \<Longrightarrow> ok d' \<and> view d' = view d) \<Longrightarrow> keeps (steady view ok v) (on_engine m)"
  by (rule keepsI) (auto simp: steady_def on_engine_def split: prod.split sum.split)

lemma keeps_buildFor: "builds_apart view ok D \<Longrightarrow> keeps (steady view ok v) (buildFor D p b)"
  unfolding buildFor_def builds_apart_def
  by (auto split: option.split list.split intro!: keeps_intros)

context engine_contract
begin

lemma keeps_pullFor: "sdClient D = dc \<Longrightarrow> keeps (steady view inv v) (pullFor D p force)"
  unfolding pullFor_def pull_drained_def
  by (auto split: option.split intro!: keeps_intros keeps_on_engine_steady dest: quiet_laws(2))

lemma keeps_containersOf: "sdClient D = dc \<Longrightarrow> keeps (steady view inv v) (containersOf D n)"
  unfolding containersOf_def using list_law [of _ LabelComposeProject n]
  by (auto simp: LabelComposeProject_def intro!: keeps_on_engine_steady)

lemma keeps_connect_rest: "sdClient D = dc \<Longrightarrow> keeps (steady view inv v) (connect_rest D n i as)"
  by (induction as) (auto intro!: keeps_intros keeps_on_engine_steady dest: quiet_laws(1))

end

section \<open>One container\<close>

text \<open>
  Only the container called \<open>n\<close> differs, and a new one there has an ID no other name's container
  would be given.
\<close>

definition only :: "(string \<Rightarrow> string \<Rightarrow> bool) \<Rightarrow> string \<Rightarrow> engine_view \<Rightarrow> engine_view \<Rightarrow> bool" where
  "only issues n v v' \<longleftrightarrow>
     (\<exists>x. v' = v\<lparr>vwHeld := (vwHeld v)(n := x)\<rparr>
        \<and> (\<forall>c. x = Some c \<longrightarrow> (\<forall>m. m \<noteq> n \<longrightarrow> \<not> issues m (ctID c)) \<or> (\<exists>c0. vwHeld v n = Some c0 \<and> ctID c = ctID c0)))"

definition fits :: "(string \<Rightarrow> string \<Rightarrow> bool) \<Rightarrow> string set \<Rightarrow> engine_view \<Rightarrow> bool" where
  "fits issues W v \<longleftrightarrow> (\<forall>n\<in>W. \<forall>m c. vwHeld v m = Some c \<longrightarrow> m \<noteq> n \<longrightarrow> \<not> issues n (ctID c))"

lemma only_refl [simp]: "only issues n v v"
  unfolding only_def by (intro exI [of _ "vwHeld v n"]) auto

lemma only_put: "\<forall>m. m \<noteq> n \<longrightarrow> \<not> issues m (ctID c) \<Longrightarrow> only issues n v (put n c v)"
  unfolding only_def put_def by (intro exI [of _ "Some c"]) auto

lemma only_put_same: "vwHeld v n = Some c0 \<Longrightarrow> ctID c = ctID c0 \<Longrightarrow> only issues n v (put n c v)"
  unfolding only_def put_def by (intro exI [of _ "Some c"]) auto

lemma only_clear [simp]: "only issues n v (clear n v)"
  unfolding only_def clear_def by (intro exI [of _ None]) auto

lemma only_cleared: "only issues n (clear n v) v' \<Longrightarrow> only issues n v v'"
  by (auto simp: only_def clear_def)

lemma onlyD: "only issues n v v' \<Longrightarrow> m \<noteq> n \<Longrightarrow> vwHeld v' m = vwHeld v m" "only issues n v v' \<Longrightarrow> vwNets v' = vwNets v"
  "only issues n v v' \<Longrightarrow> vwVols v' = vwVols v"
  by (auto simp: only_def)

lemma fits_only: "fits issues W v \<Longrightarrow> only issues n v v' \<Longrightarrow> fits issues W v'"
  unfolding fits_def only_def by (fastforce split: if_splits)

lemma put_put [simp]: "put n c (put n c' v) = put n c v"
  by (simp add: put_def)

definition hashed :: "string \<Rightarrow> container \<Rightarrow> bool" where
  "hashed hash c \<longleftrightarrow> label_of c LabelConfigHash = hash"

definition running :: "container \<Rightarrow> bool" where
  "running c \<longleftrightarrow> fold_is (ctState c) ''running''"

text \<open>The labels of a created replica, and the container a replica ends with.\<close>

definition replica_of :: "service_plan \<Rightarrow> int \<Rightarrow> string \<Rightarrow> container \<Rightarrow> bool" where
  "replica_of plan r hash c \<longleftrightarrow> ctLabels c = replicaLabels (csLabels (spSpec plan)) r hash"

definition satisfied :: "service_plan \<Rightarrow> int \<Rightarrow> string \<Rightarrow> engine_view \<Rightarrow> string \<Rightarrow> engine_view \<Rightarrow> bool" where
  "satisfied plan r hash v n v' \<longleftrightarrow>
     (\<exists>c. vwHeld v' n = Some c \<and> running c \<and> hashed hash c
        \<and> (replica_of plan r hash c \<or> (\<exists>c0. vwHeld v n = Some c0 \<and> ctLabels c0 = ctLabels c)))"

lemma map_of_map_put: "map_of (map_put k v m) j = (if j = k then Some v else map_of m j)"
proof -
  have "map_of (filter (\<lambda>e. fst e \<noteq> k) m) j = (if j = k then None else map_of m j)"
    by (induction m) auto
  then show ?thesis by (simp add: map_put_def map_add_def split: option.split)
qed

lemma running_state: "running (in_state ''running'' c)"
  by (simp add: running_def) code_simp

lemma replica_hashed: "replica_of plan r hash c \<Longrightarrow> hashed hash c"
  by (simp add: replica_of_def hashed_def label_of_def replicaLabels_def map_of_map_put)

lemma BuildCreateSpec_named:
  "BuildCreateSpec s = Inr cs \<Longrightarrow> crName cs = trim_space (csName s) \<and> spec_labels cs = csLabels s"
  by (auto simp: BuildCreateSpec_def okE_Inr spec_labels_def split: if_splits prod.splits)

lemma wp_keeps_then:
  assumes "keeps I m" "I h" "\<And>h. I h \<Longrightarrow> wp k Q E h" "\<And>e h. I h \<Longrightarrow> E e h"
  shows "wp (thenE m k) Q E h"
  unfolding wp_thenE using wp_keeps [OF assms(1,2)] by (rule wp_mono) (use assms(3,4) in auto)

context engine_contract
begin

lemma wp_started:
  assumes "steady view inv (put n c v) h" "replica_of plan r hash c" "\<forall>m. m \<noteq> n \<longrightarrow> \<not> issues m (ctID c)"
  shows "wp (thenE (wrap_err w (on_engine (StartContainer dc (ctID c)))) (returnE i))
    (\<lambda>_ h'. inv (hEngine h') \<and> only issues n v (view (hEngine h')) \<and>
       (\<exists>c. vwHeld (view (hEngine h')) n = Some c \<and> running c \<and> replica_of plan r hash c))
    (\<lambda>_ h'. inv (hEngine h') \<and> only issues n v (view (hEngine h'))) h"
proof -
  obtain rs d2 where rs: "StartContainer dc (ctID c) (hEngine h) = (rs, d2)" by fastforce
  have h2: "inv (hEngine h)" "vwHeld (view (hEngine h)) n = Some c" "view (hEngine h) = put n c v"
    using assms(1) by (auto simp: steady_def)
  have "inv d2" "view d2 = (if isl rs then put n c v else put n (in_state ''running'' c) v)"
    using start_law [OF h2(1,2) rs] h2(3) by auto
  then show ?thesis using rs assms(2,3)
    by (cases rs) (auto simp: wp_simps wp_wrap_err wp_on_engine running_state replica_of_def intro!: only_put)
qed

lemma wp_createReplica:
  assumes D: "sdClient D = dc" and h: "inv (hEngine h)" "view (hEngine h) = v"
    and free: "vwHeld v n = None" "good n" "trim_space n = n" "\<And>m c. vwHeld v m = Some c \<Longrightarrow> \<not> issues n (ctID c)"
  shows "wp (createReplica D plan n r hash)
    (\<lambda>_ h'. inv (hEngine h') \<and> only issues n v (view (hEngine h')) \<and>
       (\<exists>c. vwHeld (view (hEngine h')) n = Some c \<and> running c \<and> replica_of plan r hash c))
    (\<lambda>_ h'. inv (hEngine h') \<and> only issues n v (view (hEngine h'))) h" (is "wp _ ?Q ?E h")
proof (cases "BuildCreateSpec ((spSpec plan)\<lparr>csName := n, csLabels := replicaLabels (csLabels (spSpec plan)) r hash\<rparr>)")
  case (Inl e)
  then show ?thesis using h by (simp add: createReplica_def from_checked_def wp_simps)
next
  case built: (Inr cs)
  have cs: "crName cs = n" "spec_labels cs = replicaLabels (csLabels (spSpec plan)) r hash"
    using BuildCreateSpec_named [OF built] free(3) by simp_all
  obtain rk d where rk: "CreateContainer dc cs (hEngine h) = (rk, d)" by fastforce
  have pre: "vwHeld (view (hEngine h)) (crName cs) = None" "good (crName cs)"
    "\<forall>m c. vwHeld (view (hEngine h)) m = Some c \<longrightarrow> \<not> issues (crName cs) (ctID c)"
    using free h(2) cs by auto
  note cl = create_law [OF h(1) pre rk]
  show ?thesis
  proof (cases rk)
    case (Inl e)
    then show ?thesis using cl rk h(2) D built by (simp add: createReplica_def from_checked_def wp_simps wp_on_engine)
  next
    case (Inr i)
    then obtain c where c: "inv d" "view d = put n c v" "ctID c = i" "replica_of plan r hash c" "\<forall>m. m \<noteq> n \<longrightarrow> \<not> issues m (ctID c)"
      using cl h(2) cs by (auto simp: replica_of_def)
    have "wp (thenE (connect_rest D n i (tl (spNetworks plan))) (thenE (wrap_err w (on_engine (StartContainer dc i))) (returnE i)))
      ?Q ?E (h\<lparr>hEngine := d\<rparr>)" for w
    proof (rule wp_keeps_then [OF keeps_connect_rest [OF D]])
      show "steady view inv (put n c v) (h\<lparr>hEngine := d\<rparr>)" using c by (simp add: steady_def)
      show "wp (thenE (wrap_err w (on_engine (StartContainer dc i))) (returnE i)) ?Q ?E h2" if "steady view inv (put n c v) h2" for h2
        using wp_started [OF that c(4,5)] c(3) by simp
      show "inv (hEngine h2) \<and> only issues n v (view (hEngine h2))" if "steady view inv (put n c v) h2" for h2
        using that only_put [of n issues c v] c(5) by (simp add: steady_def)
    qed
    then show ?thesis using rk Inr built D
      by (simp add: createReplica_def from_checked_def wp_bindE wp_returnE wp_on_engine)
  qed
qed

lemma wp_recreate:
  assumes D: "sdClient D = dc" and h: "inv (hEngine h)" "view (hEngine h) = v" and cur: "vwHeld v n = cur"
    and free: "good n" "trim_space n = n" "fits issues {n} v"
  shows "wp (recreate D plan n r hash cur)
    (\<lambda>_ h'. inv (hEngine h') \<and> only issues n v (view (hEngine h')) \<and> satisfied plan r hash v n (view (hEngine h')))
    (\<lambda>_ h'. inv (hEngine h') \<and> only issues n v (view (hEngine h'))) h" (is "wp _ ?Q ?E h")
proof -
  have create: "wp (bindE (createReplica D plan n r hash) (\<lambda>i. emit StackEventStep s i t)) ?Q ?E h2"
    if "inv (hEngine h2)" "view (hEngine h2) = clear n v" for h2 s t
    unfolding wp_bindE wp_emit
  proof (rule wp_mono [OF wp_createReplica [OF D that]])
    show "\<not> issues n (ctID c)" if "vwHeld (clear n v) m = Some c" for m c
      using that free(3) by (auto simp: fits_def split: if_splits)
  qed (use free in \<open>auto simp: satisfied_def replica_hashed dest: only_cleared\<close>)
  show ?thesis
  proof (cases cur)
    case None
    then have "clear n v = v" using cur by (simp add: clear_def fun_upd_idem)
    then show ?thesis using create h None by (simp add: recreate_def wp_thenE wp_returnE)
  next
    case (Some c)
    then have held: "vwHeld (view (hEngine h)) n = Some c" using cur h(2) by simp
    let ?x = "\<lparr>xoForce = True, xoRemoveVolumes = False\<rparr>"
    obtain rr d where rr: "RemoveContainer dc (ctID c) ?x (hEngine h) = (rr, d)" by fastforce
    show ?thesis
      using remove_law [OF h(1) held rr] rr Some D h(2) create
      by (cases rr) (simp_all add: recreate_def removeContainer_def wp_simps wp_wrap_err wp_try_engine wp_emit)
  qed
qed

end

section \<open>One service\<close>

definition confined :: "string set \<Rightarrow> engine_view \<Rightarrow> engine_view \<Rightarrow> bool" where
  "confined S v v' \<longleftrightarrow> (\<forall>m. m \<notin> S \<longrightarrow> vwHeld v' m = vwHeld v m) \<and> vwNets v' = vwNets v \<and> vwVols v' = vwVols v"

lemma confined_refl [simp]: "confined S v v"
  by (simp add: confined_def)

lemma confined_trans: "confined S v v1 \<Longrightarrow> confined T v1 v2 \<Longrightarrow> S \<subseteq> U \<Longrightarrow> T \<subseteq> U \<Longrightarrow> confined U v v2"
  unfolding confined_def by (metis subsetD)

lemma confined_mono: "confined S v v' \<Longrightarrow> S \<subseteq> U \<Longrightarrow> confined U v v'"
  by (auto simp: confined_def)

lemma only_confined: "only issues n v v' \<Longrightarrow> confined {n} v v'"
  by (auto simp: only_def confined_def)

lemma confinedD: "confined S v v' \<Longrightarrow> m \<notin> S \<Longrightarrow> vwHeld v' m = vwHeld v m"
  by (simp add: confined_def)

lemma satisfied_cong: "vwHeld v' n = vwHeld v1' n \<Longrightarrow> vwHeld v n = vwHeld v1 n \<Longrightarrow> satisfied p r x v n v' = satisfied p r x v1 n v1'"
  by (simp add: satisfied_def)

definition nameable :: "(string \<Rightarrow> bool) \<Rightarrow> string \<Rightarrow> bool" where
  "nameable good n \<longleftrightarrow> good n \<and> trim_space n = n"

lemma wp_bind_mono:
  assumes "wp m Q1 E1 h" "\<And>x h. Q1 x h \<Longrightarrow> wp (f x) Q E h" "\<And>e h. E1 e h \<Longrightarrow> E e h"
  shows "wp (bindE m f) Q E h"
  unfolding wp_bindE using assms(1) by (rule wp_mono) (use assms(2,3) in auto)

lemma wp_then_mono:
  assumes "wp m Q1 E1 h" "\<And>x h. Q1 x h \<Longrightarrow> wp k Q E h" "\<And>e h. E1 e h \<Longrightarrow> E e h"
  shows "wp (thenE m k) Q E h"
  unfolding wp_thenE using assms(1) by (rule wp_mono) (use assms(2,3) in auto)

context engine_contract
begin

lemma wp_up_replica:
  assumes D: "sdClient D = dc" and h: "inv (hEngine h)" "view (hEngine h) = v" and n: "replica_name sn plan r = n"
    and free: "nameable good n" "fits issues {n} v" and held: "map_of held n = vwHeld v n"
  shows "wp (up_replica D sn plan opts held hash r)
    (\<lambda>_ h'. inv (hEngine h') \<and> only issues n v (view (hEngine h')) \<and> satisfied plan r hash v n (view (hEngine h')))
    (\<lambda>_ h'. inv (hEngine h') \<and> only issues n v (view (hEngine h'))) h" (is "wp _ ?Q ?E h")
proof -
  have re: "wp (recreate D plan n r hash (vwHeld v n)) ?Q ?E h2" if "inv (hEngine h2)" "view (hEngine h2) = v" for h2
    using wp_recreate [OF D that refl] free by (simp add: nameable_def)
  show ?thesis
  proof (cases "vwHeld v n")
    case None
    then show ?thesis using re [OF h] held n by (simp add: up_replica_def)
  next
    case (Some c)
    obtain rs d where rs: "StartContainer dc (ctID c) (hEngine h) = (rs, d)" by fastforce
    have st: "inv d" "view d = (if isl rs then v else put n (in_state ''running'' c) v)"
      using start_law [OF h(1) _ rs, of n] h(2) Some by auto
    have sat: "satisfied plan r hash v n v" if "running c" "hashed hash c" using that Some by (auto simp: satisfied_def)
    have sat': "satisfied plan r hash v n (put n (in_state ''running'' c) v)" if "hashed hash c"
      using that Some by (auto simp: satisfied_def running_state hashed_def label_of_def)
    have only: "only issues n v (put n (in_state ''running'' c) v)" using Some by (simp add: only_put_same)
    show ?thesis
      using Some held n re [OF h] re [of "h\<lparr>hEngine := d\<rparr>"] st rs h sat sat' only D
      by (cases rs) (auto simp: up_replica_def Let_def running_def hashed_def wp_simps wp_try_engine wp_emit)
  qed
qed

lemma wp_up_replicas:
  assumes D: "sdClient D = dc" and h: "inv (hEngine h)" "view (hEngine h) = v"
    and "distinct (map (replica_name sn plan) rs)" "replica_name sn plan ` set rs \<subseteq> W"
    and "\<And>n. n \<in> W \<Longrightarrow> nameable good n" "fits issues W v" "\<And>r. r \<in> set rs \<Longrightarrow> map_of held (replica_name sn plan r) = vwHeld v (replica_name sn plan r)"
  shows "wp (up_replicas D sn plan opts held hash rs)
    (\<lambda>_ h'. inv (hEngine h') \<and> confined (replica_name sn plan ` set rs) v (view (hEngine h')) \<and> fits issues W (view (hEngine h'))
       \<and> (\<forall>r\<in>set rs. satisfied plan r hash v (replica_name sn plan r) (view (hEngine h'))))
    (\<lambda>_ h'. inv (hEngine h') \<and> confined (replica_name sn plan ` set rs) v (view (hEngine h')) \<and> fits issues W (view (hEngine h'))) h"
  using h assms(4,5,7,8)
proof (induction rs arbitrary: h v)
  case Nil
  then show ?case by (simp add: wp_returnE)
next
  case (Cons r rs)
  let ?n = "replica_name sn plan r" and ?N = "replica_name sn plan ` set rs"
  have "fits issues {?n} v" using Cons.prems(4,5) by (auto simp: fits_def)
  moreover have "nameable good ?n" using Cons.prems(4) assms(6) by auto
  ultimately have "wp (up_replica D sn plan opts held hash r)
    (\<lambda>_ h'. inv (hEngine h') \<and> only issues ?n v (view (hEngine h')) \<and> satisfied plan r hash v ?n (view (hEngine h')))
    (\<lambda>_ h'. inv (hEngine h') \<and> only issues ?n v (view (hEngine h'))) h"
    using wp_up_replica [OF D Cons.prems(1,2) refl] Cons.prems(6) by simp
  then show ?case unfolding up_replicas.simps
  proof (rule wp_then_mono)
    fix x and h1 :: "'d host" assume h1: "inv (hEngine h1) \<and> only issues ?n v (view (hEngine h1)) \<and> satisfied plan r hash v ?n (view (hEngine h1))"
    let ?v1 = "view (hEngine h1)"
    have rest: "?n \<notin> ?N" "distinct (map (replica_name sn plan) rs)" "?N \<subseteq> W" using Cons.prems(3,4) by auto
    have same: "vwHeld ?v1 (replica_name sn plan q) = vwHeld v (replica_name sn plan q)" if "q \<in> set rs" for q
      using h1 that rest(1) onlyD(1) by (metis image_eqI)
    have widen: "confined (replica_name sn plan ` set (r # rs)) v w" if "confined ?N ?v1 w" for w
      by (rule confined_trans [OF only_confined that]) (use h1 in auto)
    have "wp (up_replicas D sn plan opts held hash rs)
      (\<lambda>_ h'. inv (hEngine h') \<and> confined ?N ?v1 (view (hEngine h')) \<and> fits issues W (view (hEngine h'))
         \<and> (\<forall>r\<in>set rs. satisfied plan r hash ?v1 (replica_name sn plan r) (view (hEngine h'))))
      (\<lambda>_ h'. inv (hEngine h') \<and> confined ?N ?v1 (view (hEngine h')) \<and> fits issues W (view (hEngine h'))) h1"
      using h1 rest same Cons.prems(5,6) by (intro Cons.IH) (auto intro: fits_only)
    then show "wp (up_replicas D sn plan opts held hash rs)
      (\<lambda>_ h'. inv (hEngine h') \<and> confined (replica_name sn plan ` set (r # rs)) v (view (hEngine h')) \<and> fits issues W (view (hEngine h'))
         \<and> (\<forall>r\<in>set (r # rs). satisfied plan r hash v (replica_name sn plan r) (view (hEngine h'))))
      (\<lambda>_ h'. inv (hEngine h') \<and> confined (replica_name sn plan ` set (r # rs)) v (view (hEngine h')) \<and> fits issues W (view (hEngine h'))) h1"
    proof (rule wp_mono)
      fix x and h' :: "'d host" assume h': "inv (hEngine h') \<and> confined ?N ?v1 (view (hEngine h')) \<and> fits issues W (view (hEngine h'))
         \<and> (\<forall>r\<in>set rs. satisfied plan r hash ?v1 (replica_name sn plan r) (view (hEngine h')))"
      have "satisfied plan r hash v ?n (view (hEngine h'))"
        using h1 h' rest(1) satisfied_cong [OF _ refl, of "view (hEngine h')" ?n ?v1] by (auto dest: confinedD)
      moreover have "satisfied plan q hash v (replica_name sn plan q) (view (hEngine h'))" if "q \<in> set rs" for q
        using h' same [OF that] that satisfied_cong [OF refl, of ?v1 "replica_name sn plan q" v] by blast
      ultimately show "inv (hEngine h') \<and> confined (replica_name sn plan ` set (r # rs)) v (view (hEngine h')) \<and> fits issues W (view (hEngine h'))
         \<and> (\<forall>r\<in>set (r # rs). satisfied plan r hash v (replica_name sn plan r) (view (hEngine h')))"
        using h' widen by auto
    qed (use widen in auto)
  qed (use Cons.prems(5) in \<open>auto dest: only_confined intro: confined_mono fits_only\<close>)
qed

end

definition replica_names :: "string \<Rightarrow> service_plan \<Rightarrow> string list" where
  "replica_names sn p = map (replica_name sn p) [1..spReplicas p]"

definition surplus_names :: "(string \<times> container) list \<Rightarrow> service_plan \<Rightarrow> string set" where
  "surplus_names held p = {m. \<exists>c. (m, c) \<in> set held \<and> surplus p c}"

text \<open>What a service's part of a deploy may touch, and what it has achieved.\<close>

definition touched :: "string \<Rightarrow> (string \<times> container) list \<Rightarrow> service_plan \<Rightarrow> string set" where
  "touched sn held p = set (replica_names sn p) \<union> surplus_names held p"

definition served :: "string \<Rightarrow> (string \<times> container) list \<Rightarrow> service_plan \<Rightarrow> engine_view \<Rightarrow> engine_view \<Rightarrow> bool" where
  "served sn held p v v' \<longleftrightarrow>
     (\<forall>r\<in>set [1..spReplicas p]. satisfied p r (configHash (spSpec p)) v (replica_name sn p r) v')
     \<and> (\<forall>m\<in>surplus_names held p. vwHeld v' m = None)"

text \<open>The listing a service's part works from still says what is there.\<close>

definition current :: "string \<Rightarrow> (string \<times> container) list \<Rightarrow> engine_view \<Rightarrow> service_plan \<Rightarrow> bool" where
  "current sn held v p \<longleftrightarrow>
     (\<forall>n\<in>set (replica_names sn p). map_of held n = vwHeld v n)
     \<and> (\<forall>(m, c)\<in>set held. surplus p c \<longrightarrow> vwHeld v m = Some c)"

context engine_contract
begin

lemma wp_removeSurplus:
  assumes D: "sdClient D = dc" and h: "inv (hEngine h)" "view (hEngine h) = v" and "distinct (map fst held)"
    and "fits issues W v" "\<forall>(m, c)\<in>set held. surplus plan c \<longrightarrow> vwHeld v m = Some c"
  shows "wp (removeSurplus D plan held)
    (\<lambda>_ h'. inv (hEngine h') \<and> confined (surplus_names held plan) v (view (hEngine h')) \<and> fits issues W (view (hEngine h'))
       \<and> (\<forall>m\<in>surplus_names held plan. vwHeld (view (hEngine h')) m = None))
    (\<lambda>_ h'. inv (hEngine h') \<and> confined (surplus_names held plan) v (view (hEngine h')) \<and> fits issues W (view (hEngine h'))) h"
  using h assms(4-6)
proof (induction held arbitrary: h v)
  case Nil
  then show ?case by (simp add: wp_returnE surplus_names_def)
next
  case (Cons e held)
  obtain m c where e: "e = (m, c)" by fastforce
  show ?case
  proof (cases "surplus plan c")
    case False
    have "surplus_names (e # held) plan = surplus_names held plan" using False e by (auto simp: surplus_names_def)
    then show ?thesis using Cons.IH [OF Cons.prems(1,2)] Cons.prems(3-5) False e by (simp add: wp_thenE wp_returnE)
  next
    case True
    have S: "surplus_names (e # held) plan = insert m (surplus_names held plan)" using True e by (auto simp: surplus_names_def)
    have m: "vwHeld v m = Some c" "m \<notin> surplus_names held plan" using Cons.prems(3,5) True e by (force simp: surplus_names_def)+
    let ?x = "\<lparr>xoForce = True, xoRemoveVolumes = False\<rparr>"
    obtain rr d where rr: "RemoveContainer dc (ctID c) ?x (hEngine h) = (rr, d)" by fastforce
    have law: "inv d \<and> (case rr of Inl e \<Rightarrow> view d = v \<and> \<not> IsNotFound e | Inr _ \<Rightarrow> view d = clear m v)"
      using remove_law [OF Cons.prems(1) _ rr, of m] m unfolding Cons.prems(2) by blast
    have rest: "wp (removeSurplus D plan held)
      (\<lambda>_ h'. inv (hEngine h') \<and> confined (insert m (surplus_names held plan)) v (view (hEngine h')) \<and> fits issues W (view (hEngine h'))
         \<and> (\<forall>n\<in>insert m (surplus_names held plan). vwHeld (view (hEngine h')) n = None))
      (\<lambda>_ h'. inv (hEngine h') \<and> confined (insert m (surplus_names held plan)) v (view (hEngine h')) \<and> fits issues W (view (hEngine h'))) h1"
      if "inv (hEngine h1)" "view (hEngine h1) = clear m v" for h1
    proof (rule wp_mono [OF Cons.IH [OF that]])
      show "\<forall>(n, c)\<in>set held. surplus plan c \<longrightarrow> vwHeld (clear m v) n = Some c"
        using Cons.prems(3,5) e by (force simp: image_iff)
      have up: "confined (insert m (surplus_names held plan)) v w" if "confined (surplus_names held plan) (clear m v) w" for w
        by (rule confined_trans [OF only_confined [OF only_clear] that]) auto
      show "fits issues W (clear m v)" using Cons.prems(4) only_clear [of issues m v] by (rule fits_only)
      fix x and h2 :: "'d host"
      assume "inv (hEngine h2) \<and> confined (surplus_names held plan) (clear m v) (view (hEngine h2)) \<and> fits issues W (view (hEngine h2))
         \<and> (\<forall>n\<in>surplus_names held plan. vwHeld (view (hEngine h2)) n = None)"
      then show "inv (hEngine h2) \<and> confined (insert m (surplus_names held plan)) v (view (hEngine h2)) \<and> fits issues W (view (hEngine h2))
         \<and> (\<forall>n\<in>insert m (surplus_names held plan). vwHeld (view (hEngine h2)) n = None)"
        using up m(2) by (auto simp: confined_def)
    qed (use Cons.prems(3) e in \<open>auto intro: confined_trans [OF only_confined [OF only_clear]]\<close>)
    show ?thesis unfolding S
      using rest law rr D True e Cons.prems(4)
      by (cases rr) (simp_all add: removeContainer_def wp_simps wp_wrap_err wp_try_engine wp_emit)
  qed
qed

lemma wp_upService:
  assumes D: "sdClient D = dc" "builds_apart view inv D" and h: "inv (hEngine h)" "view (hEngine h) = v"
    and held: "distinct (map fst (byName existing))" "current (skName s) (byName existing) v p"
    and names: "distinct (replica_names (skName s) p)" "set (replica_names (skName s) p) \<subseteq> W" "\<And>n. n \<in> W \<Longrightarrow> nameable good n"
    and apart: "surplus_names (byName existing) p \<inter> W = {}" and fit: "fits issues W v"
  shows "wp (upService D s p opts existing)
    (\<lambda>_ h'. inv (hEngine h') \<and> confined (touched (skName s) (byName existing) p) v (view (hEngine h')) \<and> fits issues W (view (hEngine h'))
       \<and> served (skName s) (byName existing) p v (view (hEngine h')))
    (\<lambda>_ h'. inv (hEngine h') \<and> confined (touched (skName s) (byName existing) p) v (view (hEngine h')) \<and> fits issues W (view (hEngine h'))) h"
    (is "wp _ ?Q ?E h")
  unfolding upService_def
proof (rule wp_keeps_then)
  let ?held = "byName existing" and ?N = "set (replica_names (skName s) p)" and ?S = "surplus_names (byName existing) p"
  show "keeps (steady view inv v) (case spBuild p of Some b \<Rightarrow> buildFor D p b | None \<Rightarrow> pullFor D p (uoPull opts))"
    using D by (auto simp: keeps_pullFor keeps_buildFor split: option.split)
  show "steady view inv v h" using h by (simp add: steady_def)
  fix e and h1 :: "'d host" assume h1: "steady view inv v h1"
  show "?E e h1" using h1 fit by (simp add: steady_def)
  have N: "?N = replica_name (skName s) p ` set [1..spReplicas p]" by (simp add: replica_names_def)
  have "wp (up_replicas D (skName s) p opts ?held (configHash (spSpec p)) [1..spReplicas p])
    (\<lambda>_ h'. inv (hEngine h') \<and> confined ?N v (view (hEngine h')) \<and> fits issues W (view (hEngine h'))
       \<and> (\<forall>r\<in>set [1..spReplicas p]. satisfied p r (configHash (spSpec p)) v (replica_name (skName s) p r) (view (hEngine h'))))
    (\<lambda>_ h'. inv (hEngine h') \<and> confined ?N v (view (hEngine h')) \<and> fits issues W (view (hEngine h'))) h1"
    unfolding N using h1 D names held(2) fit
    by (intro wp_up_replicas) (auto simp: steady_def replica_names_def current_def)
  then show "wp (thenE (up_replicas D (skName s) p opts ?held (configHash (spSpec p)) [1..spReplicas p]) (removeSurplus D p ?held)) ?Q ?E h1"
  proof (rule wp_then_mono)
    fix x and h2 :: "'d host"
    assume h2: "inv (hEngine h2) \<and> confined ?N v (view (hEngine h2)) \<and> fits issues W (view (hEngine h2))
       \<and> (\<forall>r\<in>set [1..spReplicas p]. satisfied p r (configHash (spSpec p)) v (replica_name (skName s) p r) (view (hEngine h2)))"
    have out: "?N \<inter> ?S = {}" using names(2) apart by auto
    have kept: "vwHeld (view (hEngine h2)) m = Some c" if "(m, c) \<in> set ?held" "surplus p c" for m c
    proof -
      have "m \<notin> ?N" using out that by (auto simp: surplus_names_def)
      then show ?thesis using h2 held(2) that by (auto simp: current_def confined_def)
    qed
    have both: "confined (touched (skName s) ?held p) v w" if "confined ?S (view (hEngine h2)) w" for w
      using h2 by (intro confined_trans [OF _ that, of ?N]) (auto simp: touched_def)
    have "wp (removeSurplus D p ?held)
      (\<lambda>_ h'. inv (hEngine h') \<and> confined ?S (view (hEngine h2)) (view (hEngine h')) \<and> fits issues W (view (hEngine h'))
         \<and> (\<forall>m\<in>?S. vwHeld (view (hEngine h')) m = None))
      (\<lambda>_ h'. inv (hEngine h') \<and> confined ?S (view (hEngine h2)) (view (hEngine h')) \<and> fits issues W (view (hEngine h'))) h2"
      using h2 kept by (intro wp_removeSurplus [OF D(1) _ refl held(1)]) auto
    then show "wp (removeSurplus D p ?held) ?Q ?E h2"
    proof (rule wp_mono)
      fix y and h3 :: "'d host"
      assume h3: "inv (hEngine h3) \<and> confined ?S (view (hEngine h2)) (view (hEngine h3)) \<and> fits issues W (view (hEngine h3))
         \<and> (\<forall>m\<in>?S. vwHeld (view (hEngine h3)) m = None)"
      have "satisfied p r (configHash (spSpec p)) v (replica_name (skName s) p r) (view (hEngine h3))" if "r \<in> set [1..spReplicas p]" for r
      proof -
        have "vwHeld (view (hEngine h3)) (replica_name (skName s) p r) = vwHeld (view (hEngine h2)) (replica_name (skName s) p r)"
          using h3 out that N by (intro confinedD) blast+
        then show ?thesis using h2 that satisfied_cong [OF _ refl] by blast
      qed
      then show "?Q y h3" using h3 both by (auto simp: served_def)
    qed (use both in auto)
  qed (auto simp: touched_def intro: confined_mono)
qed

end

section \<open>A whole deploy\<close>

lemma current_confined:
  assumes "current sn held v p" "confined T v v'" "T \<inter> touched sn held p = {}"
  shows "current sn held v' p"
proof -
  have same: "vwHeld v' m = vwHeld v m" if "m \<in> touched sn held p" for m
    using assms(2,3) that by (auto simp: confined_def)
  have "m \<in> touched sn held p" if "(m, c) \<in> set held" "surplus p c" for m c
    using that by (auto simp: touched_def surplus_names_def)
  then show ?thesis using assms(1) same by (fastforce simp: current_def touched_def)
qed

lemma served_confined:
  assumes "served sn held p v1 v'" "confined S v v1" "S \<inter> touched sn held p = {}" "confined T v' v2" "T \<inter> touched sn held p = {}"
  shows "served sn held p v v2"
proof -
  have same: "vwHeld v1 m = vwHeld v m" "vwHeld v2 m = vwHeld v' m" if "m \<in> touched sn held p" for m
    using assms(2-5) that by (auto simp: confined_def)
  have "satisfied p r x v (replica_name sn p r) v2 = satisfied p r x v1 (replica_name sn p r) v'" if "r \<in> set [1..spReplicas p]" for r x
    using that same by (intro satisfied_cong) (auto simp: touched_def replica_names_def)
  moreover have "vwHeld v2 m = vwHeld v' m" if "m \<in> surplus_names held p" for m
    using that same by (simp add: touched_def)
  ultimately show ?thesis using assms(1) unfolding served_def by metis
qed

context engine_contract
begin

lemma wp_up_services:
  assumes D: "sdClient D = dc" "builds_apart view inv D" and h: "inv (hEngine h)" "view (hEngine h) = v"
    and held: "distinct (map fst (byName existing))" "\<And>p. p \<in> set plans \<Longrightarrow> current (skName s) (byName existing) v p"
    and names: "\<And>p. p \<in> set plans \<Longrightarrow> distinct (replica_names (skName s) p) \<and> set (replica_names (skName s) p) \<subseteq> W"
      "\<And>n. n \<in> W \<Longrightarrow> nameable good n"
    and apart: "\<And>p. p \<in> set plans \<Longrightarrow> surplus_names (byName existing) p \<inter> W = {}" and fit: "fits issues W v"
    and disj: "sorted_wrt (\<lambda>p q. touched (skName s) (byName existing) p \<inter> touched (skName s) (byName existing) q = {}) plans"
  shows "wp (up_services D s opts existing plans)
    (\<lambda>_ h'. inv (hEngine h') \<and> confined (\<Union>p\<in>set plans. touched (skName s) (byName existing) p) v (view (hEngine h'))
       \<and> (\<forall>p\<in>set plans. served (skName s) (byName existing) p v (view (hEngine h'))))
    (\<lambda>_ h'. inv (hEngine h') \<and> confined (\<Union>p\<in>set plans. touched (skName s) (byName existing) p) v (view (hEngine h'))) h"
  using h held(2) names(1) apart fit disj
proof (induction plans arbitrary: h v)
  case Nil
  then show ?case by (simp add: wp_returnE)
next
  case (Cons p ps)
  let ?T = "touched (skName s) (byName existing)" and ?served = "served (skName s) (byName existing)"
  let ?U = "\<Union>q\<in>set ps. ?T q"
  have one: "wp (upService D s p opts existing)
    (\<lambda>_ h'. inv (hEngine h') \<and> confined (?T p) v (view (hEngine h')) \<and> fits issues W (view (hEngine h')) \<and> ?served p v (view (hEngine h')))
    (\<lambda>_ h'. inv (hEngine h') \<and> confined (?T p) v (view (hEngine h')) \<and> fits issues W (view (hEngine h'))) h"
    using Cons.prems names(2) by (intro wp_upService [OF D Cons.prems(1,2) held(1)]) auto
  have disj: "?T p \<inter> ?T q = {}" if "q \<in> set ps" for q using Cons.prems(7) that by simp
  have rest: "wp (up_services D s opts existing ps)
    (\<lambda>_ h'. inv (hEngine h') \<and> confined (\<Union>q\<in>set (p # ps). ?T q) v (view (hEngine h')) \<and> (\<forall>q\<in>set (p # ps). ?served q v (view (hEngine h'))))
    (\<lambda>_ h'. inv (hEngine h') \<and> confined (\<Union>q\<in>set (p # ps). ?T q) v (view (hEngine h'))) h1"
    if h1: "inv (hEngine h1)" "confined (?T p) v (view (hEngine h1))" "fits issues W (view (hEngine h1))" "?served p v (view (hEngine h1))" for h1
  proof (rule wp_mono [OF Cons.IH [OF h1(1) refl]])
    show "current (skName s) (byName existing) (view (hEngine h1)) q" if "q \<in> set ps" for q
      using Cons.prems(3) that disj [OF that] by (intro current_confined [OF _ h1(2)]) auto
    have both: "confined (\<Union>q\<in>set (p # ps). ?T q) v w" if "confined ?U (view (hEngine h1)) w" for w
      by (rule confined_trans [OF h1(2) that]) auto
    fix x and h2 :: "'d host"
    assume h2: "inv (hEngine h2) \<and> confined ?U (view (hEngine h1)) (view (hEngine h2))
      \<and> (\<forall>q\<in>set ps. ?served q (view (hEngine h1)) (view (hEngine h2)))"
    have "?served p v (view (hEngine h2))"
      by (rule served_confined [OF h1(4) confined_refl, of "{}" ?U]) (use h2 disj in auto)
    moreover have "?served q v (view (hEngine h2))" if "q \<in> set ps" for q
      by (rule served_confined [OF _ h1(2) _ confined_refl, where T = "{}"]) (use h2 that disj [OF that] in auto)
    ultimately show "inv (hEngine h2) \<and> confined (\<Union>q\<in>set (p # ps). ?T q) v (view (hEngine h2)) \<and> (\<forall>q\<in>set (p # ps). ?served q v (view (hEngine h2)))"
      using h2 both by auto
  qed (use Cons.prems h1(3) confined_trans [OF h1(2)] in auto)
  let ?E = "\<lambda>_ h'. inv (hEngine h') \<and> confined (\<Union>q\<in>set (p # ps). ?T q) v (view (hEngine h'))"
  have "wp (thenE (wrap_err w (upService D s p opts existing)) (up_services D s opts existing ps))
    (\<lambda>_ h'. ?E () h' \<and> (\<forall>q\<in>set (p # ps). ?served q v (view (hEngine h')))) ?E h" for w
    unfolding wp_thenE wp_wrap_err
  proof (rule wp_mono [OF one])
    fix x and h1 :: "'d host"
    assume "inv (hEngine h1) \<and> confined (?T p) v (view (hEngine h1)) \<and> fits issues W (view (hEngine h1)) \<and> ?served p v (view (hEngine h1))"
    then show "wp (up_services D s opts existing ps) (\<lambda>_ h'. ?E () h' \<and> (\<forall>q\<in>set (p # ps). ?served q v (view (hEngine h')))) ?E h1"
      using rest by simp
  qed (use confined_mono [of "?T p"] in auto)
  then show ?case using Cons.prems(1,2) by (simp add: wp_thenE wp_if wp_throwE wp_returnE)
qed

end

text \<open>Networks and volumes are added, containers stay.\<close>

definition grown :: "engine_view \<Rightarrow> engine_view \<Rightarrow> bool" where
  "grown v v' \<longleftrightarrow> vwHeld v' = vwHeld v \<and> vwNets v \<subseteq> vwNets v' \<and> vwVols v \<subseteq> vwVols v'"

lemma grown_refl [simp]: "grown v v"
  by (simp add: grown_def)

lemma grown_trans: "grown v v1 \<Longrightarrow> grown v1 v2 \<Longrightarrow> grown v v2"
  by (auto simp: grown_def)

lemma grown_add [simp]: "grown v (v\<lparr>vwNets := insert n (vwNets v)\<rparr>)" "grown v (v\<lparr>vwVols := insert n (vwVols v)\<rparr>)"
  by (auto simp: grown_def)

context engine_contract
begin

lemma wp_ensureNetworks_from:
  assumes D: "sdClient D = dc" and "inv (hEngine h)" "present \<subseteq> vwNets (view (hEngine h))"
    and "\<And>p. p \<in> set ps \<Longrightarrow> noName (npOptions p) = npName p"
  shows "wp (ensureNetworks_from D present ps)
    (\<lambda>_ h'. inv (hEngine h') \<and> grown (view (hEngine h)) (view (hEngine h')) \<and> npName ` set ps \<subseteq> vwNets (view (hEngine h')))
    (\<lambda>_ h'. inv (hEngine h') \<and> grown (view (hEngine h)) (view (hEngine h'))) h"
  using assms(2-)
proof (induction ps arbitrary: h)
  case Nil
  then show ?case by (simp add: wp_returnE)
next
  case (Cons p ps)
  let ?v = "view (hEngine h)"
  have rest: "wp (ensureNetworks_from D present ps)
    (\<lambda>_ h'. inv (hEngine h') \<and> grown ?v (view (hEngine h')) \<and> npName ` set (p # ps) \<subseteq> vwNets (view (hEngine h')))
    (\<lambda>_ h'. inv (hEngine h') \<and> grown ?v (view (hEngine h'))) h1"
    if "inv (hEngine h1)" "grown ?v (view (hEngine h1))" "npName p \<in> vwNets (view (hEngine h1))" for h1
  proof (rule wp_mono [OF Cons.IH [OF that(1)]])
    show "present \<subseteq> vwNets (view (hEngine h1))" using Cons.prems(2) that(2) by (auto simp: grown_def)
  qed (use Cons.prems(3) that(2,3) in \<open>auto intro: grown_trans simp: grown_def\<close>)
  obtain rc d where rc: "CreateNetwork dc (npOptions p) (hEngine h) = (rc, d)" by fastforce
  have law: "inv d" "view d = (if isl rc then ?v else ?v\<lparr>vwNets := insert (npName p) (vwNets ?v)\<rparr>)"
    using network_law [OF Cons.prems(1) rc] Cons.prems(3) by auto
  show ?case
    using rest [of h] rest [of "h\<lparr>hEngine := d, hEvents := e\<rparr>" for e] Cons.prems(1,2) law rc D
    by (cases rc) (auto simp: wp_simps wp_wrap_err wp_on_engine wp_emit)
qed

lemma wp_ensureNetworks:
  assumes D: "sdClient D = dc" and h: "inv (hEngine h)" and "\<And>p. p \<in> set ps \<Longrightarrow> noName (npOptions p) = npName p"
  shows "wp (ensureNetworks D ps)
    (\<lambda>_ h'. inv (hEngine h') \<and> grown (view (hEngine h)) (view (hEngine h')) \<and> npName ` set ps \<subseteq> vwNets (view (hEngine h')))
    (\<lambda>_ h'. inv (hEngine h') \<and> grown (view (hEngine h)) (view (hEngine h'))) h"
proof -
  obtain rn d where rn: "ListNetworks dc (hEngine h) = (rn, d)" by fastforce
  have law: "inv d" "view d = view (hEngine h)" "\<And>ns. rn = Inr ns \<Longrightarrow> nwName ` set ns = vwNets (view d)"
    using networks_law [OF h rn] by auto
  show ?thesis
    using wp_ensureNetworks_from [OF D, of "h\<lparr>hEngine := d\<rparr>" _ ps] law rn D h assms(3)
    by (cases rn) (auto simp: ensureNetworks_def wp_simps wp_on_engine)
qed

lemma wp_ensureVolumes_from:
  assumes D: "sdClient D = dc" and "inv (hEngine h)" "present \<subseteq> vwVols (view (hEngine h))"
    and "\<And>p. p \<in> set ps \<Longrightarrow> voName (vpOptions p) = vpName p"
  shows "wp (ensureVolumes_from D present ps)
    (\<lambda>_ h'. inv (hEngine h') \<and> grown (view (hEngine h)) (view (hEngine h')) \<and> vpName ` set ps \<subseteq> vwVols (view (hEngine h')))
    (\<lambda>_ h'. inv (hEngine h') \<and> grown (view (hEngine h)) (view (hEngine h'))) h"
  using assms(2-)
proof (induction ps arbitrary: h)
  case Nil
  then show ?case by (simp add: wp_returnE)
next
  case (Cons p ps)
  let ?v = "view (hEngine h)"
  have rest: "wp (ensureVolumes_from D present ps)
    (\<lambda>_ h'. inv (hEngine h') \<and> grown ?v (view (hEngine h')) \<and> vpName ` set (p # ps) \<subseteq> vwVols (view (hEngine h')))
    (\<lambda>_ h'. inv (hEngine h') \<and> grown ?v (view (hEngine h'))) h1"
    if "inv (hEngine h1)" "grown ?v (view (hEngine h1))" "vpName p \<in> vwVols (view (hEngine h1))" for h1
  proof (rule wp_mono [OF Cons.IH [OF that(1)]])
    show "present \<subseteq> vwVols (view (hEngine h1))" using Cons.prems(2) that(2) by (auto simp: grown_def)
  qed (use Cons.prems(3) that(2,3) in \<open>auto intro: grown_trans simp: grown_def\<close>)
  obtain rc d where rc: "CreateVolume dc (vpOptions p) (hEngine h) = (rc, d)" by fastforce
  have law: "inv d" "view d = (if isl rc then ?v else ?v\<lparr>vwVols := insert (vpName p) (vwVols ?v)\<rparr>)"
    using volume_law [OF Cons.prems(1) rc] Cons.prems(3) by auto
  show ?case
    using rest [of h] rest [of "h\<lparr>hEngine := d, hEvents := e\<rparr>" for e] Cons.prems(1,2) law rc D
    by (cases rc) (auto simp: wp_simps wp_wrap_err wp_on_engine wp_emit)
qed

lemma wp_ensureVolumes:
  assumes D: "sdClient D = dc" and h: "inv (hEngine h)" and "\<And>p. p \<in> set ps \<Longrightarrow> voName (vpOptions p) = vpName p"
  shows "wp (ensureVolumes D ps)
    (\<lambda>_ h'. inv (hEngine h') \<and> grown (view (hEngine h)) (view (hEngine h')) \<and> vpName ` set ps \<subseteq> vwVols (view (hEngine h')))
    (\<lambda>_ h'. inv (hEngine h') \<and> grown (view (hEngine h)) (view (hEngine h'))) h"
proof -
  obtain rn d where rn: "ListVolumes dc (hEngine h) = (rn, d)" by fastforce
  have law: "inv d" "view d = view (hEngine h)" "\<And>ns. rn = Inr ns \<Longrightarrow> vlName ` set ns = vwVols (view d)"
    using volumes_law [OF h rn] by auto
  show ?thesis
    using wp_ensureVolumes_from [OF D, of "h\<lparr>hEngine := d\<rparr>" _ ps] law rn D h assms(3)
    by (cases rn) (auto simp: ensureVolumes_def wp_simps wp_on_engine)
qed

end

section \<open>What a deploy promises\<close>

definition wanted :: "string \<Rightarrow> service_plan list \<Rightarrow> string list" where
  "wanted sn plans = concat (map (replica_names sn) plans)"

definition stale :: "string \<Rightarrow> service_plan list \<Rightarrow> container \<Rightarrow> bool" where
  "stale sn plans c \<longleftrightarrow> carries LabelComposeProject sn c \<and> list_ex (\<lambda>p. surplus p c) plans"

text \<open>
  Every replica runs from its current definition, and no container of the stack is beyond what
  the file asks for.
\<close>

definition deployed :: "string \<Rightarrow> service_plan list \<Rightarrow> engine_view \<Rightarrow> bool" where
  "deployed sn plans v \<longleftrightarrow>
     list_all (\<lambda>p. list_all (\<lambda>r. \<exists>c. vwHeld v (replica_name sn p r) = Some c \<and> running c \<and> hashed (configHash (spSpec p)) c)
       [1..spReplicas p]) plans
     \<and> (\<forall>m c. vwHeld v m = Some c \<longrightarrow> \<not> stale sn plans c)"

text \<open>Nothing but the wanted names and the surplus of the stack has changed.\<close>

definition undisturbed :: "string \<Rightarrow> service_plan list \<Rightarrow> engine_view \<Rightarrow> engine_view \<Rightarrow> bool" where
  "undisturbed sn plans v v' \<longleftrightarrow>
     (\<forall>m. m \<notin> set (wanted sn plans) \<longrightarrow> (\<forall>c. vwHeld v m = Some c \<longrightarrow> \<not> stale sn plans c) \<longrightarrow> vwHeld v' m = vwHeld v m)
     \<and> vwNets v \<subseteq> vwNets v' \<and> vwVols v \<subseteq> vwVols v'"

text \<open>
  What a deploy relies on: services and replicas have names of their own that the engine accepts;
  a container that holds a wanted name belongs to the stack and is not numbered beyond its
  service's replicas; and the engine has not given a wanted name's ID away.
\<close>

definition deployable :: "(string \<Rightarrow> bool) \<Rightarrow> (string \<Rightarrow> string \<Rightarrow> bool) \<Rightarrow> string \<Rightarrow> service_plan list \<Rightarrow> engine_view \<Rightarrow> bool" where
  "deployable good issues sn plans v \<longleftrightarrow>
     distinct (map spName plans) \<and> distinct (wanted sn plans)
     \<and> (\<forall>n\<in>set (wanted sn plans). nameable good n
          \<and> (\<forall>c. vwHeld v n = Some c \<longrightarrow> carries LabelComposeProject sn c \<and> \<not> stale sn plans c))
     \<and> fits issues (set (wanted sn plans)) v"

definition labelled :: "service_plan \<Rightarrow> bool" where
  "labelled p \<longleftrightarrow> map_of (csLabels (spSpec p)) LabelService = Some (spName p)"

definition resources_named :: "conversion \<Rightarrow> bool" where
  "resources_named c \<longleftrightarrow> list_all (\<lambda>p. noName (npOptions p) = npName p) (cvNetworks c)
     \<and> list_all (\<lambda>p. voName (vpOptions p) = vpName p) (cvVolumes c)"

lemma byName_distinct: "distinct (map ctName cs) \<Longrightarrow> byName cs = map (\<lambda>c. (ctName c, c)) cs"
proof -
  have absent: "AList.update k v m = m @ [(k, v)]" if "k \<notin> fst ` set m" for k and v :: container and m
    using that by (induction m) auto
  have "fold (\<lambda>c. AList.update (ctName c) c) cs acc = acc @ map (\<lambda>c. (ctName c, c)) cs"
    if "distinct (map ctName cs)" "fst ` set acc \<inter> ctName ` set cs = {}" for acc
    using that
  proof (induction cs arbitrary: acc)
    case (Cons c cs)
    have "ctName c \<notin> fst ` set acc" using Cons.prems(2) by auto
    then show ?case using Cons.prems by (subst fold_Cons) (simp add: absent, subst Cons.IH, auto)
  qed simp
  then show "distinct (map ctName cs) \<Longrightarrow> byName cs = map (\<lambda>c. (ctName c, c)) cs" by (simp add: byName_def)
qed

lemma surplus_labels: "ctLabels c = ctLabels c' \<Longrightarrow> surplus p c = surplus p c'"
  by (simp add: surplus_def label_of_def)

lemma atoi_itoa_eq:
  assumes "0 \<le> r" "atoi (itoa r) = Some k"
  shows "k = r"
proof -
  obtain c cs where c: "show_nat (nat r) = c # cs" "is_digit c" using show_nat_hd by blast
  then have "c \<noteq> CHR ''-''" "c \<noteq> CHR ''+''" "parse_digits (c # cs) = Some (nat r)"
    by (auto simp: is_digit_def) (metis parse_digits_show_nat)
  then show ?thesis using assms c by (auto simp: itoa_def atoi_def split: if_splits)
qed

lemma replica_not_surplus:
  assumes "replica_of q r x c" "map_of (csLabels (spSpec q)) LabelService = Some (spName q)" "r \<in> set [1..spReplicas q]"
    and "surplus p c"
  shows "spName p = spName q \<and> p \<noteq> q"
proof -
  have lab: "label_of c LabelService = spName q" "label_of c LabelReplica = itoa r"
    using assms(1,2) by (simp_all add: replica_of_def label_of_def replicaLabels_def map_of_map_put LabelService_def LabelReplica_def
      LabelConfigHash_def LabelComposeNumber_def)
  then obtain k where k: "atoi (itoa r) = Some k" "spReplicas p < k" "spName p = spName q"
    using assms(4) by (auto simp: surplus_def split: option.splits)
  have "k = r" using atoi_itoa_eq [OF _ k(1)] assms(3) by simp
  then show ?thesis using k(2,3) assms(3) by auto
qed

text \<open>The listing of a stack's containers, as a map.\<close>

lemma held_map:
  assumes "distinct (map ctName cs)" "set cs = {c. \<exists>n. f n = Some c \<and> carries k w c}" "\<And>n c. f n = Some c \<Longrightarrow> ctName c = n"
  shows "distinct (map fst (byName cs))" "(n, c) \<in> set (byName cs) \<longleftrightarrow> f n = Some c \<and> carries k w c"
    "(\<And>c. f n = Some c \<Longrightarrow> carries k w c) \<Longrightarrow> map_of (byName cs) n = f n"
proof -
  have eq: "byName cs = map (\<lambda>c. (ctName c, c)) cs" using assms(1) by (rule byName_distinct)
  show d: "distinct (map fst (byName cs))" using assms(1) by (simp add: eq comp_def)
  show mem: "(n, c) \<in> set (byName cs) \<longleftrightarrow> f n = Some c \<and> carries k w c" for n c
    using assms(2,3) by (auto simp: eq)
  show "map_of (byName cs) n = f n" if "\<And>c. f n = Some c \<Longrightarrow> carries k w c"
  proof (cases "f n")
    case None
    then show ?thesis using mem by (simp add: map_of_eq_None_iff) force
  next
    case (Some c)
    then have "(n, c) \<in> set (byName cs)" using mem that by simp
    then show ?thesis using d Some by simp
  qed
qed

lemma sorted_wrt_disjoint:
  assumes "distinct (map spName plans)" "distinct (wanted sn plans)" "\<And>p. p \<in> set plans \<Longrightarrow> surplus_names held p \<inter> set (wanted sn plans) = {}"
    and "distinct (map fst held)"
  shows "sorted_wrt (\<lambda>p q. touched sn held p \<inter> touched sn held q = {}) plans"
proof -
  have "touched sn held p \<inter> touched sn held q = {}"
    if "p \<in> set plans" "q \<in> set plans" "spName p \<noteq> spName q" "set (replica_names sn p) \<inter> set (replica_names sn q) = {}" for p q
  proof -
    have sub: "set (replica_names sn x) \<subseteq> set (wanted sn plans)" if "x \<in> set plans" for x
      using that by (auto simp: wanted_def)
    have "surplus_names held p \<inter> surplus_names held q = {}"
      using that(3) assms(4) by (auto simp: surplus_names_def surplus_def) (metis eq_key_imp_eq_value)
    moreover have "set (replica_names sn p) \<inter> surplus_names held q = {}" "surplus_names held p \<inter> set (replica_names sn q) = {}"
      using sub [OF that(1)] sub [OF that(2)] assms(3) [OF that(1)] assms(3) [OF that(2)] by blast+
    ultimately show ?thesis using that(4) unfolding touched_def by blast
  qed
  then show ?thesis using assms(1,2)
  proof (induction plans)
    case (Cons a plans)
    have "touched sn held a \<inter> touched sn held q = {}" if q: "q \<in> set plans" for q
    proof (rule Cons.prems(1))
      show "spName a \<noteq> spName q" using Cons.prems(2) q by auto
      show "set (replica_names sn a) \<inter> set (replica_names sn q) = {}" using Cons.prems(3) q by (auto simp: wanted_def)
    qed (use q in auto)
    moreover have "sorted_wrt (\<lambda>p q. touched sn held p \<inter> touched sn held q = {}) plans"
      using Cons.prems by (intro Cons.IH) (auto simp: wanted_def)
    ultimately show ?case by simp
  qed simp
qed

lemma touched_stale:
  assumes "\<And>n c. (n, c) \<in> set held \<Longrightarrow> vwHeld v n = Some c \<and> carries LabelComposeProject sn c"
    and "m \<notin> set (wanted sn plans)" "\<And>c. vwHeld v m = Some c \<Longrightarrow> \<not> stale sn plans c"
  shows "m \<notin> (\<Union>p\<in>set plans. touched sn held p)"
proof
  assume "m \<in> (\<Union>p\<in>set plans. touched sn held p)"
  then obtain p where p: "p \<in> set plans" "m \<in> touched sn held p" by blast
  have "m \<notin> set (replica_names sn p)" using assms(2) p(1) by (auto simp: wanted_def)
  then obtain c where c: "(m, c) \<in> set held" "surplus p c" using p(2) by (auto simp: touched_def surplus_names_def)
  then have "stale sn plans c" using assms(1) p(1) by (auto simp: stale_def list_ex_iff)
  then show False using assms(1) [OF c(1)] assms(3) by blast
qed

lemma served_deployed:
  assumes served: "\<And>p. p \<in> set plans \<Longrightarrow> served sn held p v v'" and conf: "confined (\<Union>p\<in>set plans. touched sn held p) v v'"
    and held: "\<And>n c. (n, c) \<in> set held \<longleftrightarrow> vwHeld v n = Some c \<and> carries LabelComposeProject sn c"
    and dep: "deployable good issues sn plans v" "\<And>p. p \<in> set plans \<Longrightarrow> labelled p"
  shows "deployed sn plans v'"
proof -
  have "\<exists>c. vwHeld v' (replica_name sn p r) = Some c \<and> running c \<and> hashed (configHash (spSpec p)) c"
    if "p \<in> set plans" "r \<in> set [1..spReplicas p]" for p r
    using served [OF that(1)] that(2) unfolding served_def satisfied_def by blast
  moreover have "\<not> stale sn plans c" if m: "vwHeld v' m = Some c" for m c
  proof (cases "m \<in> set (wanted sn plans)")
    case True
    then obtain q r where q: "q \<in> set plans" "r \<in> set [1..spReplicas q]" "m = replica_name sn q r"
      by (auto simp: wanted_def replica_names_def)
    then have "satisfied q r (configHash (spSpec q)) v m v'" using served unfolding served_def by blast
    then consider "replica_of q r (configHash (spSpec q)) c" | c0 where "vwHeld v m = Some c0" "ctLabels c0 = ctLabels c"
      using m by (auto simp: satisfied_def)
    then show ?thesis
    proof cases
      case 1
      have "map_of (csLabels (spSpec q)) LabelService = Some (spName q)" "distinct (map spName plans)"
        using dep q(1) by (auto simp: deployable_def labelled_def)
      then have "\<not> surplus p c" if "p \<in> set plans" for p
        using replica_not_surplus [OF 1 _ q(2), of p] q(1) that by (meson distinct_map inj_on_eq_iff)
      then show ?thesis by (auto simp: stale_def list_ex_iff)
    next
      case 2
      then show ?thesis using dep True surplus_labels [OF 2(2)] by (auto simp: deployable_def stale_def carries_def list_ex_iff)
    qed
  next
    case False
    show ?thesis
    proof (cases "\<exists>c0. vwHeld v m = Some c0 \<and> stale sn plans c0")
      case True
      then obtain c0 p where "vwHeld v m = Some c0" "carries LabelComposeProject sn c0" "p \<in> set plans" "surplus p c0"
        by (auto simp: stale_def list_ex_iff)
      then have "m \<in> surplus_names held p" "p \<in> set plans" using held by (auto simp: surplus_names_def)
      then have "vwHeld v' m = None" using served unfolding served_def by blast
      then show ?thesis using m by simp
    next
      case notstale: False
      then have "m \<notin> (\<Union>p\<in>set plans. touched sn held p)" using held False by (intro touched_stale [of held v]) auto
      then show ?thesis using conf m notstale by (auto simp: confined_def)
    qed
  qed
  ultimately show ?thesis by (auto simp: deployed_def list_all_iff)
qed

lemma deployable_held: "vwHeld v' = vwHeld v \<Longrightarrow> deployable good issues sn plans v' = deployable good issues sn plans v"
  by (simp add: deployable_def fits_def)

lemma undisturbed_grown: "grown v v' \<Longrightarrow> undisturbed sn plans v v'"
  by (simp add: grown_def undisturbed_def)

lemma undisturbed_trans_grown: "grown v v1 \<Longrightarrow> undisturbed sn plans v1 v2 \<Longrightarrow> undisturbed sn plans v v2"
  by (auto simp: grown_def undisturbed_def)

definition resources_present :: "conversion \<Rightarrow> engine_view \<Rightarrow> bool" where
  "resources_present c v \<longleftrightarrow> npName ` set (cvNetworks c) \<subseteq> vwNets v \<and> vpName ` set (cvVolumes c) \<subseteq> vwVols v"

context engine_contract
begin

text \<open>The services, from a fresh listing of the stack's containers.\<close>

lemma wp_deploy:
  assumes D: "sdClient D = dc" "builds_apart view inv D" and h: "inv (hEngine h)" "view (hEngine h) = v"
    and dep: "deployable good issues (skName s) plans v" "\<And>p. p \<in> set plans \<Longrightarrow> labelled p" and res: "resources_present c v"
  shows "wp (bindE (containersOf D (skName s)) (\<lambda>existing. thenE (up_services D s opts existing plans) (emit k a b t)))
    (\<lambda>_ h'. inv (hEngine h') \<and> deployed (skName s) plans (view (hEngine h')) \<and> undisturbed (skName s) plans v (view (hEngine h'))
       \<and> resources_present c (view (hEngine h')))
    (\<lambda>_ h'. inv (hEngine h') \<and> undisturbed (skName s) plans v (view (hEngine h'))) h" (is "wp _ ?Q ?E h")
proof -
  let ?W = "set (wanted (skName s) plans)"
  obtain rl d where rl: "ListContainers dc (by_label LabelComposeProject (skName s)) (hEngine h) = (rl, d)" by fastforce
  have "CHR ''='' \<notin> set LabelComposeProject" by (simp add: LabelComposeProject_def)
  note law = list_law [OF h(1) this rl]
  show ?thesis
  proof (cases rl)
    case (Inl e)
    then show ?thesis using law rl h(2) D(1) by (simp add: containersOf_def wp_simps wp_on_engine undisturbed_grown)
  next
    case (Inr cs)
    let ?held = "byName cs" and ?U = "\<Union>p\<in>set plans. touched (skName s) (byName cs) p"
    have d: "inv d" "view d = v" "distinct (map ctName cs)" "set cs = {c. \<exists>n. vwHeld v n = Some c \<and> carries LabelComposeProject (skName s) c}"
      using law Inr h(2) by auto
    have names: "ctName c = n" if "vwHeld v n = Some c" for n c using held_name [OF d(1)] d(2) that by simp
    note held = held_map [OF d(3,4) names]
    have n: "distinct (map spName plans)" "distinct (wanted (skName s) plans)" "\<And>n. n \<in> ?W \<Longrightarrow> nameable good n" "fits issues ?W v"
      "\<And>n c. n \<in> ?W \<Longrightarrow> vwHeld v n = Some c \<Longrightarrow> carries LabelComposeProject (skName s) c \<and> \<not> stale (skName s) plans c"
      using dep by (auto simp: deployable_def)
    have sub: "distinct (replica_names (skName s) p) \<and> set (replica_names (skName s) p) \<subseteq> ?W" if "p \<in> set plans" for p
      using n(2) that by (auto simp: wanted_def distinct_concat_iff)
    have apart: "surplus_names ?held p \<inter> ?W = {}" if "p \<in> set plans" for p
      using n(5) held(2) that by (fastforce simp: surplus_names_def stale_def list_ex_iff)
    have cur: "current (skName s) ?held v p" if "p \<in> set plans" for p
      using held(2,3) n(5) sub [OF that] by (auto simp: current_def)
    have run: "wp (up_services D s opts cs plans)
      (\<lambda>_ h'. inv (hEngine h') \<and> confined ?U v (view (hEngine h')) \<and> (\<forall>p\<in>set plans. served (skName s) ?held p v (view (hEngine h'))))
      (\<lambda>_ h'. inv (hEngine h') \<and> confined ?U v (view (hEngine h'))) (h\<lparr>hEngine := d\<rparr>)"
      using d(1,2) held(1) cur sub n(3,4) apart sorted_wrt_disjoint [OF n(1,2) apart held(1)]
      by (intro wp_up_services [OF D]) auto
    have und: "undisturbed (skName s) plans v w" if "confined ?U v w" for w
      using that touched_stale [of ?held v "skName s" _ plans] held(2) by (auto simp: undisturbed_def confined_def)
    have up_to_date: "deployed (skName s) plans w" if "confined ?U v w" "\<forall>p\<in>set plans. served (skName s) ?held p v w" for w
      by (rule served_deployed [OF _ that(1) held(2) dep]) (use that(2) in auto)
    have there: "resources_present c w" if "confined ?U v w" for w
      using that res by (simp add: confined_def resources_present_def)
    have "wp (thenE (up_services D s opts cs plans) (emit k a b t)) ?Q ?E (h\<lparr>hEngine := d\<rparr>)"
      by (rule wp_then_mono [OF run]) (auto simp: wp_emit intro: und up_to_date there)
    then show ?thesis using rl Inr D(1) by (simp add: containersOf_def wp_bindE wp_on_engine)
  qed
qed

lemma wp_up:
  assumes D: "sdClient D = dc" "builds_apart view inv D" and h: "inv (hEngine h)" "view (hEngine h) = v"
    and plan: "snd (stack_plan D s) = Inr c" "selected c opts = Inr plans" and named: "resources_named c"
    and dep: "deployable good issues (skName s) plans v" "\<And>p. p \<in> set plans \<Longrightarrow> labelled p"
  shows "wp (up D s opts)
    (\<lambda>_ h'. inv (hEngine h') \<and> deployed (skName s) plans (view (hEngine h')) \<and> undisturbed (skName s) plans v (view (hEngine h'))
       \<and> resources_present c (view (hEngine h')))
    (\<lambda>_ h'. inv (hEngine h') \<and> undisturbed (skName s) plans v (view (hEngine h'))) h" (is "wp _ ?Q ?E h")
proof -
  have err: "?E e h1" if "steady view inv v h1" for e h1 using that by (simp add: steady_def undisturbed_grown)
  have deploy: "wp (thenE (ensureNetworks D (cvNetworks c)) (thenE (ensureVolumes D (cvVolumes c))
      (bindE (containersOf D (skName s)) (\<lambda>existing. thenE (up_services D s opts existing plans) (emit k a b t))))) ?Q ?E h1"
    if h1: "steady view inv v h1" for h1 k a b t
  proof (rule wp_then_mono [OF wp_ensureNetworks [OF D(1)]])
    show "inv (hEngine h1)" using h1 by (simp add: steady_def)
    show "\<And>p. p \<in> set (cvNetworks c) \<Longrightarrow> noName (npOptions p) = npName p" using named by (simp add: resources_named_def list_all_iff)
    fix x and h2 :: "'d host"
    assume h2: "inv (hEngine h2) \<and> grown (view (hEngine h1)) (view (hEngine h2)) \<and> npName ` set (cvNetworks c) \<subseteq> vwNets (view (hEngine h2))"
    show "wp (thenE (ensureVolumes D (cvVolumes c))
      (bindE (containersOf D (skName s)) (\<lambda>existing. thenE (up_services D s opts existing plans) (emit k a b t)))) ?Q ?E h2"
    proof (rule wp_then_mono [OF wp_ensureVolumes [OF D(1)]])
      show "inv (hEngine h2)" using h2 by simp
      show "\<And>p. p \<in> set (cvVolumes c) \<Longrightarrow> voName (vpOptions p) = vpName p" using named by (simp add: resources_named_def list_all_iff)
      fix y and h3 :: "'d host"
      assume h3: "inv (hEngine h3) \<and> grown (view (hEngine h2)) (view (hEngine h3)) \<and> vpName ` set (cvVolumes c) \<subseteq> vwVols (view (hEngine h3))"
      have g: "grown v (view (hEngine h3))" using h1 h2 h3 by (auto simp: steady_def intro: grown_trans)
      have "deployable good issues (skName s) plans (view (hEngine h3))" using dep(1) g deployable_held by (metis grown_def)
      moreover have "resources_present c (view (hEngine h3))" using h2 h3 by (auto simp: resources_present_def grown_def)
      ultimately show "wp (bindE (containersOf D (skName s)) (\<lambda>existing. thenE (up_services D s opts existing plans) (emit k a b t))) ?Q ?E h3"
        using h3 dep(2) by (intro wp_mono [OF wp_deploy [OF D _ refl]]) (auto intro: undisturbed_trans_grown [OF g])
    next
      fix e and h3 :: "'d host" assume "inv (hEngine h3) \<and> grown (view (hEngine h2)) (view (hEngine h3))"
      then show "?E e h3" using h1 h2 undisturbed_grown [OF grown_trans] by (auto simp: steady_def)
    qed
  next
    fix e and h2 :: "'d host" assume "inv (hEngine h2) \<and> grown (view (hEngine h1)) (view (hEngine h2))"
    then show "?E e h2" using h1 undisturbed_grown by (auto simp: steady_def)
  qed
  show ?thesis unfolding up_def planned_def plan
  proof (rule wp_keeps_then [OF keeps_steady_parts(1)])
    show "steady view inv v h" using h by (simp add: steady_def)
    fix e and h1 :: "'d host" assume h1: "steady view inv v h1"
    show "?E e h1" using h1 by (rule err)
    let ?problems = "concat (map (\<lambda>p. problemsFor D p (uoPrivileged opts)) plans)"
    have "wp (thenE (emit_warnings (fst (stack_plan D s))) (if ?problems \<noteq> [] then throwE (StackRefused ?problems) else
        thenE (ensureNetworks D (cvNetworks c)) (thenE (ensureVolumes D (cvVolumes c))
          (bindE (containersOf D (skName s)) (\<lambda>existing. thenE (up_services D s opts existing plans)
            (emit StackEventDone '''' '''' ''stack deployed'')))))) ?Q ?E h1"
      by (rule wp_keeps_then [OF keeps_emit_warnings h1]) (simp_all only: wp_if wp_throwE err deploy if_cancel split: if_split, simp_all add: err)
    then show "wp (bindE (case Inr c of Inl e \<Rightarrow> throwE (EParse (composeMessage e)) | Inr c \<Rightarrow> returnE c) (\<lambda>c.
        thenE (emit_warnings (fst (stack_plan D s))) (case selected c opts of Inl e \<Rightarrow> throwE e | Inr plans \<Rightarrow>
          let problems = concat (map (\<lambda>p. problemsFor D p (uoPrivileged opts)) plans) in
          if problems \<noteq> [] then throwE (StackRefused problems)
          else thenE (ensureNetworks D (cvNetworks c)) (thenE (ensureVolumes D (cvVolumes c))
             (bindE (containersOf D (skName s)) (\<lambda>existing. thenE (up_services D s opts existing plans)
               (emit StackEventDone '''' '''' ''stack deployed'')))))) ) ?Q ?E h1"
      by (simp only: wp_bindE wp_returnE sum.case plan Let_def)
  qed
qed

end

section \<open>What a conversion gives\<close>

lemma convertServices_labelled:
  "convertServices p nn vn names = Inr (plans, ws) \<Longrightarrow> q \<in> set plans \<Longrightarrow>
    labelled q \<and> map_of (csLabels (spSpec q)) LabelComposeProject = Some (pjName p)"
proof (induction names arbitrary: plans ws)
  case (Cons name names)
  show ?case
  proof (cases "map_of (pjServices p) name")
    case None
    then show ?thesis using Cons by simp
  next
    case (Some sv)
    then obtain plan w plans' ws' where one: "convertService (pjName p) sv nn vn = Inr (plan, w)"
      and rest: "convertServices p nn vn names = Inr (plans', ws')" "plans = plan # plans'"
      using Cons.prems(1) by (auto split: sum.splits prod.splits)
    have "csLabels (spSpec plan) = convertLabels (pjName p) sv" "spName plan = svName sv"
      using one by (auto simp: convertService_def Let_def service_spec_def split: sum.splits option.splits if_splits)
    then have "labelled plan" "map_of (csLabels (spSpec plan)) LabelComposeProject = Some (pjName p)"
      by (simp_all add: labelled_def convertLabels_def map_of_map_put LabelService_def LabelComposeProject_def LabelComposeService_def
        LabelManaged_def LabelStack_def)
    then show ?thesis using Cons.IH [OF rest(1)] Cons.prems(2) rest(2) by auto
  qed
qed simp

lemma Convert_plans:
  assumes "Convert p order = Inr c"
  shows "resources_named c" "q \<in> set (cvServices c) \<Longrightarrow> labelled q \<and> map_of (csLabels (spSpec q)) LabelComposeProject = Some (pjName p)"
proof -
  show "resources_named c"
    using assms by (auto simp: Convert_def Let_def resources_named_def list_all_iff convertNetworks_def convertVolumes_def convertNetwork_def
      convertVolume_def split: sum.splits prod.splits)
  show "q \<in> set (cvServices c) \<Longrightarrow> labelled q \<and> map_of (csLabels (spSpec q)) LabelComposeProject = Some (pjName p)"
    using assms convertServices_labelled by (fastforce simp: Convert_def Let_def split: sum.splits prod.splits)
qed

lemma plan_input_Inr: "snd (plan_input L i) = Inr c \<Longrightarrow> \<exists>p order. Convert p order = Inr c"
  by (auto simp: plan_input_def split: prod.splits sum.splits)

lemma selected_sub: "selected c opts = Inr plans \<Longrightarrow> set plans \<subseteq> set (cvServices c)"
proof -
  have "set (foldr (\<lambda>p acc. if spName p \<in> set names then p # filter (\<lambda>q. spName q \<noteq> spName p) acc else acc) ps []) \<subseteq> set ps" for names ps
    by (induction ps) auto
  then show "selected c opts = Inr plans \<Longrightarrow> set plans \<subseteq> set (cvServices c)"
    by (auto simp: selected_def selectServices_def split: if_splits list.splits)
qed

lemma planned_ok:
  assumes "snd (stack_plan D s) = Inr c" "selected c opts = Inr plans"
  shows "resources_named c" "\<And>p. p \<in> set plans \<Longrightarrow> labelled p"
  using plan_input_Inr assms Convert_plans selected_sub [OF assms(2)] unfolding stack_plan_def by blast+

section \<open>The operation\<close>

lemma wp_run_claimed:
  assumes "\<And>ts. wp m (\<lambda>x h'. Q x (hEngine h')) (\<lambda>e h'. E e (hEngine h')) (h\<lparr>hTasks := ts\<rparr>)" "\<And>e. E (EBusy e) (hEngine h)"
  shows "wp (run_claimed s k who m) (\<lambda>x h'. Q x (hEngine h')) (\<lambda>e h'. E e (hEngine h')) h"
proof (cases "claim (skID s) k (skName s) (acUsername who) (wNow (hWorld h)) (hTasks h)")
  case (Pair r ts)
  then show ?thesis using assms(1) [of ts] assms(2)
    by (cases r) (simp_all add: wp_def run_claimed_def split: prod.splits sum.splits)
qed

lemma wp_Up:
  assumes "\<And>ts. wp (up D s opts) (\<lambda>x h'. Q (hEngine h')) (\<lambda>e h'. E (hEngine h')) (h\<lparr>hTasks := ts\<rparr>)" "E (hEngine h)"
  shows "wp (Up D s opts who meta) (\<lambda>x h'. Q (hEngine h')) (\<lambda>e h'. E (hEngine h')) h"
  unfolding Up_def
proof (rule wp_run_claimed)
  fix ts
  have thr: "wp (throwE e) Q' E' = E' e" for e and Q' :: "unit \<Rightarrow> 'a host \<Rightarrow> bool" and E'
    by (rule ext) (simp add: wp_throwE)
  have st: "wp (SetStatus i st msg) (\<lambda>_ h'. P (hEngine h')) (\<lambda>_ h'. P (hEngine h')) h1" if "P (hEngine h1)" for i st msg P and h1 :: "'a host"
    by (rule wp_mono [OF wp_keeps [OF keeps_engine_repo(2) [of "hEngine h1"]]]) (use that in auto)
  show "wp (attemptE (up D s opts) (\<lambda>r. thenE (auditStack who meta ''stack.up'' s (err_of r))
      (case r of Inl e \<Rightarrow> thenE (ignoreE (SetStatus (skID s) StackFailed (docker_Message e))) (throwE e)
       | Inr _ \<Rightarrow> ignoreE (SetStatus (skID s) StackDeployed ''''))))
    (\<lambda>x h'. Q (hEngine h')) (\<lambda>e h'. E (hEngine h')) (h\<lparr>hTasks := ts\<rparr>)"
    unfolding wp_attemptE
    by (rule wp_mono [OF assms(1)]) (auto simp: wp_thenE wp_ignoreE thr auditStack_def intro!: wp_audit_note st)
qed (use assms(2) in simp)

end
