(* ===== verification/Stack_Deploys.thy ===== *)
theory Stack_Deploys
  imports Stacks_Laws Fake_Laws
begin

text \<open>
  The properties of the stack service, for every engine that meets the contract, with the
  in-memory engine as the instance at which they are applied.
\<close>

section \<open>A deploy\<close>


section \<open>An instance\<close>

definition demo_service :: service_config where
  "demo_service =
     \<lparr>svName = ''web'', svImage = ''nginx:1.27'', svCommand = [], svEntrypoint = [], svWorkingDir = '''', svUser = '''', svHostname = '''',
      svDomainName = '''', svTty = False, svStdinOpen = False, svInit = None, svContainerName = '''', svEnvironment = [], svLabels = [],
      svPorts = [\<lparr>pcHostIP = '''', pcPublished = ''8080'', pcTarget = 80, pcProtocol = ''tcp''\<rparr>], svRestart = ''always'', svDeploy = None,
      svScale = None, svDependsOn = [], svCPUS = 0, svCPUShares = 0, svCPUSet = '''', svPidsLimit = 0, svShmSize = 0, svMemLimit = 0,
      svMemReservation = 0, svMemSwapLimit = 0, svHealthCheck = None, svLogging = None, svLogDriver = '''', svLogOpt = [],
      svPrivileged = False, svCapAdd = [], svCapDrop = [], svSecurityOpt = [], svReadOnly = False, svSysctls = [], svDevices = [],
      svVolumes = [], svTmpfs = [], svNetworkMode = '''', svNetworks = [], svExtraHosts = [], svDNS = [], svDNSSearch = [], svDNSOpts = [],
      svMacAddress = '''', svBuild = None, svPullPolicy = '''', svConfigs = False, svSecrets = False, svLinks = False,
      svVolumesFrom = False, svDevelop = False, svExtends = False, svProfiles = False, svExternalLinks = False, svCredentialSpec = False,
      svModels = False, svProvider = False, svHooks = False\<rparr>"

definition demo_project :: "string \<Rightarrow> project" where
  "demo_project name = \<lparr>pjName = name, pjServices = [(''web'', demo_service)], pjNetworks = [], pjVolumes = [], pjConfigs = False, pjSecrets = False\<rparr>"

definition demo_lib :: compose_lib where
  "demo_lib = \<lparr>dotenv = (\<lambda>_. Inr []), load = (\<lambda>name env text dir. ([], Inr (demo_project name))), check_cycle = (\<lambda>_. None),
     dependency_order = (\<lambda>p. Inr (map fst (pjServices p)))\<rparr>"

definition demo_stacks :: "fake stack_deps" where
  "demo_stacks = \<lparr>sdDeps = sample_deps, sdLib = demo_lib, sdDisk = \<lparr>dkRead = (\<lambda>_. None), dkFile = (\<lambda>_. False)\<rparr>,
     sdGit = \<lparr>gtScheme = (\<lambda>_. None), gtCheckout = (\<lambda>_ _ _. Inl '''')\<rparr>, sdStateDir = ''/var/lib/iskele/stacks'', sdDone = (\<lambda>_. False),
     sdBuilder = None\<rparr>"

definition demo_stack :: stack where
  "demo_stack = \<lparr>skID = ''s1'', skName = ''shop'', skSource = StackSourceEditor, skPath = '''', skGitURL = '''', skGitRef = '''',
     skGitCommit = '''', skCompose = ''services:'', skEnv = '''', skWorkingDir = '''', skStatus = StackCreated, skLastError = '''',
     skLastDeployedAt = 0, skCreatedBy = ''ada'', skCreatedByID = ''u1'', skCreatedAt = 1, skUpdatedAt = 1\<rparr>"

definition demo_up :: up_options where
  "demo_up = \<lparr>uoPrivileged = False, uoPull = False, uoRecreate = False, uoServices = []\<rparr>"

definition demo_plan :: service_plan where
  "demo_plan = fst (projr (convertService ''shop'' demo_service [] []))"

definition demo_host :: "fake \<Rightarrow> fake host" where
  "demo_host d = (fake_host d)\<lparr>hStacks := [demo_stack]\<rparr>"

lemma demo_stack_sel: "skName demo_stack = ''shop''" "skID demo_stack = ''s1''"
  by (simp_all add: demo_stack_def)

lemma demo_planned:
  "stack_plan demo_stacks demo_stack = ([], Inr \<lparr>cvServices = [demo_plan], cvNetworks = [], cvVolumes = [], cvWarnings = []\<rparr>)"
  by code_simp

lemma demo_plan_facts: "spReplicas demo_plan = 1" "spName demo_plan = ''web''" "csName (spSpec demo_plan) = ''''" "spBuild demo_plan = None"
  "csPullPolicy (spSpec demo_plan) = ''''" "spNetworks demo_plan = []" "problemsFor demo_stacks demo_plan False = []"
  by code_simp+

lemma demo_wanted: "wanted ''shop'' [demo_plan] = [''shop-web-1'']"
  by (simp add: wanted_def replica_names_def demo_plan_facts replica_name_def ContainerName_def itoa_def) code_simp

lemma demo_list: "ListContainers fake_client (by_label LabelComposeProject ''shop'') New_fake = (Inr [], logged OpListContainers '''' New_fake)"
  by code_simp

lemma demo_deployable: "deployable plain_name derived_id ''shop'' [demo_plan] (fake_view New_fake)"
proof -
  have "nameable plain_name ''shop-web-1''" by (simp add: nameable_def plain_name_def id_like_def) code_simp
  moreover have "vwHeld (fake_view New_fake) ''shop-web-1'' = None" by code_simp
  moreover have "fits derived_id {''shop-web-1''} (fake_view New_fake)"
  proof -
    have "list_all (\<lambda>c. ctID c \<noteq> created_id ''shop-web-1'') (fkContainers New_fake)" by code_simp
    moreover have "c \<in> set (fkContainers New_fake)" if "vwHeld (fake_view New_fake) m = Some c" for m c
      using held_in [OF New_fake_ok(1)] that by blast
    ultimately show ?thesis by (auto simp: fits_def derived_id_def list_all_iff)
  qed
  ultimately show ?thesis by (simp add: deployable_def demo_wanted)
qed

text \<open>A definition stays valid under another name and other labels.\<close>

lemma BuildCreateSpec_relabel:
  "BuildCreateSpec s = Inr cs \<Longrightarrow> \<exists>cs'. BuildCreateSpec (s\<lparr>csName := n, csLabels := l\<rparr>) = Inr cs'"
  by (auto simp: BuildCreateSpec_def okE_Inr split: if_splits prod.splits)

lemma no_problems_valid: "problemsFor D p priv = [] \<Longrightarrow> \<exists>cs. BuildCreateSpec (spSpec p) = Inr cs"
  by (auto simp: problemsFor_def split: sum.splits)

text \<open>On an in-memory engine without injected failures a missing replica is created and started.\<close>

lemma fake_create_start:
  assumes "fkErrs d = []"
  obtains d1 d2 where "CreateContainer fake_client cs d = (Inr (created_id (crName cs)), d1)"
    "StartContainer fake_client (created_id (crName cs)) d1 = (Inr (), d2)" "fkErrs d2 = []"
proof -
  define d1 where "d1 = snd (CreateContainer fake_client cs d)"
  have 1: "CreateContainer fake_client cs d = (Inr (created_id (crName cs)), d1)" "fkErrs d1 = []"
    "\<exists>c\<in>set (fkContainers d1). ctID c = created_id (crName cs)"
    using assms by (simp_all add: d1_def Fake_CreateContainer_def after_record Let_def created_container_def)
  have "\<exists>d2. StartContainer fake_client (created_id (crName cs)) d1 = (Inr (), d2) \<and> fkErrs d2 = []"
    using 1 by (auto simp: Fake_StartContainer_def lifecycle_def after_record containerExists_def setState_def change_container_def goes_by_def list_ex_iff split: option.split)
  then show thesis using 1 that by blast
qed

lemma fake_replica_created:
  assumes "sdClient D = fake_client" "fkErrs (hEngine h) = []" "problemsFor D p priv = []" "spNetworks p = []" "map_of held (replica_name sn p r) = None"
  shows "\<exists>h'. up_replica D sn p opts held hash r h = (Inr (), h') \<and> fkErrs (hEngine h') = []"
proof -
  let ?n = "replica_name sn p r"
  obtain cs where cs: "BuildCreateSpec ((spSpec p)\<lparr>csName := ?n, csLabels := replicaLabels (csLabels (spSpec p)) r hash\<rparr>) = Inr cs"
    using no_problems_valid [OF assms(3)] BuildCreateSpec_relabel by blast
  obtain d1 d2 where "CreateContainer fake_client cs (hEngine h) = (Inr (created_id (crName cs)), d1)"
    "StartContainer fake_client (created_id (crName cs)) d1 = (Inr (), d2)" "fkErrs d2 = []"
    using fake_create_start [OF assms(2)] by metis
  then show ?thesis
    using assms cs by (simp add: up_replica_def recreate_def createReplica_def from_checked_def on_engine_def wrap_err_def emit_def prog_simps Let_def)
qed

lemma Up_success:
  assumes "up D s opts h = (Inr (), h1)" "hTasks h = None"
  shows "\<exists>h'. Up D s opts who meta h = (Inr (), h') \<and> hEngine h' = hEngine h1"
proof -
  obtain w where w: "auditStack who meta ''stack.up'' s None h1 = (Inr (), h1\<lparr>hWorld := w\<rparr>)"
    unfolding auditStack_def by (rule audit_note_run)
  obtain r h2 where st: "SetStatus (skID s) StackDeployed '''' (h1\<lparr>hWorld := w\<rparr>) = (r, h2)" by fastforce
  have "hEngine h2 = hEngine h1" using keeps_run [OF keeps_engine_repo(2) [of "hEngine h1"] _ st] by simp
  moreover have "ignoreE (SetStatus (skID s) StackDeployed '''') (h1\<lparr>hWorld := w\<rparr>) = (Inr (), h2)"
    using st by (cases r) (simp_all add: ignoreE_run)
  then have "attemptE (up D s opts) (\<lambda>r. thenE (auditStack who meta ''stack.up'' s (err_of r))
      (case r of Inl e \<Rightarrow> thenE (ignoreE (SetStatus (skID s) StackFailed (docker_Message e))) (throwE e)
       | Inr _ \<Rightarrow> ignoreE (SetStatus (skID s) StackDeployed ''''))) h = (Inr (), h2)"
    using assms(1) w by (simp add: attemptE_run thenE_run err_of_def)
  moreover have "h\<lparr>hTasks := None\<rparr> = h" using assms(2) by simp
  ultimately show ?thesis unfolding Up_def run_claimed_def claim_def assms(2) by (simp only: option.case prod.case sum.case) simp
qed

lemma demo_deploys: "\<exists>h1. up demo_stacks demo_stack demo_up (demo_host New_fake) = (Inr (), h1)"
proof -
  let ?h = "demo_host New_fake"
  have uo: "uoServices demo_up = []" "uoPull demo_up = False" "uoPrivileged demo_up = False" by (simp_all add: demo_up_def)
  have c: "sdClient demo_stacks = fake_client" "sdDone demo_stacks = (\<lambda>_. False)" by (simp_all add: demo_stacks_def sample_deps_def)
  have st: "\<exists>h1. SetStatus ''s1'' StackDeploying '''' ?h = (Inr (), h1) \<and> hEngine h1 = New_fake"
    by (simp add: SetStatus_def put_stack_def demo_host_def fake_host_def demo_stack_def hdb_def on_world_def now_def entropy_world_def prog_simps)
  then obtain h1 where h1: "SetStatus ''s1'' StackDeploying '''' ?h = (Inr (), h1)" "hEngine h1 = New_fake" by blast
  let ?h2 = "h1\<lparr>hEngine := logged OpListContainers '''' New_fake\<rparr>"
  have "fkErrs New_fake = []" by code_simp
  then have "fkErrs (hEngine ?h2) = []" by simp
  from fake_replica_created [OF c(1) this demo_plan_facts(7,6), of "[]"]
  obtain h3 where h3: "up_replica demo_stacks ''shop'' demo_plan demo_up [] (configHash (spSpec demo_plan)) 1 ?h2 = (Inr (), h3)" by fastforce
  then have "\<exists>h4. up_services demo_stacks demo_stack demo_up [] [demo_plan] ?h2 = (Inr (), h4)"
    by (simp add: c(2) upService_def demo_plan_facts pullFor_def uo PullAlways_def byName_def demo_stack_sel wrap_err_def prog_simps)
  then show ?thesis
    using h1 demo_list
    by (auto simp: up_def demo_stack_sel planned_def demo_planned selected_def uo demo_plan_facts ensureNetworks_def
      ensureVolumes_def containersOf_def c(1) on_engine_def emit_def prog_simps)
qed

lemma demo_client: "sdClient demo_stacks = fake_client" "builds_apart fake_view (fake_ok b) demo_stacks"
  by (simp_all add: demo_stacks_def sample_deps_def builds_apart_def)


section \<open>A second deploy\<close>

text \<open>What an up-to-date stack needs of each step: nothing but lines of progress.\<close>

lemma keeps_up_replicas_idle:
  assumes "\<not> uoRecreate opts" "\<And>r. r \<in> set rs \<Longrightarrow> \<exists>c. map_of held (replica_name sn p r) = Some c \<and> running c \<and> hashed hash c"
  shows "keeps (steady view ok v) (up_replicas D sn p opts held hash rs)"
  using assms(2)
proof (induction rs)
  case (Cons r rs)
  obtain c where "map_of held (replica_name sn p r) = Some c" "running c" "hashed hash c" using Cons.prems [of r] by auto
  then have "keeps (steady view ok v) (up_replica D sn p opts held hash r)"
    using assms(1) by (simp add: up_replica_def running_def hashed_def keeps_intros)
  then show ?case using Cons by (auto intro!: keeps_intros)
qed (simp add: keeps_intros)

lemma keeps_removeSurplus_idle: "\<forall>(m, c)\<in>set held. \<not> surplus p c \<Longrightarrow> keeps (steady view ok v) (removeSurplus D p held)"
  by (induction held) (auto intro!: keeps_intros)

lemma keeps_up_services_idle:
  assumes "\<And>p. p \<in> set plans \<Longrightarrow> keeps (steady view ok v) (upService D s p opts existing)"
  shows "keeps (steady view ok v) (up_services D s opts existing plans)"
  using assms by (induction plans) (auto intro!: keeps_intros)

lemma keeps_ensure_idle:
  "npName ` set ps \<subseteq> present \<Longrightarrow> keeps (steady view ok v) (ensureNetworks_from D present ps)"
  "vpName ` set qs \<subseteq> present \<Longrightarrow> keeps (steady view ok v) (ensureVolumes_from D present qs)"
  by (induction ps) (auto intro!: keeps_intros, induction qs, auto intro!: keeps_intros)

text \<open>A call of the engine that leaves it as it is, and what depends on its answer.\<close>

lemma keeps_after_engine:
  assumes "\<And>d r d'. ok d \<Longrightarrow> view d = v \<Longrightarrow> m d = (r, d') \<Longrightarrow> ok d' \<and> view d' = v \<and> (\<forall>x. r = Inr x \<longrightarrow> keeps (steady view ok v) (f x))"
  shows "keeps (steady view ok v) (bindE (on_engine m) f)"
proof (rule keepsI)
  fix h assume h: "steady view ok v h"
  obtain r d' where r: "m (hEngine h) = (r, d')" by fastforce
  have law: "ok d'" "view d' = v" "\<And>x. r = Inr x \<Longrightarrow> keeps (steady view ok v) (f x)"
    using assms [OF _ _ r] h by (auto simp: steady_def)
  show "steady view ok v (snd (bindE (on_engine m) f h))"
  proof (cases r)
    case (Inl e)
    then show ?thesis using r law by (simp add: bindE_run on_engine_def steady_def)
  next
    case (Inr x)
    then have "steady view ok v (snd (f x (h\<lparr>hEngine := d'\<rparr>)))"
      using keepsD [OF law(3), of x "h\<lparr>hEngine := d'\<rparr>"] law(1,2) by (simp add: steady_def)
    then show ?thesis using r Inr by (simp add: bindE_run on_engine_def)
  qed
qed

context engine_contract
begin

lemma keeps_up_idle:
  assumes D: "sdClient D = dc" "builds_apart view inv D" and plan: "snd (stack_plan D s) = Inr c" "selected c opts = Inr plans"
    and dep: "deployable good issues (skName s) plans v" "deployed (skName s) plans v" "resources_present c v" and opts: "\<not> uoRecreate opts"
  shows "keeps (steady view inv v) (up D s opts)"
proof -
  have nets: "keeps (steady view inv v) (ensureNetworks D (cvNetworks c))"
  proof -
    have "keeps (steady view inv v) (bindE (on_engine (ListNetworks dc)) (\<lambda>e. ensureNetworks_from D (nwName ` set e) (cvNetworks c)))"
    proof (rule keeps_after_engine)
      fix d r d' assume "inv d" "view d = v" "ListNetworks dc d = (r, d')"
      then show "inv d' \<and> view d' = v \<and> (\<forall>x. r = Inr x \<longrightarrow> keeps (steady view inv v) (ensureNetworks_from D (nwName ` set x) (cvNetworks c)))"
        using networks_law dep(3) by (fastforce simp: resources_present_def intro!: keeps_ensure_idle)
    qed
    then show ?thesis by (simp add: ensureNetworks_def D(1) keeps_intros)
  qed
  have vols: "keeps (steady view inv v) (ensureVolumes D (cvVolumes c))"
  proof -
    have "keeps (steady view inv v) (bindE (on_engine (ListVolumes dc)) (\<lambda>e. ensureVolumes_from D (vlName ` set e) (cvVolumes c)))"
    proof (rule keeps_after_engine)
      fix d r d' assume "inv d" "view d = v" "ListVolumes dc d = (r, d')"
      then show "inv d' \<and> view d' = v \<and> (\<forall>x. r = Inr x \<longrightarrow> keeps (steady view inv v) (ensureVolumes_from D (vlName ` set x) (cvVolumes c)))"
        using volumes_law dep(3) by (fastforce simp: resources_present_def intro!: keeps_ensure_idle)
    qed
    then show ?thesis by (simp add: ensureVolumes_def D(1) keeps_intros)
  qed
  have run: "keeps (steady view inv v) (up_services D s opts cs plans)"
    if "inv d" "view d = v" "ListContainers dc (by_label LabelComposeProject (skName s)) d = (Inr cs, d')" for cs d d'
  proof (rule keeps_up_services_idle)
    fix p assume p: "p \<in> set plans"
    have "CHR ''='' \<notin> set LabelComposeProject" by (simp add: LabelComposeProject_def)
    then have cs: "distinct (map ctName cs)" "set cs = {c. \<exists>n. vwHeld v n = Some c \<and> carries LabelComposeProject (skName s) c}"
      using list_law [OF that(1) _ that(3)] that(2) by auto
    have "ctName c = n" if "vwHeld v n = Some c" for n c using held_name [OF \<open>inv d\<close>] \<open>view d = v\<close> that by simp
    note held = held_map [OF cs this]
    have own: "carries LabelComposeProject (skName s) c" if "r \<in> set [1..spReplicas p]" "vwHeld v (replica_name (skName s) p r) = Some c" for r c
      using dep(1) p that by (auto simp: deployable_def wanted_def replica_names_def)
    have "\<exists>c. map_of (byName cs) (replica_name (skName s) p r) = Some c \<and> running c \<and> hashed (configHash (spSpec p)) c"
      if "r \<in> set [1..spReplicas p]" for r
      using dep(2) p that held(3) [of "replica_name (skName s) p r"] own [OF that] by (auto simp: deployed_def list_all_iff)
    moreover have "\<not> surplus p c" if "(m, c) \<in> set (byName cs)" for m c
      using dep(2) p held(2) that by (auto simp: deployed_def stale_def list_ex_iff)
    ultimately show "keeps (steady view inv v) (upService D s p opts cs)"
      unfolding upService_def using opts D
      by (auto simp: keeps_pullFor keeps_buildFor split: option.split intro!: keeps_intros keeps_up_replicas_idle keeps_removeSurplus_idle)
  qed
  have list: "keeps (steady view inv v) (bindE (containersOf D (skName s)) (\<lambda>cs. thenE (up_services D s opts cs plans) (emit k a b t)))" for k a b t
    unfolding containersOf_def D(1)
  proof (rule keeps_after_engine)
    fix d r d' assume d: "inv d" "view d = v" "ListContainers dc (by_label LabelComposeProject (skName s)) d = (r, d')"
    have "CHR ''='' \<notin> set LabelComposeProject" by (simp add: LabelComposeProject_def)
    then have "inv d' \<and> view d' = v" using list_law [OF d(1) _ d(3)] d(2) by simp
    then show "inv d' \<and> view d' = v \<and> (\<forall>x. r = Inr x \<longrightarrow> keeps (steady view inv v) (thenE (up_services D s opts x plans) (emit k a b t)))"
      using d run by (auto intro!: keeps_intros)
  qed
  show ?thesis unfolding up_def planned_def plan sum.case bindE_returnE Let_def
    by (intro keeps_intros keeps_steady_parts keeps_emit_warnings nets vols list)
qed

end


definition demo_replica :: container where
  "demo_replica = fixture_web\<lparr>ctName := ''shop-web-1'', ctNames := [''shop-web-1''], ctLabels := [(LabelComposeProject, ''shop''),
     (LabelService, ''web''), (LabelReplica, ''1''), (LabelConfigHash, configHash (spSpec demo_plan))]\<rparr>"

definition demo_running :: fake where
  "demo_running = New_fake\<lparr>fkContainers := [demo_replica], fkDetails := []\<rparr>"

lemma demo_replica_facts: "ctName demo_replica = ''shop-web-1''" "running demo_replica" "hashed (configHash (spSpec demo_plan)) demo_replica"
  "carries LabelComposeProject ''shop'' demo_replica" "\<not> surplus demo_plan demo_replica" "id_like (ctID demo_replica)"
  "ctID demo_replica \<noteq> created_id ''shop-web-1''"
proof -
  have labels: "ctLabels demo_replica = [(LabelComposeProject, ''shop''), (LabelService, ''web''), (LabelReplica, ''1''), (LabelConfigHash, configHash (spSpec demo_plan))]"
    by (simp add: demo_replica_def)
  have keys: "LabelComposeProject = ''com.docker.compose.project''" "LabelService = ''com.iskele.service''"
    "LabelReplica = ''com.iskele.replica''" "LabelConfigHash = ''com.docker.compose.config-hash''"
    by (simp_all add: LabelComposeProject_def LabelService_def LabelReplica_def LabelConfigHash_def)
  show "ctName demo_replica = ''shop-web-1''" by (simp add: demo_replica_def)
  have "ctState demo_replica = ''running''" by (simp add: demo_replica_def fixture_web_def)
  moreover have "fold_is ''running'' ''running''" by code_simp
  ultimately show "running demo_replica" by (simp add: running_def)
  show "hashed (configHash (spSpec demo_plan)) demo_replica" "carries LabelComposeProject ''shop'' demo_replica"
    by (simp_all add: hashed_def carries_def label_of_def labels keys)
  have "atoi ''1'' = Some 1" by code_simp
  then show "\<not> surplus demo_plan demo_replica" by (simp add: surplus_def label_of_def labels keys demo_plan_facts)
  have "ctID demo_replica = ctID fixture_web" by (simp add: demo_replica_def)
  moreover have "id_like (ctID fixture_web) \<and> ctID fixture_web \<noteq> created_id ''shop-web-1''" by code_simp
  ultimately show "id_like (ctID demo_replica)" "ctID demo_replica \<noteq> created_id ''shop-web-1''" by simp_all
qed


lemma demo_running_held: "vwHeld (fake_view demo_running) = [''shop-web-1'' \<mapsto> demo_replica]"
  by (simp add: fake_view_def demo_running_def by_name_def demo_replica_facts)

lemma demo_running_facts: "fake_ok False demo_running" "deployed ''shop'' [demo_plan] (fake_view demo_running)"
  "deployable plain_name derived_id ''shop'' [demo_plan] (fake_view demo_running)"
proof -
  have name: "plain_name ''shop-web-1''" "trim_space ''shop-web-1'' = ''shop-web-1''" by code_simp+
  have replica: "replica_name ''shop'' demo_plan 1 = ''shop-web-1''" using demo_wanted by (simp add: wanted_def replica_names_def demo_plan_facts upto.simps)
  have "fkErrs New_fake = []" by code_simp
  then show "fake_ok False demo_running" using name by (simp add: fake_ok_def tidy_def demo_running_def demo_replica_facts)
  show "deployed ''shop'' [demo_plan] (fake_view demo_running)"
    by (auto simp: deployed_def demo_running_held demo_plan_facts upto.simps replica demo_replica_facts stale_def split: if_splits)
  show "deployable plain_name derived_id ''shop'' [demo_plan] (fake_view demo_running)"
    using name by (auto simp: deployable_def demo_wanted demo_running_held nameable_def demo_replica_facts stale_def fits_def)
qed


end
