(* ===== verification/Stack_Outcomes.thy ===== *)
theory Stack_Outcomes
  imports Stack_Deploys
begin

text \<open>
  Refused deploys, which do not reach the engine, and the gates every container of a deploy has
  passed.
\<close>

section \<open>A refused deploy\<close>

text \<open>Why a deploy is refused before the engine is asked for anything.\<close>

definition refusal :: "'d stack_deps \<Rightarrow> stack \<Rightarrow> up_options \<Rightarrow> host_error option" where
  "refusal D s opts =
     (case snd (stack_plan D s) of
        Inl e \<Rightarrow> Some (EParse (composeMessage e))
      | Inr c \<Rightarrow>
          (case selected c opts of
             Inl e \<Rightarrow> Some e
           | Inr plans \<Rightarrow>
               let problems = concat (map (\<lambda>p. problemsFor D p (uoPrivileged opts)) plans) in
               if problems = [] then None else Some (StackRefused problems)))"

lemma emit_warnings_run: "\<exists>ev. emit_warnings ws h = (Inr (), h\<lparr>hEvents := ev\<rparr>)"
proof (induction ws arbitrary: h)
  case Nil
  show ?case by (simp add: returnE_run) (metis host.surjective host.update_convs)
next
  case (Cons w ws)
  from Cons [of "h\<lparr>hEvents := hEvents h @ [\<lparr>seKind = StackEventWarn, seService = wnService w, seMessage = wnField w @ '': '' @ wnMessage w, seContainer = ''''\<rparr>]\<rparr>"]
  show ?case by (simp add: thenE_run emit_def modifyE_run)
qed

lemma up_refused:
  assumes "refusal D s opts = Some e"
  shows "\<exists>ev. up D s opts h = (case SetStatus (skID s) StackDeploying '''' h of (Inl e', h') \<Rightarrow> (Inl e', h') | (Inr _, h') \<Rightarrow> (Inl e, h'\<lparr>hEvents := ev\<rparr>))"
proof (cases "SetStatus (skID s) StackDeploying '''' h")
  case (Pair r h1)
  obtain ev where "emit_warnings (fst (stack_plan D s)) h1 = (Inr (), h1\<lparr>hEvents := ev\<rparr>)" using emit_warnings_run by blast
  moreover have "\<exists>ev. h1 = h1\<lparr>hEvents := ev\<rparr>" by (metis host.surjective host.update_convs)
  ultimately show ?thesis using Pair assms
    by (auto simp: up_def refusal_def planned_def Let_def prog_simps split: sum.splits if_splits)
qed


lemma audit_note_still:
  assumes "wFaults (hWorld h) = []"
  obtains w where "audit_note who meta a t i e d h = (Inr (), h\<lparr>hWorld := w\<rparr>)" "wFaults w = []" "wNow w = wNow (hWorld h)"
proof -
  have "\<exists>w'. Record True ev w = (Inr (), w') \<and> wFaults w' = [] \<and> wNow w' = wNow w" if "wFaults w = []" for ev w
    using that by (auto simp: Record_def prog_simps now_def Audit_Append_def Let_def db_def readE_def split: if_splits)
  then obtain w where "Record True \<lparr>evActor = who, evAction = a, evResourceType = t, evResourceID = i, evErr = e, evDetail = d,
      evIP = rmIP meta, evUserAgent = rmUserAgent meta\<rparr> (hWorld h) = (Inr (), w)" "wFaults w = []" "wNow w = wNow (hWorld h)"
    using assms by blast
  then show thesis by (intro that [of w]) (simp_all add: audit_note_def on_world_def)
qed

lemma SetStatus_quiet:
  "wFaults (hWorld h) = [] \<Longrightarrow> i \<in> skID ` set (hStacks h) \<Longrightarrow> SetStatus i st msg h =
     (Inr (), h\<lparr>hStacks := update_where (\<lambda>x. skID x = i) (\<lambda>x. x\<lparr>skStatus := st, skLastError := msg, skUpdatedAt := wNow (hWorld h),
        skLastDeployedAt := (if st = StackDeployed then wNow (hWorld h) else skLastDeployedAt x)\<rparr>) (hStacks h)\<rparr>)"
  by (simp add: SetStatus_def put_stack_def hdb_def on_world_def now_def prog_simps)

lemma update_where_twice: "(\<And>x. p (f x) = p x) \<Longrightarrow> update_where p g (update_where p f xs) = update_where p (\<lambda>x. g (f x)) xs"
  by (simp add: update_where_def)

lemma Up_refused_status:
  assumes "refusal D s opts = Some e" "hTasks h = None" "wFaults (hWorld h) = []" "skID s \<in> skID ` set (hStacks h)"
  shows "\<exists>h'. Up D s opts who meta h = (Inl e, h') \<and> hStacks h' = update_where (\<lambda>x. skID x = skID s)
    (\<lambda>x. x\<lparr>skStatus := StackFailed, skLastError := docker_Message e, skUpdatedAt := wNow (hWorld h)\<rparr>) (hStacks h)"
proof -
  let ?P = "\<lambda>x. skID x = skID s"
  define h1 where "h1 = h\<lparr>hStacks := update_where ?P (\<lambda>x. x\<lparr>skStatus := StackDeploying, skLastError := '''', skUpdatedAt := wNow (hWorld h)\<rparr>) (hStacks h)\<rparr>"
  obtain ev where up: "up D s opts h = (Inl e, h1\<lparr>hEvents := ev\<rparr>)"
    using up_refused [OF assms(1), of h] SetStatus_quiet [OF assms(3,4), of StackDeploying "''''"] by (auto simp: h1_def)
  have h1: "wFaults (hWorld (h1\<lparr>hEvents := ev\<rparr>)) = []" using assms(3) by (simp add: h1_def)
  obtain w where w: "auditStack who meta ''stack.up'' s (Some (err_text e)) (h1\<lparr>hEvents := ev\<rparr>) = (Inr (), h1\<lparr>hEvents := ev, hWorld := w\<rparr>)"
    "wFaults w = []" "wNow w = wNow (hWorld h)"
    unfolding auditStack_def by (rule audit_note_still [OF h1]) (simp add: h1_def)
  have "map skID (hStacks h1) = map skID (hStacks h)" by (simp add: h1_def map_update_where)
  then have "skID s \<in> skID ` set (hStacks h1)" using assms(4) by (metis set_map)
  then have "SetStatus (skID s) StackFailed (docker_Message e) (h1\<lparr>hEvents := ev, hWorld := w\<rparr>) = (Inr (), h1\<lparr>hEvents := ev, hWorld := w,
      hStacks := update_where ?P (\<lambda>x. x\<lparr>skStatus := StackFailed, skLastError := docker_Message e, skUpdatedAt := wNow (hWorld h)\<rparr>) (hStacks h)\<rparr>)"
    using w(2,3) by (subst SetStatus_quiet) (simp_all add: h1_def update_where_twice)
  moreover have "h\<lparr>hTasks := None\<rparr> = h" using assms(2) by simp
  ultimately show ?thesis
    unfolding Up_def run_claimed_def claim_def assms(2)
    using up w(1) by (simp add: attemptE_run thenE_run ignoreE_run throwE_run err_of_def)
qed


lemma demo_refusal: "refusal demo_stacks demo_stack (demo_up\<lparr>uoServices := [''db'']\<rparr>) = Some (ErrNoSuchService ''db'')"
  by (simp add: refusal_def demo_planned selected_def selectServices_def demo_plan_facts)



section \<open>The gates of a deploy\<close>

text \<open>The mounts of a converted file have one of three types, all in ASCII.\<close>

lemma convertMount_type: "convertMount vn svc v = Inr m \<Longrightarrow> msType m \<in> {MountTypeBind, MountTypeVolume, MountTypeTmpfs}"
  by (auto simp: convertMount_def split: if_splits option.splits)

lemma convertVolumesFor_types:
  "convertVolumesFor vn svc vs = Inr ms \<Longrightarrow> m \<in> set ms \<Longrightarrow> msType m \<in> {MountTypeBind, MountTypeVolume, MountTypeTmpfs}"
  by (induction vs arbitrary: ms) (auto split: sum.splits dest: convertMount_type)

lemma mount_types_plain:
  assumes "t \<in> {MountTypeBind, MountTypeVolume, MountTypeTmpfs}"
  shows "0x130 \<notin> set (runes (trim_space t))"
proof -
  have "list_all (\<lambda>t. list_all (\<lambda>r. r \<noteq> 0x130) (runes (trim_space t))) [MountTypeBind, MountTypeVolume, MountTypeTmpfs]" by code_simp
  then show ?thesis using assms by (auto simp: list_all_iff)
qed

lemma convertService_plain:
  assumes "convertService pn sv nn vn = Inr (p, w)"
  shows "no_dotted_I (spSpec p)"
proof -
  obtain ms where "convertVolumesFor vn (svName sv) (svVolumes sv) = Inr ms" "csMounts (spSpec p) = ms @ convertTmpfs sv"
    using assms by (auto simp: convertService_def Let_def service_spec_def split: sum.splits option.splits if_splits)
  then show ?thesis
    using convertVolumesFor_types mount_types_plain by (auto simp: no_dotted_I_def list_all_iff convertTmpfs_def)
qed

lemma convertServices_plain: "convertServices p nn vn names = Inr (plans, ws) \<Longrightarrow> q \<in> set plans \<Longrightarrow> no_dotted_I (spSpec q)"
  by (induction names arbitrary: plans ws) (auto split: option.splits sum.splits prod.splits dest: convertService_plain)

lemma planned_plain: "snd (stack_plan D s) = Inr c \<Longrightarrow> q \<in> set (cvServices c) \<Longrightarrow> no_dotted_I (spSpec q)"
proof -
  assume "snd (stack_plan D s) = Inr c" and q: "q \<in> set (cvServices c)"
  then obtain p order where "Convert p order = Inr c" unfolding stack_plan_def using plan_input_Inr by blast
  then obtain nn vn names ws where "convertServices p nn vn names = Inr (cvServices c, ws)"
    by (auto simp: Convert_def Let_def split: sum.splits prod.splits)
  then show "no_dotted_I (spSpec q)" using q by (rule convertServices_plain)
qed


text \<open>The stack service over a client that treats every creation outside the gates in its own way.\<close>

definition gated_stacks :: "bool \<Rightarrow> (create_spec \<Rightarrow> ('d, string) call) \<Rightarrow> 'd stack_deps \<Rightarrow> 'd stack_deps" where
  "gated_stacks privileged bad D =
     D\<lparr>sdDeps := (sdDeps D)\<lparr>dpClient := gated_client (dpFS (sdDeps D)) (dpPaths (sdDeps D)) privileged bad (sdClient D)\<rparr>\<rparr>"

lemma gated_stacks_sel [simp]:
  "StartContainer (sdClient (gated_stacks pr bad D)) = StartContainer (sdClient D)"
  "RemoveContainer (sdClient (gated_stacks pr bad D)) = RemoveContainer (sdClient D)"
  "ListContainers (sdClient (gated_stacks pr bad D)) = ListContainers (sdClient D)"
  "ConnectNetwork (sdClient (gated_stacks pr bad D)) = ConnectNetwork (sdClient D)"
  "ListNetworks (sdClient (gated_stacks pr bad D)) = ListNetworks (sdClient D)"
  "CreateNetwork (sdClient (gated_stacks pr bad D)) = CreateNetwork (sdClient D)"
  "ListVolumes (sdClient (gated_stacks pr bad D)) = ListVolumes (sdClient D)"
  "CreateVolume (sdClient (gated_stacks pr bad D)) = CreateVolume (sdClient D)"
  "sdDone (gated_stacks pr bad D) = sdDone D" "sdBuilder (gated_stacks pr bad D) = sdBuilder D"
  "stack_plan (gated_stacks pr bad D) = stack_plan D" "path_problem (gated_stacks pr bad D) = path_problem D"
  "pull_drained (sdDeps (gated_stacks pr bad D)) = pull_drained (sdDeps D)"
  by (simp_all add: gated_stacks_def gated_client_def fun_eq_iff stack_plan_def path_problem_def pull_drained_def)

lemma gated_parts:
  "removeContainer (gated_stacks pr bad D) = removeContainer D" "connect_rest (gated_stacks pr bad D) name i as = connect_rest D name i as"
  "removeSurplus (gated_stacks pr bad D) p held = removeSurplus D p held" "pullFor (gated_stacks pr bad D) = pullFor D"
  "buildFor (gated_stacks pr bad D) = buildFor D" "containersOf (gated_stacks pr bad D) = containersOf D"
  "ensureNetworks_from (gated_stacks pr bad D) present ns = ensureNetworks_from D present ns"
  "ensureVolumes_from (gated_stacks pr bad D) present vs = ensureVolumes_from D present vs"
  "planned (gated_stacks pr bad D) = planned D" "problemsFor (gated_stacks pr bad D) = problemsFor D"
proof -
  show rm: "removeContainer (gated_stacks pr bad D) = removeContainer D" by (simp add: removeContainer_def fun_eq_iff)
  show "connect_rest (gated_stacks pr bad D) name i as = connect_rest D name i as" by (induction as) simp_all
  show "removeSurplus (gated_stacks pr bad D) p held = removeSurplus D p held" by (induction held) (auto simp: rm)
  show "ensureNetworks_from (gated_stacks pr bad D) present ns = ensureNetworks_from D present ns" by (induction ns) simp_all
  show "ensureVolumes_from (gated_stacks pr bad D) present vs = ensureVolumes_from D present vs" by (induction vs) simp_all
qed (simp_all add: fun_eq_iff pullFor_def buildFor_def containersOf_def planned_def problemsFor_def split: option.split)

text \<open>A definition without problems is within the gates, under whatever name and labels.\<close>

lemma no_problems_gated:
  assumes "problemsFor D p pr = []" "no_dotted_I (spSpec p)" "BuildCreateSpec ((spSpec p)\<lparr>csName := n, csLabels := l\<rparr>) = Inr cs"
  shows "within_gates (dpFS (sdDeps D)) (dpPaths (sdDeps D)) pr cs"
proof (rule BuildCreateSpec_gated [OF assms(3)])
  show "checkPrivilegedOptions ((spSpec p)\<lparr>csName := n, csLabels := l\<rparr>) pr = None"
    using assms(1) by (auto simp: problemsFor_def checkPrivilegedOptions_def privileged_used_def split: option.splits if_splits)
  show "CheckAll (dpFS (sdDeps D)) (dpPaths (sdDeps D)) (BindSources ((spSpec p)\<lparr>csName := n, csLabels := l\<rparr>)) = None"
    using assms(1) by (auto simp: problemsFor_def CheckAll_None BindSources_def path_problem_def split: option.splits)
  show "no_dotted_I ((spSpec p)\<lparr>csName := n, csLabels := l\<rparr>)" using assms(2) by (simp add: no_dotted_I_def)
qed

lemma bindE_throwE: "bindE (throwE e) f = throwE e"
  by (simp add: fun_eq_iff bindE_run throwE_run)

lemma gated_upService:
  assumes "problemsFor D p pr = []" "no_dotted_I (spSpec p)"
  shows "upService (gated_stacks pr bad D) s p opts existing = upService D s p opts existing"
proof -
  have "createReplica (gated_stacks pr bad D) p n r hash = createReplica D p n r hash" for n r hash
  proof (cases "BuildCreateSpec ((spSpec p)\<lparr>csName := n, csLabels := replicaLabels (csLabels (spSpec p)) r hash\<rparr>)")
    case (Inl e)
    then show ?thesis by (simp add: createReplica_def from_checked_def bindE_throwE)
  next
    case (Inr cs)
    then have "CreateContainer (sdClient (gated_stacks pr bad D)) cs = CreateContainer (sdClient D) cs"
      using no_problems_gated [OF assms Inr] by (simp add: gated_stacks_def gated_client_def)
    then show ?thesis using Inr by (simp add: createReplica_def from_checked_def bindE_returnE gated_parts)
  qed
  then have "recreate (gated_stacks pr bad D) p n r hash cur = recreate D p n r hash cur" for n r hash cur
    by (simp add: recreate_def gated_parts split: option.split)
  then have "up_replica (gated_stacks pr bad D) sn p opts held hash r = up_replica D sn p opts held hash r" for sn held hash r
    by (simp add: up_replica_def Let_def split: option.split cong: sum.case_cong)
  then have "up_replicas (gated_stacks pr bad D) sn p opts held hash rs = up_replicas D sn p opts held hash rs" for sn held hash rs
    by (induction rs) simp_all
  then show ?thesis by (simp add: upService_def gated_parts split: option.split)
qed

lemma gated_up_services:
  assumes "\<And>p. p \<in> set ps \<Longrightarrow> problemsFor D p pr = [] \<and> no_dotted_I (spSpec p)"
  shows "up_services (gated_stacks pr bad D) s opts existing ps = up_services D s opts existing ps"
  using assms by (induction ps) (simp_all add: gated_upService)

lemma gated_up: "up (gated_stacks (uoPrivileged opts) bad D) s opts = up D s opts"
proof -
  let ?D = "gated_stacks (uoPrivileged opts) bad D"
  have run: "up_services ?D s opts existing plans = up_services D s opts existing plans"
    if "snd (stack_plan D s) = Inr c" "selected c opts = Inr plans" "concat (map (\<lambda>p. problemsFor D p (uoPrivileged opts)) plans) = []" for c plans existing
    by (rule gated_up_services) (use that planned_plain [OF that(1)] selected_sub [OF that(2)] in auto)
  have res: "ensureNetworks ?D = ensureNetworks D" "ensureVolumes ?D = ensureVolumes D"
    by (simp_all add: fun_eq_iff ensureNetworks_def ensureVolumes_def gated_parts)
  show ?thesis
    by (auto simp: up_def planned_def bindE_returnE bindE_throwE Let_def res gated_parts run split: sum.splits)
qed

text \<open>
  C4: A deploy, and a change of the number of replicas, asks the engine only for containers within
  the gates: no option that grants control over the host unless the caller may use such options,
  and no bound host path outside the whitelist. Replacing what the engine does with any other
  definition by anything at all changes nothing, whatever the compose file says.
\<close>

theorem Up_within_gates:
  "Up D s opts who meta h = Up (gated_stacks (uoPrivileged opts) bad D) s opts who meta h
    \<and> Scale D s service n opts who meta h = Scale (gated_stacks (uoPrivileged opts) bad D) s service n opts who meta h"
proof -
  let ?D = "gated_stacks (uoPrivileged opts) bad D"
  have target: "upService ?D s (p\<lparr>spReplicas := n\<rparr>) opts existing = upService D s (p\<lparr>spReplicas := n\<rparr>) opts existing"
    if "snd (stack_plan D s) = Inr c" "find (\<lambda>p. spName p = service) (rev (cvServices c)) = Some p" "problemsFor D p (uoPrivileged opts) = []" for c p existing
  proof (rule gated_upService)
    show "problemsFor D (p\<lparr>spReplicas := n\<rparr>) (uoPrivileged opts) = []" using that(3) by (auto simp: problemsFor_def split: option.splits sum.splits)
    have "p \<in> set (cvServices c)" using that(2) by (metis find_Some_iff nth_mem set_rev)
    then show "no_dotted_I (spSpec (p\<lparr>spReplicas := n\<rparr>))" using planned_plain [OF that(1)] by simp
  qed
  have "scale ?D s service n opts = scale D s service n opts"
  proof (cases "snd (stack_plan D s)")
    case (Inl e)
    then show ?thesis by (simp add: scale_def planned_def bindE_throwE)
  next
    case (Inr c)
    show ?thesis
    proof (cases "find (\<lambda>p. spName p = service) (rev (cvServices c))")
      case None
      then show ?thesis using Inr by (simp add: scale_def planned_def)
    next
      case (Some p)
      then show ?thesis
        using Inr target [OF Inr Some] by (cases "problemsFor D p (uoPrivileged opts) = []") (simp_all add: scale_def planned_def Let_def gated_parts)
    qed
  qed
  then show ?thesis by (simp add: Up_def Scale_def gated_up)
qed

end
