(* ===== verification/Stack_Actions.thy ===== *)
theory Stack_Actions
  imports Stack_Outcomes
begin

text \<open>
  Taking a stack down, and stopping, starting and restarting its containers, on every engine that
  keeps the contract: which containers change, what is kept, and what the result says.
\<close>

section \<open>One call per container\<close>

text \<open>The containers of \<open>cs\<close> one after the other turned into what \<open>g\<close> makes of them, or removed.\<close>

definition altered :: "(container \<Rightarrow> container option) \<Rightarrow> container list \<Rightarrow> engine_view \<Rightarrow> engine_view" where
  "altered g cs v = v\<lparr>vwHeld := fold (\<lambda>c m. m(ctName c := g c)) cs (vwHeld v)\<rparr>"

lemma altered_sel [simp]: "vwNets (altered g cs v) = vwNets v" "vwVols (altered g cs v) = vwVols v"
  by (simp_all add: altered_def)

lemma altered_Nil [simp]: "altered g [] v = v"
  by (simp add: altered_def)

lemma altered_other: "n \<notin> ctName ` set cs \<Longrightarrow> vwHeld (altered g cs v) n = vwHeld v n"
proof -
  have "n \<notin> ctName ` set cs \<Longrightarrow> fold (\<lambda>c m. m(ctName c := g c)) cs m n = m n" for m
    by (induction cs arbitrary: m) auto
  then show "n \<notin> ctName ` set cs \<Longrightarrow> vwHeld (altered g cs v) n = vwHeld v n" by (simp add: altered_def)
qed

lemma altered_Cons: "altered g (c # cs) v = altered g cs (v\<lparr>vwHeld := (vwHeld v)(ctName c := g c)\<rparr>)"
  by (simp add: altered_def)

lemma altered_one: "distinct (map ctName cs) \<Longrightarrow> c \<in> set cs \<Longrightarrow> vwHeld (altered g cs v) (ctName c) = g c"
proof (induction cs arbitrary: v)
  case (Cons x cs)
  then show ?case by (cases "c = x") (auto simp: altered_Cons altered_other)
qed simp

text \<open>What a call must do to a container: fail and change nothing, or turn it into what \<open>g\<close> says.\<close>

definition alters :: "('d \<Rightarrow> engine_view) \<Rightarrow> ('d \<Rightarrow> bool) \<Rightarrow> (container \<Rightarrow> ('d, unit) call) \<Rightarrow> (container \<Rightarrow> container option) \<Rightarrow> bool" where
  "alters view ok call g \<longleftrightarrow>
     (\<forall>d c r d'. ok d \<and> vwHeld (view d) (ctName c) = Some c \<and> call c d = (r, d') \<longrightarrow>
        ok d' \<and> view d' = (if isl r then view d else (view d)\<lparr>vwHeld := (vwHeld (view d))(ctName c := g c)\<rparr>))"

lemma each_container_run:
  assumes "alters view ok call g" "ok (hEngine h)" "distinct (map ctName cs)" "\<And>c. c \<in> set cs \<Longrightarrow> vwHeld (view (hEngine h)) (ctName c) = Some c"
  shows "\<exists>P F d. each_container call cs res h = (Inr (res\<lparr>arContainers := arContainers res @ map ctName (filter P cs), arFailed := arFailed res @ F\<rparr>), h\<lparr>hEngine := d\<rparr>)
    \<and> length F = length (filter (\<lambda>c. \<not> P c) cs) \<and> ok d \<and> view d = altered g (filter P cs) (view (hEngine h))"
  using assms(2-)
proof (induction cs arbitrary: res h)
  case Nil
  then show ?case by (intro exI [of _ "\<lambda>_. True"] exI [of _ "[]"] exI [of _ "hEngine h"]) (simp add: returnE_run)
next
  case (Cons c cs)
  let ?v = "view (hEngine h)"
  obtain r d where run: "call c (hEngine h) = (r, d)" by fastforce
  then have law: "ok d" "view d = (if isl r then ?v else ?v\<lparr>vwHeld := (vwHeld ?v)(ctName c := g c)\<rparr>)"
    using assms(1) Cons.prems unfolding alters_def by (metis list.set_intros(1))+
  let ?res = "case r of Inl e \<Rightarrow> failed_on (ctName c) e res | Inr _ \<Rightarrow> res\<lparr>arContainers := arContainers res @ [ctName c]\<rparr>"
  have "vwHeld (view (hEngine (h\<lparr>hEngine := d\<rparr>))) (ctName x) = Some x" if "x \<in> set cs" for x
    using that Cons.prems law(2) by (auto simp: image_iff)
  from Cons.IH [OF _ _ this, of ?res] Cons.prems(2) law(1)
  obtain P F d' where ih: "each_container call cs ?res (h\<lparr>hEngine := d\<rparr>)
      = (Inr (?res\<lparr>arContainers := arContainers ?res @ map ctName (filter P cs), arFailed := arFailed ?res @ F\<rparr>), h\<lparr>hEngine := d'\<rparr>)"
    "length F = length (filter (\<lambda>c. \<not> P c) cs)" "ok d'" "view d' = altered g (filter P cs) (view d)"
    by auto
  let ?P = "\<lambda>x. if x = c then \<not> isl r else P x"
  have "c \<notin> set cs" using Cons.prems(2) by auto
  then have P: "filter ?P cs = filter P cs" "filter (\<lambda>x. \<not> ?P x) cs = filter (\<lambda>x. \<not> P x) cs" by (auto intro: filter_cong)
  have step: "each_container call (c # cs) res h = each_container call cs ?res (h\<lparr>hEngine := d\<rparr>)"
    using run by (cases r) (simp_all add: bindE_run try_engine_def)
  show ?case
  proof (cases r)
    case (Inl e)
    then show ?thesis unfolding step
      using ih P law by (intro exI [of _ ?P] exI [of _ "(ctName c @ '': '' @ deMessage e) # F"] exI [of _ d']) (simp add: failed_on_def)
  next
    case (Inr u)
    then show ?thesis unfolding step
      using ih P law by (intro exI [of _ ?P] exI [of _ F] exI [of _ d']) (simp add: altered_Cons)
  qed
qed

section \<open>Taking a stack down\<close>

text \<open>The volumes that belong to the stack: those of its file that are not someone else's.\<close>

definition own_volumes :: "'d stack_deps \<Rightarrow> stack \<Rightarrow> string set" where
  "own_volumes D s = (case snd (stack_plan D s) of Inl _ \<Rightarrow> {} | Inr c \<Rightarrow> vpName ` {p \<in> set (cvVolumes c). \<not> vpExternal p})"

text \<open>What a later step of taking down leaves of the result and of the engine.\<close>

definition resumes :: "('d \<Rightarrow> engine_view) \<Rightarrow> ('d \<Rightarrow> bool) \<Rightarrow> string set \<Rightarrow> action_result \<Rightarrow> 'd \<Rightarrow> action_result \<Rightarrow> 'd \<Rightarrow> bool" where
  "resumes view ok vols res d res' d' \<longleftrightarrow>
     ok d' \<and> arContainers res' = arContainers res \<and> (arFailed res' = [] \<longrightarrow> arFailed res = []) \<and> vwHeld (view d') = vwHeld (view d)
     \<and> vwVols (view d') \<subseteq> vwVols (view d) \<and> vwVols (view d) - vols \<subseteq> vwVols (view d')"

lemma resumes_refl: "ok d \<Longrightarrow> resumes view ok vols res d res d"
  by (auto simp: resumes_def)

lemma resumes_trans: "resumes view ok vols res d res1 d1 \<Longrightarrow> resumes view ok vols res1 d1 res2 d2 \<Longrightarrow> resumes view ok vols res d res2 d2"
  by (auto simp: resumes_def)

lemma resumes_result:
  assumes "resumes view ok vols res d res1 d1"
  shows "resumes view ok vols res d (failed_on n e res1) d1" "resumes view ok vols res d (res1\<lparr>arNetworks := x\<rparr>) d1"
    "resumes view ok vols res d (res1\<lparr>arVolumes := y\<rparr>) d1"
  using assms by (auto simp: resumes_def failed_on_def)

context engine_contract
begin

lemma wp_down_networks:
  assumes "sdClient D = dc" "resumes view inv vols res0 d0 res (hEngine h)"
  shows "wp (down_networks D ps res) (\<lambda>res' h'. resumes view inv vols res0 d0 res' (hEngine h')) (\<lambda>_ _. False) h"
  using assms(2)
proof (induction ps arbitrary: res h)
  case (Cons p ps)
  show ?case
  proof (cases "npExternal p")
    case False
    obtain r d where run: "RemoveNetwork dc (npName p) (hEngine h) = (r, d)" by fastforce
    have "inv (hEngine h)" using Cons.prems by (simp add: resumes_def)
    from remove_network_law [OF this run] have "resumes view inv vols res0 d0 res (hEngine (h\<lparr>hEngine := d\<rparr>))"
      using Cons.prems by (auto simp: resumes_def)
    then show ?thesis using False run assms(1) by (cases r) (auto simp: wp_bindE wp_try_engine intro!: Cons.IH resumes_result)
  qed (use Cons in simp)
qed (simp add: wp_returnE)

lemma wp_down_volumes:
  assumes "sdClient D = dc" "vpName ` {p \<in> set ps. \<not> vpExternal p} \<subseteq> vols" "resumes view inv vols res0 d0 res (hEngine h)"
  shows "wp (down_volumes D ps res) (\<lambda>res' h'. resumes view inv vols res0 d0 res' (hEngine h')) (\<lambda>_ _. False) h"
  using assms(2,3)
proof (induction ps arbitrary: res h)
  case (Cons p ps)
  have rest: "vpName ` {p \<in> set ps. \<not> vpExternal p} \<subseteq> vols" using Cons.prems(1) by auto
  show ?case
  proof (cases "vpExternal p")
    case False
    obtain r d where run: "RemoveVolume dc (vpName p) False (hEngine h) = (r, d)" by fastforce
    have "inv (hEngine h)" "vpName p \<in> vols" using Cons.prems False by (auto simp: resumes_def)
    from remove_volume_law [OF this(1) run] this(2) have "resumes view inv vols res0 d0 res (hEngine (h\<lparr>hEngine := d\<rparr>))"
      using Cons.prems(2) by (auto simp: resumes_def)
    then show ?thesis using False run assms(1) rest by (cases r) (auto simp: wp_bindE wp_try_engine intro!: Cons.IH resumes_result)
  qed (use Cons rest in simp)
qed (simp add: wp_returnE)

lemma alters_remove: "alters view inv (force_remove dc) (\<lambda>_. None)"
  unfolding alters_def
proof (intro allI impI)
  fix d c r d' assume a: "inv d \<and> vwHeld (view d) (ctName c) = Some c \<and> force_remove dc c d = (r, d')"
  then obtain r1 where r1: "RemoveContainer dc (ctID c) \<lparr>xoForce = True, xoRemoveVolumes = False\<rparr> d = (r1, d')"
    "r = (case r1 of Inl e \<Rightarrow> if IsNotFound e then Inr () else Inl e | Inr _ \<Rightarrow> Inr ())"
    by (auto simp: force_remove_def split: prod.splits sum.splits if_splits)
  show "inv d' \<and> view d' = (if isl r then view d else (view d)\<lparr>vwHeld := (vwHeld (view d))(ctName c := None)\<rparr>)"
    using remove_law [OF _ _ r1(1)] a r1(2) by (auto simp: clear_def split: sum.splits)
qed

lemma listed_containers:
  assumes "sdClient D = dc" "inv (hEngine h)" "containersOf D name h = (r, h1)"
  shows "h1 = h\<lparr>hEngine := hEngine h1\<rparr>" "inv (hEngine h1)" "view (hEngine h1) = view (hEngine h)"
    "r = Inr cs \<Longrightarrow> distinct (map ctName cs) \<and> set cs = {c. vwHeld (view (hEngine h)) (ctName c) = Some c \<and> carries LabelComposeProject name c}"
proof -
  obtain rl d where rl: "ListContainers dc (by_label LabelComposeProject name) (hEngine h) = (rl, d)" by fastforce
  have "CHR ''='' \<notin> set LabelComposeProject" by (simp add: LabelComposeProject_def)
  note law = list_law [OF assms(2) this rl]
  have r: "h1 = h\<lparr>hEngine := d\<rparr>" "\<And>cs. r = Inr cs \<Longrightarrow> rl = Inr cs"
    using assms(1,3) rl by (auto simp: containersOf_def on_engine_def split: sum.splits)
  show "h1 = h\<lparr>hEngine := hEngine h1\<rparr>" "inv (hEngine h1)" "view (hEngine h1) = view (hEngine h)" using r(1) law by simp_all
  show "distinct (map ctName cs) \<and> set cs = {c. vwHeld (view (hEngine h)) (ctName c) = Some c \<and> carries LabelComposeProject name c}" if "r = Inr cs"
    using law r(2) [OF that] held_name [OF assms(2)] by auto
qed

end

text \<open>The outcome of taking a stack down, between the engine before and after.\<close>

definition taken_down :: "'d stack_deps \<Rightarrow> stack \<Rightarrow> down_options \<Rightarrow> engine_view \<Rightarrow> host_error + action_result \<Rightarrow> engine_view \<Rightarrow> bool" where
  "taken_down D s opts v r v' \<longleftrightarrow>
     vwHeld v' \<subseteq>\<^sub>m vwHeld v
     \<and> (\<forall>n c. vwHeld v n = Some c \<longrightarrow> \<not> carries LabelComposeProject (skName s) c \<longrightarrow> vwHeld v' n = Some c)
     \<and> vwVols v' \<subseteq> vwVols v \<and> vwVols v - (if doVolumes opts then own_volumes D s else {}) \<subseteq> vwVols v'
     \<and> (case r of
          Inl _ \<Rightarrow> vwHeld v' = vwHeld v
        | Inr res \<Rightarrow> set (arContainers res) = dom (vwHeld v) - dom (vwHeld v')
            \<and> (arFailed res = [] \<longrightarrow> (\<forall>n c. vwHeld v' n = Some c \<longrightarrow> \<not> carries LabelComposeProject (skName s) c)))"

lemma taken_downI:
  assumes cs: "distinct (map ctName cs)" "set cs = {c. vwHeld v (ctName c) = Some c \<and> carries LabelComposeProject (skName s) c}"
    and named: "\<And>n c. vwHeld v n = Some c \<Longrightarrow> ctName c = n"
    and held: "vwHeld v' = vwHeld (altered (\<lambda>_. None) (filter P cs) v)"
    and vols: "vwVols v' \<subseteq> vwVols v" "vwVols v - (if doVolumes opts then own_volumes D s else {}) \<subseteq> vwVols v'"
    and res: "arContainers res = map ctName (filter P cs)" "arFailed res = [] \<Longrightarrow> filter (\<lambda>c. \<not> P c) cs = []"
  shows "taken_down D s opts v (Inr res) v'"
proof -
  let ?S = "ctName ` set (filter P cs)"
  have mem: "c \<in> set cs \<longleftrightarrow> vwHeld v (ctName c) = Some c \<and> carries LabelComposeProject (skName s) c" for c unfolding cs(2) by blast
  have gone: "vwHeld v' n = (if n \<in> ?S then None else vwHeld v n)" for n
  proof (cases "n \<in> ?S")
    case True
    then obtain c where "c \<in> set (filter P cs)" "n = ctName c" by auto
    then show ?thesis using altered_one [OF distinct_map_filter [OF cs(1)]] held True by simp
  qed (simp add: held altered_other)
  have "vwHeld v' \<subseteq>\<^sub>m vwHeld v" by (auto simp: map_le_def gone)
  moreover have "vwHeld v' n = Some c" if "vwHeld v n = Some c" "\<not> carries LabelComposeProject (skName s) c" for n c
  proof -
    have "n \<notin> ?S"
    proof
      assume "n \<in> ?S"
      then obtain x where "x \<in> set cs" "n = ctName x" by auto
      then show False using mem [of x] that by simp
    qed
    then show ?thesis using that by (simp add: gone)
  qed
  moreover have "?S = dom (vwHeld v) - dom (vwHeld v')"
  proof -
    have "?S \<subseteq> dom (vwHeld v)" using mem by auto
    moreover have "dom (vwHeld v') = dom (vwHeld v) - ?S" unfolding dom_def gone by auto
    ultimately show ?thesis by blast
  qed
  moreover have "\<not> carries LabelComposeProject (skName s) c" if "arFailed res = []" "vwHeld v' n = Some c" for n c
  proof
    assume k: "carries LabelComposeProject (skName s) c"
    have "vwHeld v n = Some c" "n \<notin> ?S" using that(2) by (auto simp: gone split: if_splits)
    moreover have "c \<in> set cs" using mem [of c] k \<open>vwHeld v n = Some c\<close> named [of n c] by simp
    moreover have "P c" using res(2) [OF that(1)] \<open>c \<in> set cs\<close> by (auto simp: filter_empty_conv)
    ultimately show False using named by auto
  qed
  ultimately show ?thesis using vols res(1) by (auto simp: taken_down_def)
qed

context engine_contract
begin

lemma wp_down:
  assumes D: "sdClient D = dc" "inv (hEngine h)" "view (hEngine h) = v"
  shows "wp (down D s opts) (\<lambda>res h'. taken_down D s opts v (Inr res) (view (hEngine h'))) (\<lambda>e h'. taken_down D s opts v (Inl e) (view (hEngine h'))) h"
proof -
  obtain r h1 where list: "containersOf D (skName s) h = (r, h1)" by fastforce
  note law = listed_containers [OF D(1,2) list]
  show ?thesis
  proof (cases r)
    case (Inl e)
    then show ?thesis using list law(3) D(3) by (simp add: down_def wp_def bindE_run taken_down_def)
  next
    case (Inr cs)
    let ?V = "if doVolumes opts then own_volumes D s else {}"
    have cs: "distinct (map ctName cs)" "set cs = {c. vwHeld v (ctName c) = Some c \<and> carries LabelComposeProject (skName s) c}"
      using law(4) [OF Inr] D(3) by auto
    obtain P F d where run: "each_container (force_remove dc) cs no_action h1 = (Inr (no_action\<lparr>arContainers := arContainers no_action @ map ctName (filter P cs),
        arFailed := arFailed no_action @ F\<rparr>), h1\<lparr>hEngine := d\<rparr>)" "length F = length (filter (\<lambda>c. \<not> P c) cs)" "inv d"
        "view d = altered (\<lambda>_. None) (filter P cs) v"
      using each_container_run [OF alters_remove law(2) cs(1), of no_action] cs(2) law(3) D(3) by auto
    define res where "res = no_action\<lparr>arContainers := arContainers no_action @ map ctName (filter P cs), arFailed := arFailed no_action @ F\<rparr>"
    have end_state: "taken_down D s opts v (Inr res') (view d')" if "resumes view inv ?V res d res' d'" for res' d'
    proof (rule taken_downI [OF cs])
      show "ctName c = n" if "vwHeld v n = Some c" for n c using held_name [OF D(2)] D(3) that by simp
    qed (use that run(2,4) in \<open>auto simp: resumes_def res_def no_action_def\<close>)
    have start: "resumes view inv ?V res d res (hEngine (h1\<lparr>hEngine := d\<rparr>))" using run(3) by (simp add: resumes_refl)
    have "wp (case snd (stack_plan D s) of Inl _ \<Rightarrow> returnE res | Inr c \<Rightarrow>
        bindE (if doNetworks opts then down_networks D (cvNetworks c) res else returnE res) (\<lambda>res.
        if doVolumes opts then down_volumes D (cvVolumes c) res else returnE res))
      (\<lambda>res' h'. resumes view inv ?V res d res' (hEngine h')) (\<lambda>_ _. False) (h1\<lparr>hEngine := d\<rparr>)"
    proof (cases "snd (stack_plan D s)")
      case (Inr c)
      have "wp (if doNetworks opts then down_networks D (cvNetworks c) res else returnE res)
          (\<lambda>res' h'. resumes view inv ?V res d res' (hEngine h')) (\<lambda>_ _. False) (h1\<lparr>hEngine := d\<rparr>)"
        using wp_down_networks [OF D(1) start] start by (simp add: wp_returnE)
      then show ?thesis unfolding Inr sum.case
        by (rule wp_bind_mono) (use Inr in \<open>auto simp: wp_returnE own_volumes_def intro!: wp_down_volumes [OF D(1)]\<close>)
    qed (use start in \<open>simp add: wp_returnE\<close>)
    then have "wp (case snd (stack_plan D s) of Inl _ \<Rightarrow> returnE res | Inr c \<Rightarrow>
        bindE (if doNetworks opts then down_networks D (cvNetworks c) res else returnE res) (\<lambda>res.
        if doVolumes opts then down_volumes D (cvVolumes c) res else returnE res))
      (\<lambda>res h'. taken_down D s opts v (Inr res) (view (hEngine h'))) (\<lambda>e h'. taken_down D s opts v (Inl e) (view (hEngine h'))) (h1\<lparr>hEngine := d\<rparr>)"
      by (rule wp_mono) (auto intro: end_state)
    then show ?thesis using list Inr run(1) D(1) unfolding down_def res_def by (simp add: wp_def bindE_run)
  qed
qed

end

text \<open>What follows the work of an operation leaves the engine as the work left it.\<close>

lemma wp_then_status:
  assumes "wp m (\<lambda>x h'. Q (Inr x) (hEngine h')) (\<lambda>e h'. Q (Inl e) (hEngine h')) h"
    and "\<And>x y. keeps (\<lambda>h. hEngine h = y) (rest x)"
  shows "wp (attemptE m (\<lambda>r. thenE (auditStack who meta a s (err_of r)) (case r of Inl e \<Rightarrow> throwE e | Inr x \<Rightarrow> thenE (ignoreE (rest x)) (returnE x))))
    (\<lambda>x h'. Q (Inr x) (hEngine h')) (\<lambda>e h'. Q (Inl e) (hEngine h')) h"
proof -
  have rest: "wp (ignoreE (rest x)) (\<lambda>_ h'. P (hEngine h')) (\<lambda>_ _. False) h1" if "P (hEngine h1)" for x P and h1 :: "'a host"
    unfolding wp_ignoreE by (rule wp_mono [OF wp_keeps [OF assms(2) [of "hEngine h1"]]]) (use that in auto)
  have noted: "wp (auditStack who meta a s e) (\<lambda>_ h'. P (hEngine h')) (\<lambda>_ _. False) h1" if "P (hEngine h1)" for e P and h1 :: "'a host"
    unfolding auditStack_def using that by (intro wp_audit_note) simp
  show ?thesis unfolding wp_attemptE
  proof (rule wp_mono [OF assms(1)])
    fix x and t :: "'a host" assume q: "Q (Inr x) (hEngine t)"
    have "wp (thenE (auditStack who meta a s (err_of (Inr x))) (thenE (ignoreE (rest x)) (returnE x)))
        (\<lambda>x h'. Q (Inr x) (hEngine h')) (\<lambda>e h'. Q (Inl e) (hEngine h')) t"
      by (rule wp_then_mono [OF noted [of "Q (Inr x)", OF q]], rule wp_then_mono [OF rest]) (simp_all add: wp_returnE)
    then show "wp (thenE (auditStack who meta a s (err_of (Inr x))) (case Inr x of Inl e \<Rightarrow> throwE e | Inr x \<Rightarrow> thenE (ignoreE (rest x)) (returnE x)))
        (\<lambda>x h'. Q (Inr x) (hEngine h')) (\<lambda>e h'. Q (Inl e) (hEngine h')) t" by simp
  next
    fix e and t :: "'a host" assume q: "Q (Inl e) (hEngine t)"
    show "wp (thenE (auditStack who meta a s (err_of (Inl e))) (case Inl e of Inl e \<Rightarrow> throwE e | Inr x \<Rightarrow> thenE (ignoreE (rest x)) (returnE x)))
        (\<lambda>x h'. Q (Inr x) (hEngine h')) (\<lambda>e h'. Q (Inl e) (hEngine h')) t"
      unfolding sum.case by (rule wp_then_mono [OF noted [of "Q (Inl e)", OF q]]) (simp_all add: wp_throwE)
  qed
qed



section \<open>Stopping, starting and restarting\<close>

definition action_state :: "stack_action \<Rightarrow> string" where
  "action_state action = (if action = StackStop then ''exited'' else ''running'')"

text \<open>Containers in the order of their services' ranks, or in the opposite one.\<close>

definition dependency_ordered :: "service_plan list \<Rightarrow> bool \<Rightarrow> container list \<Rightarrow> bool" where
  "dependency_ordered plans reverse cs \<longleftrightarrow>
     sorted_wrt (\<lambda>a b. \<forall>i j. service_rank plans a = Some i \<longrightarrow> service_rank plans b = Some j \<longrightarrow> (if reverse then j \<le> i else i \<le> j)) cs"

definition acted :: "'d stack_deps \<Rightarrow> stack \<Rightarrow> stack_action \<Rightarrow> engine_view \<Rightarrow> host_error + action_result \<Rightarrow> engine_view \<Rightarrow> bool" where
  "acted D s action v r v' \<longleftrightarrow>
     (case r of
        Inl _ \<Rightarrow> v' = v
      | Inr res \<Rightarrow> \<exists>cs P. distinct (map ctName cs)
          \<and> set cs = {c. vwHeld v (ctName c) = Some c \<and> carries LabelComposeProject (skName s) c}
          \<and> (\<forall>c. snd (stack_plan D s) = Inr c \<longrightarrow> dependency_ordered (cvServices c) (action \<noteq> StackStart) cs)
          \<and> arContainers res = map ctName (filter P cs) \<and> length (arFailed res) = length (filter (\<lambda>c. \<not> P c) cs)
          \<and> v' = altered (\<lambda>c. Some (in_state (action_state action) c)) (filter P cs) v)"

lemma orderContainers_permutes: "set (orderContainers D s cs rv) = set cs" "distinct (map ctName cs) \<Longrightarrow> distinct (map ctName (orderContainers D s cs rv))"
  by (simp_all add: orderContainers_def distinct_map split: sum.split)

lemma orderContainers_ordered:
  assumes "snd (stack_plan D s) = Inr c"
  shows "dependency_ordered (cvServices c) rv (orderContainers D s cs rv)"
proof -
  let ?k = "container_key (cvServices c) rv"
  have "sorted_wrt (\<lambda>a b. ?k a \<le> ?k b) (orderContainers D s cs rv)"
    using assms sorted_sort_key [of ?k cs] by (simp add: orderContainers_def sorted_map)
  moreover have rank: "if rv then j \<le> i else i \<le> j"
    if "?k a \<le> ?k b" "service_rank (cvServices c) a = Some i" "service_rank (cvServices c) b = Some j" for a b i j
    using that by (auto simp: container_key_def less_eq_prod_def split: if_splits)
  ultimately show ?thesis unfolding dependency_ordered_def
    by (auto intro: sorted_wrt_mono_rel [of _ "\<lambda>a b. ?k a \<le> ?k b"] dest: rank)
qed

context engine_contract
begin

lemma alters_act:
  assumes "act_call dc action = Some call"
  shows "alters view inv call (\<lambda>c. Some (in_state (action_state action) c))"
  unfolding alters_def
proof (intro allI impI)
  fix d c r d' assume a: "inv d \<and> vwHeld (view d) (ctName c) = Some c \<and> call c d = (r, d')"
  show "inv d' \<and> view d' = (if isl r then view d else (view d)\<lparr>vwHeld := (vwHeld (view d))(ctName c \<mapsto> in_state (action_state action) c)\<rparr>)"
    using assms a start_law [of d "ctName c" c r d'] stop_law [of d "ctName c" c None r d'] restart_law [of d "ctName c" c None r d']
    by (cases action) (auto simp: act_call_def action_state_def put_def)
qed

lemma wp_act_on:
  assumes D: "sdClient D = dc" "inv (hEngine h)" "view (hEngine h) = v" and action: "act_call dc action = Some call"
  shows "wp (act_on D s action) (\<lambda>res h'. acted D s action v (Inr res) (view (hEngine h'))) (\<lambda>e h'. acted D s action v (Inl e) (view (hEngine h'))) h"
proof -
  obtain r h1 where list: "containersOf D (skName s) h = (r, h1)" by fastforce
  note law = listed_containers [OF D(1,2) list]
  show ?thesis
  proof (cases r)
    case (Inl e)
    then show ?thesis using list law(3) D(3) by (simp add: act_on_def wp_def bindE_run acted_def)
  next
    case (Inr cs)
    let ?cs = "orderContainers D s cs (action \<noteq> StackStart)"
    have cs: "distinct (map ctName ?cs)" "set ?cs = {c. vwHeld v (ctName c) = Some c \<and> carries LabelComposeProject (skName s) c}"
      using law(4) [OF Inr] D(3) by (simp_all add: orderContainers_permutes)
    have "vwHeld (view (hEngine h1)) (ctName c) = Some c" if "c \<in> set ?cs" for c using that law(3) D(3) unfolding cs(2) by simp
    from each_container_run [OF alters_act [OF action] law(2) cs(1) this, of no_action]
    obtain P F d where run: "each_container call ?cs no_action h1 = (Inr (no_action\<lparr>arContainers := arContainers no_action @ map ctName (filter P ?cs),
        arFailed := arFailed no_action @ F\<rparr>), h1\<lparr>hEngine := d\<rparr>)" "length F = length (filter (\<lambda>c. \<not> P c) ?cs)"
        "view d = altered (\<lambda>c. Some (in_state (action_state action) c)) (filter P ?cs) v"
      unfolding law(3) D(3) by blast
    have "acted D s action v (Inr (no_action\<lparr>arContainers := arContainers no_action @ map ctName (filter P ?cs), arFailed := arFailed no_action @ F\<rparr>)) (view d)"
      unfolding acted_def sum.case using cs run(2,3)
      by (intro exI [of _ ?cs] exI [of _ P]) (simp add: no_action_def, blast intro: orderContainers_ordered)
    then show ?thesis using list Inr run(1) D(1) action by (simp add: act_on_def wp_def bindE_run)
  qed
qed

end



end
