(* ===== verification/Templates.thy ===== *)
theory Templates
  imports Compose Paths "HOL-Library.AList" "HOL-Library.Product_Lexorder"
begin

text \<open>
  The app catalog, internal/templates: the schema a template must meet (schema.go), rendering it
  with an operator's answers (render.go) and the catalog of the embedded and the custom ones
  (catalog.go). The fixed regular expressions of the package are written out as recognisers. An
  expression a template carries itself is compiled by \<open>regexps\<close>, and a file is decoded by a
  decoder, both given; a file is what reading it gave. A Go map is an association list without
  repeated keys.
\<close>

section \<open>The schema\<close>

definition FieldText :: string where "FieldText = ''text''"
definition FieldNumber :: string where "FieldNumber = ''number''"
definition FieldPassword :: string where "FieldPassword = ''password''"
definition FieldSelect :: string where "FieldSelect = ''select''"
definition FieldBool :: string where "FieldBool = ''bool''"
definition FieldPort :: string where "FieldPort = ''port''"
definition FieldPath :: string where "FieldPath = ''path''"
definition FieldVolume :: string where "FieldVolume = ''volume''"

definition FieldType_Valid :: "string \<Rightarrow> bool" where
  "FieldType_Valid t \<longleftrightarrow>
     t \<in> set [FieldText, FieldNumber, FieldPassword, FieldSelect, FieldBool, FieldPort, FieldPath, FieldVolume]"

record field_option = opValue :: string opLabel :: string

record template_field =
  fdName :: string
  fdLabel :: string
  fdType :: string
  fdHelp :: string
  fdDefault :: string
  fdRequired :: bool
  fdPattern :: string
  fdMin :: "int option"
  fdMax :: "int option"
  fdOptions :: "field_option list"
  fdGenerate :: bool
  fdGenerateLength :: int

record template_port = tpHost :: string tpContainer :: int tpProtocol :: string

record template_mount =
  tmType :: string
  tmSource :: string
  tmDestination :: string
  tmReadOnly :: bool

record template_health =
  thTest :: "string list"
  thInterval :: string
  thTimeout :: string
  thStartPeriod :: string
  thRetries :: int

record template =
  tlID :: string
  tlName :: string
  tlTitle :: string
  tlCategory :: string
  tlDescription :: string
  tlIcon :: string
  tlWebsite :: string
  tlDocumentation :: string
  tlKeywords :: "string list"
  tlImage :: string
  tlCommand :: "string list"
  tlEntrypoint :: "string list"
  tlEnv :: str_map
  tlPorts :: "template_port list"
  tlMounts :: "template_mount list"
  tlLabels :: str_map
  tlRestart :: string
  tlHealthCheck :: "template_health option"
  tlCapAdd :: "string list"
  tlDevices :: "string list"
  tlPrivileged :: bool
  tlSysctls :: str_map
  tlNetworkMode :: string
  tlFields :: "template_field list"
  tlNotes :: string
  tlSource :: string

definition SourceBuiltin :: string where "SourceBuiltin = ''builtin''"
definition SourceCustom :: string where "SourceCustom = ''custom''"

record schema_error =
  sxTemplate :: string
  sxField :: string
  sxMessage :: string

definition SchemaError_text :: "schema_error \<Rightarrow> string" where
  "SchemaError_text e =
     join '': '' ((if sxTemplate e \<noteq> '''' then [sxTemplate e] else []) @ (if sxField e \<noteq> '''' then [sxField e] else []) @ [sxMessage e])"

text \<open>The recognisers of the package's expressions, a class of bytes each and a length.\<close>

definition lower_alnum :: "char \<Rightarrow> bool" where
  "lower_alnum c \<longleftrightarrow> is_lower c \<or> is_digit c"

definition idPattern :: "string \<Rightarrow> bool" where
  "idPattern s = (case s of [] \<Rightarrow> False
     | c # cs \<Rightarrow> lower_alnum c \<and> length cs \<le> 63 \<and> list_all (\<lambda>c. lower_alnum c \<or> c = CHR ''_'' \<or> c = CHR ''-'') cs)"

definition name_char :: "char \<Rightarrow> bool" where
  "name_char c \<longleftrightarrow> lower_alnum c \<or> c = CHR ''_''"

definition namePattern :: "string \<Rightarrow> bool" where
  "namePattern s = (case s of [] \<Rightarrow> False | c # cs \<Rightarrow> lower_alnum c \<and> length cs \<le> 63 \<and> list_all name_char cs)"

definition container_char :: "char \<Rightarrow> bool" where
  "container_char c \<longleftrightarrow> is_lower c \<or> is_upper c \<or> is_digit c"

definition containerNamePattern :: "string \<Rightarrow> bool" where
  "containerNamePattern s = (case s of [] \<Rightarrow> False
     | c # cs \<Rightarrow> container_char c \<and> list_all (\<lambda>c. container_char c \<or> c = CHR ''_'' \<or> c = CHR ''.'' \<or> c = CHR ''-'') cs)"

text \<open>
  The matches of \<open>placeholderPattern\<close> from left to right: a text is split into the names between
  double braces and the bytes outside of them.
\<close>

definition re_space :: "char \<Rightarrow> bool" where
  "re_space c \<longleftrightarrow> code c \<in> set [9, 10, 12, 13, 32]"

definition placeholder_at :: "string \<Rightarrow> (string \<times> string) option" where
  "placeholder_at s =
     (let r = dropWhile re_space (drop 2 s);
          name = takeWhile name_char r;
          rest = dropWhile re_space (dropWhile name_char r)
      in if has_prefix s ''{{'' \<and> name \<noteq> [] \<and> has_prefix rest ''}}'' then Some (name, drop 2 rest) else None)"

lemma placeholder_at_shorter: "placeholder_at s = Some (n, rest) \<Longrightarrow> length rest < length s"
proof -
  assume "placeholder_at s = Some (n, rest)"
  then have s: "has_prefix s ''{{''" and rest: "rest = drop 2 (dropWhile re_space (dropWhile name_char (dropWhile re_space (drop 2 s))))"
    by (auto simp: placeholder_at_def Let_def split: if_splits)
  have "length rest \<le> length (drop 2 s)"
    unfolding rest by (metis (no_types, lifting) diff_le_self le_trans length_drop length_dropWhile_le)
  then show "length rest < length s" using s by (cases s) (auto simp: has_prefix_def)
qed

function tokens :: "string \<Rightarrow> (string + char) list" where
  "tokens s =
     (case s of
        [] \<Rightarrow> []
      | c # cs \<Rightarrow> (case placeholder_at s of Some (n, rest) \<Rightarrow> Inl n # tokens rest | None \<Rightarrow> Inr c # tokens cs))"
  by pat_completeness auto
termination
  by (relation "measure length") (auto dest: placeholder_at_shorter)

declare tokens.simps [simp del]

definition placeholders :: "string \<Rightarrow> string list" where
  "placeholders s = List.map_filter (\<lambda>t. case t of Inl n \<Rightarrow> Some n | Inr _ \<Rightarrow> None) (tokens s)"

definition sortedValues :: "str_map \<Rightarrow> string list" where
  "sortedValues m = map snd (sort_key fst m)"

definition template_strings :: "template \<Rightarrow> string list" where
  "template_strings t =
     [tlImage t, tlNetworkMode t] @ tlCommand t @ tlEntrypoint t
     @ sortedValues (tlEnv t) @ sortedValues (tlLabels t) @ sortedValues (tlSysctls t) @ tlDevices t
     @ map tpHost (tlPorts t) @ concat (map (\<lambda>m. [tmSource m, tmDestination m]) (tlMounts t))
     @ (case tlHealthCheck t of None \<Rightarrow> [] | Some h \<Rightarrow> thTest h) @ [tlNotes t]"

definition hasOption :: "field_option list \<Rightarrow> string \<Rightarrow> bool" where
  "hasOption options v \<longleftrightarrow> list_ex (\<lambda>o'. opValue o' = v) options"

type_synonym regexps = "string \<Rightarrow> string + (string \<Rightarrow> bool)"

definition Field_validate :: "regexps \<Rightarrow> string \<Rightarrow> template_field \<Rightarrow> schema_error option" where
  "Field_validate rx templateID f =
     (let fail = (\<lambda>msg. Some \<lparr>sxTemplate = templateID, sxField = fdName f, sxMessage = msg\<rparr>) in
      if \<not> namePattern (fdName f) then fail ''a field name must be lowercase letters, digits or underscore''
      else if trim_space (fdLabel f) = '''' then fail ''needs a label''
      else if \<not> FieldType_Valid (fdType f) then fail (go_quote (fdType f) @ '' is not a field type'')
      else case (if fdPattern f = '''' then Inr (\<lambda>_. True) else rx (fdPattern f)) of
        Inl e \<Rightarrow> fail (''pattern does not compile: '' @ e)
      | Inr _ \<Rightarrow>
          if fdType f = FieldSelect then
            (if fdOptions f = [] then fail ''a select needs options''
             else if fdDefault f \<noteq> '''' \<and> \<not> hasOption (fdOptions f) (fdDefault f)
                  then fail (''the default '' @ go_quote (fdDefault f) @ '' is not one of the options'')
             else None)
          else if fdType f = FieldNumber \<or> fdType f = FieldPort then
            (if fdDefault f \<noteq> '''' \<and> atoi (fdDefault f) = None then fail (''the default '' @ go_quote (fdDefault f) @ '' is not a number'')
             else case (fdMin f, fdMax f) of
               (Some lo, Some hi) \<Rightarrow> if hi < lo then fail ''min is greater than max'' else None
             | _ \<Rightarrow> None)
          else if fdType f = FieldPassword then
            (if fdDefault f \<noteq> '''' then fail ''a password field must not carry a default'' else None)
          else if fdType f = FieldBool then
            (if fdDefault f \<noteq> '''' \<and> fdDefault f \<noteq> ''true'' \<and> fdDefault f \<noteq> ''false'' then fail ''the default must be true or false'' else None)
          else None)"

fun check_fields :: "regexps \<Rightarrow> string \<Rightarrow> string list \<Rightarrow> template_field list \<Rightarrow> schema_error option" where
  "check_fields rx i declared [] = None"
| "check_fields rx i declared (f # fs) =
     (case Field_validate rx i f of
        Some e \<Rightarrow> Some e
      | None \<Rightarrow>
          if fdName f \<in> set declared then Some \<lparr>sxTemplate = i, sxField = fdName f, sxMessage = ''is declared twice''\<rparr>
          else check_fields rx i (fdName f # declared) fs)"

fun checkPlaceholders :: "string \<Rightarrow> string list \<Rightarrow> string list \<Rightarrow> schema_error option" where
  "checkPlaceholders i declared [] = None"
| "checkPlaceholders i declared (text # texts) =
     (case filter (\<lambda>n. n \<notin> set declared) (placeholders text) of
        n # _ \<Rightarrow> Some \<lparr>sxTemplate = i, sxField = n, sxMessage = ''is substituted in '' @ go_quote text @ '' but never declared''\<rparr>
      | [] \<Rightarrow> checkPlaceholders i declared texts)"

fun check_ports :: "string \<Rightarrow> template_port list \<Rightarrow> schema_error option" where
  "check_ports i [] = None"
| "check_ports i (p # ps) =
     (if tpContainer p \<le> 0 \<or> 65535 < tpContainer p
      then Some \<lparr>sxTemplate = i, sxField = ''ports'', sxMessage = ''container port '' @ itoa (tpContainer p) @ '' is out of range''\<rparr>
      else check_ports i ps)"

fun check_mounts :: "string \<Rightarrow> template_mount list \<Rightarrow> schema_error option" where
  "check_mounts i [] = None"
| "check_mounts i (m # ms) =
     (if tmType m \<noteq> ''volume'' \<and> tmType m \<noteq> ''bind''
      then Some \<lparr>sxTemplate = i, sxField = ''mounts'', sxMessage = go_quote (tmType m) @ '' is not a mount type a template may use''\<rparr>
      else if trim_space (tmDestination m) = ''''
      then Some \<lparr>sxTemplate = i, sxField = ''mounts'', sxMessage = ''every mount needs a destination''\<rparr>
      else check_mounts i ms)"

definition required_error :: "string \<Rightarrow> string \<Rightarrow> schema_error" where
  "required_error i field = \<lparr>sxTemplate = i, sxField = field, sxMessage = ''is required''\<rparr>"

definition Template_Validate :: "regexps \<Rightarrow> template \<Rightarrow> schema_error option" where
  "Template_Validate rx t =
     (if \<not> idPattern (tlID t)
      then Some \<lparr>sxTemplate = tlID t, sxField = ''id'', sxMessage = ''must be lowercase letters, digits, dash or underscore''\<rparr>
      else if trim_space (tlTitle t) = '''' then Some (required_error (tlID t) ''title'')
      else if trim_space (tlCategory t) = '''' then Some (required_error (tlID t) ''category'')
      else if trim_space (tlImage t) = '''' then Some (required_error (tlID t) ''image'')
      else case check_fields rx (tlID t) [] (tlFields t) of
        Some e \<Rightarrow> Some e
      | None \<Rightarrow>
          case checkPlaceholders (tlID t) (map fdName (tlFields t)) (template_strings t) of
            Some e \<Rightarrow> Some e
          | None \<Rightarrow>
              case check_ports (tlID t) (tlPorts t) of
                Some e \<Rightarrow> Some e
              | None \<Rightarrow> check_mounts (tlID t) (tlMounts t))"

definition NeedsPrivileged :: "template \<Rightarrow> bool" where
  "NeedsPrivileged t \<longleftrightarrow>
     tlPrivileged t \<or> tlCapAdd t \<noteq> [] \<or> tlDevices t \<noteq> [] \<or> tlSysctls t \<noteq> [] \<or> tlNetworkMode t = ''host''"

section \<open>Rendering\<close>

record value_error = veField :: string veMessage :: string

definition ValueErrors_text :: "value_error list \<Rightarrow> string" where
  "ValueErrors_text es = join ''; '' (map (\<lambda>e. veField e @ '': '' @ veMessage e) es)"

definition lookup :: "str_map \<Rightarrow> string \<Rightarrow> string" where
  "lookup values name = (case map_of values name of Some v \<Rightarrow> v | None \<Rightarrow> '''')"

definition substitute :: "string \<Rightarrow> str_map \<Rightarrow> string" where
  "substitute text values =
     (if text = '''' \<or> \<not> contains text ''{{'' then text
      else concat (map (\<lambda>t. case t of Inl n \<Rightarrow> lookup values n | Inr c \<Rightarrow> [c]) (tokens text)))"

definition substituteAll :: "string list \<Rightarrow> str_map \<Rightarrow> string list" where
  "substituteAll items values =
     map snd (filter (\<lambda>(item, rendered). \<not> (contains item ''{{'' \<and> rendered = '''')) (map (\<lambda>item. (item, substitute item values)) items))"

definition defaultString :: "string \<Rightarrow> string \<Rightarrow> string" where
  "defaultString v fallback = (if trim_space v = '''' then fallback else v)"

definition Field_check :: "regexps \<Rightarrow> template_field \<Rightarrow> string \<Rightarrow> value_error option" where
  "Field_check rx f v =
     (let fail = (\<lambda>msg. Some \<lparr>veField = fdName f, veMessage = msg\<rparr>) in
      if fdPattern f \<noteq> '''' \<and> (case rx (fdPattern f) of Inl _ \<Rightarrow> True | Inr matches \<Rightarrow> \<not> matches v)
      then fail ''does not match the expected format''
      else if fdType f = FieldSelect then
        (if \<not> hasOption (fdOptions f) v then fail (go_quote v @ '' is not one of the choices'') else None)
      else if fdType f = FieldBool then
        (if v \<noteq> ''true'' \<and> v \<noteq> ''false'' then fail ''must be true or false'' else None)
      else if fdType f = FieldNumber \<or> fdType f = FieldPort then
        (case atoi v of
           None \<Rightarrow> fail ''must be a whole number''
         | Some number \<Rightarrow>
             if fdType f = FieldPort \<and> (number < 1 \<or> 65535 < number) then fail ''must be a port between 1 and 65535''
             else if (case fdMin f of Some lo \<Rightarrow> number < lo | None \<Rightarrow> False)
               then fail (''must be at least '' @ itoa (case fdMin f of Some lo \<Rightarrow> lo | None \<Rightarrow> 0))
             else if (case fdMax f of Some hi \<Rightarrow> hi < number | None \<Rightarrow> False)
               then fail (''must be at most '' @ itoa (case fdMax f of Some hi \<Rightarrow> hi | None \<Rightarrow> 0))
             else None)
      else if fdType f = FieldPath then
        (if \<not> has_prefix v ''/'' then fail ''must be an absolute path'' else None)
      else if fdType f = FieldVolume then
        (if \<not> containerNamePattern v then fail ''a volume name may hold letters, digits, dot, dash and underscore'' else None)
      else None)"

definition answer :: "str_map \<Rightarrow> template_field \<Rightarrow> string" where
  "answer values f = (let raw = trim_space (lookup values (fdName f)) in if raw = '''' then fdDefault f else raw)"

definition resolve_field :: "regexps \<Rightarrow> str_map \<Rightarrow> template_field \<Rightarrow> value_error + string" where
  "resolve_field rx values f =
     (let raw = answer values f in
      if raw = '''' then
        (if fdRequired f then Inl \<lparr>veField = fdName f, veMessage = ''is required''\<rparr> else Inr '''')
      else case Field_check rx f raw of Some e \<Rightarrow> Inl e | None \<Rightarrow> Inr raw)"

definition declares :: "template \<Rightarrow> string \<Rightarrow> bool" where
  "declares t name \<longleftrightarrow> list_ex (\<lambda>f. fdName f = name) (tlFields t)"

definition value_problems :: "regexps \<Rightarrow> template \<Rightarrow> str_map \<Rightarrow> value_error list" where
  "value_problems rx t values =
     List.map_filter (\<lambda>f. case resolve_field rx values f of Inl e \<Rightarrow> Some e | Inr _ \<Rightarrow> None) (tlFields t)
     @ map (\<lambda>(name, _). \<lparr>veField = name, veMessage = ''is not a field of this template''\<rparr>) (filter (\<lambda>(name, _). \<not> declares t name) values)"

definition resolved_values :: "regexps \<Rightarrow> template \<Rightarrow> str_map \<Rightarrow> str_map" where
  "resolved_values rx t values =
     List.map_filter (\<lambda>f. case resolve_field rx values f of Inl _ \<Rightarrow> None | Inr v \<Rightarrow> Some (fdName f, v)) (tlFields t)"

definition resolve :: "regexps \<Rightarrow> template \<Rightarrow> str_map \<Rightarrow> value_error list + str_map" where
  "resolve rx t values =
     (if value_problems rx t values \<noteq> [] then Inl (sort_key veField (value_problems rx t values))
      else Inr (resolved_values rx t values))"

definition renderEnv :: "template \<Rightarrow> str_map \<Rightarrow> env_var list" where
  "renderEnv t values = map (\<lambda>(k, v). \<lparr>evKey = k, evValue = substitute v values\<rparr>) (sort_key fst (tlEnv t))"

definition LabelTemplate :: string where "LabelTemplate = ''com.iskele.template''"

definition renderMap :: "str_map \<Rightarrow> str_map \<Rightarrow> str_map" where
  "renderMap source values = map (\<lambda>(k, v). (k, substitute v values)) source"

definition renderLabels :: "template \<Rightarrow> str_map \<Rightarrow> str_map" where
  "renderLabels t values = map_put LabelManaged ''true'' (map_put LabelTemplate (tlID t) (renderMap (tlLabels t) values))"

fun renderPorts :: "template_port list \<Rightarrow> str_map \<Rightarrow> value_error list + port_mapping list" where
  "renderPorts [] values = Inr []"
| "renderPorts (p # ps) values =
     (let host = substitute (tpHost p) values in
      if host = '''' then renderPorts ps values
      else if atoi host = None then Inl [\<lparr>veField = ''ports'', veMessage = go_quote host @ '' is not a port number''\<rparr>]
      else case renderPorts ps values of
        Inl e \<Rightarrow> Inl e
      | Inr out \<Rightarrow> Inr (\<lparr>pmHostIP = '''', pmHostPort = host, pmContainerPort = tpContainer p,
                         pmProtocol = defaultString (tpProtocol p) ''tcp''\<rparr> # out))"

text \<open>One mount: refused, left out, or a row. \<open>i\<close> is its position.\<close>

definition render_mount :: "string \<Rightarrow> str_map \<Rightarrow> nat \<Rightarrow> template_mount \<Rightarrow> value_error + mount_spec option" where
  "render_mount name values i m =
     (let source = substitute (tmSource m) values;
          destination = substitute (tmDestination m) values;
          fail = (\<lambda>msg. Inl \<lparr>veField = ''mounts'', veMessage = msg\<rparr>);
          row = (\<lambda>src. Inr (Some \<lparr>msType = tmType m, msSource = src, msDestination = destination, msReadOnly = tmReadOnly m,
                                  msTmpfsSize = 0, msBindPropagation = '''', msCreateHostPath = False\<rparr>))
      in if destination = '''' then fail ''a mount destination resolved to nothing''
         else if tmType m = ''volume'' then
           row (if source = '''' then name @ ''-data-'' @ itoa (int i + 1) else source)
         else if tmType m = ''bind'' then
           (if source = '''' then
              (if contains (tmSource m) ''{{'' then Inr None
               else fail (''the host path for '' @ destination @ '' is required''))
            else if \<not> has_prefix source ''/'' then fail (''the host path for '' @ destination @ '' must be absolute'')
            else row source)
         else row source)"

fun renderMounts_from :: "string \<Rightarrow> str_map \<Rightarrow> nat \<Rightarrow> template_mount list \<Rightarrow> value_error list + mount_spec list" where
  "renderMounts_from name values i [] = Inr []"
| "renderMounts_from name values i (m # ms) =
     (case render_mount name values i m of
        Inl e \<Rightarrow> Inl [e]
      | Inr r \<Rightarrow>
          (case renderMounts_from name values (Suc i) ms of
             Inl e \<Rightarrow> Inl e
           | Inr out \<Rightarrow> Inr (case r of None \<Rightarrow> out | Some row \<Rightarrow> row # out)))"

definition renderMounts :: "string \<Rightarrow> template_mount list \<Rightarrow> str_map \<Rightarrow> value_error list + mount_spec list" where
  "renderMounts name ms values = renderMounts_from name values 0 ms"

definition template_spec :: "template \<Rightarrow> string \<Rightarrow> str_map \<Rightarrow> port_mapping list \<Rightarrow> mount_spec list \<Rightarrow> container_spec" where
  "template_spec t name resolved ports mounts =
     \<lparr>csName = name, csImage = substitute (tlImage t) resolved, csPullPolicy = '''',
      csCommand = substituteAll (tlCommand t) resolved, csEntrypoint = substituteAll (tlEntrypoint t) resolved,
      csWorkingDir = '''', csUser = '''', csHostname = '''', csDomainName = '''', csTTY = False, csOpenStdin = False,
      csEnv = renderEnv t resolved, csLabels = renderLabels t resolved, csPorts = ports, csMounts = mounts,
      csRestartPolicy = \<lparr>rpName = defaultString (tlRestart t) ''unless-stopped'', rpMaxRetries = 0\<rparr>,
      csResources = \<lparr>rsCPUs = 0, rsCPUShares = 0, rsCPUSetCPUs = '''', rsMemory = 0, rsMemoryReservation = 0, rsMemorySwap = 0,
        rsPidsLimit = 0, rsShmSize = 0\<rparr>,
      csNetwork = \<lparr>nsName = substitute (tlNetworkMode t) resolved, nsAliases = [], nsIPv4Address = '''', nsIPv6Address = '''',
        nsExtraHosts = [], nsDNS = [], nsDNSSearch = [], nsDNSOptions = [], nsMacAddress = ''''\<rparr>,
      csHealthCheck = map_option (\<lambda>h. \<lparr>hsTest = substituteAll (thTest h) resolved, hsInterval = thInterval h, hsTimeout = thTimeout h,
        hsStartPeriod = thStartPeriod h, hsRetries = thRetries h, hsDisable = False\<rparr>) (tlHealthCheck t),
      csLogging = \<lparr>lgDriver = '''', lgOptions = []\<rparr>,
      csSecurity = \<lparr>scPrivileged = tlPrivileged t, scCapAdd = tlCapAdd t, scCapDrop = [], scSecurityOpt = [],
        scDevices = substituteAll (tlDevices t) resolved, scReadOnlyRootFS = False, scSysctls = renderMap (tlSysctls t) resolved\<rparr>,
      csAutoRemove = False, csInit = False, csStart = True\<rparr>"

definition container_name :: "template \<Rightarrow> string \<Rightarrow> string" where
  "container_name t name = (if trim_space name = '''' then tlID t else trim_space name)"

definition Template_Render :: "regexps \<Rightarrow> template \<Rightarrow> string \<Rightarrow> str_map \<Rightarrow> value_error list + container_spec" where
  "Template_Render rx t name values =
     (case resolve rx t values of
        Inl es \<Rightarrow> Inl es
      | Inr resolved \<Rightarrow>
          let containerName = container_name t name in
          if \<not> containerNamePattern containerName
          then Inl [\<lparr>veField = ''name'', veMessage = ''a container name may hold letters, digits, dot, dash and underscore''\<rparr>]
          else case renderPorts (tlPorts t) resolved of
            Inl es \<Rightarrow> Inl es
          | Inr ports \<Rightarrow>
              (case renderMounts containerName (tlMounts t) resolved of
                 Inl es \<Rightarrow> Inl es
               | Inr mounts \<Rightarrow> Inr (template_spec t containerName resolved ports mounts)))"

definition RenderNotes :: "regexps \<Rightarrow> template \<Rightarrow> str_map \<Rightarrow> string" where
  "RenderNotes rx t values = (case resolve rx t values of Inl _ \<Rightarrow> tlNotes t | Inr resolved \<Rightarrow> substitute (tlNotes t) resolved)"

section \<open>The catalog\<close>

record load_problem = lpPath :: string lpMessage :: string

record catalog =
  cgTemplates :: "(string \<times> template) list"
  cgOrder :: "string list"
  cgProblems :: "load_problem list"

text \<open>A directory as listing and reading it gave it: each entry's content, or why it was not read.\<close>

record dir_entry =
  drName :: string
  drIsDir :: bool
  drContent :: "string + string"

datatype dir_listing = NoSuchDirectory | ReadDirFailed string | Entries "dir_entry list"

type_synonym decoder = "string \<Rightarrow> string + template"

definition parse_template :: "decoder \<Rightarrow> regexps \<Rightarrow> string \<Rightarrow> string \<Rightarrow> string + template" where
  "parse_template decode rx content source =
     (case decode content of
        Inl e \<Rightarrow> Inl (''not a valid template file: '' @ e)
      | Inr t0 \<Rightarrow>
          let t = t0\<lparr>tlSource := source\<rparr> in
          case Template_Validate rx t of Some e \<Rightarrow> Inl (SchemaError_text e) | None \<Rightarrow> Inr t)"

definition template_file :: "dir_entry \<Rightarrow> bool" where
  "template_file e \<longleftrightarrow> \<not> drIsDir e \<and> has_prefix (rev (drName e)) (rev ''.json'')"

fun loadBuiltin :: "decoder \<Rightarrow> regexps \<Rightarrow> (string \<times> template) list \<Rightarrow> dir_entry list \<Rightarrow> string + (string \<times> template) list" where
  "loadBuiltin decode rx ts [] = Inr ts"
| "loadBuiltin decode rx ts (e # es) =
     (if \<not> template_file e then loadBuiltin decode rx ts es
      else case drContent e of
        Inl err \<Rightarrow> Inl (''read '' @ drName e @ '': '' @ err)
      | Inr content \<Rightarrow>
          (case parse_template decode rx content SourceBuiltin of
             Inl err \<Rightarrow> Inl (''embedded template '' @ drName e @ '': '' @ err)
           | Inr t \<Rightarrow> loadBuiltin decode rx (AList.update (tlID t) t ts) es))"

fun load_entries :: "decoder \<Rightarrow> regexps \<Rightarrow> string \<Rightarrow> (string \<times> template) list \<Rightarrow> load_problem list \<Rightarrow> dir_entry list
    \<Rightarrow> (string \<times> template) list \<times> load_problem list" where
  "load_entries decode rx dir ts ps [] = (ts, ps)"
| "load_entries decode rx dir ts ps (e # es) =
     (if \<not> template_file e then load_entries decode rx dir ts ps es
      else let path = Join dir (drName e) in
        case drContent e of
          Inl err \<Rightarrow> load_entries decode rx dir ts (ps @ [\<lparr>lpPath = path, lpMessage = err\<rparr>]) es
        | Inr content \<Rightarrow>
            (case parse_template decode rx content SourceCustom of
               Inl err \<Rightarrow> load_entries decode rx dir ts (ps @ [\<lparr>lpPath = path, lpMessage = err\<rparr>]) es
             | Inr t \<Rightarrow> load_entries decode rx dir (AList.update (tlID t) t ts) ps es))"

definition loadCustom :: "decoder \<Rightarrow> regexps \<Rightarrow> string \<Rightarrow> dir_listing \<Rightarrow> (string \<times> template) list
    \<Rightarrow> (string \<times> template) list \<times> load_problem list" where
  "loadCustom decode rx dir listing ts =
     (if trim_space dir = '''' then (ts, [])
      else case listing of
        NoSuchDirectory \<Rightarrow> (ts, [])
      | ReadDirFailed err \<Rightarrow> (ts, [\<lparr>lpPath = dir, lpMessage = err\<rparr>])
      | Entries es \<Rightarrow> load_entries decode rx dir ts [] es)"

definition catalog_sort :: "(string \<times> template) list \<Rightarrow> string list" where
  "catalog_sort ts = map fst (sort_key (\<lambda>(_, t). (tlCategory t, tlTitle t)) ts)"

definition Load :: "decoder \<Rightarrow> regexps \<Rightarrow> dir_entry list \<Rightarrow> string \<Rightarrow> dir_listing \<Rightarrow> string + catalog" where
  "Load decode rx builtin customDir listing =
     (case loadBuiltin decode rx [] builtin of
        Inl err \<Rightarrow> Inl err
      | Inr ts0 \<Rightarrow>
          let (ts, ps) = loadCustom decode rx customDir listing ts0 in
          Inr \<lparr>cgTemplates = ts, cgOrder = catalog_sort ts, cgProblems = ps\<rparr>)"

definition Templates_List :: "catalog \<Rightarrow> template list" where
  "Templates_List c = List.map_filter (map_of (cgTemplates c)) (cgOrder c)"

definition Templates_Get :: "catalog \<Rightarrow> string \<Rightarrow> template option" where
  "Templates_Get c i = map_of (cgTemplates c) i"

definition Templates_Categories :: "catalog \<Rightarrow> string list" where
  "Templates_Categories c = sort (remdups (map (tlCategory \<circ> snd) (cgTemplates c)))"

definition Templates_Len :: "catalog \<Rightarrow> nat" where
  "Templates_Len c = length (cgTemplates c)"

end
