(* ===== verification/Catalog_Service.thy ===== *)
theory Catalog_Service
  imports Templates Creator
begin

text \<open>
  The catalog service, internal/service/template.go: the catalog with what this host knows of each
  entry, deploying an entry through the create service, and generated secrets. The deploy ends
  with one of three failures: no such entry, answers that are refused, or what the create service
  reports.
\<close>

record 'd catalog_deps =
  kdCatalog :: catalog
  kdRegexps :: regexps
  kdDeps :: "'d deps"

record template_summary =
  tsTemplate :: template
  tsDeployed :: nat
  tsNeedsPrivileged :: bool

definition every_container :: list_options where
  "every_container = \<lparr>loAll = True, loSize = False, loLabel = [], loStatus = [], loName = ''''\<rparr>"

definition count_labels :: "container list \<Rightarrow> string \<Rightarrow> nat" where
  "count_labels cs i = (if i = '''' then 0 else length (filter (\<lambda>c. map_of (ctLabels c) LabelTemplate = Some i) cs))"

definition deploymentCounts :: "'d catalog_deps \<Rightarrow> ('d, string \<Rightarrow> nat) act" where
  "deploymentCounts K =
     bindE (try_engine (ListContainers (dpClient (kdDeps K)) every_container)) (\<lambda>r.
     returnE (case r of Inl _ \<Rightarrow> (\<lambda>_. 0) | Inr cs \<Rightarrow> count_labels cs))"

definition summary :: "(string \<Rightarrow> nat) \<Rightarrow> template \<Rightarrow> template_summary" where
  "summary counts t = \<lparr>tsTemplate = t, tsDeployed = counts (tlID t), tsNeedsPrivileged = NeedsPrivileged t\<rparr>"

definition Catalog_List :: "'d catalog_deps \<Rightarrow> ('d, template_summary list \<times> load_problem list) act" where
  "Catalog_List K =
     bindE (deploymentCounts K) (\<lambda>counts.
     returnE (map (summary counts) (Templates_List (kdCatalog K)), cgProblems (kdCatalog K)))"

datatype deploy_error = ErrNoTemplate string | ValueErrors "value_error list" | CreateFailed host_error

type_synonym ('d, 'a) catalog_act = "('d host, deploy_error, 'a) prog"

definition host_call :: "('d, 'a) act \<Rightarrow> ('d, 'a) catalog_act" where
  "host_call m = (\<lambda>h. case m h of (Inl e, h') \<Rightarrow> (Inl (CreateFailed e), h') | (Inr x, h') \<Rightarrow> (Inr x, h'))"

definition Catalog_Get :: "'d catalog_deps \<Rightarrow> string \<Rightarrow> ('d, template_summary) catalog_act" where
  "Catalog_Get K i =
     (case Templates_Get (kdCatalog K) i of
        None \<Rightarrow> throwE (ErrNoTemplate i)
      | Some t \<Rightarrow> bindE (host_call (deploymentCounts K)) (\<lambda>counts.
          returnE \<lparr>tsTemplate = t, tsDeployed = counts i, tsNeedsPrivileged = NeedsPrivileged t\<rparr>))"

record deploy_request =
  dqName :: string
  dqValues :: str_map
  dqNetwork :: string
  dqStart :: "bool option"

record deploy_result =
  dtResult :: create_result
  dtTemplate :: string
  dtNotes :: string

text \<open>The rendered definition with what the request overrides.\<close>

definition request_spec :: "deploy_request \<Rightarrow> container_spec \<Rightarrow> container_spec" where
  "request_spec req spec =
     (let spec1 = (if dqNetwork req \<noteq> '''' then spec\<lparr>csNetwork := (csNetwork spec)\<lparr>nsName := dqNetwork req\<rparr>\<rparr> else spec)
      in case dqStart req of None \<Rightarrow> spec1 | Some b \<Rightarrow> spec1\<lparr>csStart := b\<rparr>)"

definition Deploy :: "'d catalog_deps \<Rightarrow> string \<Rightarrow> deploy_request \<Rightarrow> bool \<Rightarrow> actor \<Rightarrow> request_meta \<Rightarrow> ('d, deploy_result) catalog_act" where
  "Deploy K i req privileged who meta =
     (case Templates_Get (kdCatalog K) i of
        None \<Rightarrow> throwE (ErrNoTemplate i)
      | Some t \<Rightarrow>
          case Template_Render (kdRegexps K) t (dqName req) (dqValues req) of
            Inl es \<Rightarrow> throwE (ValueErrors es)
          | Inr rendered \<Rightarrow>
              let spec = request_spec req rendered in
              thenE (host_call (audit_note who meta ''template.deploy'' ''template'' (tlID t) None
                (Some [(''name'', AString (csName spec)), (''image'', AString (csImage spec))])))
              (bindE (host_call (Create (kdDeps K) spec privileged who meta)) (\<lambda>(result, err).
               case err of
                 Some e \<Rightarrow> throwE (CreateFailed e)
               | None \<Rightarrow> returnE \<lparr>dtResult = result, dtTemplate = tlID t, dtNotes = RenderNotes (kdRegexps K) t (dqValues req)\<rparr>)))"

section \<open>Generated secrets\<close>

definition generatedAlphabet :: string where
  "generatedAlphabet = ''abcdefghijkmnopqrstuvwxyzABCDEFGHJKLMNPQRSTUVWXYZ23456789''"

definition minSecretLength :: int where "minSecretLength = 12"
definition maxSecretLength :: int where "maxSecretLength = 128"
definition defaultSecretLength :: int where "defaultSecretLength = 32"

text \<open>
  \<open>rand.Int(rand.Reader, limit)\<close> for the alphabet's 57 characters: one byte at a time, of which the
  low six bits count, until they are below the limit.
\<close>

fun rand_index :: "byte list \<Rightarrow> (nat \<times> byte list) option" where
  "rand_index [] = None"
| "rand_index (b # bs) =
     (let v = unat (b AND 63) in if v < length generatedAlphabet then Some (v, bs) else rand_index bs)"

fun secret_from :: "nat \<Rightarrow> byte list \<Rightarrow> (string \<times> byte list) option" where
  "secret_from 0 bs = Some ('''', bs)"
| "secret_from (Suc n) bs =
     (case rand_index bs of
        None \<Rightarrow> None
      | Some (v, bs1) \<Rightarrow>
          (case secret_from n bs1 of None \<Rightarrow> None | Some (s, bs2) \<Rightarrow> Some (generatedAlphabet ! v # s, bs2)))"

definition secret_length :: "int \<Rightarrow> int" where
  "secret_length n = (let n1 = (if n \<le> 0 then defaultSecretLength else n) in min maxSecretLength (max minSecretLength n1))"

definition GenerateSecret :: "int \<Rightarrow> string io" where
  "GenerateSecret n = (\<lambda>w.
     case secret_from (nat (secret_length n)) (wEntropy w) of
       None \<Rightarrow> (Inl EntropyError, w\<lparr>wEntropy := []\<rparr>)
     | Some (s, bs) \<Rightarrow> (Inr s, w\<lparr>wEntropy := bs\<rparr>))"

end
