(* ===== verification/Catalog_Laws.thy ===== *)
theory Catalog_Laws
  imports Catalog_Service
begin

text \<open>
  What is shown of the catalog: every loaded entry met the schema, each placeholder of it is filled
  with a checked answer, refused answers are all reported, and deploying an entry passes the same
  gates as any other creation.
\<close>

section \<open>What the schema gives\<close>

lemma check_fields_names:
  "check_fields rx i declared fs = None \<Longrightarrow> distinct (map fdName fs) \<and> (\<forall>f\<in>set fs. fdName f \<notin> set declared)"
proof (induction fs arbitrary: declared)
  case (Cons f fs)
  then have "fdName f \<notin> set declared" "check_fields rx i (fdName f # declared) fs = None"
    by (auto split: option.splits if_splits)
  then show ?case using Cons.IH [of "fdName f # declared"] by auto
qed simp

lemma checkPlaceholders_declared:
  "checkPlaceholders i declared texts = None \<Longrightarrow> text \<in> set texts \<Longrightarrow> set (placeholders text) \<subseteq> set declared"
  by (induction texts) (auto simp: filter_empty_conv split: list.splits)

lemma check_mounts_types: "check_mounts i ms = None \<Longrightarrow> m \<in> set ms \<Longrightarrow> tmType m = ''volume'' \<or> tmType m = ''bind''"
  by (induction ms) (auto split: if_splits)

lemma Template_Validate_gives:
  assumes "Template_Validate rx t = None"
  shows "distinct (map fdName (tlFields t))" "text \<in> set (template_strings t) \<Longrightarrow> set (placeholders text) \<subseteq> fdName ` set (tlFields t)"
    "m \<in> set (tlMounts t) \<Longrightarrow> tmType m = ''volume'' \<or> tmType m = ''bind''"
  using assms check_fields_names [of rx "tlID t" "[]" "tlFields t"] checkPlaceholders_declared [of "tlID t" "map fdName (tlFields t)"]
    check_mounts_types [of "tlID t" "tlMounts t"]
  by (auto simp: Template_Validate_def split: if_splits option.splits)

text \<open>An entry of the catalog is stored under its own id and met the schema.\<close>

definition entries_ok :: "regexps \<Rightarrow> (string \<times> template) list \<Rightarrow> bool" where
  "entries_ok rx ts \<longleftrightarrow> distinct (map fst ts) \<and> list_all (\<lambda>(i, t). tlID t = i \<and> Template_Validate rx t = None) ts"

lemma entries_ok_update:
  assumes "entries_ok rx ts" "Template_Validate rx t = None"
  shows "entries_ok rx (AList.update (tlID t) t ts)"
proof -
  have "set (AList.update k v ts) \<subseteq> insert (k, v) (set ts)" for k v by (induction ts) auto
  then show ?thesis using assms by (fastforce simp: entries_ok_def list_all_iff distinct_update)
qed

lemma parse_template_ok: "parse_template decode rx content src = Inr t \<Longrightarrow> Template_Validate rx t = None"
  by (auto simp: parse_template_def Let_def split: sum.splits option.splits)

lemma loadBuiltin_ok: "loadBuiltin decode rx ts es = Inr ts' \<Longrightarrow> entries_ok rx ts \<Longrightarrow> entries_ok rx ts'"
  by (induction es arbitrary: ts) (auto split: if_splits sum.splits dest: parse_template_ok entries_ok_update)

lemma load_entries_ok: "load_entries decode rx dir ts ps es = (ts', ps') \<Longrightarrow> entries_ok rx ts \<Longrightarrow> entries_ok rx ts'"
  by (induction es arbitrary: ts ps) (auto simp: Let_def split: if_splits sum.splits dest: parse_template_ok entries_ok_update)

lemma Load_ok:
  assumes "Load decode rx builtin dir listing = Inr c"
  shows "entries_ok rx (cgTemplates c)" "cgOrder c = catalog_sort (cgTemplates c)"
proof -
  obtain ts0 ts ps where l: "loadBuiltin decode rx [] builtin = Inr ts0" "loadCustom decode rx dir listing ts0 = (ts, ps)"
    "c = \<lparr>cgTemplates = ts, cgOrder = catalog_sort ts, cgProblems = ps\<rparr>"
    using assms by (auto simp: Load_def split: sum.splits prod.splits)
  have "entries_ok rx ts0" using loadBuiltin_ok [OF l(1)] by (simp add: entries_ok_def)
  then have "entries_ok rx ts" using l(2) load_entries_ok by (auto simp: loadCustom_def split: if_splits dir_listing.splits)
  then show "entries_ok rx (cgTemplates c)" "cgOrder c = catalog_sort (cgTemplates c)" using l(3) by simp_all
qed

lemma loaded_entry:
  assumes "Load decode rx builtin dir listing = Inr c" "Templates_Get c i = Some t"
  shows "tlID t = i" "Template_Validate rx t = None"
  using Load_ok(1) [OF assms(1)] map_of_SomeD [of "cgTemplates c" i t] assms(2)
  by (auto simp: Templates_Get_def entries_ok_def list_all_iff)

section \<open>Answers\<close>

lemma map_filter_Inr: "List.map_filter (\<lambda>f. case g f of Inl e \<Rightarrow> Some e | Inr _ \<Rightarrow> None) fs = [] \<longleftrightarrow> (\<forall>f\<in>set fs. \<not> isl (g f))"
  by (induction fs) (auto simp: List.map_filter_simps split: sum.splits)

lemma resolve_Inr:
  assumes "resolve rx t values = Inr resolved" "distinct (map fdName (tlFields t))" "f \<in> set (tlFields t)"
  shows "resolve_field rx values f = Inr (lookup resolved (fdName f))"
proof -
  have all: "\<forall>f\<in>set (tlFields t). \<not> isl (resolve_field rx values f)" and r: "resolved = resolved_values rx t values"
    using assms(1) by (auto simp: resolve_def value_problems_def map_filter_Inr split: if_splits)
  have "map_of (List.map_filter (\<lambda>f. case resolve_field rx values f of Inl _ \<Rightarrow> None | Inr v \<Rightarrow> Some (fdName f, v)) fs) (fdName f) = Some v"
    if "f \<in> set fs" "distinct (map fdName fs)" "resolve_field rx values f = Inr v" for fs v
    using that by (induction fs) (auto simp: List.map_filter_simps image_iff split: sum.splits)
  moreover obtain v where "resolve_field rx values f = Inr v" using all assms(3) by (cases "resolve_field rx values f") auto
  ultimately show ?thesis using assms(2,3) by (simp add: r resolved_values_def lookup_def)
qed


definition demo_field :: template_field where
  "demo_field = \<lparr>fdName = ''version'', fdLabel = ''Version'', fdType = FieldText, fdHelp = '''', fdDefault = ''1.27'', fdRequired = True,
     fdPattern = '''', fdMin = None, fdMax = None, fdOptions = [], fdGenerate = False, fdGenerateLength = 0\<rparr>"

definition demo_template :: template where
  "demo_template = \<lparr>tlID = ''nginx'', tlName = ''nginx'', tlTitle = ''nginx'', tlCategory = ''web'', tlDescription = '''', tlIcon = '''',
     tlWebsite = '''', tlDocumentation = '''', tlKeywords = [], tlImage = ''nginx:{{ version }}'', tlCommand = [], tlEntrypoint = [],
     tlEnv = [], tlPorts = [\<lparr>tpHost = ''8080'', tpContainer = 80, tpProtocol = ''''\<rparr>],
     tlMounts = [\<lparr>tmType = ''bind'', tmSource = ''/srv/www'', tmDestination = ''/usr/share/nginx/html'', tmReadOnly = True\<rparr>],
     tlLabels = [], tlRestart = '''', tlHealthCheck = None, tlCapAdd = [], tlDevices = [], tlPrivileged = False, tlSysctls = [],
     tlNetworkMode = '''', tlFields = [demo_field], tlNotes = '''', tlSource = SourceCustom\<rparr>"

definition no_regexps :: regexps where
  "no_regexps = (\<lambda>_. Inl ''none'')"


section \<open>Refused answers\<close>

text \<open>The fields that were not answered well, and the answers no field asked for.\<close>

definition faults :: "regexps \<Rightarrow> template \<Rightarrow> str_map \<Rightarrow> string set" where
  "faults rx t values =
     {fdName f | f. f \<in> set (tlFields t) \<and> isl (resolve_field rx values f)} \<union> {n \<in> fst ` set values. n \<notin> fdName ` set (tlFields t)}"

lemma Field_check_field: "Field_check rx f v = Some e \<Longrightarrow> veField e = fdName f"
  by (auto simp: Field_check_def Let_def split: if_splits option.splits)

lemma resolve_field_error: "resolve_field rx values f = Inl e \<Longrightarrow> veField e = fdName f"
  by (auto simp: resolve_field_def Let_def dest: Field_check_field split: if_splits option.splits)

lemma field_problems:
  "map veField (List.map_filter (\<lambda>f. case resolve_field rx values f of Inl e \<Rightarrow> Some e | Inr _ \<Rightarrow> None) fs)
    = map fdName (filter (\<lambda>f. isl (resolve_field rx values f)) fs)"
  by (induction fs) (auto simp: List.map_filter_simps dest: resolve_field_error split: sum.splits)

lemma value_problems_fields:
  "map veField (value_problems rx t values) =
     map fdName (filter (\<lambda>f. isl (resolve_field rx values f)) (tlFields t)) @ filter (\<lambda>n. n \<notin> fdName ` set (tlFields t)) (map fst values)"
proof -
  have "declares t n \<longleftrightarrow> n \<in> fdName ` set (tlFields t)" for n by (auto simp: declares_def list_ex_iff)
  then show ?thesis by (simp add: value_problems_def field_problems filter_map comp_def case_prod_unfold)
qed

text \<open>
  C24: Rendering refuses answers exactly when a field was not answered well or an answer belongs
  to no field, and then reports each of them once, in the order of their names.
\<close>

theorem resolve_reports_all:
  assumes "Template_Validate rx t = None" "distinct (map fst values)"
  shows "case resolve rx t values of
      Inl es \<Rightarrow> faults rx t values \<noteq> {} \<and> set (map veField es) = faults rx t values \<and> distinct (map veField es) \<and> sorted (map veField es)
    | Inr _ \<Rightarrow> faults rx t values = {}"
proof -
  let ?ps = "value_problems rx t values"
  have set: "set (map veField ?ps) = faults rx t values"
    unfolding value_problems_fields faults_def by auto
  have "distinct (map fdName (filter P (tlFields t)))" for P
    using Template_Validate_gives(1) [OF assms(1)] by (rule distinct_map_filter)
  then have d: "distinct (map veField ?ps)"
    unfolding value_problems_fields using assms(2) by auto
  have "set (map veField (sort_key veField ?ps)) = faults rx t values" "distinct (map veField (sort_key veField ?ps))"
    using set d by (auto simp: distinct_map)
  then show ?thesis using set by (cases "?ps = []") (auto simp: resolve_def simp del: set_map)
qed

theorem resolve_reports_all_witness:
  "resolve no_regexps demo_template [(''port'', ''1'')] = Inl [\<lparr>veField = ''port'', veMessage = ''is not a field of this template''\<rparr>]
    \<and> faults no_regexps demo_template [(''port'', ''1'')] = {''port''}"
proof -
  have r: "resolve no_regexps demo_template [(''port'', ''1'')] = Inl [\<lparr>veField = ''port'', veMessage = ''is not a field of this template''\<rparr>]" by code_simp
  have "Template_Validate no_regexps demo_template = None" by code_simp
  from resolve_reports_all [OF this, of "[(''port'', ''1'')]"] r show ?thesis by auto
qed

section \<open>The gates\<close>

lemma renderMounts_types:
  "renderMounts_from name values i ms = Inr out \<Longrightarrow> row \<in> set out \<Longrightarrow> msType row \<in> tmType ` set ms"
proof (induction ms arbitrary: i out)
  case (Cons m ms)
  then obtain r out' where r: "render_mount name values i m = Inr r" "renderMounts_from name values (Suc i) ms = Inr out'"
    "out = (case r of None \<Rightarrow> out' | Some row \<Rightarrow> row # out')"
    by (auto split: sum.splits)
  have "msType x = tmType m" if "r = Some x" for x
    using r(1) that by (auto simp: render_mount_def Let_def split: if_splits)
  then show ?case using Cons.IH [OF r(2)] Cons.prems(2) r(3) by (auto split: option.splits)
qed simp

lemma Template_Render_plain:
  assumes "Template_Validate rx t = None" "Template_Render rx t name values = Inr spec"
  shows "no_dotted_I spec"
proof -
  obtain n resolved where ms: "renderMounts_from n resolved 0 (tlMounts t) = Inr (csMounts spec)"
    using assms(2) by (auto simp: Template_Render_def renderMounts_def template_spec_def Let_def split: sum.splits if_splits)
  have "list_all (\<lambda>t. list_all (\<lambda>r. r \<noteq> 0x130) (runes (trim_space t))) [''volume'', ''bind'']" by code_simp
  then show ?thesis
    using renderMounts_types [OF ms] Template_Validate_gives(3) [OF assms(1)] by (fastforce simp: no_dotted_I_def list_all_iff)
qed

text \<open>
  C22: Deploying an entry of the catalog asks the engine only for a container within the gates,
  whatever the entry, the answers and the request say: a catalog entry cannot do what its operator
  could not do by hand.
\<close>

theorem Deploy_within_gates:
  assumes "Load decode (kdRegexps K) builtin dir listing = Inr (kdCatalog K)"
  shows "Deploy K i req privileged who meta h
    = Deploy (K\<lparr>kdDeps := (kdDeps K)\<lparr>dpClient := gated_client (dpFS (kdDeps K)) (dpPaths (kdDeps K)) privileged bad (dpClient (kdDeps K))\<rparr>\<rparr>)
        i req privileged who meta h"
proof (cases "Templates_Get (kdCatalog K) i")
  case (Some t)
  have v: "Template_Validate (kdRegexps K) t = None" using loaded_entry(2) [OF assms Some] .
  show ?thesis
  proof (cases "Template_Render (kdRegexps K) t (dqName req) (dqValues req)")
    case (Inr spec)
    have "no_dotted_I (request_spec req spec)"
      using Template_Render_plain [OF v Inr] by (simp add: no_dotted_I_def request_spec_def Let_def split: option.split)
    then have "Create (kdDeps K) (request_spec req spec) privileged who meta
        = Create ((kdDeps K)\<lparr>dpClient := gated_client (dpFS (kdDeps K)) (dpPaths (kdDeps K)) privileged bad (dpClient (kdDeps K))\<rparr>)
            (request_spec req spec) privileged who meta"
      by (intro ext Create_gated)
    then show ?thesis using Some Inr by (simp add: Deploy_def)
  qed (use Some in \<open>simp add: Deploy_def\<close>)
qed (simp add: Deploy_def)

definition demo_decode :: decoder where
  "demo_decode = (\<lambda>_. Inr demo_template)"

definition demo_catalog :: "fake catalog_deps" where
  "demo_catalog = \<lparr>kdCatalog = projr (Load demo_decode no_regexps [\<lparr>drName = ''nginx.json'', drIsDir = False, drContent = Inr ''''\<rparr>] '''' NoSuchDirectory),
     kdRegexps = no_regexps, kdDeps = sample_deps\<rparr>"

theorem Deploy_within_gates_witness:
  "Deploy demo_catalog ''nginx'' \<lparr>dqName = ''web'', dqValues = [], dqNetwork = '''', dqStart = None\<rparr> False sample_actor sample_meta (fake_host New_fake)
    = Deploy (demo_catalog\<lparr>kdDeps := sample_deps\<lparr>dpClient := gated_client [] [''/srv''] False (\<lambda>_. throwE (notFound '''' '''')) fake_client\<rparr>\<rparr>)
        ''nginx'' \<lparr>dqName = ''web'', dqValues = [], dqNetwork = '''', dqStart = None\<rparr> False sample_actor sample_meta (fake_host New_fake)"
proof -
  let ?load = "Load demo_decode no_regexps [\<lparr>drName = ''nginx.json'', drIsDir = False, drContent = Inr ''''\<rparr>] '''' NoSuchDirectory"
  have "\<not> isl ?load" by code_simp
  then have "Load demo_decode (kdRegexps demo_catalog) [\<lparr>drName = ''nginx.json'', drIsDir = False, drContent = Inr ''''\<rparr>] '''' NoSuchDirectory = Inr (kdCatalog demo_catalog)"
    by (cases ?load) (simp_all add: demo_catalog_def)
  from Deploy_within_gates [OF this] show ?thesis by (simp add: demo_catalog_def sample_deps_def)
qed

section \<open>Generated secrets\<close>

lemma secret_from_shape: "secret_from n bs = Some (s, bs') \<Longrightarrow> length s = n \<and> set s \<subseteq> set generatedAlphabet"
proof -
  have idx: "rand_index bs = Some (v, bs1) \<Longrightarrow> v < length generatedAlphabet" for bs v bs1
    by (induction bs) (auto simp: Let_def split: if_splits)
  show "secret_from n bs = Some (s, bs') \<Longrightarrow> length s = n \<and> set s \<subseteq> set generatedAlphabet"
    by (induction n arbitrary: bs s) (auto split: option.splits dest!: idx, blast)
qed

lemma GenerateSecret_shape:
  "GenerateSecret n w = (Inr s, w') \<Longrightarrow> int (length s) = secret_length n \<and> set s \<subseteq> set generatedAlphabet
    \<and> minSecretLength \<le> secret_length n \<and> secret_length n \<le> maxSecretLength"
  using secret_from_shape [of "nat (secret_length n)" "wEntropy w" s]
  by (auto simp: GenerateSecret_def secret_length_def Let_def minSecretLength_def maxSecretLength_def defaultSecretLength_def split: option.splits)

end
