(* ===== verification/Settings.thy ===== *)
theory Settings
  imports Host
begin

text \<open>
  Runtime settings: the key-value table of internal/store/settings.go, the service of
  internal/service/settings.go and the sweep of the audit trail that cmd/iskeled runs. The state is
  the world of the other repositories next to the rows of the settings table. What the
  configuration file fixes is given as it is read at start.
\<close>

record panel =
  pnWorld :: world
  pnSettings :: "(string \<times> string) list"

datatype settings_error = ErrRetentionRange | SettingsStore go_error

type_synonym 'a panel_act = "(panel, settings_error, 'a) prog"

definition on_panel :: "'a io \<Rightarrow> 'a panel_act" where
  "on_panel m = (\<lambda>p. case m (pnWorld p) of
       (Inl e, w) \<Rightarrow> (Inl (SettingsStore e), p\<lparr>pnWorld := w\<rparr>)
     | (Inr x, w) \<Rightarrow> (Inr x, p\<lparr>pnWorld := w\<rparr>))"

text \<open>One statement on the settings table: it may fail, and then has no effect.\<close>

definition settings_db :: "'a panel_act \<Rightarrow> 'a panel_act" where
  "settings_db m = (\<lambda>p. case wFaults (pnWorld p) of
       [] \<Rightarrow> m p
     | f # fs \<Rightarrow> (if f then throwE (SettingsStore DriverError) else m) (p\<lparr>pnWorld := (pnWorld p)\<lparr>wFaults := fs\<rparr>\<rparr>))"

section \<open>The repository\<close>

definition SettingsRepo_Get :: "string \<Rightarrow> string panel_act" where
  "SettingsRepo_Get key = settings_db (\<lambda>p.
     case map_of (pnSettings p) key of None \<Rightarrow> (Inl (SettingsStore ErrNotFound), p) | Some v \<Rightarrow> (Inr v, p))"

definition SettingsRepo_Set :: "string \<Rightarrow> string \<Rightarrow> unit panel_act" where
  "SettingsRepo_Set key v = settings_db (modifyE (\<lambda>p. p\<lparr>pnSettings := AList.update key v (pnSettings p)\<rparr>))"

definition SettingsRepo_All :: "(string \<times> string) list panel_act" where
  "SettingsRepo_All = settings_db (readE pnSettings)"

definition SettingsRepo_Delete :: "string \<Rightarrow> unit panel_act" where
  "SettingsRepo_Delete key = settings_db (modifyE (\<lambda>p. p\<lparr>pnSettings := filter (\<lambda>r. fst r \<noteq> key) (pnSettings p)\<rparr>))"

section \<open>The service\<close>

definition SettingAuditRetentionDays :: string where "SettingAuditRetentionDays = ''audit_retention_days''"
definition SettingBindMountWarning :: string where "SettingBindMountWarning = ''bind_mount_warning''"
definition MaxRetentionDays :: int where "MaxRetentionDays = 3650"
definition DefaultAuditRetentionDays :: int where "DefaultAuditRetentionDays = 0"

record editable = edAuditRetentionDays :: int edBindMountWarning :: bool

record installation =
  inConfigFile :: string
  inDockerHost :: string
  inAllowedPaths :: "string list"
  inDataDir :: string
  inTemplateDir :: string
  inListen :: string
  inTLSEnabled :: bool
  inAccessTTL :: int
  inRefreshTTL :: int

record settings_view = gvEditable :: editable gvInstallation :: installation

text \<open>\<open>strconv.ParseBool\<close> and \<open>strconv.FormatBool\<close>\<close>

definition ParseBool :: "string \<Rightarrow> bool option" where
  "ParseBool s =
     (if s \<in> set [''1'', ''t'', ''T'', ''true'', ''TRUE'', ''True''] then Some True
      else if s \<in> set [''0'', ''f'', ''F'', ''false'', ''FALSE'', ''False''] then Some False
      else None)"

definition FormatBool :: "bool \<Rightarrow> string" where
  "FormatBool b = (if b then ''true'' else ''false'')"

text \<open>The stored values; one that does not parse or is out of range counts as unset.\<close>

definition read_editable :: "(string \<times> string) list \<Rightarrow> editable" where
  "read_editable rows =
     \<lparr>edAuditRetentionDays =
        (case map_of rows SettingAuditRetentionDays of
           None \<Rightarrow> DefaultAuditRetentionDays
         | Some raw \<Rightarrow>
             (case atoi raw of
                None \<Rightarrow> DefaultAuditRetentionDays
              | Some days \<Rightarrow> if 0 \<le> days \<and> days \<le> MaxRetentionDays then days else DefaultAuditRetentionDays)),
      edBindMountWarning =
        (case map_of rows SettingBindMountWarning of
           None \<Rightarrow> True
         | Some raw \<Rightarrow> (case ParseBool raw of None \<Rightarrow> True | Some b \<Rightarrow> b))\<rparr>"

definition editable_settings :: "editable panel_act" where
  "editable_settings = bindE SettingsRepo_All (\<lambda>rows. returnE (read_editable rows))"

definition no_installation :: installation where
  "no_installation = \<lparr>inConfigFile = '''', inDockerHost = '''', inAllowedPaths = [], inDataDir = '''', inTemplateDir = '''', inListen = '''',
     inTLSEnabled = False, inAccessTTL = 0, inRefreshTTL = 0\<rparr>"

definition Settings_Get :: "installation option \<Rightarrow> settings_view panel_act" where
  "Settings_Get cfg =
     bindE editable_settings (\<lambda>e. returnE \<lparr>gvEditable = e, gvInstallation = (case cfg of None \<Rightarrow> no_installation | Some i \<Rightarrow> i)\<rparr>)"

record settings_update = upAuditRetentionDays :: "int option" upBindMountWarning :: "bool option"

definition Settings_Set :: "installation option \<Rightarrow> settings_update \<Rightarrow> actor \<Rightarrow> request_meta \<Rightarrow> settings_view panel_act" where
  "Settings_Set cfg u who meta =
     bindE (case upAuditRetentionDays u of
         None \<Rightarrow> returnE []
       | Some days \<Rightarrow>
           if days < 0 \<or> MaxRetentionDays < days then throwE ErrRetentionRange
           else thenE (SettingsRepo_Set SettingAuditRetentionDays (itoa days)) (returnE [(SettingAuditRetentionDays, a_int days)])) (\<lambda>days.
     bindE (case upBindMountWarning u of
         None \<Rightarrow> returnE []
       | Some b \<Rightarrow> thenE (SettingsRepo_Set SettingBindMountWarning (FormatBool b)) (returnE [(SettingBindMountWarning, a_bool b)])) (\<lambda>warn.
     thenE (if days @ warn = [] then returnE ()
            else on_panel (Record True \<lparr>evActor = who, evAction = ''settings.update'', evResourceType = ''settings'', evResourceID = '''',
              evErr = None, evDetail = Some (days @ warn), evIP = rmIP meta, evUserAgent = rmUserAgent meta\<rparr>))
     (Settings_Get cfg)))"

definition AuditRetention :: "duration panel_act" where
  "AuditRetention =
     bindE editable_settings (\<lambda>e.
     returnE (if edAuditRetentionDays e \<le> 0 then 0 else edAuditRetentionDays e * (24 * hour)))"

text \<open>What the hourly housekeeping does to the audit trail; its failures are logged only.\<close>

definition sweep_audit :: "unit panel_act" where
  "sweep_audit =
     attemptE AuditRetention (\<lambda>r. case r of
       Inl _ \<Rightarrow> returnE ()
     | Inr retention \<Rightarrow>
         if 0 < retention then
           bindE (on_panel now) (\<lambda>t. ignoreE (on_panel (Audit_DeleteBefore (t - retention))))
         else returnE ())"


section \<open>A retention is honoured\<close>

text \<open>The longest retention is far from the end of the range of a duration.\<close>

lemma retention_in_range: "0 \<le> days \<Longrightarrow> days \<le> MaxRetentionDays \<Longrightarrow> days * (24 * hour) \<le> 2 ^ 63 - 1"
  by (simp add: MaxRetentionDays_def)

lemma settings_db_quiet: "wFaults (pnWorld p) = [] \<Longrightarrow> settings_db m p = m p"
  by (simp add: settings_db_def)

lemma read_days:
  assumes "0 \<le> days" "days \<le> MaxRetentionDays"
  shows "edAuditRetentionDays (read_editable (AList.update SettingAuditRetentionDays (itoa days) rows)) = days"
    "edAuditRetentionDays (read_editable (AList.update SettingBindMountWarning b rows)) = edAuditRetentionDays (read_editable rows)"
proof -
  have "in_int64 days" using assms by (simp add: in_int64_def MaxRetentionDays_def)
  then have "atoi (itoa days) = Some days" by (rule atoi_itoa)
  then show "edAuditRetentionDays (read_editable (AList.update SettingAuditRetentionDays (itoa days) rows)) = days"
    "edAuditRetentionDays (read_editable (AList.update SettingBindMountWarning b rows)) = edAuditRetentionDays (read_editable rows)"
    using assms by (simp_all add: read_editable_def update_conv' SettingAuditRetentionDays_def SettingBindMountWarning_def)
qed

lemma Settings_Set_run:
  assumes "wFaults (pnWorld p) = []" "upAuditRetentionDays u = Some days" "0 \<le> days" "days \<le> MaxRetentionDays"
  shows "\<exists>view p'. Settings_Set cfg u who meta p = (Inr view, p') \<and> edAuditRetentionDays (gvEditable view) = days
    \<and> edAuditRetentionDays (read_editable (pnSettings p')) = days \<and> wFaults (pnWorld p') = []"
proof -
  let ?rows = "AList.update SettingAuditRetentionDays (itoa days) (pnSettings p)"
  let ?all = "case upBindMountWarning u of None \<Rightarrow> ?rows | Some b \<Rightarrow> AList.update SettingBindMountWarning (FormatBool b) ?rows"
  let ?det = "(SettingAuditRetentionDays, a_int days) # (case upBindMountWarning u of None \<Rightarrow> [] | Some b \<Rightarrow> [(SettingBindMountWarning, a_bool b)])"
  have "\<exists>w'. Record True ev (pnWorld p) = (Inr (), w') \<and> wFaults w' = []" for ev
    using assms(1) by (auto simp: Record_def prog_simps now_def Audit_Append_def Let_def db_def readE_def split: if_splits)
  then obtain w where w: "Record True \<lparr>evActor = who, evAction = ''settings.update'', evResourceType = ''settings'', evResourceID = '''',
      evErr = None, evDetail = Some ?det, evIP = rmIP meta, evUserAgent = rmUserAgent meta\<rparr> (pnWorld p) = (Inr (), w)" "wFaults w = []" by blast
  have "edAuditRetentionDays (read_editable ?all) = days" using assms(3,4) by (auto simp: read_days split: option.split)
  then show ?thesis
    using assms w
    by (cases "upBindMountWarning u")
      (simp_all add: Settings_Set_def Settings_Get_def editable_settings_def SettingsRepo_Set_def SettingsRepo_All_def settings_db_quiet on_panel_def prog_simps)
qed


definition demo_panel :: panel where
  "demo_panel = \<lparr>pnWorld = entropy_world [], pnSettings = []\<rparr>"


end
