(* ===== verification/Spec2Isabelle.thy ===== *)
theory Spec2Isabelle
  imports Api_Laws Tasks_Laws Audit_Service Browse Resources Offline_Engine Stack_Service Stack_Actions Catalog_Laws Settings
begin

text \<open>
  Verification of iskele, a panel that manages the Docker engine of one Linux host. The
  daemon \<open>iskeled\<close> keeps its own accounts, sessions, tokens and audit trail in SQLite, serves
  a JSON API behind a chain of middleware, and drives the engine. This development models
  the half of the daemon that decides who may do what, and what is remembered of it, and the
  half that acts on the host: containers, images, volumes and networks, registries and compose
  stacks.

  \<^bold>\<open>Parts and theories.\<close>

  \<^item> \<^verbatim>\<open>Prelude\<close>: instants and durations, state-and-error programs with a weakest-precondition
    and an invariant calculus, the contract \<open>machine\<close> of a step function with an invariant
    and the contract \<open>table\<close> of a keyed table. \<^verbatim>\<open>GoStrings\<close>, \<^verbatim>\<open>Runes\<close>, \<^verbatim>\<open>Codec\<close>, \<^verbatim>\<open>Digests\<close>,
    \<^verbatim>\<open>Floats\<close>, \<^verbatim>\<open>Text_Formats\<close>: what the code uses of Go's standard library (strings, strconv,
    utf8, base32, base64, hex, SHA-1, SHA-256, HMAC, float64 rounding, RFC 3339, encoding/json,
    encoding/csv), with round trips where the code relies on them.
  \<^item> \<^verbatim>\<open>Timestamps\<close>, \<^verbatim>\<open>Store\<close>, \<^verbatim>\<open>Store_Laws\<close>: internal/store (models.go, users.go, sessions.go,
    tokens.go, logins.go, audit.go, the time texts of db.go). A table is the list of its rows,
    a statement a program on the world; the world also holds clock, entropy and the faults of
    the driver, so that every theorem covers every pattern of failing statements.
  \<^item> \<^verbatim>\<open>Audit_Mask\<close>, \<^verbatim>\<open>Audit_Record\<close>, \<^verbatim>\<open>Audit_Service\<close>: internal/audit and service/audit.go, the
    masking of secrets, the recorder, pages and the export loop.
  \<^item> \<^verbatim>\<open>Limiter\<close>, \<^verbatim>\<open>Secrets\<close>, \<^verbatim>\<open>Passwords\<close>, \<^verbatim>\<open>Access\<close>, \<^verbatim>\<open>Tickets\<close>: internal/auth (bruteforce.go,
    token.go, totp.go, password.go, jwt.go, ticket.go) and internal/crypto/secretbox.go.
    \<^verbatim>\<open>Externals\<close> holds the third-party code they call (argon2, the JWT library, AES-GCM) as a
    record of functions with its documented behaviour as predicates and an instance of them.
  \<^item> \<^verbatim>\<open>Service_Auth\<close> (service/auth.go) with \<^verbatim>\<open>Service_Auth_Laws\<close> and \<^verbatim>\<open>Service_Auth_Sessions\<close>;
    \<^verbatim>\<open>Service_Users\<close> (service/users.go) with \<^verbatim>\<open>Service_Users_Laws\<close>.
  \<^item> \<^verbatim>\<open>Rate_Limit\<close>, \<^verbatim>\<open>Middleware\<close>, \<^verbatim>\<open>Api\<close>, \<^verbatim>\<open>Api_Laws\<close>: server/middleware, the identity handlers of
    server/handlers, and the routes of server/router.go that lead to them, as one state
    machine of requests.
  \<^item> \<^verbatim>\<open>Tasks\<close>, \<^verbatim>\<open>Tasks_Laws\<close>: service/tasks.go and the claim of service/stackup.go.
  \<^item> \<^verbatim>\<open>Paths\<close>, \<^verbatim>\<open>Browse\<close>: service/paths.go and service/browse.go over a file system with
    symbolic links.
  \<^item> \<^verbatim>\<open>Spec_Types\<close>, \<^verbatim>\<open>Spec\<close>, \<^verbatim>\<open>Spec_Json\<close>: docker/spec.go, the definition of a container, what the
    engine is asked for from it, and its JSON text, whose digest tells a changed service.
  \<^item> \<^verbatim>\<open>Engine\<close>: the client interface of internal/docker (client.go, types.go, errors.go) as a
    record of functions on a state that is left open. \<^verbatim>\<open>Engine_Contract\<close> states what the services
    rely on of it. \<^verbatim>\<open>Fake_Engine\<close>, \<^verbatim>\<open>Fake_Laws\<close> (docker/fake/fake.go) and \<^verbatim>\<open>Offline_Engine\<close>
    (docker/offline.go) are the two clients the repository itself implements.
  \<^item> \<^verbatim>\<open>Host\<close>: the state the services act in, world, further tables, engine and tasks. On it run
    \<^verbatim>\<open>Registries\<close> (store/registries.go, service/registry.go), \<^verbatim>\<open>Containers\<close> (service/container.go,
    the batch and the redeploy of service/stream.go), \<^verbatim>\<open>Resources\<close> (service/resources.go,
    resourceops.go) and \<^verbatim>\<open>Creator\<close> (service/create.go).
  \<^item> \<^verbatim>\<open>Compose\<close>: compose/convert.go, parse.go and warnings.go, from a parsed project to plans.
    \<^verbatim>\<open>Stacks\<close> and \<^verbatim>\<open>Stack_Service\<close>: store/stacks.go, service/stackup.go and service/stack.go.
    \<^verbatim>\<open>Stacks_Laws\<close>, \<^verbatim>\<open>Stack_Deploys\<close>, \<^verbatim>\<open>Stack_Outcomes\<close>, \<^verbatim>\<open>Stack_Actions\<close> hold what is shown of them.

  \<^bold>\<open>What is shown.\<close> Of the server: however requests are served one after the other and whatever
  statements fail, an installation with accounts keeps an enabled administrator, and a route
  that asks for a permission runs its handler only for an enabled account whose current role
  has it. Of credentials: login is sound, complete and uniform in what it reveals; refresh
  rotates; logout, disabling and a password reset end sessions; tickets are used once; the
  number of guesses and of requests is bounded. Of the trail: recording never fails a request
  and never stores a secret; an export ends and is complete. Of tasks: the registry refines
  an abstract life cycle. Of host paths: what is listed lies under an allowed root. Of
  containers: nothing is created that the whitelist or the privileged gate refuses, by the create
  service or by a stack; a redeploy ends with the replacement or with the original; a batch
  reports every container. Of stacks, on every engine that keeps the contract and may fail at any
  call: a deploy converges to what the file says and touches nothing of anyone else, a second one
  changes nothing, a refused one never reaches the engine, and taking down or acting on a stack
  reaches its own containers only and reports what it did. Several theorems show behaviour the
  code's comments deny: a stale completion that ends its successor, a missing path that leaves
  the whitelist, a mount type that is mounted but not checked, a redeploy by name that removes
  its own replacement.

  \<^bold>\<open>Interfaces.\<close> \<open>machine\<close> is interpreted by the ticket store, the rate limiter, the server
  and the task registry; \<open>table\<close> by the tables of the store; \<open>text_codec\<close> by
  the base32 and base64 encodings; \<open>engine_contract\<close> by the in-memory and the offline engine, and
  its extension \<open>forcing_engine\<close>, whose forced removals succeed, by the in-memory one. The properties
  rest on these interpretations; those of stacks are stated for every engine with the contract.

  \<^bold>\<open>Loops and bounds.\<close> Recursions are structural or have a measure. The export loop may run for
  ever while others write, so it is an option-valued partial function and its return is a
  theorem. Symbolic links are followed at most 255 times by EvalSymlinks and 40 times by the
  kernel, as in the real ones. Integers that the code keeps at 64 bits and that can reach their
  limits are bounded where it matters (durations saturate, parsed numbers are range-checked);
  counters that cannot are \<open>int\<close> or \<open>nat\<close>.

  \<^bold>\<open>Concurrency.\<close> An operation under a mutex is one step. Requests are served one at a time, so
  races between a check and the statement it guards are outside the model; the export loop is
  the exception and runs against any interference.

  \<^bold>\<open>Not modelled.\<close> Third-party code is a parameter: the Docker engine behind the SDK, the compose
  parser, the git program. Of internal/docker the calls of the SDK and the log, statistics, exec
  and event streams are left out; so are image builds (a stack takes the builder as a parameter),
  the differences of two compose files, settings, templates, configuration, and the handlers that
  forward to the services of the host. Left out for good: the web interface, the routing and JSON
  decoding libraries, logging, host statistics, systemd notification, static files and process
  start-up, which are input and output without logic of their own.
\<close>

end
